(* ===== verification/Prelude.thy ===== *)
theory Prelude
  imports Main "HOL-Library.AList"
begin

text \<open>
  Shared vocabulary of the development.

  \<^item> the error values of the Go services (\<^verbatim>\<open>libs/errors/errors.go\<close>), a failed database or
    cache command, and a Go panic, as one datatype;
  \<^item> instants and durations of Go's \<^verbatim>\<open>time\<close> package, as integers of nanoseconds;
  \<^item> 64-bit integers: a predicate for the range of Go's \<^verbatim>\<open>int64\<close> (and of a Postgres
    \<^verbatim>\<open>bigint\<close>) and Go's truncating division;
  \<^item> generic lemmas on lists, association lists and sums that several components use.

  Collections of facts: \<open>wp_rules\<close> (weakest-precondition rules of the fallible store),
  \<open>model_defs\<close> (definitions that proofs unfold freely).
\<close>

named_theorems wp_rules
named_theorems model_defs

section \<open>Errors\<close>

text \<open>The error codes of \<^verbatim>\<open>libs/errors\<close> that the modelled services use.\<close>

datatype error_code =
    CodeInternal | CodeNotFound | CodeAlreadyExists | CodeInvalidInput | CodeUnauthorized
  | CodeForbidden | CodeRateLimited | CodeUnavailable | CodeTimeout | CodeConflict
  | CodePrecondition | CodeUnprocessable | CodeExternalAPI | CodeVideoNotReady | CodeQuotaExceeded

text \<open>
  An error a Go function can hand back: an \<^verbatim>\<open>AppError\<close> with its code and message, a failed
  command of the database or of Redis (the cause is outside the model), GORM's
  \<^verbatim>\<open>ErrRecordNotFound\<close>, a panic (an index out of range), or one of the sentinel errors of the
  watch-together service (\<^verbatim>\<open>ErrNotFound\<close>, \<^verbatim>\<open>ErrNotHost\<close>, \<^verbatim>\<open>ErrInvalidInput\<close> with its text).
\<close>

datatype err =
    AppError error_code string
  | StoreFault
  | RecordNotFound
  | GoPanic
  | RoomNotFound
  | NotHost
  | InvalidRoom string

definition errInvalidInput :: "string \<Rightarrow> err" where
  "errInvalidInput message = AppError CodeInvalidInput message"

definition errNotFound :: "string \<Rightarrow> err" where
  "errNotFound resource = AppError CodeNotFound (resource @ '' not found'')"

section \<open>Time\<close>

text \<open>
  A Go \<^verbatim>\<open>time.Time\<close> is the number of nanoseconds since the zero time (1 January of year 1,
  UTC); a \<^verbatim>\<open>time.Duration\<close> is a number of nanoseconds.
\<close>

type_synonym instant = int
type_synonym duration = int

definition Nanosecond :: duration where "Nanosecond = 1"
definition Millisecond :: duration where "Millisecond = 1000000"
definition Second :: duration where "Second = 1000000000"
definition Minute :: duration where "Minute = 60 * Second"
definition Hour :: duration where "Hour = 60 * Minute"

lemmas duration_defs [model_defs] =
  Nanosecond_def Millisecond_def Second_def Minute_def Hour_def

definition TimeAfter :: "instant \<Rightarrow> instant \<Rightarrow> bool" where
  "TimeAfter t u \<longleftrightarrow> u < t"

definition TimeBefore :: "instant \<Rightarrow> instant \<Rightarrow> bool" where
  "TimeBefore t u \<longleftrightarrow> t < u"

section \<open>Integers\<close>

definition fits64 :: "int \<Rightarrow> bool" where
  "fits64 x \<longleftrightarrow> - (2 ^ 63) \<le> x \<and> x < 2 ^ 63"

text \<open>Go's integer division truncates towards zero.\<close>

definition go_quot :: "int \<Rightarrow> int \<Rightarrow> int" where
  "go_quot a b = sgn a * sgn b * (\<bar>a\<bar> div \<bar>b\<bar>)"

lemma go_quot_nonneg [simp]: "0 \<le> a \<Longrightarrow> 0 < b \<Longrightarrow> go_quot a b = a div b"
  by (cases "a = 0") (auto simp: go_quot_def sgn_if)

section \<open>Lists\<close>

lemma sum_list_filter_append:
  "sum_list (map f (filter P (xs @ ys))) =
     sum_list (map f (filter P xs)) + (sum_list (map f (filter P ys)) :: int)"
  by simp

lemma sum_list_nonneg_int: "(\<And>x. x \<in> set xs \<Longrightarrow> (0::int) \<le> x) \<Longrightarrow> 0 \<le> sum_list xs"
  by (induction xs) auto

lemma find_Some_iff_ex: "(\<exists>x. find P xs = Some x) \<longleftrightarrow> (\<exists>x\<in>set xs. P x)"
  by (induction xs) auto

lemma find_SomeD: "find P xs = Some x \<Longrightarrow> x \<in> set xs \<and> P x"
  by (induction xs) (auto split: if_splits)

lemma find_NoneD: "find P xs = None \<Longrightarrow> x \<in> set xs \<Longrightarrow> \<not> P x"
  by (induction xs) (auto split: if_splits)

end
