(* ===== verification/Fallible_Store.thy ===== *)
theory Fallible_Store
  imports Prelude
begin

text \<open>
  Programs over a shared store (a Postgres database or a Redis instance) whose every command can
  fail. The state carries the data and a script of faults: each command takes the next entry of
  the script, and fails without touching the data when it is \<open>True\<close>; an exhausted script means
  that all further commands succeed. A theorem over all scripts therefore covers a failure at
  every command, alone or combined.

  A GORM transaction (\<open>transaction\<close>) restores the data when its body returns an error or panics,
  and its \<^verbatim>\<open>BEGIN\<close> and \<^verbatim>\<open>COMMIT\<close> are commands that can fail as well.

  \<open>wp m Q E d\<close> is the weakest precondition for all fault scripts: started on data \<open>d\<close>, a
  successful run of \<open>m\<close> ends in \<open>Q\<close>, a failing one in \<open>E\<close>. \<open>twp m Q d\<close> is total correctness of the
  run without faults: \<open>m\<close> succeeds, and ends in \<open>Q\<close>.
\<close>

section \<open>Programs\<close>

record 'd store =
  data :: 'd
  faults :: "bool list"

type_synonym ('d, 'a) prog = "'d store \<Rightarrow> (err + 'a) \<times> 'd store"

definition ret :: "'a \<Rightarrow> ('d, 'a) prog" where
  "ret a = (\<lambda>s. (Inr a, s))"

definition fail :: "err \<Rightarrow> ('d, 'a) prog" where
  "fail e = (\<lambda>s. (Inl e, s))"

definition bnd :: "('d, 'a) prog \<Rightarrow> ('a \<Rightarrow> ('d, 'b) prog) \<Rightarrow> ('d, 'b) prog" where
  "bnd m f = (\<lambda>s. case m s of (Inl e, s') \<Rightarrow> (Inl e, s') | (Inr a, s') \<Rightarrow> f a s')"

text \<open>A caller that inspects the error itself instead of propagating it.\<close>

definition attempt :: "('d, 'a) prog \<Rightarrow> (err + 'a \<Rightarrow> ('d, 'b) prog) \<Rightarrow> ('d, 'b) prog" where
  "attempt m f = (\<lambda>s. case m s of (r, s') \<Rightarrow> f r s')"

text \<open>One command: a function on the data that either yields a value or an error.\<close>

definition command :: "('d \<Rightarrow> (err + 'a) \<times> 'd) \<Rightarrow> ('d, 'a) prog" where
  "command q = (\<lambda>s.
     case faults s of
       True # fs \<Rightarrow> (Inl StoreFault, s\<lparr>faults := fs\<rparr>)
     | fs \<Rightarrow> (case q (data s) of
          (Inl e, d) \<Rightarrow> (Inl e, s\<lparr>faults := tl fs\<rparr>)
        | (Inr a, d) \<Rightarrow> (Inr a, s\<lparr>data := d, faults := tl fs\<rparr>)))"

definition query :: "('d \<Rightarrow> 'a) \<Rightarrow> ('d, 'a) prog" where
  "query q = command (\<lambda>d. (Inr (q d), d))"

definition touch :: "('d, unit) prog" where
  "touch = command (\<lambda>d. (Inr (), d))"

text \<open>A step in memory, which takes no command and cannot fail.\<close>

definition memory :: "('d \<Rightarrow> 'a \<times> 'd) \<Rightarrow> ('d, 'a) prog" where
  "memory f = (\<lambda>s. case f (data s) of (a, d) \<Rightarrow> (Inr a, s\<lparr>data := d\<rparr>))"

text \<open>\<^verbatim>\<open>apperrors.Wrap\<close>: any error becomes the given one.\<close>

definition wrap :: "('d, 'a) prog \<Rightarrow> err \<Rightarrow> ('d, 'a) prog" where
  "wrap m e = attempt m (\<lambda>r. case r of Inl _ \<Rightarrow> fail e | Inr a \<Rightarrow> ret a)"

text \<open>A caller that logs an error and returns.\<close>

definition logged :: "('d, 'a) prog \<Rightarrow> ('d, unit) prog" where
  "logged m = attempt m (\<lambda>_. ret ())"

definition transaction :: "('d, 'a) prog \<Rightarrow> ('d, 'a) prog" where
  "transaction m = (\<lambda>s0.
     case touch s0 of
       (Inl e, s) \<Rightarrow> (Inl e, s)
     | (Inr _, s) \<Rightarrow>
        (case m s of
           (Inl e, s') \<Rightarrow> (Inl e, s'\<lparr>data := data s0\<rparr>)
         | (Inr a, s') \<Rightarrow>
            (case touch s' of
               (Inl e, s'') \<Rightarrow> (Inl e, s''\<lparr>data := data s0\<rparr>)
             | (Inr _, s'') \<Rightarrow> (Inr a, s''))))"

text \<open>A Go \<^verbatim>\<open>for ... range\<close> loop whose body threads an accumulator and may return an error.\<close>

fun loop :: "('b \<Rightarrow> 'a \<Rightarrow> ('d, 'b) prog) \<Rightarrow> 'b \<Rightarrow> 'a list \<Rightarrow> ('d, 'b) prog" where
  "loop body acc [] = ret acc"
| "loop body acc (x # xs) = bnd (body acc x) (\<lambda>acc'. loop body acc' xs)"

section \<open>Weakest preconditions\<close>

definition ends :: "('a \<Rightarrow> 'd \<Rightarrow> bool) \<Rightarrow> (err \<Rightarrow> 'd \<Rightarrow> bool) \<Rightarrow> (err + 'a) \<times> 'd store \<Rightarrow> bool" where
  "ends Q E rs \<longleftrightarrow> (case fst rs of Inl e \<Rightarrow> E e (data (snd rs)) | Inr a \<Rightarrow> Q a (data (snd rs)))"

definition wp :: "('d, 'a) prog \<Rightarrow> ('a \<Rightarrow> 'd \<Rightarrow> bool) \<Rightarrow> (err \<Rightarrow> 'd \<Rightarrow> bool) \<Rightarrow> 'd \<Rightarrow> bool" where
  wp_iff: "wp m Q E d \<longleftrightarrow> (\<forall>s. data s = d \<longrightarrow> ends Q E (m s))"

lemma ends_simps [simp]:
  "ends Q E (Inl e, s) \<longleftrightarrow> E e (data s)"
  "ends Q E (Inr a, s) \<longleftrightarrow> Q a (data s)"
  by (simp_all add: ends_def)

lemma wpD: "wp m Q E (data s) \<Longrightarrow> ends Q E (m s)"
  by (simp add: wp_iff)

lemma ends_mono:
  assumes "ends Q E rs" and "\<And>a d. Q a d \<Longrightarrow> Q' a d" and "\<And>e d. E e d \<Longrightarrow> E' e d"
  shows "ends Q' E' rs"
  using assms by (cases "fst rs") (auto simp: ends_def)

lemma wp_mono:
  assumes "wp m Q E d" and "\<And>a d'. Q a d' \<Longrightarrow> Q' a d'" and "\<And>e d'. E e d' \<Longrightarrow> E' e d'"
  shows "wp m Q' E' d"
  unfolding wp_iff
proof (intro allI impI)
  fix s :: "'a store"
  assume "data s = d"
  with assms(1) have "ends Q E (m s)" by (simp add: wp_iff)
  then show "ends Q' E' (m s)" by (rule ends_mono) (use assms in auto)
qed

lemma wp_conj:
  assumes "wp m Q E d" and "wp m Q' E' d"
  shows "wp m (\<lambda>a d. Q a d \<and> Q' a d) (\<lambda>e d. E e d \<and> E' e d) d"
  unfolding wp_iff
proof (intro allI impI)
  fix s :: "'a store"
  assume "data s = d"
  with assms have "ends Q E (m s)" "ends Q' E' (m s)" by (simp_all add: wp_iff)
  then show "ends (\<lambda>a d. Q a d \<and> Q' a d) (\<lambda>e d. E e d \<and> E' e d) (m s)"
    by (cases "fst (m s)") (simp_all add: ends_def)
qed

lemma wp_ret [wp_rules]: "Q a d \<Longrightarrow> wp (ret a) Q E d"
  by (simp add: wp_iff ret_def)

lemma wp_fail [wp_rules]: "E e d \<Longrightarrow> wp (fail e) Q E d"
  by (simp add: wp_iff fail_def)

lemma wp_if [wp_rules]:
  "(c \<Longrightarrow> wp m Q E d) \<Longrightarrow> (\<not> c \<Longrightarrow> wp m' Q E d) \<Longrightarrow> wp (if c then m else m') Q E d"
  by simp

lemma wp_option [wp_rules]:
  "(x = None \<Longrightarrow> wp m Q E d) \<Longrightarrow> (\<And>a. x = Some a \<Longrightarrow> wp (f a) Q E d) \<Longrightarrow>
   wp (case x of None \<Rightarrow> m | Some a \<Rightarrow> f a) Q E d"
  by (cases x) simp_all

lemma wp_prod [wp_rules]:
  "(\<And>a b. x = (a, b) \<Longrightarrow> wp (f a b) Q E d) \<Longrightarrow> wp (case x of (a, b) \<Rightarrow> f a b) Q E d"
  by (cases x) simp

lemma wp_bnd [wp_rules]:
  assumes "wp m (\<lambda>a d'. wp (f a) Q E d') E d"
  shows "wp (bnd m f) Q E d"
  unfolding wp_iff
proof (intro allI impI)
  fix s :: "'a store"
  assume "data s = d"
  with assms have mid: "ends (\<lambda>a d'. wp (f a) Q E d') E (m s)" by (simp add: wp_iff)
  show "ends Q E (bnd m f s)"
  proof (cases "m s")
    case (Pair r s')
    with mid show ?thesis by (cases r) (simp_all add: bnd_def wpD)
  qed
qed

lemma wp_attempt [wp_rules]:
  assumes "wp m (\<lambda>a. wp (f (Inr a)) Q E) (\<lambda>e. wp (f (Inl e)) Q E) d"
  shows "wp (attempt m f) Q E d"
  unfolding wp_iff
proof (intro allI impI)
  fix s :: "'a store"
  assume "data s = d"
  with assms have mid: "ends (\<lambda>a. wp (f (Inr a)) Q E) (\<lambda>e. wp (f (Inl e)) Q E) (m s)"
    by (simp add: wp_iff)
  show "ends Q E (attempt m f s)"
  proof (cases "m s")
    case (Pair r s')
    with mid show ?thesis by (cases r) (simp_all add: attempt_def wpD)
  qed
qed

text \<open>A command either fails with a fault, or does what its function says.\<close>

lemma command_cases:
  obtains (fault) s' where "command q s = (Inl StoreFault, s')" and "data s' = data s"
  | (error) e d s' where "q (data s) = (Inl e, d)" and "command q s = (Inl e, s')"
      and "data s' = data s"
  | (ok) a d s' where "q (data s) = (Inr a, d)" and "command q s = (Inr a, s')" and "data s' = d"
proof (cases "faults s \<noteq> [] \<and> hd (faults s)")
  case True
  then obtain fs where "faults s = True # fs" by (cases "faults s") auto
  then show thesis using fault by (simp add: command_def)
next
  case False
  obtain r d where q: "q (data s) = (r, d)" by force
  have c: "command q s = (case q (data s) of
          (Inl e, d) \<Rightarrow> (Inl e, s\<lparr>faults := tl (faults s)\<rparr>)
        | (Inr a, d) \<Rightarrow> (Inr a, s\<lparr>data := d, faults := tl (faults s)\<rparr>))"
    using False by (cases "faults s") (auto simp: command_def split: sum.split prod.split)
  show thesis
  proof (cases r)
    case (Inl e)
    then show ?thesis using error q c by simp
  next
    case (Inr a)
    then show ?thesis using ok q c by simp
  qed
qed

lemma wp_command [wp_rules]:
  assumes "E StoreFault d"
    and "\<And>e d'. q d = (Inl e, d') \<Longrightarrow> E e d"
    and "\<And>a d'. q d = (Inr a, d') \<Longrightarrow> Q a d'"
  shows "wp (command q) Q E d"
  unfolding wp_iff
proof (intro allI impI)
  fix s :: "'a store"
  assume "data s = d"
  then show "ends Q E (command q s)"
    using assms by (cases q s rule: command_cases) auto
qed

lemma wp_query [wp_rules]: "E StoreFault d \<Longrightarrow> Q (q d) d \<Longrightarrow> wp (query q) Q E d"
  by (auto simp: query_def intro!: wp_command)

lemma touch_cases:
  obtains (fault) s' where "touch s = (Inl StoreFault, s')" and "data s' = data s"
  | (ok) a s' where "touch s = (Inr a, s')" and "data s' = data s"
  unfolding touch_def
  by (rule command_cases [of "\<lambda>d. (Inr (), d)" s]) auto

lemma wp_memory [wp_rules]:
  "Q (fst (f d)) (snd (f d)) \<Longrightarrow> wp (memory f) Q E d"
  by (auto simp: wp_iff memory_def split: prod.split)

lemma wp_sum [wp_rules]:
  "(\<And>e. r = Inl e \<Longrightarrow> wp (f e) Q E d) \<Longrightarrow> (\<And>a. r = Inr a \<Longrightarrow> wp (g a) Q E d) \<Longrightarrow>
   wp (case r of Inl e \<Rightarrow> f e | Inr a \<Rightarrow> g a) Q E d"
  by (cases r) simp_all

lemma wp_wrap [wp_rules]: "wp m Q (\<lambda>_. E e) d \<Longrightarrow> wp (wrap m e) Q E d"
  unfolding wrap_def by (rule wp_attempt, erule wp_mono) (simp_all add: wp_ret wp_fail)

lemma wp_logged [wp_rules]: "wp m (\<lambda>_. Q ()) (\<lambda>_. Q ()) d \<Longrightarrow> wp (logged m) Q E d"
  unfolding logged_def by (rule wp_attempt, erule wp_mono) (simp_all add: wp_ret)

text \<open>Whatever the body does, a failed transaction leaves the data as it found it.\<close>

lemma wp_transaction [wp_rules]:
  assumes E: "\<And>e. E e d" and m: "wp m Q (\<lambda>_ _. True) d"
  shows "wp (transaction m) Q E d"
  unfolding wp_iff
proof (intro allI impI)
  fix s0 :: "'a store"
  assume d: "data s0 = d"
  show "ends Q E (transaction m s0)"
  proof (cases s0 rule: touch_cases)
    case (ok a s)
    obtain r s' where ms: "m s = (r, s')" by force
    have "ends Q (\<lambda>_ _. True) (m s)" using m ok d by (simp add: wp_iff)
    with ms ok d E show ?thesis
      by (cases r; cases s' rule: touch_cases) (auto simp: transaction_def)
  qed (use d E in \<open>auto simp: transaction_def\<close>)
qed

lemma wp_transaction_errors:
  assumes "E StoreFault d" and m: "wp m Q (\<lambda>e _. E e d) d"
  shows "wp (transaction m) Q E d"
  unfolding wp_iff
proof (intro allI impI)
  fix s0 :: "'a store"
  assume d: "data s0 = d"
  show "ends Q E (transaction m s0)"
  proof (cases s0 rule: touch_cases)
    case (ok a s)
    obtain r s' where ms: "m s = (r, s')" by force
    have "ends Q (\<lambda>e _. E e d) (m s)" using m ok d by (simp add: wp_iff)
    with ms ok d assms(1) show ?thesis
      by (cases r; cases s' rule: touch_cases) (auto simp: transaction_def)
  qed (use d assms(1) in \<open>auto simp: transaction_def\<close>)
qed

lemma wp_loop:
  assumes "\<And>acc x d. x \<in> set xs \<Longrightarrow> I acc d \<Longrightarrow> wp (body acc x) I E d"
    and "I acc d"
  shows "wp (loop body acc xs) I E d"
  using assms
proof (induction xs arbitrary: acc d)
  case Nil
  then show ?case by (auto intro: wp_ret)
next
  case (Cons x xs)
  have "wp (body acc x) I E d" using Cons.prems by simp
  then have "wp (body acc x) (\<lambda>acc'. wp (loop body acc' xs) I E) E d"
    by (rule wp_mono) (use Cons in auto)
  then show ?case by (auto intro: wp_bnd)
qed

text \<open>Whatever a program does, it ends in some way; a step whose effect is irrelevant.\<close>

lemma wp_any: "wp m (\<lambda>_ _. True) (\<lambda>_ _. True) d"
  by (auto simp: wp_iff ends_def split: sum.split)

lemma wp_any_bnd: "(\<And>a d. wp (f a) Q (\<lambda>_ _. True) d) \<Longrightarrow> wp (bnd m f) Q (\<lambda>_ _. True) d"
  by (rule wp_bnd, rule wp_mono [OF wp_any])

lemma wp_any_attempt: "(\<And>r d. wp (f r) Q (\<lambda>_ _. True) d) \<Longrightarrow> wp (attempt m f) Q (\<lambda>_ _. True) d"
  by (rule wp_attempt, rule wp_mono [OF wp_any])

section \<open>Runs without faults\<close>

definition clean :: "'d \<Rightarrow> 'd store" where
  "clean d = \<lparr>data = d, faults = []\<rparr>"

definition twp :: "('d, 'a) prog \<Rightarrow> ('a \<Rightarrow> 'd \<Rightarrow> bool) \<Rightarrow> 'd \<Rightarrow> bool" where
  "twp m Q d \<longleftrightarrow> (\<exists>a d'. m (clean d) = (Inr a, clean d') \<and> Q a d')"

lemma twpI: "m (clean d) = (Inr a, clean d') \<Longrightarrow> Q a d' \<Longrightarrow> twp m Q d"
  unfolding twp_def by (intro exI conjI)

lemma clean_eq [simp]: "clean d = clean d' \<longleftrightarrow> d = d'"
  by (simp add: clean_def)

lemma twp_ret [wp_rules]: "Q a d \<Longrightarrow> twp (ret a) Q d"
  by (simp add: twp_def ret_def)

lemma twp_if [wp_rules]:
  "(c \<Longrightarrow> twp m Q d) \<Longrightarrow> (\<not> c \<Longrightarrow> twp m' Q d) \<Longrightarrow> twp (if c then m else m') Q d"
  by simp

lemma twp_bnd [wp_rules]: "twp m (\<lambda>a d'. twp (f a) Q d') d \<Longrightarrow> twp (bnd m f) Q d"
  by (auto simp: twp_def bnd_def)

lemma twp_attempt [wp_rules]: "twp m (\<lambda>a. twp (f (Inr a)) Q) d \<Longrightarrow> twp (attempt m f) Q d"
  by (auto simp: twp_def attempt_def)

lemma command_clean: "q d = (Inr a, d') \<Longrightarrow> command q (clean d) = (Inr a, clean d')"
  by (simp add: command_def clean_def)

lemma twp_command [wp_rules]: "q d = (Inr a, d') \<Longrightarrow> Q a d' \<Longrightarrow> twp (command q) Q d"
  by (auto simp: twp_def command_clean)

lemma twp_query [wp_rules]: "Q (q d) d \<Longrightarrow> twp (query q) Q d"
  by (auto simp: query_def intro: twp_command)

lemma twp_memory [wp_rules]: "Q (fst (f d)) (snd (f d)) \<Longrightarrow> twp (memory f) Q d"
  by (auto simp: twp_def memory_def clean_def split: prod.split)

lemma twp_option [wp_rules]:
  "(x = None \<Longrightarrow> twp m Q d) \<Longrightarrow> (\<And>a. x = Some a \<Longrightarrow> twp (f a) Q d) \<Longrightarrow>
   twp (case x of None \<Rightarrow> m | Some a \<Rightarrow> f a) Q d"
  by (cases x) simp_all

lemma twp_wrap [wp_rules]: "twp m Q d \<Longrightarrow> twp (wrap m e) Q d"
  unfolding wrap_def by (rule twp_attempt) (auto simp: twp_def ret_def)

lemma twp_logged [wp_rules]: "twp m (\<lambda>_. Q ()) d \<Longrightarrow> twp (logged m) Q d"
  unfolding logged_def by (rule twp_attempt) (auto simp: twp_def ret_def)

lemma twp_transaction [wp_rules]: "twp m Q d \<Longrightarrow> twp (transaction m) Q d"
  by (auto simp: twp_def transaction_def touch_def command_clean)

lemma twp_mono: "twp m Q d \<Longrightarrow> (\<And>a d'. Q a d' \<Longrightarrow> Q' a d') \<Longrightarrow> twp m Q' d"
  by (auto simp: twp_def)

text \<open>A run that is known to succeed ends in what the partial specification says.\<close>

lemma twp_from_wp:
  assumes "wp m Q E d" and "twp m (\<lambda>_ _. True) d"
  shows "twp m Q d"
proof -
  obtain a d' where run: "m (clean d) = (Inr a, clean d')" using assms(2) by (auto simp: twp_def)
  have "ends Q E (m (clean d))" using assms(1) by (simp add: wp_iff clean_def)
  then have "Q a d'" by (simp add: run) (simp add: clean_def)
  with run show ?thesis by (rule twpI)
qed

lemma twp_sum [wp_rules]:
  "(\<And>e. r = Inl e \<Longrightarrow> twp (f e) Q d) \<Longrightarrow> (\<And>a. r = Inr a \<Longrightarrow> twp (g a) Q d) \<Longrightarrow>
   twp (case r of Inl e \<Rightarrow> f e | Inr a \<Rightarrow> g a) Q d"
  by (cases r) simp_all

lemma twp_prod [wp_rules]:
  "(\<And>a b. x = (a, b) \<Longrightarrow> twp (f a b) Q d) \<Longrightarrow> twp (case x of (a, b) \<Rightarrow> f a b) Q d"
  by (cases x) simp

end
