(* ===== verification/Gacha_Data.thy ===== *)
theory Gacha_Data
  imports Fallible_Store
begin

text \<open>
  The gacha service's persisted model (\<^verbatim>\<open>services/gacha/internal/domain\<close>), its economy
  configuration with the boot-time validation (\<^verbatim>\<open>internal/config\<close>), and the database it lives
  in: the tables as fields of \<open>gacha_db\<close>, one SQL statement of the repositories as one function
  on it. Timestamps that no operation reads back (\<^verbatim>\<open>created_at\<close> of the ledger, \<^verbatim>\<open>updated_at\<close>) are
  left out. The order of an unordered \<^verbatim>\<open>SELECT\<close> is the order of the table's rows.
\<close>

section \<open>Rarities, cards, banners\<close>

type_synonym rarity = string

definition RarityN :: rarity where "RarityN = ''N''"
definition RarityR :: rarity where "RarityR = ''R''"
definition RaritySR :: rarity where "RaritySR = ''SR''"
definition RaritySSR :: rarity where "RaritySSR = ''SSR''"

lemmas rarity_defs [model_defs] = RarityN_def RarityR_def RaritySR_def RaritySSR_def

lemma rarity_distinct [simp]:
  "RarityN \<noteq> RarityR" "RarityN \<noteq> RaritySR" "RarityN \<noteq> RaritySSR"
  "RarityR \<noteq> RarityN" "RarityR \<noteq> RaritySR" "RarityR \<noteq> RaritySSR"
  "RaritySR \<noteq> RarityN" "RaritySR \<noteq> RarityR" "RaritySR \<noteq> RaritySSR"
  "RaritySSR \<noteq> RarityN" "RaritySSR \<noteq> RarityR" "RaritySSR \<noteq> RaritySR"
  by (simp_all add: rarity_defs)

lemma rarity_nonempty [simp]:
  "RarityN \<noteq> []" "RarityR \<noteq> []" "RaritySR \<noteq> []" "RaritySSR \<noteq> []"
  by (simp_all add: rarity_defs)

definition ValidRarity :: "rarity \<Rightarrow> bool" where
  "ValidRarity r \<longleftrightarrow> r = RarityN \<or> r = RarityR \<or> r = RaritySR \<or> r = RaritySSR"

record card =
  cardID :: string
  cardName :: string
  cardSourceTitle :: string
  cardImagePath :: string
  cardBackPath :: string
  cardRarity :: rarity
  cardEnabled :: bool
  cardCreatedAt :: instant
  cardDeletedAt :: "instant option"

record banner =
  bannerID :: string
  bannerName :: string
  bannerDescription :: string
  bannerBackdropPath :: string
  bannerIsStandard :: bool
  bannerEnabled :: bool
  bannerActiveFrom :: "instant option"
  bannerActiveTo :: "instant option"
  bannerSortOrder :: int
  bannerCreatedAt :: instant
  bannerDeletedAt :: "instant option"

text \<open>A named collection of cards, an aid of the administrators.\<close>

record card_group =
  groupID :: string
  groupName :: string
  groupCreatedAt :: instant

section \<open>Wallets, ledger, collection\<close>

definition ReasonStarter :: string where "ReasonStarter = ''starter''"
definition ReasonEpisodeWatched :: string where "ReasonEpisodeWatched = ''episode_watched''"
definition ReasonDaily :: string where "ReasonDaily = ''daily''"
definition ReasonTitleCompleted :: string where "ReasonTitleCompleted = ''title_completed''"
definition ReasonPullX1 :: string where "ReasonPullX1 = ''pull_x1''"
definition ReasonPullX10 :: string where "ReasonPullX10 = ''pull_x10''"

lemmas reason_defs [model_defs] =
  ReasonStarter_def ReasonEpisodeWatched_def ReasonDaily_def ReasonTitleCompleted_def
  ReasonPullX1_def ReasonPullX10_def

record wallet =
  Balance :: int
  StarterGranted :: bool
  DailyStreak :: int
  LastDailyAt :: "instant option"

record ledger_entry =
  entryUser :: string
  Delta :: int
  Reason :: string
  Ref :: string

record collection_entry =
  Count :: int
  FirstObtainedAt :: instant

section \<open>Economy configuration\<close>

record economy_config =
  StarterBonus :: int
  DailyBase :: int
  DailyStreakStep :: int
  DailyStreakCap :: int
  PullCostX1 :: int
  PullCostX10 :: int
  PityThreshold :: int
  WeightN :: int
  WeightR :: int
  WeightSR :: int
  WeightSSR :: int

text \<open>\<^verbatim>\<open>Config.Validate\<close>: \<open>None\<close> is Go's nil error, \<open>Some\<close> the error's subject.\<close>

definition Validate :: "economy_config \<Rightarrow> string option" where
  "Validate e =
     (if PityThreshold e \<le> 0 then Some ''GACHA_PITY_THRESHOLD''
      else if PullCostX1 e < 0 \<or> PullCostX10 e < 0 then Some ''GACHA_PULL_COST_X1/X10''
      else if DailyStreakStep e \<le> 0 then Some ''GACHA_DAILY_STREAK_STEP''
      else if StarterBonus e < 0 \<or> DailyBase e < 0 then Some ''GACHA_STARTER_BONUS''
      else if list_ex (\<lambda>w. w < 0) [WeightN e, WeightR e, WeightSR e, WeightSSR e]
        then Some ''gacha tier weights''
      else if sum_list [WeightN e, WeightR e, WeightSR e, WeightSSR e] = 0
        then Some ''all weights are 0''
      else None)"

definition econWeights :: "economy_config \<Rightarrow> rarity \<Rightarrow> int" where
  "econWeights e r =
     (if r = RarityN then WeightN e else if r = RarityR then WeightR e
      else if r = RaritySR then WeightSR e else if r = RaritySSR then WeightSSR e else 0)"

section \<open>The database\<close>

record gacha_db =
  gacha_wallets :: "string \<rightharpoonup> wallet"
  gacha_ledger :: "ledger_entry list"
  gacha_pity :: "string \<times> string \<rightharpoonup> int"
  gacha_collection :: "((string \<times> string) \<times> collection_entry) list"
  gacha_cards :: "card list"
  gacha_banners :: "banner list"
  gacha_banner_cards :: "(string \<times> string) list"
  gacha_groups :: "card_group list"
  gacha_card_groups :: "(string \<times> string) list"

type_synonym 'a gacha = "(gacha_db, 'a) prog"

text \<open>
  The partial unique index \<^verbatim>\<open>idx_gacha_ledger_dedup\<close> on \<open>(user_id, reason, ref) WHERE ref <> ''\<close>,
  created at boot.
\<close>

definition ledgerConflict :: "ledger_entry \<Rightarrow> ledger_entry list \<Rightarrow> bool" where
  "ledgerConflict e l \<longleftrightarrow> Ref e \<noteq> [] \<and>
     list_ex (\<lambda>x. entryUser x = entryUser e \<and> Reason x = Reason e \<and> Ref x = Ref e) l"

text \<open>\<^verbatim>\<open>INSERT ... ON CONFLICT DO NOTHING\<close> into the ledger; the value is \<^verbatim>\<open>RowsAffected\<close>.\<close>

definition insertLedgerIgnore :: "ledger_entry \<Rightarrow> gacha_db \<Rightarrow> (err + nat) \<times> gacha_db" where
  "insertLedgerIgnore e d =
     (if ledgerConflict e (gacha_ledger d) then (Inr 0, d)
      else (Inr 1, d\<lparr>gacha_ledger := gacha_ledger d @ [e]\<rparr>))"

text \<open>A plain \<^verbatim>\<open>INSERT\<close> into the ledger: a duplicate violates the index.\<close>

definition insertLedger :: "ledger_entry \<Rightarrow> gacha_db \<Rightarrow> (err + unit) \<times> gacha_db" where
  "insertLedger e d =
     (if ledgerConflict e (gacha_ledger d) then (Inl StoreFault, d)
      else (Inr (), d\<lparr>gacha_ledger := gacha_ledger d @ [e]\<rparr>))"

definition insertWalletIgnore :: "string \<Rightarrow> gacha_db \<Rightarrow> (err + unit) \<times> gacha_db" where
  "insertWalletIgnore u d =
     (case gacha_wallets d u of
        Some w \<Rightarrow> (Inr (), d)
      | None \<Rightarrow> (Inr (), d\<lparr>gacha_wallets := (gacha_wallets d)(u \<mapsto>
          \<lparr>Balance = 0, StarterGranted = False, DailyStreak = 0, LastDailyAt = None\<rparr>)\<rparr>))"

definition firstWallet :: "string \<Rightarrow> gacha_db \<Rightarrow> (err + wallet) \<times> gacha_db" where
  "firstWallet u d =
     (case gacha_wallets d u of None \<Rightarrow> (Inl RecordNotFound, d) | Some w \<Rightarrow> (Inr w, d))"

text \<open>
  \<^verbatim>\<open>UPDATE gacha_wallets ... WHERE user_id = u AND p\<close>: the rows affected. A balance that leaves the
  range of \<^verbatim>\<open>bigint\<close> fails the statement.
\<close>

definition updateWallet ::
  "string \<Rightarrow> (wallet \<Rightarrow> bool) \<Rightarrow> (wallet \<Rightarrow> wallet) \<Rightarrow> gacha_db \<Rightarrow> (err + nat) \<times> gacha_db" where
  "updateWallet u p f d =
     (case gacha_wallets d u of
        None \<Rightarrow> (Inr 0, d)
      | Some w \<Rightarrow>
          if \<not> p w then (Inr 0, d)
          else if fits64 (Balance (f w))
            then (Inr 1, d\<lparr>gacha_wallets := (gacha_wallets d)(u \<mapsto> f w)\<rparr>)
          else (Inl StoreFault, d))"

definition addBalance :: "int \<Rightarrow> wallet \<Rightarrow> wallet" where
  "addBalance delta w = w\<lparr>Balance := Balance w + delta\<rparr>"

section \<open>Books\<close>

text \<open>
  The ledger is meant to be the source of truth of every balance: \<open>books_balance\<close> says that the
  denormalized balance of each wallet is the sum of its user's ledger entries, and that a user
  with entries has a wallet.
\<close>

definition ledger_sum :: "gacha_db \<Rightarrow> string \<Rightarrow> int" where
  "ledger_sum d u = sum_list (map Delta (filter (\<lambda>e. entryUser e = u) (gacha_ledger d)))"

definition balance_of :: "gacha_db \<Rightarrow> string \<Rightarrow> int" where
  "balance_of d u = (case gacha_wallets d u of None \<Rightarrow> 0 | Some w \<Rightarrow> Balance w)"

definition books_balance :: "gacha_db \<Rightarrow> bool" where
  "books_balance d \<longleftrightarrow> (\<forall>u. balance_of d u = ledger_sum d u)"

definition never_overdrawn :: "gacha_db \<Rightarrow> bool" where
  "never_overdrawn d \<longleftrightarrow> (\<forall>u. 0 \<le> balance_of d u)"

text \<open>No user whose starter grant is still open has the ledger row of a starter grant.\<close>

definition starter_open :: "gacha_db \<Rightarrow> bool" where
  "starter_open d \<longleftrightarrow> (\<forall>e \<in> set (gacha_ledger d). Reason e = ReasonStarter \<and> Ref e = ''starter'' \<longrightarrow>
     (\<exists>w. gacha_wallets d (entryUser e) = Some w \<and> StarterGranted w))"

lemma ledger_sum_append [simp]:
  "ledger_sum (d\<lparr>gacha_ledger := l @ [e]\<rparr>) u =
     ledger_sum (d\<lparr>gacha_ledger := l\<rparr>) u + (if entryUser e = u then Delta e else 0)"
  by (simp add: ledger_sum_def)

lemma ledger_sum_irrelevant [simp]:
  "ledger_sum (gacha_wallets_update f d) u = ledger_sum d u"
  "ledger_sum (gacha_pity_update g d) u = ledger_sum d u"
  "ledger_sum (gacha_collection_update h d) u = ledger_sum d u"
  by (simp_all add: ledger_sum_def)

lemma ledger_sum_same [simp]: "ledger_sum (d\<lparr>gacha_ledger := gacha_ledger d\<rparr>) u = ledger_sum d u"
  by simp

lemma balance_of_irrelevant [simp]:
  "balance_of (gacha_ledger_update f d) u = balance_of d u"
  "balance_of (gacha_pity_update g d) u = balance_of d u"
  "balance_of (gacha_collection_update h d) u = balance_of d u"
  by (simp_all add: balance_of_def)

lemma balance_of_upd [simp]:
  "balance_of (d\<lparr>gacha_wallets := (gacha_wallets d)(u \<mapsto> w)\<rparr>) v =
     (if v = u then Balance w else balance_of d v)"
  by (simp add: balance_of_def)

end
