(* ===== verification/Gacha_Wallet.thy ===== *)
theory Gacha_Wallet
  imports Gacha_Data
begin

text \<open>
  Wallets: \<^verbatim>\<open>internal/repo/wallet.go\<close> (the transactions over wallets and ledger) and
  \<^verbatim>\<open>internal/service/wallet.go\<close> (daily claim, starter grant, credit). Every money movement turns
  out to be one \<open>posting\<close>: a ledger row and the matching change of the balance, together.
\<close>

section \<open>Repository\<close>

definition repo_GetOrCreate :: "string \<Rightarrow> wallet gacha" where
  "repo_GetOrCreate userID =
     bnd (command (insertWalletIgnore userID)) (\<lambda>_. command (firstWallet userID))"

definition repo_Credit :: "string \<Rightarrow> int \<Rightarrow> string \<Rightarrow> string \<Rightarrow> bool gacha" where
  "repo_Credit userID delta reason ref =
     transaction (
       bnd (command (insertLedgerIgnore
              \<lparr>entryUser = userID, Delta = delta, Reason = reason, Ref = ref\<rparr>)) (\<lambda>rows.
       if rows = 0 then ret False
       else bnd (command (updateWallet userID (\<lambda>_. True) (addBalance delta))) (\<lambda>_.
            ret True)))"

text \<open>Go's \<^verbatim>\<open>Format("2006-01-02")\<close>: the civil date of a day number, zero-padded.\<close>

definition Day :: duration where "Day = 24 * Hour"

definition civil_of_days :: "int \<Rightarrow> int \<times> int \<times> int" where
  "civil_of_days days =
     (let z = days + 306;
          era = z div 146097;
          doe = z - era * 146097;
          yoe = (doe - doe div 1460 + doe div 36524 - doe div 146096) div 365;
          doy = doe - (365 * yoe + yoe div 4 - yoe div 100);
          mp = (5 * doy + 2) div 153;
          d = doy - (153 * mp + 2) div 5 + 1;
          m = (if mp < 10 then mp + 3 else mp - 9);
          y = yoe + era * 400
      in (if m \<le> 2 then y + 1 else y, m, d))"

fun pad_digits :: "nat \<Rightarrow> int \<Rightarrow> string" where
  "pad_digits 0 n = []"
| "pad_digits (Suc k) n = pad_digits k (n div 10) @ [char_of (48 + nat (n mod 10))]"

definition date_ref :: "instant \<Rightarrow> string" where
  "date_ref now =
     (case civil_of_days (now div Day) of
        (y, m, d) \<Rightarrow> pad_digits 4 y @ ''-'' @ pad_digits 2 m @ ''-'' @ pad_digits 2 d)"

definition setDaily :: "int \<Rightarrow> instant \<Rightarrow> wallet \<Rightarrow> wallet" where
  "setDaily streak now w = w\<lparr>DailyStreak := streak, LastDailyAt := Some now\<rparr>"

record daily_claim_result =
  Claimed :: bool
  ClaimWallet :: wallet

definition repo_DailyClaimTx :: "string \<Rightarrow> int \<Rightarrow> int \<Rightarrow> instant \<Rightarrow> daily_claim_result gacha" where
  "repo_DailyClaimTx userID amount streak now =
     transaction (
       bnd (command (insertLedgerIgnore
              \<lparr>entryUser = userID, Delta = amount, Reason = ReasonDaily, Ref = date_ref now\<rparr>)) (\<lambda>rows.
       if rows = 0 then
         bnd (command (firstWallet userID)) (\<lambda>w.
         ret \<lparr>Claimed = False, ClaimWallet = w\<rparr>)
       else
         bnd (command (updateWallet userID (\<lambda>_. True)
                (\<lambda>w. setDaily streak now (addBalance amount w)))) (\<lambda>_.
         bnd (command (firstWallet userID)) (\<lambda>w.
         ret \<lparr>Claimed = True, ClaimWallet = w\<rparr>))))"

definition setGranted :: "wallet \<Rightarrow> wallet" where
  "setGranted w = w\<lparr>StarterGranted := True\<rparr>"

text \<open>
  The result of inserting the ledger row is not inspected here: the balance is bumped whether or
  not the row landed.
\<close>

definition repo_GrantStarterOnce :: "string \<Rightarrow> int \<Rightarrow> bool gacha" where
  "repo_GrantStarterOnce userID amount =
     transaction (
       bnd (command (updateWallet userID (\<lambda>w. StarterGranted w = False) setGranted)) (\<lambda>rows.
       if rows = 0 then ret False
       else
         bnd (command (insertLedgerIgnore
                \<lparr>entryUser = userID, Delta = amount, Reason = ReasonStarter, Ref = ''starter''\<rparr>)) (\<lambda>_.
         bnd (command (updateWallet userID (\<lambda>_. True) (addBalance amount))) (\<lambda>_.
         ret True))))"

section \<open>Service\<close>

record wallet_service =
  starterBonus :: int
  dailyBase :: int
  dailyStreakStep :: int
  dailyStreakCap :: int
  walletEnabled :: bool

definition NewWalletService :: "economy_config \<Rightarrow> bool \<Rightarrow> wallet_service" where
  "NewWalletService e enabled =
     \<lparr>starterBonus = StarterBonus e, dailyBase = DailyBase e, dailyStreakStep = DailyStreakStep e,
      dailyStreakCap = DailyStreakCap e, walletEnabled = enabled\<rparr>"

record daily_result =
  dailyClaimed :: bool
  dailyAmount :: int
  dailyNewStreak :: int
  dailyWallet :: "wallet option"

definition emptyDaily :: daily_result where
  "emptyDaily = \<lparr>dailyClaimed = False, dailyAmount = 0, dailyNewStreak = 0, dailyWallet = None\<rparr>"

definition truncateDay :: "instant \<Rightarrow> instant" where
  "truncateDay t = t - t mod Day"

definition sameDay :: "wallet \<Rightarrow> instant \<Rightarrow> bool" where
  "sameDay w now = (case LastDailyAt w of None \<Rightarrow> False | Some l \<Rightarrow> truncateDay l = truncateDay now)"

definition newStreak :: "wallet \<Rightarrow> instant \<Rightarrow> int" where
  "newStreak w now =
     (case LastDailyAt w of
        None \<Rightarrow> 1
      | Some l \<Rightarrow> if truncateDay l = truncateDay now - Day then DailyStreak w + 1 else 1)"

text \<open>The amount of a claim; \<open>None\<close> is the division by a zero step, which panics.\<close>

definition claimAmount :: "wallet_service \<Rightarrow> int \<Rightarrow> int option" where
  "claimAmount s streak =
     (if dailyStreakStep s = 0 then None
      else
        let maxSteps = go_quot (dailyStreakCap s) (dailyStreakStep s);
            steps = streak - 1;
            streakSteps = (if steps > maxSteps then maxSteps else steps);
            bonus = streakSteps * dailyStreakStep s
        in Some (dailyBase s + bonus))"

definition WalletService_Daily :: "wallet_service \<Rightarrow> string \<Rightarrow> instant \<Rightarrow> daily_result gacha" where
  "WalletService_Daily s userID now =
     (if \<not> walletEnabled s then ret emptyDaily
      else
        bnd (repo_GetOrCreate userID) (\<lambda>w.
        if sameDay w now then ret (emptyDaily\<lparr>dailyWallet := Some w\<rparr>)
        else
          case claimAmount s (newStreak w now) of
            None \<Rightarrow> fail GoPanic
          | Some amount \<Rightarrow>
              bnd (repo_DailyClaimTx userID amount (newStreak w now) now) (\<lambda>res.
              if \<not> Claimed res then ret (emptyDaily\<lparr>dailyWallet := Some (ClaimWallet res)\<rparr>)
              else ret \<lparr>dailyClaimed = True, dailyAmount = amount,
                        dailyNewStreak = newStreak w now, dailyWallet = Some (ClaimWallet res)\<rparr>)))"

definition WalletService_GetOrCreate :: "wallet_service \<Rightarrow> string \<Rightarrow> wallet gacha" where
  "WalletService_GetOrCreate s userID =
     bnd (repo_GetOrCreate userID) (\<lambda>w.
     if walletEnabled s \<and> \<not> StarterGranted w \<and> starterBonus s > 0 then
       bnd (repo_GrantStarterOnce userID (starterBonus s)) (\<lambda>_. repo_GetOrCreate userID)
     else ret w)"

definition WalletService_Credit ::
  "wallet_service \<Rightarrow> string \<Rightarrow> int \<Rightarrow> string \<Rightarrow> string \<Rightarrow> bool gacha" where
  "WalletService_Credit s userID delta reason ref =
     (if delta \<le> 0 then fail (errInvalidInput ''credit amount must be positive'')
      else if \<not> walletEnabled s then ret False
      else bnd (repo_GetOrCreate userID) (\<lambda>_. repo_Credit userID delta reason ref))"

text \<open>
  \<^verbatim>\<open>InternalHandler.Credit\<close> after the body is bound: the idempotency key is required, and nothing
  restricts the reason.
\<close>

definition InternalHandler_Credit ::
  "wallet_service \<Rightarrow> string \<Rightarrow> int \<Rightarrow> string \<Rightarrow> string \<Rightarrow> bool gacha" where
  "InternalHandler_Credit s userID amount reason ref =
     (if userID = [] \<or> reason = [] \<or> ref = []
      then fail (errInvalidInput ''user_id, reason and ref (idempotency key) are required'')
      else WalletService_Credit s userID amount reason ref)"

section \<open>Postings\<close>

definition posting :: "(wallet \<Rightarrow> wallet) \<Rightarrow> ledger_entry \<Rightarrow> gacha_db \<Rightarrow> gacha_db" where
  "posting f e d = d\<lparr>gacha_ledger := gacha_ledger d @ [e],
     gacha_wallets := (gacha_wallets d)(entryUser e :=
       map_option (\<lambda>w. f (addBalance (Delta e) w)) (gacha_wallets d (entryUser e)))\<rparr>"

definition with_wallet :: "string \<Rightarrow> gacha_db \<Rightarrow> gacha_db" where
  "with_wallet u d = snd (insertWalletIgnore u d)"

lemma ledger_sum_posting [simp]:
  "ledger_sum (posting f e d) u = ledger_sum d u + (if entryUser e = u then Delta e else 0)"
  by (simp add: posting_def ledger_sum_def)

lemma balance_of_posting [simp]:
  assumes "\<And>w. Balance (f w) = Balance w" and "gacha_wallets d (entryUser e) \<noteq> None"
  shows "balance_of (posting f e d) u =
     balance_of d u + (if entryUser e = u then Delta e else 0)"
  using assms by (auto simp: posting_def balance_of_def addBalance_def)

lemma books_balance_posting:
  assumes "books_balance d" and "\<And>w. Balance (f w) = Balance w"
    and "gacha_wallets d (entryUser e) \<noteq> None"
  shows "books_balance (posting f e d)"
  using assms by (simp add: books_balance_def)

lemma never_overdrawn_posting:
  assumes "never_overdrawn d" and "\<And>w. Balance (f w) = Balance w"
    and "gacha_wallets d (entryUser e) \<noteq> None"
    and "0 \<le> balance_of d (entryUser e) + Delta e"
  shows "never_overdrawn (posting f e d)"
  using assms by (auto simp: never_overdrawn_def)

lemma with_wallet_facts [simp]:
  "gacha_ledger (with_wallet u d) = gacha_ledger d"
  "balance_of (with_wallet u d) v = balance_of d v"
  "ledger_sum (with_wallet u d) v = ledger_sum d v"
  "\<exists>w. gacha_wallets (with_wallet u d) u = Some w"
  by (auto simp: with_wallet_def insertWalletIgnore_def balance_of_def ledger_sum_def
      split: option.splits)

lemma with_wallet_other: "gacha_wallets d v = Some w \<Longrightarrow> gacha_wallets (with_wallet u d) v = Some w"
  by (auto simp: with_wallet_def insertWalletIgnore_def split: option.splits)

lemmas sql_defs = insertLedgerIgnore_def insertLedger_def insertWalletIgnore_def firstWallet_def
  updateWallet_def

lemma GetOrCreate_spec:
  "wp (repo_GetOrCreate u)
      (\<lambda>w d'. d' = with_wallet u d \<and> gacha_wallets d' u = Some w)
      (\<lambda>_ d'. d' = d \<or> d' = with_wallet u d) d"
  unfolding repo_GetOrCreate_def
  by (auto intro!: wp_rules simp: with_wallet_def sql_defs split: option.splits)

lemma posting_eq:
  "gacha_wallets d (entryUser e) = Some w \<Longrightarrow>
   posting f e d = d\<lparr>gacha_ledger := gacha_ledger d @ [e],
     gacha_wallets := (gacha_wallets d)(entryUser e \<mapsto> f (addBalance (Delta e) w))\<rparr>"
  by (simp add: posting_def)

lemma Credit_spec:
  fixes u delta reason ref
  defines "e \<equiv> \<lparr>entryUser = u, Delta = delta, Reason = reason, Ref = ref\<rparr>"
  assumes "gacha_wallets d u = Some w"
  shows "wp (repo_Credit u delta reason ref)
      (\<lambda>applied d'. applied = (\<not> ledgerConflict e (gacha_ledger d))
         \<and> d' = (if applied then posting id e d else d))
      (\<lambda>_ d'. d' = d) d"
  unfolding repo_Credit_def using assms(2)
  by (auto intro!: wp_rules simp: sql_defs posting_eq e_def split: if_splits)

lemma DailyClaimTx_spec:
  fixes u amount streak now
  defines "e \<equiv> \<lparr>entryUser = u, Delta = amount, Reason = ReasonDaily, Ref = date_ref now\<rparr>"
  assumes "gacha_wallets d u = Some w"
  shows "wp (repo_DailyClaimTx u amount streak now)
      (\<lambda>r d'. Claimed r = (\<not> ledgerConflict e (gacha_ledger d))
         \<and> d' = (if Claimed r then posting (setDaily streak now) e d else d)
         \<and> gacha_wallets d' u = Some (ClaimWallet r))
      (\<lambda>_ d'. d' = d) d"
  unfolding repo_DailyClaimTx_def using assms(2)
  by (auto intro!: wp_rules simp: sql_defs posting_eq e_def split: if_splits option.splits)

lemma addBalance_setGranted: "addBalance x (setGranted w) = setGranted (addBalance x w)"
  by (cases w) (simp add: addBalance_def setGranted_def)

lemma setGranted_simps [simp]: "StarterGranted (setGranted w)" "Balance (setGranted w) = Balance w"
  by (simp_all add: setGranted_def)

lemma GrantStarterOnce_spec:
  fixes u amount
  defines "e \<equiv> \<lparr>entryUser = u, Delta = amount, Reason = ReasonStarter, Ref = ''starter''\<rparr>"
  assumes "gacha_wallets d u = Some w" and "\<not> ledgerConflict e (gacha_ledger d)"
  shows "wp (repo_GrantStarterOnce u amount)
      (\<lambda>granted d'. granted = (\<not> StarterGranted w)
         \<and> d' = (if granted then posting setGranted e d else d))
      (\<lambda>_ d'. d' = d) d"
  unfolding repo_GrantStarterOnce_def using assms(2,3)
  by (auto intro!: wp_rules simp: sql_defs posting_eq e_def addBalance_setGranted
      split: if_splits option.splits)

section \<open>The books stay balanced\<close>

definition streaks_ok :: "gacha_db \<Rightarrow> bool" where
  "streaks_ok d \<longleftrightarrow> (\<forall>u w. gacha_wallets d u = Some w \<longrightarrow> 0 \<le> DailyStreak w)"

definition gacha_inv :: "gacha_db \<Rightarrow> bool" where
  "gacha_inv d \<longleftrightarrow> books_balance d \<and> never_overdrawn d \<and> starter_open d \<and> streaks_ok d"

lemma wallet_updates [simp]:
  "Balance (setDaily s n w) = Balance w" "Balance (addBalance x w) = Balance w + x"
  "StarterGranted (setDaily s n w) = StarterGranted w"
  "StarterGranted (addBalance x w) = StarterGranted w"
  "DailyStreak (setDaily s n w) = s" "DailyStreak (addBalance x w) = DailyStreak w"
  "DailyStreak (setGranted w) = DailyStreak w"
  by (simp_all add: setDaily_def setGranted_def addBalance_def)

lemma starter_open_with_wallet: "starter_open d \<Longrightarrow> starter_open (with_wallet u d)"
  unfolding starter_open_def with_wallet_facts by (metis with_wallet_other)

lemma streaks_ok_with_wallet: "streaks_ok d \<Longrightarrow> streaks_ok (with_wallet u d)"
  by (auto simp: streaks_ok_def with_wallet_def insertWalletIgnore_def split: option.splits)

lemma books_balance_with_wallet: "books_balance (with_wallet u d) \<longleftrightarrow> books_balance d"
  by (simp add: books_balance_def)

lemma never_overdrawn_with_wallet: "never_overdrawn (with_wallet u d) \<longleftrightarrow> never_overdrawn d"
  by (simp add: never_overdrawn_def)

lemma gacha_inv_with_wallet [simp]: "gacha_inv d \<Longrightarrow> gacha_inv (with_wallet u d)"
  by (simp add: gacha_inv_def books_balance_with_wallet never_overdrawn_with_wallet
      starter_open_with_wallet streaks_ok_with_wallet)

lemma starter_open_posting:
  assumes "starter_open d" and "\<And>w. StarterGranted w \<Longrightarrow> StarterGranted (f w)"
    and "gacha_wallets d (entryUser e) = Some w"
    and "Reason e = ReasonStarter \<Longrightarrow> Ref e = ''starter'' \<Longrightarrow> StarterGranted (f (addBalance (Delta e) w))"
  shows "starter_open (posting f e d)"
proof -
  have keep: "\<exists>w'. gacha_wallets (posting f e d) v = Some w' \<and> StarterGranted w'"
    if "gacha_wallets d v = Some x" "StarterGranted x" for v x
    using that assms(2,3) by (auto simp: posting_eq)
  show ?thesis
    unfolding starter_open_def
  proof (intro ballI impI)
    fix x
    assume x: "x \<in> set (gacha_ledger (posting f e d))"
      and r: "Reason x = ReasonStarter \<and> Ref x = ''starter''"
    from x consider "x \<in> set (gacha_ledger d)" | "x = e" by (auto simp: posting_def)
    then show "\<exists>w. gacha_wallets (posting f e d) (entryUser x) = Some w \<and> StarterGranted w"
    proof cases
      case 1
      with assms(1) r obtain w' where "gacha_wallets d (entryUser x) = Some w'" "StarterGranted w'"
        by (auto simp: starter_open_def)
      then show ?thesis by (rule keep)
    next
      case 2
      with r assms(3,4) show ?thesis by (simp add: posting_eq)
    qed
  qed
qed

lemma gacha_inv_posting:
  assumes "gacha_inv d" and w: "gacha_wallets d (entryUser e) = Some w"
    and f: "\<And>w. Balance (f w) = Balance w" "\<And>w. StarterGranted w \<Longrightarrow> StarterGranted (f w)"
    and "0 \<le> Balance w + Delta e"
    and "Reason e = ReasonStarter \<Longrightarrow> Ref e = ''starter'' \<Longrightarrow> StarterGranted (f (addBalance (Delta e) w))"
    and "0 \<le> DailyStreak (f (addBalance (Delta e) w))"
  shows "gacha_inv (posting f e d)"
proof -
  have "balance_of d (entryUser e) = Balance w" using w by (simp add: balance_of_def)
  moreover have "streaks_ok (posting f e d)"
    using assms(1,7) w by (auto simp: streaks_ok_def gacha_inv_def posting_eq)
  ultimately show ?thesis
    using assms unfolding gacha_inv_def
    by (auto intro!: books_balance_posting never_overdrawn_posting starter_open_posting)
qed

lemma gacha_inv_wallet:
  assumes "gacha_inv d" and "gacha_wallets d u = Some w"
  shows "0 \<le> Balance w" and "0 \<le> DailyStreak w"
proof -
  have "0 \<le> balance_of d u" using assms(1) by (simp add: gacha_inv_def never_overdrawn_def)
  then show "0 \<le> Balance w" using assms(2) by (simp add: balance_of_def)
  show "0 \<le> DailyStreak w" using assms by (auto simp: gacha_inv_def streaks_ok_def)
qed

lemma starter_open_noconflict:
  assumes "starter_open d" and "gacha_wallets d u = Some w" and "\<not> StarterGranted w"
  shows "\<not> ledgerConflict \<lparr>entryUser = u, Delta = a, Reason = ReasonStarter, Ref = ''starter''\<rparr>
      (gacha_ledger d)"
  using assms by (fastforce simp: starter_open_def ledgerConflict_def list_ex_iff)

lemma claimAmount_eq:
  assumes "0 < dailyStreakStep s" and "0 \<le> dailyStreakCap s" and "1 \<le> streak"
  shows "claimAmount s streak = Some (dailyBase s +
     min (streak - 1) (dailyStreakCap s div dailyStreakStep s) * dailyStreakStep s)"
  using assms by (auto simp: claimAmount_def Let_def min_def)

lemma claimAmount_bounds:
  assumes "0 < dailyStreakStep s" and "0 \<le> dailyStreakCap s" and "1 \<le> streak"
    and "claimAmount s streak = Some amount"
  shows "dailyBase s \<le> amount" and "amount \<le> dailyBase s + dailyStreakCap s"
proof -
  let ?k = "min (streak - 1) (dailyStreakCap s div dailyStreakStep s)"
  have a: "amount = dailyBase s + ?k * dailyStreakStep s"
    using assms claimAmount_eq by simp
  have k0: "0 \<le> ?k" using assms by (simp add: pos_imp_zdiv_nonneg_iff)
  then show "dailyBase s \<le> amount" using a assms(1) by simp
  have "?k * dailyStreakStep s \<le> dailyStreakCap s div dailyStreakStep s * dailyStreakStep s"
    by (rule mult_right_mono) (use assms in auto)
  also have "\<dots> \<le> dailyStreakCap s"
    using assms by (simp add: minus_mod_eq_div_mult [symmetric])
  finally show "amount \<le> dailyBase s + dailyStreakCap s" using a by simp
qed

definition service_ok :: "wallet_service \<Rightarrow> bool" where
  "service_ok s \<longleftrightarrow> 0 \<le> starterBonus s \<and> 0 \<le> dailyBase s \<and> 0 < dailyStreakStep s \<and> 0 \<le> dailyStreakCap s"

abbreviation keeps_inv :: "'a gacha \<Rightarrow> gacha_db \<Rightarrow> bool" where
  "keeps_inv m d \<equiv> wp m (\<lambda>_. gacha_inv) (\<lambda>_. gacha_inv) d"

lemma newStreak_pos: "gacha_inv d \<Longrightarrow> gacha_wallets d u = Some w \<Longrightarrow> 1 \<le> newStreak w now"
  by (auto simp: newStreak_def dest: gacha_inv_wallet(2) split: option.split)

lemma GetOrCreate_inv:
  assumes "gacha_inv d"
    and "\<And>w d'. gacha_inv d' \<Longrightarrow> gacha_wallets d' u = Some w \<Longrightarrow> Q w d'"
  shows "wp (repo_GetOrCreate u) Q (\<lambda>_. gacha_inv) d"
  by (rule wp_mono [OF GetOrCreate_spec]) (use assms in auto)

lemma DailyClaimTx_inv:
  assumes d: "gacha_inv d" "gacha_wallets d u = Some w"
    and "0 \<le> amount" "0 \<le> streak"
    and Q: "\<And>r d'. gacha_inv d' \<Longrightarrow> Q r d'"
  shows "wp (repo_DailyClaimTx u amount streak now) Q (\<lambda>_. gacha_inv) d"
proof (rule wp_mono [OF DailyClaimTx_spec [OF d(2)]])
  let ?e = "\<lparr>entryUser = u, Delta = amount, Reason = ReasonDaily, Ref = date_ref now\<rparr>"
  fix r :: daily_claim_result and d'
  assume "Claimed r = (\<not> ledgerConflict ?e (gacha_ledger d))
    \<and> d' = (if Claimed r then posting (setDaily streak now) ?e d else d)
    \<and> gacha_wallets d' u = Some (ClaimWallet r)"
  moreover have "gacha_inv (posting (setDaily streak now) ?e d)"
    using d assms(3,4) gacha_inv_wallet [OF d]
    by (intro gacha_inv_posting) (auto simp: reason_defs)
  ultimately show "Q r d'" using Q d(1) by (simp split: if_splits)
qed (use d in auto)

lemma GrantStarterOnce_inv:
  assumes d: "gacha_inv d" "gacha_wallets d u = Some w" "\<not> StarterGranted w" and "0 < a"
    and Q: "\<And>r d'. gacha_inv d' \<Longrightarrow> Q r d'"
  shows "wp (repo_GrantStarterOnce u a) Q (\<lambda>_. gacha_inv) d"
proof (rule wp_mono [OF GrantStarterOnce_spec [OF d(2)]])
  let ?e = "\<lparr>entryUser = u, Delta = a, Reason = ReasonStarter, Ref = ''starter''\<rparr>"
  show "\<not> ledgerConflict ?e (gacha_ledger d)"
    using d starter_open_noconflict by (simp add: gacha_inv_def)
  fix r d'
  assume "r = (\<not> StarterGranted w) \<and> d' = (if r then posting setGranted ?e d else d)"
  moreover have "gacha_inv (posting setGranted ?e d)"
    using d \<open>0 < a\<close> gacha_inv_wallet [OF d(1,2)] by (intro gacha_inv_posting) auto
  ultimately show "Q r d'" using Q d(1) by simp
qed (use d in auto)

lemma repo_Credit_inv:
  assumes d: "gacha_inv d" "gacha_wallets d u = Some w" and "0 < delta"
    and "\<not> (reason = ReasonStarter \<and> ref = ''starter'')"
  shows "keeps_inv (repo_Credit u delta reason ref) d"
proof (rule wp_mono [OF Credit_spec [OF d(2)]])
  let ?e = "\<lparr>entryUser = u, Delta = delta, Reason = reason, Ref = ref\<rparr>"
  fix r d'
  assume "r = (\<not> ledgerConflict ?e (gacha_ledger d)) \<and> d' = (if r then posting id ?e d else d)"
  moreover have "gacha_inv (posting id ?e d)"
    using d assms(3,4) gacha_inv_wallet [OF d] by (intro gacha_inv_posting) auto
  ultimately show "gacha_inv d'" using d(1) by simp
qed (use d in auto)

lemma daily_claim_inv:
  assumes d: "gacha_inv d" "gacha_wallets d u = Some w" and s: "service_ok s"
    and a: "claimAmount s (newStreak w now) = Some amount"
    and Q: "\<And>r d'. gacha_inv d' \<Longrightarrow> Q r d'"
  shows "wp (repo_DailyClaimTx u amount (newStreak w now) now) Q (\<lambda>_. gacha_inv) d"
proof (rule DailyClaimTx_inv [OF d])
  note pos = newStreak_pos [OF d, of now]
  show "0 \<le> amount"
    using s claimAmount_bounds(1) [OF _ _ pos a] by (simp add: service_ok_def)
  show "0 \<le> newStreak w now" using pos by simp
qed (rule Q)

lemma Daily_inv:
  assumes "service_ok s" and "gacha_inv d"
  shows "keeps_inv (WalletService_Daily s u now) d"
  unfolding WalletService_Daily_def
  by (auto intro!: wp_rules assms GetOrCreate_inv elim!: daily_claim_inv)

lemma OpenWallet_inv:
  assumes "gacha_inv d"
  shows "keeps_inv (WalletService_GetOrCreate s u) d"
  unfolding WalletService_GetOrCreate_def
  by (auto intro!: wp_rules assms GetOrCreate_inv elim!: GrantStarterOnce_inv)

lemma Credit_inv:
  assumes "gacha_inv d" and "\<not> (reason = ReasonStarter \<and> ref = ''starter'')"
  shows "keeps_inv (WalletService_Credit s u delta reason ref) d"
  unfolding WalletService_Credit_def
  by (rule wp_if wp_fail wp_ret wp_bnd GetOrCreate_inv repo_Credit_inv assms | simp add: assms)+

section \<open>What a wallet guarantees\<close>

definition wallet_before :: "gacha_db \<Rightarrow> string \<Rightarrow> wallet" where
  "wallet_before d u = (case gacha_wallets d u of
     None \<Rightarrow> \<lparr>Balance = 0, StarterGranted = False, DailyStreak = 0, LastDailyAt = None\<rparr> | Some w \<Rightarrow> w)"

lemma wallet_before_with_wallet:
  "gacha_wallets (with_wallet u d) u = Some w \<Longrightarrow> w = wallet_before d u"
  by (auto simp: with_wallet_def insertWalletIgnore_def wallet_before_def split: option.splits)

lemma Day_pos [simp]: "0 < Day"
  by (simp add: Day_def duration_defs)

lemma truncateDay_eq: "truncateDay t = Day * (t div Day)"
  by (simp add: truncateDay_def minus_mod_eq_mult_div)

lemma newStreak_eq:
  "newStreak w now = (case LastDailyAt w of
     Some l \<Rightarrow> if l div Day + 1 = now div Day then DailyStreak w + 1 else 1 | None \<Rightarrow> 1)"
proof -
  have "Day * k = Day * m - Day \<longleftrightarrow> k + 1 = m" for k m
  proof -
    have "Day * m - Day = Day * (m - 1)" by (simp add: right_diff_distrib)
    moreover have "Day * k = Day * (m - 1) \<longleftrightarrow> k = m - 1" using Day_pos by (auto simp del: Day_pos)
    ultimately show ?thesis by auto
  qed
  then show ?thesis by (auto simp: newStreak_def truncateDay_eq split: option.split)
qed

lemma GetOrCreate_before:
  "wp (repo_GetOrCreate u)
      (\<lambda>w d'. w = wallet_before d u \<and> d' = with_wallet u d \<and> gacha_wallets d' u = Some w)
      (\<lambda>_ _. True) d"
  by (rule wp_mono [OF GetOrCreate_spec]) (auto dest: wallet_before_with_wallet)

lemma Daily_claim_spec:
  "wp (WalletService_Daily s u now)
     (\<lambda>r d'. dailyClaimed r \<longrightarrow> (\<exists>amount e. claimAmount s (newStreak (wallet_before d u) now) = Some amount
        \<and> dailyAmount r = amount \<and> dailyNewStreak r = newStreak (wallet_before d u) now
        \<and> e = \<lparr>entryUser = u, Delta = amount, Reason = ReasonDaily, Ref = date_ref now\<rparr>
        \<and> d' = posting (setDaily (dailyNewStreak r) now) e (with_wallet u d)))
     (\<lambda>_ _. True) d"
  unfolding WalletService_Daily_def
  by (auto intro!: wp_if wp_fail wp_ret wp_bnd wp_option wp_mono [OF GetOrCreate_before]
      wp_mono [OF DailyClaimTx_spec] simp: emptyDaily_def)

text \<open>
  A paid daily claim: the streak grows by one exactly when the last claim was on the previous
  UTC day and restarts at 1 otherwise, the amount is the base plus one step per day of the streak up
  to the cap, so it lies between the base and the base plus the cap, and the balance grows by it.
\<close>

theorem daily_claim_amount:
  assumes "service_ok s" and "gacha_inv (data st)"
    and "WalletService_Daily s u now st = (Inr r, st')" and "dailyClaimed r"
  shows "dailyNewStreak r = (case LastDailyAt (wallet_before (data st) u) of
           Some l \<Rightarrow> if l div Day + 1 = now div Day then DailyStreak (wallet_before (data st) u) + 1 else 1
         | None \<Rightarrow> 1)
   \<and> dailyAmount r = dailyBase s +
       min (dailyNewStreak r - 1) (dailyStreakCap s div dailyStreakStep s) * dailyStreakStep s
   \<and> dailyBase s \<le> dailyAmount r \<and> dailyAmount r \<le> dailyBase s + dailyStreakCap s
   \<and> balance_of (data st') u = balance_of (data st) u + dailyAmount r"
proof -
  let ?w = "wallet_before (data st) u"
  let ?n = "newStreak ?w now"
  obtain amount where a: "claimAmount s ?n = Some amount" "dailyAmount r = amount" "dailyNewStreak r = ?n"
    and d': "data st' = posting (setDaily ?n now)
       \<lparr>entryUser = u, Delta = amount, Reason = ReasonDaily, Ref = date_ref now\<rparr> (with_wallet u (data st))"
    using Daily_claim_spec [of s u now "data st"] assms(3,4) by (auto simp: wp_iff dest!: spec [of _ st])
  have pos: "1 \<le> ?n"
    using gacha_inv_wallet(2) [OF assms(2), of u]
    by (auto simp: newStreak_eq wallet_before_def split: option.splits)
  have s: "0 < dailyStreakStep s" "0 \<le> dailyStreakCap s" using assms(1) by (auto simp: service_ok_def)
  have "balance_of (data st') u = balance_of (data st) u + amount"
    unfolding d' by simp
  then show ?thesis
    using a claimAmount_eq [OF s pos] claimAmount_bounds [OF s pos a(1)] newStreak_eq [of ?w now] by simp
qed

definition sample_service :: wallet_service where
  "sample_service = \<lparr>starterBonus = 300, dailyBase = 50, dailyStreakStep = 10, dailyStreakCap = 50,
     walletEnabled = True\<rparr>"

definition sample_wallets :: "wallet \<Rightarrow> gacha_db" where
  "sample_wallets w = \<lparr>gacha_wallets = [''u'' \<mapsto> w], gacha_ledger = [], gacha_pity = Map.empty,
     gacha_collection = [], gacha_cards = [], gacha_banners = [], gacha_banner_cards = [],
     gacha_groups = [], gacha_card_groups = []\<rparr>"

lemma sample_wallets_inv:
  "Balance w = 0 \<Longrightarrow> 0 \<le> DailyStreak w \<Longrightarrow> gacha_inv (sample_wallets w)"
  by (simp add: gacha_inv_def books_balance_def never_overdrawn_def starter_open_def streaks_ok_def
      sample_wallets_def balance_of_def ledger_sum_def)

theorem daily_claim_amount_witness:
  "\<exists>r st'. WalletService_Daily sample_service ''u'' (Day + 5)
       (clean (sample_wallets \<lparr>Balance = 0, StarterGranted = True, DailyStreak = 8, LastDailyAt = Some 3\<rparr>)) = (Inr r, st')
     \<and> dailyNewStreak r = 9 \<and> dailyAmount r = 100 \<and> balance_of (data st') ''u'' = 100"
proof -
  let ?w = "\<lparr>Balance = 0, StarterGranted = True, DailyStreak = 8, LastDailyAt = Some 3\<rparr>"
  let ?d = "sample_wallets ?w"
  have days: "3 div Day = 0" "(Day + 5) div Day = 1" "(5 + Day) div Day = 1"
    by (simp_all add: Day_def duration_defs)
  have n: "newStreak ?w (Day + 5) = 9" by (simp add: newStreak_eq days)
  have same: "\<not> sameDay ?w (Day + 5)" by (simp add: sameDay_def truncateDay_eq days) (simp add: Day_def duration_defs)
  have "\<exists>r st'. WalletService_Daily sample_service ''u'' (Day + 5) (clean ?d) = (Inr r, st') \<and> dailyClaimed r"
    unfolding WalletService_Daily_def repo_GetOrCreate_def repo_DailyClaimTx_def
    by (simp add: bnd_def command_def clean_def insertWalletIgnore_def firstWallet_def sample_wallets_def
        sample_service_def n same claimAmount_def Let_def transaction_def touch_def insertLedgerIgnore_def
        ledgerConflict_def updateWallet_def addBalance_def setDaily_def fits64_def ret_def)
  then obtain r st' where run: "WalletService_Daily sample_service ''u'' (Day + 5) (clean ?d) = (Inr r, st')"
    and cl: "dailyClaimed r" by blast
  have "service_ok sample_service" by (simp add: service_ok_def sample_service_def)
  moreover have "gacha_inv (data (clean ?d))" by (simp add: clean_def sample_wallets_inv)
  moreover have "wallet_before (data (clean ?d)) ''u'' = ?w"
    by (simp add: wallet_before_def clean_def sample_wallets_def)
  moreover have "balance_of (data (clean ?d)) ''u'' = 0"
    by (simp add: balance_of_def clean_def sample_wallets_def)
  ultimately show ?thesis
    using daily_claim_amount [OF _ _ run cl] run days by (auto simp: sample_service_def)
qed

text \<open>
  The starter bonus: without faults, the first access of a user to the wallet creates it, pays
  the bonus and returns the wallet with it; every later access changes nothing.
\<close>

theorem starter_paid_on_first_access:
  assumes "walletEnabled s" and "0 < starterBonus s" and "starterBonus s < 2 ^ 63"
    and "gacha_wallets d u = None" and "starter_open d"
  shows "\<exists>w d'. WalletService_GetOrCreate s u (clean d) = (Inr w, clean d')
   \<and> Balance w = starterBonus s \<and> ledger_sum d' u = ledger_sum d u + starterBonus s
   \<and> WalletService_GetOrCreate s u (clean d') = (Inr w, clean d')"
proof -
  let ?e = "\<lparr>entryUser = u, Delta = starterBonus s, Reason = ReasonStarter, Ref = ''starter''\<rparr>"
  have "\<not> ledgerConflict ?e (gacha_ledger d)"
    using assms(4,5) by (fastforce simp: starter_open_def ledgerConflict_def list_ex_iff)
  then show ?thesis
    using assms(1-4)
    by (simp add: WalletService_GetOrCreate_def repo_GetOrCreate_def repo_GrantStarterOnce_def bnd_def
        command_def clean_def insertWalletIgnore_def firstWallet_def transaction_def touch_def
        updateWallet_def setGranted_def addBalance_def ret_def insertLedgerIgnore_def fits64_def
        ledger_sum_def)
qed

theorem starter_paid_on_first_access_witness:
  "\<exists>w d'. WalletService_GetOrCreate sample_service ''v'' (clean (sample_wallets
       \<lparr>Balance = 0, StarterGranted = True, DailyStreak = 8, LastDailyAt = Some 3\<rparr>)) = (Inr w, clean d')
     \<and> Balance w = 300"
  using starter_paid_on_first_access [of sample_service "sample_wallets
      \<lparr>Balance = 0, StarterGranted = True, DailyStreak = 8, LastDailyAt = Some 3\<rparr>" "''v''"]
  by (auto simp: sample_service_def sample_wallets_def starter_open_def)

end
