(* ===== verification/Gacha_Roll.thy ===== *)
theory Gacha_Roll
  imports Gacha_Wallet
begin

text \<open>
  The pure part of the pull engine (\<^verbatim>\<open>internal/service/pull.go\<close>): the pool of a banner, the tier
  table with the redistribution of the weights of missing tiers, one weighted roll, hard pity and
  the floor of a pack of ten; and what they guarantee: exact odds, cards from the pool, the pity
  bound. A \<^verbatim>\<open>map[Rarity][]Card\<close> is an association list from rarities to
  cards; \<open>randInt\<close> is an argument, the \<open>k\<close>-th draw of the request with bound \<open>n\<close> being
  \<open>rnd k n\<close>; the two readings of the clock and the pull id (a time stamp and a random number) are
  arguments as well. An index out of range is \<open>None\<close> here.
\<close>

section \<open>The pool of a banner\<close>

type_synonym pool = "(rarity \<times> card list) list"

definition cardsOf :: "pool \<Rightarrow> rarity \<Rightarrow> card list" where
  "cardsOf pool r = (case map_of pool r of None \<Rightarrow> [] | Some cs \<Rightarrow> cs)"

definition poolSize :: "pool \<Rightarrow> int" where
  "poolSize pool = sum_list (map (\<lambda>(r, cs). int (length cs)) pool)"

definition poolAppend :: "pool \<Rightarrow> card \<Rightarrow> pool" where
  "poolAppend pool c = AList.update (cardRarity c) (cardsOf pool (cardRarity c) @ [c]) pool"

text \<open>The rows of the \<^verbatim>\<open>JOIN\<close>: the enabled cards of the banner that are not soft-deleted.\<close>

definition bannerPoolRows :: "string \<Rightarrow> gacha_db \<Rightarrow> card list" where
  "bannerPoolRows b d = filter (\<lambda>c. (b, cardID c) \<in> set (gacha_banner_cards d)
      \<and> cardEnabled c \<and> cardDeletedAt c = None) (gacha_cards d)"

definition groupByRarity :: "card list \<Rightarrow> pool" where
  "groupByRarity cards = foldl poolAppend [] cards"

definition CardsByRarity :: "string \<Rightarrow> pool gacha" where
  "CardsByRarity b = query (\<lambda>d. groupByRarity (bannerPoolRows b d))"

section \<open>The tier table\<close>

definition rarityOrder :: "rarity list" where
  "rarityOrder = [RarityN, RarityR, RaritySR, RaritySSR]"

record tier_entry =
  tierRarity :: rarity
  cumulative :: int

definition hasCards :: "pool \<Rightarrow> rarity \<Rightarrow> bool" where
  "hasCards pool r \<longleftrightarrow> cardsOf pool r \<noteq> []"

text \<open>
  The tier that receives the weight of the \<open>i\<close>-th rarity: itself, else the nearest tier with
  cards below (\<open>j = i - 1\<close> down to \<open>0\<close>), else the nearest above, else none.
\<close>

definition weightTarget :: "pool \<Rightarrow> nat \<Rightarrow> rarity option" where
  "weightTarget pool i =
     (if hasCards pool (rarityOrder ! i) then Some (rarityOrder ! i)
      else case find (hasCards pool) (rev (take i rarityOrder)) of
        Some r \<Rightarrow> Some r
      | None \<Rightarrow> find (hasCards pool) (drop (Suc i) rarityOrder))"

definition addWeight :: "(rarity \<Rightarrow> int) \<Rightarrow> pool \<Rightarrow> (rarity \<Rightarrow> int) \<Rightarrow> nat \<Rightarrow> (rarity \<Rightarrow> int)" where
  "addWeight weights pool eff i =
     (if weights (rarityOrder ! i) = 0 then eff
      else case weightTarget pool i of
        None \<Rightarrow> eff
      | Some r \<Rightarrow> eff(r := eff r + weights (rarityOrder ! i)))"

definition effectiveWeights :: "(rarity \<Rightarrow> int) \<Rightarrow> pool \<Rightarrow> rarity \<Rightarrow> int" where
  "effectiveWeights weights pool =
     foldl (addWeight weights pool) (\<lambda>_. 0) [0 ..< length rarityOrder]"

fun cumulate :: "(rarity \<Rightarrow> int) \<Rightarrow> pool \<Rightarrow> int \<Rightarrow> rarity list \<Rightarrow> tier_entry list" where
  "cumulate eff pool cum [] = []"
| "cumulate eff pool cum (r # rs) =
     (if \<not> hasCards pool r then cumulate eff pool cum rs
      else \<lparr>tierRarity = r, cumulative = cum + eff r\<rparr> # cumulate eff pool (cum + eff r) rs)"

definition buildTierTable :: "(rarity \<Rightarrow> int) \<Rightarrow> pool \<Rightarrow> tier_entry list" where
  "buildTierTable weights pool = cumulate (effectiveWeights weights pool) pool 0 rarityOrder"

section \<open>One roll\<close>

type_synonym rand = "nat \<Rightarrow> int \<Rightarrow> int"

text \<open>The tier of a weighted pick; the top tier when no cumulative weight exceeds it.\<close>

definition pickTier :: "tier_entry list \<Rightarrow> int \<Rightarrow> rarity" where
  "pickTier table pick =
     (case find (\<lambda>e. pick < cumulative e) table of
        Some e \<Rightarrow> tierRarity e
      | None \<Rightarrow> tierRarity (last table))"

definition uniformCard :: "pool \<Rightarrow> rand \<Rightarrow> nat \<Rightarrow> rarity \<Rightarrow> (card \<times> nat) option" where
  "uniformCard pool rnd k tier =
     (let cards = cardsOf pool tier; idx = rnd k (int (length cards)) in
      if 0 \<le> idx \<and> idx < int (length cards) then Some (cards ! nat idx, Suc k) else None)"

definition rollOne :: "tier_entry list \<Rightarrow> pool \<Rightarrow> rand \<Rightarrow> nat \<Rightarrow> rarity \<Rightarrow> (card \<times> nat) option" where
  "rollOne table pool rnd k forceTier =
     (if forceTier \<noteq> [] \<and> cardsOf pool forceTier \<noteq> [] then uniformCard pool rnd k forceTier
      else if table = [] then None
      else uniformCard pool rnd (Suc k) (pickTier table (rnd k (cumulative (last table)))))"

definition hasSRPlus :: "card list \<Rightarrow> bool" where
  "hasSRPlus cards = list_ex (\<lambda>c. cardRarity c = RaritySR \<or> cardRarity c = RaritySSR) cards"

definition highestAvailable :: "pool \<Rightarrow> rarity" where
  "highestAvailable pool =
     (case find (hasCards pool) (rev rarityOrder) of Some r \<Rightarrow> r | None \<Rightarrow> [])"

definition pityForce :: "economy_config \<Rightarrow> pool \<Rightarrow> int \<Rightarrow> rarity" where
  "pityForce econ pool pulls =
     (if pulls \<ge> PityThreshold econ then
        (if cardsOf pool RaritySSR \<noteq> [] then RaritySSR else highestAvailable pool)
      else [])"

text \<open>The roll loop: the cards, the pity counter and the number of draws so far.\<close>

fun rollCards :: "economy_config \<Rightarrow> tier_entry list \<Rightarrow> pool \<Rightarrow> rand \<Rightarrow> nat \<Rightarrow> int \<Rightarrow> nat
    \<Rightarrow> (card list \<times> int \<times> nat) option" where
  "rollCards econ table pool rnd 0 pity k = Some ([], pity, k)"
| "rollCards econ table pool rnd (Suc n) pity k =
     (case rollOne table pool rnd k (pityForce econ pool (pity + 1)) of
        None \<Rightarrow> None
      | Some (c, k') \<Rightarrow>
          (case rollCards econ table pool rnd n
                  (if cardRarity c = RaritySSR then 0 else pity + 1) k' of
             None \<Rightarrow> None
           | Some (cs, pity', k'') \<Rightarrow> Some (c # cs, pity', k'')))"

definition floorTier :: "pool \<Rightarrow> rarity" where
  "floorTier pool =
     (if cardsOf pool RaritySR \<noteq> [] then RaritySR
      else if cardsOf pool RaritySSR \<noteq> [] then RaritySSR else [])"

text \<open>The x10 floor: the last card of a pack without SR or SSR is rerolled in the floor tier.\<close>

definition srFloor :: "tier_entry list \<Rightarrow> pool \<Rightarrow> rand \<Rightarrow> nat \<Rightarrow> card list \<times> int \<times> nat
    \<Rightarrow> (card list \<times> int) option" where
  "srFloor table pool rnd n rolled =
     (case rolled of (cards, pity, k) \<Rightarrow>
        if n = 10 \<and> \<not> hasSRPlus cards then
          (if floorTier pool \<noteq> [] then
             (case rollOne table pool rnd k (floorTier pool) of
                None \<Rightarrow> None
              | Some (c, _) \<Rightarrow>
                  if cards = [] then None
                  else Some (cards[length cards - 1 := c],
                             if cardRarity c = RaritySSR then 0 else pity))
           else Some (cards, pity))
        else Some (cards, pity))"

definition rollPack :: "economy_config \<Rightarrow> tier_entry list \<Rightarrow> pool \<Rightarrow> rand \<Rightarrow> nat \<Rightarrow> int
    \<Rightarrow> (card list \<times> int) option" where
  "rollPack econ table pool rnd n pity =
     (case rollCards econ table pool rnd n pity 0 of
        None \<Rightarrow> None
      | Some rolled \<Rightarrow> srFloor table pool rnd n rolled)"

section \<open>Pools built from rows\<close>

lemma cardsOf_poolAppend [simp]:
  "cardsOf (poolAppend pool c) r =
     cardsOf pool r @ (if cardRarity c = r then [c] else [])"
  by (simp add: cardsOf_def poolAppend_def update_conv')

lemma cardsOf_groupByRarity [simp]:
  "cardsOf (groupByRarity cards) r = filter (\<lambda>c. cardRarity c = r) cards"
proof -
  have "cardsOf (foldl poolAppend pool cards) r =
      cardsOf pool r @ filter (\<lambda>c. cardRarity c = r) cards" for pool
    by (induction cards arbitrary: pool) auto
  then show ?thesis by (simp add: groupByRarity_def cardsOf_def)
qed

definition pool_ok :: "pool \<Rightarrow> bool" where
  "pool_ok pool \<longleftrightarrow> (\<forall>r. \<forall>c \<in> set (cardsOf pool r). cardRarity c = r)"

lemma pool_ok_groupByRarity [simp]: "pool_ok (groupByRarity cards)"
  by (simp add: pool_ok_def)

section \<open>Tier bands\<close>

definition hitTier :: "tier_entry list \<Rightarrow> int \<Rightarrow> rarity option" where
  "hitTier table p = map_option tierRarity (find (\<lambda>e. p < cumulative e) table)"

definition weightSum :: "(rarity \<Rightarrow> int) \<Rightarrow> pool \<Rightarrow> rarity list \<Rightarrow> int" where
  "weightSum eff pool rs = sum_list (map eff (filter (hasCards pool) rs))"

lemma weightSum_simps [simp]:
  "weightSum eff pool [] = 0"
  "weightSum eff pool (r # rs) = (if hasCards pool r then eff r else 0) + weightSum eff pool rs"
  by (simp_all add: weightSum_def)

lemma weightSum_nonneg: "(\<And>r. 0 \<le> eff r) \<Longrightarrow> 0 \<le> weightSum eff pool rs"
  by (induction rs) auto

lemma tiers_cumulate: "map tierRarity (cumulate eff pool c rs) = filter (hasCards pool) rs"
  by (induction rs arbitrary: c) auto

lemma cumulate_Nil_iff: "cumulate eff pool c rs = [] \<longleftrightarrow> \<not> list_ex (hasCards pool) rs"
  by (induction rs arbitrary: c) auto

lemma cumulative_last:
  "cumulate eff pool c rs \<noteq> [] \<Longrightarrow>
   cumulative (last (cumulate eff pool c rs)) = c + weightSum eff pool rs"
proof (induction rs arbitrary: c)
  case (Cons r rs)
  then show ?case
    by (cases "cumulate eff pool (c + eff r) rs = []")
       (auto simp: cumulate_Nil_iff list_ex_iff weightSum_def filter_empty_conv)
qed simp

lemma hitTier_outside:
  "hitTier (cumulate eff pool c rs) p = Some r \<Longrightarrow> r \<in> set rs \<and> hasCards pool r"
  using arg_cong [OF tiers_cumulate [of eff pool c rs], of set]
  by (auto simp: hitTier_def dest!: find_SomeD)

lemma hitTier_None_iff:
  assumes "\<And>r. 0 \<le> eff r"
  shows "c \<le> p \<Longrightarrow> hitTier (cumulate eff pool c rs) p = None \<longleftrightarrow> c + weightSum eff pool rs \<le> p"
  using assms
proof (induction rs arbitrary: c)
  case (Cons r rs)
  have "0 \<le> weightSum eff pool rs" using Cons.prems by (simp add: weightSum_nonneg)
  with Cons show ?case
    by (cases "p < c + eff r") (auto simp: hitTier_def)
qed (simp add: hitTier_def)

lemma band_size:
  assumes "distinct rs" and eff: "\<And>r. 0 \<le> eff r"
  shows "int (card {p. c \<le> p \<and> hitTier (cumulate eff pool c rs) p = Some r}) =
     (if r \<in> set rs \<and> hasCards pool r then eff r else 0)
   \<and> finite {p. c \<le> p \<and> hitTier (cumulate eff pool c rs) p = Some r}"
  using assms(1)
proof (induction rs arbitrary: c)
  case Nil
  then show ?case by (simp add: hitTier_def)
next
  case (Cons x rs)
  show ?case
  proof (cases "hasCards pool x")
    case False
    with Cons show ?thesis by (auto simp: hitTier_def)
  next
    case True
    let ?S = "\<lambda>c xs. {p. c \<le> p \<and> hitTier (cumulate eff pool c xs) p = Some r}"
    let ?head = "if r = x then {c ..< c + eff x} else {}"
    have split: "?S c (x # rs) = ?head \<union> ?S (c + eff x) rs"
      using True eff [of x] by (auto simp: hitTier_def split: if_splits)
    have disj: "?head \<inter> ?S (c + eff x) rs = {}" by auto
    have IH: "int (card (?S (c + eff x) rs)) = (if r \<in> set rs \<and> hasCards pool r then eff r else 0)"
      "finite (?S (c + eff x) rs)"
      using Cons by auto
    have "int (card (?S c (x # rs))) = int (card ?head) + int (card (?S (c + eff x) rs))"
      unfolding split using disj IH(2) by (subst card_Un_disjoint) auto
    then show ?thesis
      using IH Cons.prems eff [of x] True unfolding split by auto
  qed
qed


lemma pickTier_hitTier:
  "pickTier table p = (case hitTier table p of Some r \<Rightarrow> r | None \<Rightarrow> tierRarity (last table))"
  by (simp add: pickTier_def hitTier_def split: option.split)

section \<open>Redistribution of the weights of missing tiers\<close>

definition targetedBy :: "pool \<Rightarrow> rarity \<Rightarrow> nat list" where
  "targetedBy pool r = filter (\<lambda>i. weightTarget pool i = Some r) [0 ..< length rarityOrder]"

lemma eff_fold:
  "foldl (addWeight weights pool) eff is r = eff r +
     sum_list (map (\<lambda>i. weights (rarityOrder ! i)) (filter (\<lambda>i. weightTarget pool i = Some r) is))"
  by (induction "is" arbitrary: eff) (auto simp: addWeight_def split: option.splits)

lemma effectiveWeights_eq:
  "effectiveWeights weights pool r =
     sum_list (map (\<lambda>i. weights (rarityOrder ! i)) (targetedBy pool r))"
  by (simp add: effectiveWeights_def eff_fold targetedBy_def)

lemma effectiveWeights_nonneg: "(\<And>r. 0 \<le> weights r) \<Longrightarrow> 0 \<le> effectiveWeights weights pool r"
  unfolding effectiveWeights_eq by (rule sum_list_nonneg_int) auto

lemma rarityOrder_upt: "[0 ..< length rarityOrder] = [0, 1, 2, 3]"
  by (simp add: rarityOrder_def upt_rec)

lemma rarityOrder_nth [simp]:
  "rarityOrder ! 0 = RarityN" "rarityOrder ! Suc 0 = RarityR"
  "rarityOrder ! 2 = RaritySR" "rarityOrder ! 3 = RaritySSR"
  by (simp_all add: rarityOrder_def eval_nat_numeral)

lemma weightTarget_cases:
  "weightTarget pool 0 = find (hasCards pool) [RarityN, RarityR, RaritySR, RaritySSR]"
  "weightTarget pool (Suc 0) = find (hasCards pool) [RarityR, RarityN, RaritySR, RaritySSR]"
  "weightTarget pool 2 = find (hasCards pool) [RaritySR, RarityR, RarityN, RaritySSR]"
  "weightTarget pool 3 = find (hasCards pool) [RaritySSR, RaritySR, RarityR, RarityN]"
  by (simp_all add: weightTarget_def rarityOrder_def eval_nat_numeral)

lemma effective_sum:
  "effectiveWeights weights pool r =
     (if weightTarget pool 0 = Some r then weights RarityN else 0)
   + (if weightTarget pool (Suc 0) = Some r then weights RarityR else 0)
   + (if weightTarget pool 2 = Some r then weights RaritySR else 0)
   + (if weightTarget pool 3 = Some r then weights RaritySSR else 0)"
  unfolding effectiveWeights_eq targetedBy_def rarityOrder_upt by simp

lemma weightSum_effective:
  assumes "list_ex (hasCards pool) rarityOrder"
  shows "weightSum (effectiveWeights weights pool) pool rarityOrder = sum_list (map weights rarityOrder)"
  using assms
  by (cases "hasCards pool RarityN"; cases "hasCards pool RarityR"; cases "hasCards pool RaritySR";
      cases "hasCards pool RaritySSR")
     (simp_all add: effective_sum weightTarget_cases rarityOrder_def)

lemma effective_zero:
  assumes "\<not> (r \<in> set rarityOrder \<and> hasCards pool r)"
  shows "effectiveWeights weights pool r = 0"
proof -
  have "weightTarget pool i \<noteq> Some r" if "i \<in> {0, Suc 0, 2, 3}" for i
    using that assms by (auto simp: weightTarget_cases rarityOrder_def split: if_splits)
  then show ?thesis by (simp add: effective_sum)
qed

lemma table_Nil_iff: "buildTierTable weights pool = [] \<longleftrightarrow> \<not> list_ex (hasCards pool) rarityOrder"
  by (simp add: buildTierTable_def cumulate_Nil_iff)

lemma table_total:
  assumes "buildTierTable weights pool \<noteq> []"
  shows "cumulative (last (buildTierTable weights pool)) = sum_list (map weights rarityOrder)"
  using assms cumulative_last [of "effectiveWeights weights pool" pool 0 rarityOrder]
  by (simp add: table_Nil_iff buildTierTable_def [symmetric] weightSum_effective)

lemma distinct_rarityOrder [simp]: "distinct rarityOrder"
  by (simp add: rarityOrder_def)

lemma table_band:
  assumes w: "\<And>r. 0 \<le> weights r" and ne: "buildTierTable weights pool \<noteq> []"
  shows "int (card {p. 0 \<le> p \<and> p < sum_list (map weights rarityOrder)
                      \<and> pickTier (buildTierTable weights pool) p = r}) =
         effectiveWeights weights pool r"
proof -
  let ?eff = "effectiveWeights weights pool" and ?t = "buildTierTable weights pool"
  have eff: "0 \<le> ?eff r" for r using w by (rule effectiveWeights_nonneg)
  have some: "hitTier ?t p = None \<longleftrightarrow> sum_list (map weights rarityOrder) \<le> p" if "0 \<le> p" for p
    using hitTier_None_iff [of ?eff 0 p pool rarityOrder, OF eff that] ne
    by (simp add: buildTierTable_def [symmetric] weightSum_effective table_Nil_iff)
  have "0 \<le> p \<and> p < sum_list (map weights rarityOrder) \<and> pickTier ?t p = r \<longleftrightarrow>
      0 \<le> p \<and> hitTier ?t p = Some r" for p
    using some [of p] by (cases "hitTier ?t p") (auto simp: pickTier_hitTier)
  moreover have "int (card {p. 0 \<le> p \<and> hitTier ?t p = Some r}) =
      (if r \<in> set rarityOrder \<and> hasCards pool r then ?eff r else 0)"
    using band_size [of rarityOrder ?eff 0 pool r, OF _ eff] by (simp add: buildTierTable_def)
  ultimately show ?thesis using effective_zero [of r pool weights] by auto
qed

lemma less4: "(i::nat) < 4 \<longleftrightarrow> i = 0 \<or> i = Suc 0 \<or> i = 2 \<or> i = 3"
  by auto

lemma weightTarget_nearest:
  assumes "i < 4" and "j < 4"
  shows "weightTarget pool i = Some (rarityOrder ! j) \<longleftrightarrow>
     hasCards pool (rarityOrder ! j) \<and>
     (\<forall>k < 4. hasCards pool (rarityOrder ! k) \<longrightarrow>
        (if j \<le> i then k \<le> j \<or> i < k else i < k \<and> j \<le> k))"
  using assms unfolding less4
  by (elim disjE) (simp_all add: weightTarget_cases all_conj_distrib imp_disjL)

lemma weightTarget_None:
  assumes "i < 4"
  shows "weightTarget pool i = None \<longleftrightarrow> (\<forall>r \<in> set rarityOrder. \<not> hasCards pool r)"
  using assms unfolding less4
  by (elim disjE) (auto simp: weightTarget_cases rarityOrder_def)

section \<open>Rolls\<close>

text \<open>\<^verbatim>\<open>NewSecureRand\<close> over the library's \<^verbatim>\<open>rand.IntN\<close>.\<close>

definition NewSecureRand :: "rand \<Rightarrow> rand" where
  "NewSecureRand intN k n = (if n \<le> 0 then 0 else intN k n)"

definition rand_ok :: "rand \<Rightarrow> bool" where
  "rand_ok rnd \<longleftrightarrow> (\<forall>k n. 0 < n \<longrightarrow> 0 \<le> rnd k n \<and> rnd k n < n)"

definition rollable :: "pool \<Rightarrow> bool" where
  "rollable pool \<longleftrightarrow> list_ex (hasCards pool) rarityOrder"

lemma pickTier_has_cards:
  assumes "buildTierTable weights pool \<noteq> []"
  shows "hasCards pool (pickTier (buildTierTable weights pool) p)"
proof -
  let ?t = "buildTierTable weights pool"
  have tiers: "tierRarity ` set ?t \<subseteq> {r. hasCards pool r}"
    using arg_cong [OF tiers_cumulate, of set] by (auto simp: buildTierTable_def)
  show ?thesis
  proof (cases "hitTier ?t p")
    case None
    then show ?thesis using tiers last_in_set [OF assms] by (auto simp: pickTier_hitTier)
  next
    case (Some r)
    then show ?thesis by (auto simp: pickTier_hitTier buildTierTable_def dest: hitTier_outside)
  qed
qed

lemma uniformCard_total:
  assumes "rand_ok rnd" and "hasCards pool r"
  obtains c where "uniformCard pool rnd k r = Some (c, Suc k)" and "c \<in> set (cardsOf pool r)"
proof
  let ?n = "int (length (cardsOf pool r))"
  have "0 \<le> rnd k ?n" "rnd k ?n < ?n" using assms by (auto simp: rand_ok_def hasCards_def)
  then show "uniformCard pool rnd k r = Some (cardsOf pool r ! nat (rnd k ?n), Suc k)"
    "cardsOf pool r ! nat (rnd k ?n) \<in> set (cardsOf pool r)"
    by (auto simp: uniformCard_def Let_def)
qed

text \<open>The cards of the tiers that a roll can reach.\<close>

definition reachableCards :: "pool \<Rightarrow> card set" where
  "reachableCards pool = {c. \<exists>r. c \<in> set (cardsOf pool r)}"

lemma rollOne_total:
  assumes "rand_ok rnd" and t: "buildTierTable weights pool \<noteq> []"
  obtains c k' where "rollOne (buildTierTable weights pool) pool rnd k force = Some (c, k')"
    and "c \<in> reachableCards pool"
    and "force \<noteq> [] \<Longrightarrow> hasCards pool force \<Longrightarrow> c \<in> set (cardsOf pool force)"
proof (cases "force \<noteq> [] \<and> hasCards pool force")
  case True
  then obtain c where "uniformCard pool rnd k force = Some (c, Suc k)" "c \<in> set (cardsOf pool force)"
    using assms(1) uniformCard_total by blast
  then show thesis
    using True that by (auto simp: rollOne_def hasCards_def reachableCards_def)
next
  case False
  let ?t = "buildTierTable weights pool"
  let ?r = "pickTier ?t (rnd k (cumulative (last ?t)))"
  obtain c where "uniformCard pool rnd (Suc k) ?r = Some (c, Suc (Suc k))" "c \<in> set (cardsOf pool ?r)"
    using uniformCard_total [OF assms(1) pickTier_has_cards [OF t]] by blast
  then show thesis
    using False t
    by (intro that [of c "Suc (Suc k)"]) (auto simp: rollOne_def hasCards_def reachableCards_def)
qed

lemma pool_ok_rarity: "pool_ok pool \<Longrightarrow> c \<in> set (cardsOf pool r) \<Longrightarrow> cardRarity c = r"
  by (simp add: pool_ok_def)

section \<open>Pity\<close>

text \<open>What the pity counter stands for: the cards since the last SSR.\<close>

fun pityAfter :: "int \<Rightarrow> card list \<Rightarrow> int" where
  "pityAfter p [] = p"
| "pityAfter p (c # cs) = pityAfter (if cardRarity c = RaritySSR then 0 else p + 1) cs"

lemma pityAfter_append [simp]: "pityAfter p (xs @ ys) = pityAfter (pityAfter p xs) ys"
  by (induction xs arbitrary: p) auto

lemma pityAfter_no_ssr:
  "(\<And>c. c \<in> set cs \<Longrightarrow> cardRarity c \<noteq> RaritySSR) \<Longrightarrow> pityAfter p cs = p + int (length cs)"
  by (induction cs arbitrary: p) auto

text \<open>A run of the roll loop, card by card.\<close>

lemma rollCards_run:
  assumes r: "rand_ok rnd" and t: "buildTierTable (econWeights econ) pool \<noteq> []"
    and p: "pool_ok pool"
  obtains cards k' where
    "rollCards econ (buildTierTable (econWeights econ) pool) pool rnd n pity k =
       Some (cards, pityAfter pity cards, k')"
    and "length cards = n" and "set cards \<subseteq> reachableCards pool"
    and "hasCards pool RaritySSR \<Longrightarrow> 0 \<le> pity \<Longrightarrow> pity < PityThreshold econ \<Longrightarrow>
       (\<forall>m \<le> n. 0 \<le> pityAfter pity (take m cards) \<and> pityAfter pity (take m cards) < PityThreshold econ)"
proof -
  let ?t = "buildTierTable (econWeights econ) pool"
  have "\<exists>cards k'. rollCards econ ?t pool rnd n pity k = Some (cards, pityAfter pity cards, k')
      \<and> length cards = n \<and> set cards \<subseteq> reachableCards pool
      \<and> (hasCards pool RaritySSR \<longrightarrow> 0 \<le> pity \<longrightarrow> pity < PityThreshold econ \<longrightarrow>
       (\<forall>m \<le> n. 0 \<le> pityAfter pity (take m cards) \<and> pityAfter pity (take m cards) < PityThreshold econ))"
  proof (induction n arbitrary: pity k)
    case (Suc n)
    let ?f = "pityForce econ pool (pity + 1)"
    obtain c k1 where c: "rollOne ?t pool rnd k ?f = Some (c, k1)" "c \<in> reachableCards pool"
      "?f \<noteq> [] \<Longrightarrow> hasCards pool ?f \<Longrightarrow> c \<in> set (cardsOf pool ?f)"
      using rollOne_total [OF r t] by metis
    let ?p = "if cardRarity c = RaritySSR then 0 else pity + 1"
    obtain cs k' where cs: "rollCards econ ?t pool rnd n ?p k1 = Some (cs, pityAfter ?p cs, k')"
      "length cs = n" "set cs \<subseteq> reachableCards pool"
      "hasCards pool RaritySSR \<longrightarrow> 0 \<le> ?p \<longrightarrow> ?p < PityThreshold econ \<longrightarrow>
       (\<forall>m \<le> n. 0 \<le> pityAfter ?p (take m cs) \<and> pityAfter ?p (take m cs) < PityThreshold econ)"
      using Suc.IH by blast
    have step: "?p < PityThreshold econ"
      if "hasCards pool RaritySSR" "0 \<le> pity" "pity < PityThreshold econ"
      using that c(3) pool_ok_rarity [OF p, of c RaritySSR]
      by (cases "PityThreshold econ \<le> pity + 1") (auto simp: pityForce_def hasCards_def)
    have "0 \<le> pityAfter pity (take m (c # cs)) \<and> pityAfter pity (take m (c # cs)) < PityThreshold econ"
      if "hasCards pool RaritySSR" "0 \<le> pity" "pity < PityThreshold econ" "m \<le> Suc n" for m
      using that step cs(4) by (cases m) auto
    then show ?case using c cs by (intro exI [of _ "c # cs"] exI [of _ k']) auto
  qed simp
  then show thesis using that by blast
qed


section \<open>A pack\<close>

lemma hasSRPlus_iff:
  "hasSRPlus cards \<longleftrightarrow> (\<exists>c \<in> set cards. cardRarity c \<in> {RaritySR, RaritySSR})"
  by (auto simp: hasSRPlus_def list_ex_iff)

lemma floorTier_cards:
  "floorTier pool = [] \<longleftrightarrow> \<not> hasCards pool RaritySR \<and> \<not> hasCards pool RaritySSR"
  "floorTier pool \<noteq> [] \<Longrightarrow> hasCards pool (floorTier pool)"
  "floorTier pool \<noteq> [] \<Longrightarrow> floorTier pool \<in> {RaritySR, RaritySSR}"
  by (auto simp: floorTier_def hasCards_def)

text \<open>
  Rerolling the last card of a run without SR or SSR in the floor tier keeps the pity counter the
  number of cards since the last SSR.
\<close>

lemma pityAfter_reroll:
  assumes "\<not> hasSRPlus cards" and "cards \<noteq> []"
  shows "pityAfter p (cards[length cards - 1 := c]) =
     (if cardRarity c = RaritySSR then 0 else pityAfter p cards)"
proof -
  obtain cs x where c: "cards = cs @ [x]" using assms(2) by (metis rev_exhaust)
  then show ?thesis using assms(1) by (simp add: hasSRPlus_def)
qed

lemma set_reroll: "set (cards[k := c]) \<subseteq> insert c (set cards)"
  by (rule set_update_subset_insert)

lemma rollPack_run:
  assumes r: "rand_ok rnd" and t: "buildTierTable (econWeights econ) pool \<noteq> []"
    and p: "pool_ok pool"
  obtains cards where
    "rollPack econ (buildTierTable (econWeights econ) pool) pool rnd n pity =
       Some (cards, pityAfter pity cards)"
    and "length cards = n" and "set cards \<subseteq> reachableCards pool"
    and "n = 10 \<Longrightarrow> hasCards pool RaritySR \<or> hasCards pool RaritySSR \<Longrightarrow> hasSRPlus cards"
    and "hasCards pool RaritySSR \<Longrightarrow> 0 \<le> pity \<Longrightarrow> pity < PityThreshold econ \<Longrightarrow>
       (\<forall>m \<le> n. 0 \<le> pityAfter pity (take m cards) \<and> pityAfter pity (take m cards) < PityThreshold econ)"
proof -
  let ?t = "buildTierTable (econWeights econ) pool"
  obtain cards k where run:
    "rollCards econ ?t pool rnd n pity 0 = Some (cards, pityAfter pity cards, k)"
    "length cards = n" "set cards \<subseteq> reachableCards pool"
    "hasCards pool RaritySSR \<Longrightarrow> 0 \<le> pity \<Longrightarrow> pity < PityThreshold econ \<Longrightarrow>
       (\<forall>m \<le> n. 0 \<le> pityAfter pity (take m cards) \<and> pityAfter pity (take m cards) < PityThreshold econ)"
    using rollCards_run [OF assms] by metis
  show thesis
  proof (cases "n = 10 \<and> \<not> hasSRPlus cards \<and> floorTier pool \<noteq> []")
    case False
    then show ?thesis
      using run floorTier_cards(1) [of pool]
      by (intro that [of cards]) (auto simp: rollPack_def srFloor_def)
  next
    case True
    obtain c k' where c: "rollOne ?t pool rnd k (floorTier pool) = Some (c, k')"
      "c \<in> reachableCards pool" "c \<in> set (cardsOf pool (floorTier pool))"
      using rollOne_total [OF r t] True floorTier_cards(2) by metis
    let ?cards = "cards[length cards - 1 := c]"
    have ne: "cards \<noteq> []" using True run(2) by auto
    have rar: "cardRarity c \<in> {RaritySR, RaritySSR}"
      using pool_ok_rarity [OF p c(3)] floorTier_cards(3) True by simp
    have pity: "pityAfter q (?cards) = (if cardRarity c = RaritySSR then 0 else pityAfter q cards)" for q
      using pityAfter_reroll True ne by blast
    have take_pity: "pityAfter pity (take m ?cards) =
        (if m = n \<and> cardRarity c = RaritySSR then 0 else pityAfter pity (take m cards))" if "m \<le> n" for m
      using that pity run(2) by (cases "m = n") auto
    have thr: "0 < PityThreshold econ" if "0 \<le> pity" "pity < PityThreshold econ" using that by simp
    show ?thesis
    proof (rule that [of ?cards])
      show "rollPack econ ?t pool rnd n pity = Some (?cards, pityAfter pity ?cards)"
        using True run(1) c(1) ne pity by (auto simp: rollPack_def srFloor_def)
      show "hasSRPlus ?cards"
        using rar ne by (auto simp: hasSRPlus_iff intro!: bexI [of _ c] set_update_memI)
      show "set ?cards \<subseteq> reachableCards pool"
        using set_reroll [of cards "length cards - 1" c] run(3) c(2) by blast
    qed (use run(2,4) take_pity thr in auto)
  qed
qed

section \<open>What a roll guarantees\<close>

text \<open>
  C27. The odds are exact: over the draws \<open>0 .. total - 1\<close> of the random source, the number that pick
  tier \<open>r\<close> is the sum of the configured weights of the tiers whose weight goes to \<open>r\<close> (the tier
  itself, and the tiers without cards redistributed to it); no weight is lost, and a tier without
  cards is never picked.
\<close>

theorem tier_odds:
  assumes "\<forall>r. 0 \<le> weights r" and "buildTierTable weights pool \<noteq> []"
  shows "int (card {p. 0 \<le> p \<and> p < cumulative (last (buildTierTable weights pool))
                     \<and> pickTier (buildTierTable weights pool) p = r}) =
           sum_list (map (\<lambda>i. weights (rarityOrder ! i))
             (filter (\<lambda>i. weightTarget pool i = Some r) [0 ..< length rarityOrder]))
       \<and> cumulative (last (buildTierTable weights pool)) = sum_list (map weights rarityOrder)
       \<and> (\<forall>p. cardsOf pool (pickTier (buildTierTable weights pool) p) \<noteq> [])"
  using assms table_band [of weights pool r] table_total [of weights pool]
    pickTier_has_cards [of weights pool]
  by (simp add: effectiveWeights_eq targetedBy_def hasCards_def)

definition sample_card :: "string \<Rightarrow> rarity \<Rightarrow> card" where
  "sample_card i r = \<lparr>cardID = i, cardName = i, cardSourceTitle = [], cardImagePath = ''p'',
     cardBackPath = [], cardRarity = r, cardEnabled = True, cardCreatedAt = 0, cardDeletedAt = None\<rparr>"

definition sample_pool :: pool where
  "sample_pool = groupByRarity [sample_card ''a'' RarityN, sample_card ''b'' RaritySSR]"

definition sample_econ :: economy_config where
  "sample_econ = \<lparr>StarterBonus = 300, DailyBase = 50, DailyStreakStep = 10, DailyStreakCap = 50,
     PullCostX1 = 100, PullCostX10 = 900, PityThreshold = 3, WeightN = 60, WeightR = 25,
     WeightSR = 12, WeightSSR = 3\<rparr>"

lemma sample_pool_simps [simp]:
  "hasCards sample_pool RarityN" "hasCards sample_pool RaritySSR"
  "\<not> hasCards sample_pool RarityR" "\<not> hasCards sample_pool RaritySR"
  by (simp_all add: sample_pool_def hasCards_def sample_card_def rarity_defs)

lemma sample_table_ne: "buildTierTable w sample_pool \<noteq> []"
  by (simp add: table_Nil_iff rarityOrder_def)

lemma sample_econ_nonneg: "0 \<le> econWeights sample_econ r"
  by (simp add: econWeights_def sample_econ_def)

lemma rand_ok_zero: "rand_ok (\<lambda>_ _. 0)"
  by (simp add: rand_ok_def)

lemma sample_pool_ok: "pool_ok sample_pool"
  by (simp add: sample_pool_def)

theorem tier_odds_witness:
  "card {p. 0 \<le> p \<and> p < 100 \<and> pickTier (buildTierTable (econWeights sample_econ) sample_pool) p = RarityN} = 97"
proof -
  let ?t = "buildTierTable (econWeights sample_econ) sample_pool"
  have total: "sum_list (map (econWeights sample_econ) rarityOrder) = 100"
    by (simp add: rarityOrder_def econWeights_def sample_econ_def)
  have share: "sum_list (map (\<lambda>i. econWeights sample_econ (rarityOrder ! i))
      (filter (\<lambda>i. weightTarget sample_pool i = Some RarityN) [0 ..< length rarityOrder])) = 97"
    unfolding rarityOrder_upt
    by (simp add: weightTarget_cases econWeights_def sample_econ_def)
  have "int (card {p. 0 \<le> p \<and> p < cumulative (last ?t) \<and> pickTier ?t p = RarityN}) = 97"
    "cumulative (last ?t) = 100"
    using tier_odds [of "econWeights sample_econ" sample_pool RarityN]
      sample_econ_nonneg sample_table_ne share total by auto
  then show ?thesis by simp
qed

text \<open>
  Redistribution: the weight of the \<open>i\<close>-th tier goes to a tier with cards such that no tier with
  cards lies closer on the preferred side: downwards from \<open>i\<close> first, upwards only when nothing at or
  below \<open>i\<close> has cards.
\<close>

theorem weight_goes_to_nearest:
  assumes "i < 4" and "j < 4"
  shows "weightTarget pool i = Some (rarityOrder ! j) \<longleftrightarrow>
     cardsOf pool (rarityOrder ! j) \<noteq> [] \<and>
     (\<forall>k < 4. cardsOf pool (rarityOrder ! k) \<noteq> [] \<longrightarrow>
        (if j \<le> i then k \<le> j \<or> i < k else i < k \<and> j \<le> k))"
  using weightTarget_nearest [OF assms, of pool] by (simp add: hasCards_def)

theorem weight_goes_to_nearest_witness:
  "weightTarget sample_pool 2 = Some (rarityOrder ! 0) \<longleftrightarrow>
     cardsOf sample_pool (rarityOrder ! 0) \<noteq> [] \<and>
     (\<forall>k < 4. cardsOf sample_pool (rarityOrder ! k) \<noteq> [] \<longrightarrow>
        (if (0::nat) \<le> 2 then k \<le> 0 \<or> 2 < k else 2 < k \<and> 0 \<le> k))"
  by (rule weight_goes_to_nearest) simp_all

text \<open>
  A pack over a rollable pool of any banner, with a random source that keeps to its bound, never
  indexes out of range: it has exactly \<open>n\<close> cards, each an enabled row of the banner, it has an SR or
  SSR when \<open>n = 10\<close> and the pool has one, and the pity counter that is saved is the number of cards
  since the last SSR (the rerolled floor card included).
\<close>

theorem pack_complete:
  assumes "rand_ok rnd" and "buildTierTable (econWeights econ) (groupByRarity rows) \<noteq> []"
  shows "\<exists>cards.
     rollPack econ (buildTierTable (econWeights econ) (groupByRarity rows)) (groupByRarity rows) rnd n pity =
       Some (cards, pityAfter pity cards)
   \<and> length cards = n \<and> set cards \<subseteq> set rows
   \<and> (n = 10 \<and> hasSRPlus rows \<longrightarrow> hasSRPlus cards)"
proof -
  have sr: "hasSRPlus rows \<longleftrightarrow> hasCards (groupByRarity rows) RaritySR \<or> hasCards (groupByRarity rows) RaritySSR"
    by (auto simp: hasSRPlus_iff hasCards_def filter_empty_conv)
  have "reachableCards (groupByRarity rows) \<subseteq> set rows"
    by (auto simp: reachableCards_def)
  then show ?thesis
    using sr by (rule_tac rollPack_run [OF assms pool_ok_groupByRarity, of n pity]) blast
qed

theorem pack_complete_witness:
  "\<exists>cards. rollPack sample_econ (buildTierTable (econWeights sample_econ) sample_pool) sample_pool
      (\<lambda>_ _. 0) 10 0 = Some (cards, pityAfter 0 cards)
   \<and> length cards = 10 \<and> set cards \<subseteq> {sample_card ''a'' RarityN, sample_card ''b'' RaritySSR}
   \<and> hasSRPlus cards"
proof -
  have "hasSRPlus [sample_card ''a'' RarityN, sample_card ''b'' RaritySSR]"
    by (simp add: hasSRPlus_def sample_card_def)
  then show ?thesis
    using pack_complete [OF rand_ok_zero, of sample_econ
        "[sample_card ''a'' RarityN, sample_card ''b'' RaritySSR]" 10 0]
      sample_table_ne by (simp add: sample_pool_def)
qed

text \<open>
  C25. Hard pity: while the banner has an SSR card and the stored counter is below the threshold, the
  counter stays below it after every card of the pack, and a pack that reaches the threshold has an
  SSR among its first \<open>PityThreshold - pity\<close> cards.
\<close>

theorem hard_pity:
  assumes "rand_ok rnd" and "pool_ok pool" and "cardsOf pool RaritySSR \<noteq> []"
    and "buildTierTable (econWeights econ) pool \<noteq> []"
    and "0 \<le> pity" and "pity < PityThreshold econ"
  shows "\<exists>cards pity'.
     rollPack econ (buildTierTable (econWeights econ) pool) pool rnd n pity = Some (cards, pity')
   \<and> 0 \<le> pity' \<and> pity' < PityThreshold econ
   \<and> (PityThreshold econ - pity \<le> int n \<longrightarrow>
        (\<exists>c \<in> set (take (nat (PityThreshold econ - pity)) cards). cardRarity c = RaritySSR))"
proof -
  obtain cards where c:
    "rollPack econ (buildTierTable (econWeights econ) pool) pool rnd n pity = Some (cards, pityAfter pity cards)"
    "length cards = n"
    "\<forall>m \<le> n. 0 \<le> pityAfter pity (take m cards) \<and> pityAfter pity (take m cards) < PityThreshold econ"
    using rollPack_run [OF assms(1,4,2), of n pity] assms(3,5,6) by (auto simp: hasCards_def)
  let ?m = "nat (PityThreshold econ - pity)"
  have "\<exists>c \<in> set (take ?m cards). cardRarity c = RaritySSR" if "PityThreshold econ - pity \<le> int n"
  proof (rule ccontr)
    assume "\<not> ?thesis"
    then have "pityAfter pity (take ?m cards) = pity + int (length (take ?m cards))"
      by (intro pityAfter_no_ssr) auto
    moreover have "pityAfter pity (take ?m cards) < PityThreshold econ" using c(3) that by simp
    ultimately show False using that c(2) assms(5,6) by simp
  qed
  moreover have "0 \<le> pityAfter pity cards \<and> pityAfter pity cards < PityThreshold econ"
    using c(3) [rule_format, of n] c(2) by simp
  ultimately show ?thesis using c(1) by blast
qed

theorem hard_pity_witness:
  "\<exists>cards pity'. rollPack sample_econ (buildTierTable (econWeights sample_econ) sample_pool) sample_pool
      (\<lambda>_ _. 0) 1 2 = Some (cards, pity') \<and> 0 \<le> pity' \<and> pity' < 3
    \<and> (\<exists>c \<in> set (take 1 cards). cardRarity c = RaritySSR)"
  using hard_pity [OF rand_ok_zero sample_pool_ok _ sample_table_ne, of 2 sample_econ 1]
    sample_pool_simps(2)
  by (simp add: hasCards_def) (simp add: sample_econ_def)

end
