(* ===== verification/Gacha_Content.thy ===== *)
theory Gacha_Content
  imports Gacha_Data
begin

text \<open>
  Cards, groups and banners: \<^verbatim>\<open>internal/repo/card.go\<close>, \<^verbatim>\<open>internal/repo/banner.go\<close> and the
  validation layer over them, \<^verbatim>\<open>internal/service/content.go\<close>. The id the database generates for a
  new row and the clock of \<^verbatim>\<open>created_at\<close> are arguments. GORM's \<^verbatim>\<open>Save\<close> of a row that was read
  before is an update of that row; \<^verbatim>\<open>Delete\<close> sets \<^verbatim>\<open>deleted_at\<close>, and every query over cards and
  banners skips such rows. The length limits of the text columns are not modelled.
\<close>

section \<open>Live rows\<close>

definition liveCard :: "card \<Rightarrow> bool" where
  "liveCard c \<longleftrightarrow> cardDeletedAt c = None"

definition liveBanner :: "banner \<Rightarrow> bool" where
  "liveBanner b \<longleftrightarrow> bannerDeletedAt b = None"

text \<open>\<^verbatim>\<open>INSERT\<close> of rows into a join table with \<^verbatim>\<open>ON CONFLICT DO NOTHING\<close>.\<close>

definition insertPairs :: "('a \<times> 'b) list \<Rightarrow> ('a \<times> 'b) list \<Rightarrow> ('a \<times> 'b) list" where
  "insertPairs rows t = foldl (\<lambda>t r. if r \<in> set t then t else t @ [r]) t rows"

section \<open>Card repository\<close>

record card_filter =
  filterRarity :: rarity
  filterEnabled :: "bool option"
  filterGroup :: string

definition repo_CreateCard :: "card \<Rightarrow> unit gacha" where
  "repo_CreateCard c = command (\<lambda>d.
     if list_ex (\<lambda>x. cardID x = cardID c) (gacha_cards d) then (Inl StoreFault, d)
     else (Inr (), d\<lparr>gacha_cards := gacha_cards d @ [c]\<rparr>))"

definition repo_GetCard :: "string \<Rightarrow> card gacha" where
  "repo_GetCard i =
     bnd (query (\<lambda>d. find (\<lambda>c. cardID c = i \<and> liveCard c) (gacha_cards d))) (\<lambda>r.
     case r of None \<Rightarrow> fail (errNotFound (''card '' @ i)) | Some c \<Rightarrow> ret c)"

definition saveCard :: "card \<Rightarrow> gacha_db \<Rightarrow> (err + nat) \<times> gacha_db" where
  "saveCard c d =
     (if list_ex (\<lambda>x. cardID x = cardID c \<and> liveCard x) (gacha_cards d)
      then (Inr 1, d\<lparr>gacha_cards :=
              map (\<lambda>x. if cardID x = cardID c \<and> liveCard x then c else x) (gacha_cards d)\<rparr>)
      else (Inr 0, d))"

definition repo_UpdateCard :: "card \<Rightarrow> unit gacha" where
  "repo_UpdateCard c =
     bnd (command (saveCard c)) (\<lambda>rows.
     if rows = 0 then fail (errNotFound (''card '' @ cardID c)) else ret ())"

definition softDeleteCards :: "string list \<Rightarrow> instant \<Rightarrow> gacha_db \<Rightarrow> (err + int) \<times> gacha_db" where
  "softDeleteCards ids now d =
     (Inr (int (length (filter (\<lambda>c. cardID c \<in> set ids \<and> liveCard c) (gacha_cards d)))),
      d\<lparr>gacha_cards := map (\<lambda>c. if cardID c \<in> set ids \<and> liveCard c
          then c\<lparr>cardDeletedAt := Some now\<rparr> else c) (gacha_cards d)\<rparr>)"

definition repo_DeleteCard :: "string \<Rightarrow> instant \<Rightarrow> unit gacha" where
  "repo_DeleteCard i now = bnd (command (softDeleteCards [i] now)) (\<lambda>_. ret ())"

definition repo_ListCards :: "card_filter \<Rightarrow> card list gacha" where
  "repo_ListCards f = query (\<lambda>d.
     sort_key (\<lambda>c. - cardCreatedAt c) (filter (\<lambda>c. liveCard c
       \<and> (filterGroup f = [] \<or> (filterGroup f, cardID c) \<in> set (gacha_card_groups d))
       \<and> (filterRarity f = [] \<or> cardRarity c = filterRarity f)
       \<and> (case filterEnabled f of None \<Rightarrow> True | Some e \<Rightarrow> cardEnabled c = e)) (gacha_cards d)))"

definition repo_CreateGroup :: "card_group \<Rightarrow> unit gacha" where
  "repo_CreateGroup g = command (\<lambda>d.
     if list_ex (\<lambda>x. groupID x = groupID g \<or> groupName x = groupName g) (gacha_groups d)
     then (Inl StoreFault, d)
     else (Inr (), d\<lparr>gacha_groups := gacha_groups d @ [g]\<rparr>))"

definition repo_ListGroups :: "card_group list gacha" where
  "repo_ListGroups = query (\<lambda>d. sort_key (\<lambda>g. - groupCreatedAt g) (gacha_groups d))"

definition renameGroup :: "string \<Rightarrow> string \<Rightarrow> gacha_db \<Rightarrow> (err + nat) \<times> gacha_db" where
  "renameGroup i name d =
     (if \<not> list_ex (\<lambda>g. groupID g = i) (gacha_groups d) then (Inr 0, d)
      else if list_ex (\<lambda>g. groupID g \<noteq> i \<and> groupName g = name) (gacha_groups d) then (Inl StoreFault, d)
      else (Inr 1, d\<lparr>gacha_groups :=
              map (\<lambda>g. if groupID g = i then g\<lparr>groupName := name\<rparr> else g) (gacha_groups d)\<rparr>))"

definition repo_RenameGroup :: "string \<Rightarrow> string \<Rightarrow> unit gacha" where
  "repo_RenameGroup i name =
     bnd (command (renameGroup i name)) (\<lambda>rows.
     if rows = 0 then fail (errNotFound (''group '' @ i)) else ret ())"

definition repo_DeleteGroup :: "string \<Rightarrow> unit gacha" where
  "repo_DeleteGroup i = transaction (
     bnd (command (\<lambda>d. (Inr (), d\<lparr>gacha_card_groups := filter (\<lambda>p. fst p \<noteq> i) (gacha_card_groups d)\<rparr>))) (\<lambda>_.
     command (\<lambda>d. (Inr (), d\<lparr>gacha_groups := filter (\<lambda>g. groupID g \<noteq> i) (gacha_groups d)\<rparr>))))"

definition repo_AddCardsToGroup :: "string \<Rightarrow> string list \<Rightarrow> unit gacha" where
  "repo_AddCardsToGroup g ids =
     (if ids = [] then ret ()
      else command (\<lambda>d. (Inr (), d\<lparr>gacha_card_groups :=
             insertPairs (map (\<lambda>c. (g, c)) ids) (gacha_card_groups d)\<rparr>)))"

definition repo_RemoveCardFromGroup :: "string \<Rightarrow> string \<Rightarrow> unit gacha" where
  "repo_RemoveCardFromGroup g c =
     command (\<lambda>d. (Inr (), d\<lparr>gacha_card_groups := filter (\<lambda>p. p \<noteq> (g, c)) (gacha_card_groups d)\<rparr>))"

definition liveIDs :: "gacha_db \<Rightarrow> string set" where
  "liveIDs d = cardID ` set (filter liveCard (gacha_cards d))"

definition repo_GroupCardIDs :: "string \<Rightarrow> string list gacha" where
  "repo_GroupCardIDs g = query (\<lambda>d.
     map snd (filter (\<lambda>p. fst p = g \<and> snd p \<in> liveIDs d) (gacha_card_groups d)))"

record card_bulk_set =
  setName :: "string option"
  setSourceTitle :: "string option"
  setBackPath :: "string option"
  setRarity :: "rarity option"
  setEnabled :: "bool option"

definition applyBulk :: "card_bulk_set \<Rightarrow> card \<Rightarrow> card" where
  "applyBulk s c =
     (let c = (case setName s of None \<Rightarrow> c | Some x \<Rightarrow> c\<lparr>cardName := x\<rparr>);
          c = (case setSourceTitle s of None \<Rightarrow> c | Some x \<Rightarrow> c\<lparr>cardSourceTitle := x\<rparr>);
          c = (case setBackPath s of None \<Rightarrow> c | Some x \<Rightarrow> c\<lparr>cardBackPath := x\<rparr>);
          c = (case setRarity s of None \<Rightarrow> c | Some x \<Rightarrow> c\<lparr>cardRarity := x\<rparr>)
      in case setEnabled s of None \<Rightarrow> c | Some x \<Rightarrow> c\<lparr>cardEnabled := x\<rparr>)"

definition repo_BulkUpdateCards :: "string list \<Rightarrow> card_bulk_set \<Rightarrow> int gacha" where
  "repo_BulkUpdateCards ids s = command (\<lambda>d.
     (Inr (int (length (filter (\<lambda>c. cardID c \<in> set ids \<and> liveCard c) (gacha_cards d)))),
      d\<lparr>gacha_cards := map (\<lambda>c. if cardID c \<in> set ids \<and> liveCard c then applyBulk s c else c)
          (gacha_cards d)\<rparr>))"

definition repo_BulkDeleteCards :: "string list \<Rightarrow> instant \<Rightarrow> int gacha" where
  "repo_BulkDeleteCards ids now = command (softDeleteCards ids now)"

section \<open>Banner repository\<close>

definition repo_CreateBanner :: "banner \<Rightarrow> unit gacha" where
  "repo_CreateBanner b = command (\<lambda>d.
     if list_ex (\<lambda>x. bannerID x = bannerID b) (gacha_banners d) then (Inl StoreFault, d)
     else (Inr (), d\<lparr>gacha_banners := gacha_banners d @ [b]\<rparr>))"

definition GetBanner :: "string \<Rightarrow> banner gacha" where
  "GetBanner b =
     bnd (query (\<lambda>d. find (\<lambda>x. bannerID x = b \<and> bannerDeletedAt x = None) (gacha_banners d))) (\<lambda>r.
     case r of None \<Rightarrow> fail (errNotFound (''banner '' @ b)) | Some x \<Rightarrow> ret x)"

definition saveBanner :: "banner \<Rightarrow> gacha_db \<Rightarrow> (err + nat) \<times> gacha_db" where
  "saveBanner b d =
     (if list_ex (\<lambda>x. bannerID x = bannerID b \<and> liveBanner x) (gacha_banners d)
      then (Inr 1, d\<lparr>gacha_banners :=
              map (\<lambda>x. if bannerID x = bannerID b \<and> liveBanner x then b else x) (gacha_banners d)\<rparr>)
      else (Inr 0, d))"

definition repo_UpdateBanner :: "banner \<Rightarrow> unit gacha" where
  "repo_UpdateBanner b =
     bnd (command (saveBanner b)) (\<lambda>rows.
     if rows = 0 then fail (errNotFound (''banner '' @ bannerID b)) else ret ())"

definition repo_DeleteBanner :: "string \<Rightarrow> instant \<Rightarrow> unit gacha" where
  "repo_DeleteBanner i now = command (\<lambda>d. (Inr (), d\<lparr>gacha_banners :=
     map (\<lambda>b. if bannerID b = i \<and> liveBanner b then b\<lparr>bannerDeletedAt := Some now\<rparr> else b)
       (gacha_banners d)\<rparr>))"

definition repo_ListBanners :: "banner list gacha" where
  "repo_ListBanners = query (\<lambda>d.
     sort_key (\<lambda>b. - bannerCreatedAt b) (filter liveBanner (gacha_banners d)))"

definition repo_SetCards :: "string \<Rightarrow> string list \<Rightarrow> unit gacha" where
  "repo_SetCards b ids = transaction (
     bnd (command (\<lambda>d. (Inr (), d\<lparr>gacha_banner_cards :=
            filter (\<lambda>p. fst p \<noteq> b) (gacha_banner_cards d)\<rparr>))) (\<lambda>_.
     if ids = [] then ret ()
     else command (\<lambda>d. (Inr (), d\<lparr>gacha_banner_cards :=
            insertPairs (map (\<lambda>c. (b, c)) ids) (gacha_banner_cards d)\<rparr>))))"

definition repo_AddCards :: "string \<Rightarrow> string list \<Rightarrow> unit gacha" where
  "repo_AddCards b ids =
     (if ids = [] then ret ()
      else command (\<lambda>d. (Inr (), d\<lparr>gacha_banner_cards :=
             insertPairs (map (\<lambda>c. (b, c)) ids) (gacha_banner_cards d)\<rparr>)))"

definition repo_AddGroupCards :: "string \<Rightarrow> string \<Rightarrow> unit gacha" where
  "repo_AddGroupCards b g = command (\<lambda>d. (Inr (), d\<lparr>gacha_banner_cards :=
     insertPairs (map (\<lambda>p. (b, snd p))
         (filter (\<lambda>p. fst p = g \<and> snd p \<in> liveIDs d) (gacha_card_groups d)))
       (gacha_banner_cards d)\<rparr>))"

definition repo_BannerCardIDs :: "string \<Rightarrow> string list gacha" where
  "repo_BannerCardIDs b = query (\<lambda>d.
     map snd (filter (\<lambda>p. fst p = b \<and> snd p \<in> liveIDs d) (gacha_banner_cards d)))"

definition activeRow :: "instant \<Rightarrow> banner \<Rightarrow> bool" where
  "activeRow now b \<longleftrightarrow> liveBanner b \<and> bannerEnabled b
     \<and> (case bannerActiveFrom b of None \<Rightarrow> True | Some t \<Rightarrow> t \<le> now)
     \<and> (case bannerActiveTo b of None \<Rightarrow> True | Some t \<Rightarrow> t \<ge> now)"

text \<open>\<^verbatim>\<open>ORDER BY is_standard DESC, sort_order ASC, created_at ASC\<close>, by stable sorts.\<close>

definition orderActive :: "banner list \<Rightarrow> banner list" where
  "orderActive bs =
     sort_key (\<lambda>b. if bannerIsStandard b then 0 else (1::nat))
       (sort_key bannerSortOrder (sort_key bannerCreatedAt bs))"

definition repo_ActiveNow :: "instant \<Rightarrow> banner list gacha" where
  "repo_ActiveNow now = query (\<lambda>d. orderActive (filter (activeRow now) (gacha_banners d)))"

section \<open>Content service\<close>

record card_request =
  reqName :: string
  reqSourceTitle :: string
  reqImagePath :: string
  reqBackPath :: string
  reqRarity :: rarity
  reqEnabled :: bool
  reqGroupIDs :: "string list"

definition validateCardRequest :: "card_request \<Rightarrow> err option" where
  "validateCardRequest req =
     (if reqName req = [] then Some (errInvalidInput ''card name is required'')
      else if \<not> ValidRarity (reqRarity req)
        then Some (errInvalidInput ''invalid rarity: must be N, R, SR, or SSR'')
      else if reqImagePath req = [] then Some (errInvalidInput ''card image_path is required'')
      else None)"

definition CreateCard :: "string \<Rightarrow> instant \<Rightarrow> card_request \<Rightarrow> card gacha" where
  "CreateCard newID now req =
     (case validateCardRequest req of
        Some e \<Rightarrow> fail e
      | None \<Rightarrow>
          let c = \<lparr>cardID = newID, cardName = reqName req, cardSourceTitle = reqSourceTitle req,
                   cardImagePath = reqImagePath req, cardBackPath = reqBackPath req,
                   cardRarity = reqRarity req, cardEnabled = reqEnabled req,
                   cardCreatedAt = now, cardDeletedAt = None\<rparr>
          in bnd (repo_CreateCard c) (\<lambda>_.
             bnd (loop (\<lambda>_ g. repo_AddCardsToGroup g [cardID c]) () (reqGroupIDs req)) (\<lambda>_.
             ret c)))"

definition UpdateCard :: "string \<Rightarrow> card_request \<Rightarrow> card gacha" where
  "UpdateCard i req =
     (case validateCardRequest req of
        Some e \<Rightarrow> fail e
      | None \<Rightarrow>
          bnd (repo_GetCard i) (\<lambda>c.
          let c' = c\<lparr>cardName := reqName req, cardSourceTitle := reqSourceTitle req,
                     cardImagePath := reqImagePath req, cardBackPath := reqBackPath req,
                     cardRarity := reqRarity req, cardEnabled := reqEnabled req\<rparr>
          in bnd (repo_UpdateCard c') (\<lambda>_. ret c')))"

definition BulkUpdateCards :: "string list \<Rightarrow> card_bulk_set \<Rightarrow> int gacha" where
  "BulkUpdateCards ids s =
     (if ids = [] then fail (errInvalidInput ''ids is required'')
      else if setName s = None \<and> setSourceTitle s = None \<and> setBackPath s = None
            \<and> setRarity s = None \<and> setEnabled s = None
        then fail (errInvalidInput ''set must contain at least one field'')
      else if setName s = Some [] then fail (errInvalidInput ''card name cannot be empty'')
      else if (case setRarity s of None \<Rightarrow> False | Some r \<Rightarrow> \<not> ValidRarity r)
        then fail (errInvalidInput ''invalid rarity: must be N, R, SR, or SSR'')
      else repo_BulkUpdateCards ids s)"

definition BulkDeleteCards :: "string list \<Rightarrow> instant \<Rightarrow> int gacha" where
  "BulkDeleteCards ids now =
     (if ids = [] then fail (errInvalidInput ''ids is required'')
      else repo_BulkDeleteCards ids now)"

definition CreateGroup :: "string \<Rightarrow> instant \<Rightarrow> string \<Rightarrow> card_group gacha" where
  "CreateGroup newID now name =
     (if name = [] then fail (errInvalidInput ''group name is required'')
      else
        let g = \<lparr>groupID = newID, groupName = name, groupCreatedAt = now\<rparr>
        in bnd (repo_CreateGroup g) (\<lambda>_. ret g))"

definition RenameGroup :: "string \<Rightarrow> string \<Rightarrow> unit gacha" where
  "RenameGroup i name =
     (if name = [] then fail (errInvalidInput ''group name is required'')
      else repo_RenameGroup i name)"

record banner_request =
  reqBannerName :: string
  reqDescription :: string
  reqBackdropPath :: string
  reqIsStandard :: bool
  reqBannerEnabled :: bool
  reqActiveFrom :: "instant option"
  reqActiveTo :: "instant option"
  reqSortOrder :: int

definition validateBannerWindow :: "instant option \<Rightarrow> instant option \<Rightarrow> err option" where
  "validateBannerWindow activeFrom activeTo =
     (case (activeFrom, activeTo) of
        (Some f, Some t) \<Rightarrow>
          if \<not> TimeAfter t f then Some (errInvalidInput ''active_to must be after active_from'') else None
      | _ \<Rightarrow> None)"

definition CreateBanner :: "string \<Rightarrow> instant \<Rightarrow> banner_request \<Rightarrow> banner gacha" where
  "CreateBanner newID now req =
     (if reqBannerName req = [] then fail (errInvalidInput ''banner name is required'')
      else case validateBannerWindow (reqActiveFrom req) (reqActiveTo req) of
        Some e \<Rightarrow> fail e
      | None \<Rightarrow>
          let b = \<lparr>bannerID = newID, bannerName = reqBannerName req,
                   bannerDescription = reqDescription req, bannerBackdropPath = reqBackdropPath req,
                   bannerIsStandard = reqIsStandard req, bannerEnabled = reqBannerEnabled req,
                   bannerActiveFrom = reqActiveFrom req, bannerActiveTo = reqActiveTo req,
                   bannerSortOrder = reqSortOrder req, bannerCreatedAt = now, bannerDeletedAt = None\<rparr>
          in bnd (repo_CreateBanner b) (\<lambda>_. ret b))"

definition UpdateBanner :: "string \<Rightarrow> banner_request \<Rightarrow> banner gacha" where
  "UpdateBanner i req =
     (if reqBannerName req = [] then fail (errInvalidInput ''banner name is required'')
      else case validateBannerWindow (reqActiveFrom req) (reqActiveTo req) of
        Some e \<Rightarrow> fail e
      | None \<Rightarrow>
          bnd (GetBanner i) (\<lambda>b.
          let b' = b\<lparr>bannerName := reqBannerName req, bannerDescription := reqDescription req,
                     bannerBackdropPath := reqBackdropPath req, bannerIsStandard := reqIsStandard req,
                     bannerEnabled := reqBannerEnabled req, bannerActiveFrom := reqActiveFrom req,
                     bannerActiveTo := reqActiveTo req, bannerSortOrder := reqSortOrder req\<rparr>
          in bnd (repo_UpdateBanner b') (\<lambda>_. ret b')))"

section \<open>Well-formed content\<close>

definition card_ok :: "card \<Rightarrow> bool" where
  "card_ok c \<longleftrightarrow> cardName c \<noteq> [] \<and> ValidRarity (cardRarity c) \<and> cardImagePath c \<noteq> []"

definition window_ok :: "banner \<Rightarrow> bool" where
  "window_ok b \<longleftrightarrow> bannerName b \<noteq> [] \<and>
     (\<forall>f t. bannerActiveFrom b = Some f \<longrightarrow> bannerActiveTo b = Some t \<longrightarrow> f < t)"

text \<open>
  What validation and unique indexes promise of the stored content: keys are unique, cards are
  drawable (a name, one of the four rarities, an image), groups and banners are named, no banner
  has an empty window.
\<close>

definition content_ok :: "gacha_db \<Rightarrow> bool" where
  "content_ok d \<longleftrightarrow>
     distinct (map cardID (gacha_cards d)) \<and> (\<forall>c \<in> set (gacha_cards d). card_ok c)
   \<and> distinct (map bannerID (gacha_banners d)) \<and> (\<forall>b \<in> set (gacha_banners d). window_ok b)
   \<and> distinct (map groupName (gacha_groups d)) \<and> distinct (map groupID (gacha_groups d))
   \<and> (\<forall>g \<in> set (gacha_groups d). groupName g \<noteq> [])
   \<and> distinct (gacha_banner_cards d) \<and> distinct (gacha_card_groups d)"

definition economy_frame :: "gacha_db \<Rightarrow> gacha_db \<Rightarrow> bool" where
  "economy_frame d d' \<longleftrightarrow> gacha_wallets d' = gacha_wallets d \<and> gacha_ledger d' = gacha_ledger d
   \<and> gacha_pity d' = gacha_pity d \<and> gacha_collection d' = gacha_collection d"

definition content_step :: "gacha_db \<Rightarrow> gacha_db \<Rightarrow> bool" where
  "content_step d d' \<longleftrightarrow> (content_ok d \<longrightarrow> content_ok d') \<and> economy_frame d d'"

lemma content_step_refl [simp]: "content_step d d"
  by (simp add: content_step_def economy_frame_def)

lemma content_step_trans: "content_step d d' \<Longrightarrow> content_step d' d'' \<Longrightarrow> content_step d d''"
  by (auto simp: content_step_def economy_frame_def)

lemma set_insertPairs [simp]: "set (insertPairs rows t) = set t \<union> set rows"
proof -
  have "set (foldl (\<lambda>t r. if r \<in> set t then t else t @ [r]) t rows) = set t \<union> set rows"
    by (induction rows arbitrary: t) auto
  then show ?thesis by (simp add: insertPairs_def)
qed

lemma distinct_insertPairs [simp]: "distinct t \<Longrightarrow> distinct (insertPairs rows t)"
proof -
  have "distinct t \<Longrightarrow> distinct (foldl (\<lambda>t r. if r \<in> set t then t else t @ [r]) t rows)"
    by (induction rows arbitrary: t) auto
  then show "distinct t \<Longrightarrow> distinct (insertPairs rows t)" by (simp add: insertPairs_def)
qed

lemma list_ex_key:
  "list_ex (\<lambda>x. k x = a) xs \<longleftrightarrow> a \<in> k ` set xs"
  "list_ex (\<lambda>x. k x = a \<or> k' x = b) xs \<longleftrightarrow> a \<in> k ` set xs \<or> b \<in> k' ` set xs"
  by (auto simp: list_ex_iff)

text \<open>Rewriting rows in place keeps the keys.\<close>

lemma distinct_keys_map:
  "(\<And>x. x \<in> set xs \<Longrightarrow> k (f x) = k x) \<Longrightarrow> distinct (map k (map f xs)) \<longleftrightarrow> distinct (map k xs)"
  by (metis (no_types, lifting) comp_apply map_cong map_map)

lemma content_cards_map:
  assumes "\<And>c. cardID (f c) = cardID c" and "\<And>c. card_ok c \<Longrightarrow> card_ok (f c)"
  shows "content_step d (d\<lparr>gacha_cards := map f (gacha_cards d)\<rparr>)"
  using assms by (auto simp: content_step_def economy_frame_def content_ok_def comp_def)

lemma content_banners_map:
  assumes "\<And>b. bannerID (f b) = bannerID b" and "\<And>b. window_ok b \<Longrightarrow> window_ok (f b)"
  shows "content_step d (d\<lparr>gacha_banners := map f (gacha_banners d)\<rparr>)"
  using assms by (auto simp: content_step_def economy_frame_def content_ok_def comp_def)

lemma content_pairs:
  "(distinct (gacha_banner_cards d) \<Longrightarrow> distinct ps) \<Longrightarrow> content_step d (d\<lparr>gacha_banner_cards := ps\<rparr>)"
  "(distinct (gacha_card_groups d) \<Longrightarrow> distinct ps) \<Longrightarrow> content_step d (d\<lparr>gacha_card_groups := ps\<rparr>)"
  by (auto simp: content_step_def economy_frame_def content_ok_def)

lemma content_groups:
  assumes "distinct (map groupName (gacha_groups d)) \<Longrightarrow> distinct (map groupID (gacha_groups d)) \<Longrightarrow>
      \<forall>g \<in> set (gacha_groups d). groupName g \<noteq> [] \<Longrightarrow>
      distinct (map groupName gs) \<and> distinct (map groupID gs) \<and> (\<forall>g \<in> set gs. groupName g \<noteq> [])"
  shows "content_step d (d\<lparr>gacha_groups := gs\<rparr>)"
  using assms by (auto simp: content_step_def economy_frame_def content_ok_def)

section \<open>Every operation keeps the content well-formed\<close>

abbreviation keeps_content :: "'a gacha \<Rightarrow> gacha_db \<Rightarrow> bool" where
  "keeps_content m d \<equiv> wp m (\<lambda>_. content_step d) (\<lambda>_. content_step d) d"

lemma CreateCard_keeps: "keeps_content (CreateCard newID now req) d"
proof (cases "validateCardRequest req")
  case (Some e)
  then show ?thesis by (auto simp: CreateCard_def intro: wp_fail)
next
  case None
  let ?c = "\<lparr>cardID = newID, cardName = reqName req, cardSourceTitle = reqSourceTitle req,
     cardImagePath = reqImagePath req, cardBackPath = reqBackPath req, cardRarity = reqRarity req,
     cardEnabled = reqEnabled req, cardCreatedAt = now, cardDeletedAt = None\<rparr>"
  have ok: "card_ok ?c" using None by (auto simp: validateCardRequest_def card_ok_def split: if_splits)
  have create: "wp (repo_CreateCard ?c) (\<lambda>_. content_step d) (\<lambda>_. content_step d) d"
    unfolding repo_CreateCard_def using ok
    by (auto intro!: wp_command simp: content_step_def economy_frame_def content_ok_def list_ex_key
        split: if_splits)
  have groups: "wp (loop (\<lambda>_ g. repo_AddCardsToGroup g [newID]) () gs)
      (\<lambda>_. content_step d) (\<lambda>_. content_step d) d1" if "content_step d d1" for gs d1
    by (rule wp_loop [where I = "\<lambda>_. content_step d"])
       (use that in \<open>auto simp: repo_AddCardsToGroup_def
          intro!: wp_command content_step_trans [OF _ content_pairs(2)]\<close>)
  show ?thesis
    using None by (auto simp: CreateCard_def Let_def intro!: wp_bnd wp_mono [OF create] wp_mono [OF groups] wp_ret)
qed

lemma UpdateCard_keeps: "keeps_content (UpdateCard i req) d"
proof (cases "validateCardRequest req")
  case None
  then have ok: "card_ok (c\<lparr>cardName := reqName req, cardSourceTitle := reqSourceTitle req,
      cardImagePath := reqImagePath req, cardBackPath := reqBackPath req,
      cardRarity := reqRarity req, cardEnabled := reqEnabled req\<rparr>)" for c
    by (auto simp: validateCardRequest_def card_ok_def split: if_splits)
  with None show ?thesis
    by (auto simp: UpdateCard_def Let_def repo_GetCard_def repo_UpdateCard_def saveCard_def
        intro!: wp_rules content_cards_map split: if_splits option.splits)
qed (auto simp: UpdateCard_def intro: wp_fail)

lemma BulkUpdateCards_keeps: "keeps_content (BulkUpdateCards ids s) d"
proof -
  have "card_ok (applyBulk s c)"
    if "card_ok c" "setName s \<noteq> Some []" "\<not> (case setRarity s of None \<Rightarrow> False | Some r \<Rightarrow> \<not> ValidRarity r)"
    for c
    using that by (auto simp: applyBulk_def Let_def card_ok_def split: option.splits)
  moreover have "cardID (applyBulk s c) = cardID c" for c
    by (simp add: applyBulk_def Let_def split: option.split)
  ultimately show ?thesis
    by (auto simp: BulkUpdateCards_def repo_BulkUpdateCards_def
        intro!: wp_if wp_fail wp_command content_cards_map)
qed

lemma delete_cards_keeps:
  "keeps_content (repo_BulkDeleteCards ids now) d" "keeps_content (repo_DeleteCard i now) d"
  "keeps_content (BulkDeleteCards ids now) d"
  unfolding repo_BulkDeleteCards_def repo_DeleteCard_def BulkDeleteCards_def softDeleteCards_def
  by (auto intro!: wp_rules content_cards_map simp: card_ok_def)

lemma groups_keep:
  "keeps_content (CreateGroup newID now name) d" "keeps_content (RenameGroup i name) d"
  "keeps_content (repo_DeleteGroup i) d" "keeps_content (repo_AddCardsToGroup g ids) d"
  "keeps_content (repo_RemoveCardFromGroup g c) d"
proof -
  show "keeps_content (CreateGroup newID now name) d"
    by (auto simp: CreateGroup_def Let_def repo_CreateGroup_def list_ex_key
        intro!: wp_rules content_groups split: if_splits)
  have inj: "distinct (map groupName (map (\<lambda>g. if groupID g = i then g\<lparr>groupName := name\<rparr> else g) gs))"
    if "distinct (map groupName gs)" "distinct (map groupID gs)"
      "\<not> (\<exists>g \<in> set gs. groupID g \<noteq> i \<and> groupName g = name)" for gs
    using that by (induction gs) (auto simp: image_iff)
  have ids: "groupID (if b then g\<lparr>groupName := name\<rparr> else g) = groupID g" for b g by simp
  show "keeps_content (RenameGroup i name) d"
    using inj
    by (auto simp: RenameGroup_def repo_RenameGroup_def renameGroup_def list_ex_iff comp_def ids
        intro!: wp_rules content_groups split: if_splits)
  show "keeps_content (repo_DeleteGroup i) d"
    unfolding repo_DeleteGroup_def
  proof (rule wp_transaction, simp, rule wp_bnd, rule wp_command)
    fix d' :: gacha_db and a :: unit
    assume "(Inr (), d\<lparr>gacha_card_groups := filter (\<lambda>p. fst p \<noteq> i) (gacha_card_groups d)\<rparr>) =
        (Inr a, d' :: gacha_db)"
    then have step: "content_step d d'" by (auto intro: content_pairs)
    have "content_step d' (d'\<lparr>gacha_groups := filter (\<lambda>g. groupID g \<noteq> i) (gacha_groups d')\<rparr>)"
      by (auto intro!: content_groups simp: distinct_map_filter)
    with step show "wp (command (\<lambda>d. (Inr (), d\<lparr>gacha_groups :=
        filter (\<lambda>g. groupID g \<noteq> i) (gacha_groups d)\<rparr>))) (\<lambda>_. content_step d) (\<lambda>_ _. True) d'"
      by (auto intro!: wp_command elim: content_step_trans)
  qed auto
  show "keeps_content (repo_AddCardsToGroup g ids) d" "keeps_content (repo_RemoveCardFromGroup g c) d"
    unfolding repo_AddCardsToGroup_def repo_RemoveCardFromGroup_def
    by (auto intro!: wp_rules content_pairs)
qed


lemma window_okI:
  assumes "name \<noteq> []" and "validateBannerWindow f t = None"
    and "bannerName b = name" "bannerActiveFrom b = f" "bannerActiveTo b = t"
  shows "window_ok b"
  using assms by (auto simp: window_ok_def validateBannerWindow_def TimeAfter_def split: if_splits)

lemma CreateBanner_keeps: "keeps_content (CreateBanner newID now req) d"
proof (cases "reqBannerName req = [] \<or> validateBannerWindow (reqActiveFrom req) (reqActiveTo req) \<noteq> None")
  case False
  let ?b = "\<lparr>bannerID = newID, bannerName = reqBannerName req, bannerDescription = reqDescription req,
     bannerBackdropPath = reqBackdropPath req, bannerIsStandard = reqIsStandard req,
     bannerEnabled = reqBannerEnabled req, bannerActiveFrom = reqActiveFrom req,
     bannerActiveTo = reqActiveTo req, bannerSortOrder = reqSortOrder req, bannerCreatedAt = now,
     bannerDeletedAt = None\<rparr>"
  have "window_ok ?b" by (rule window_okI) (use False in auto)
  with False show ?thesis
    by (auto simp: CreateBanner_def Let_def repo_CreateBanner_def content_step_def economy_frame_def
        content_ok_def list_ex_key intro!: wp_rules split: if_splits)
qed (auto simp: CreateBanner_def intro: wp_fail split: option.split)

lemma UpdateBanner_keeps: "keeps_content (UpdateBanner i req) d"
proof (cases "reqBannerName req = [] \<or> validateBannerWindow (reqActiveFrom req) (reqActiveTo req) \<noteq> None")
  case False
  then have "window_ok (b\<lparr>bannerName := reqBannerName req, bannerDescription := reqDescription req,
      bannerBackdropPath := reqBackdropPath req, bannerIsStandard := reqIsStandard req,
      bannerEnabled := reqBannerEnabled req, bannerActiveFrom := reqActiveFrom req,
      bannerActiveTo := reqActiveTo req, bannerSortOrder := reqSortOrder req\<rparr>)" for b
    by (intro window_okI) auto
  with False show ?thesis
    by (auto simp: UpdateBanner_def Let_def GetBanner_def repo_UpdateBanner_def saveBanner_def
        intro!: wp_rules content_banners_map split: if_splits option.splits)
qed (auto simp: UpdateBanner_def intro: wp_fail split: option.split)

lemma banners_keep:
  "keeps_content (repo_DeleteBanner i now) d" "keeps_content (repo_SetCards b ids) d"
  "keeps_content (repo_AddCards b ids) d" "keeps_content (repo_AddGroupCards b g) d"
proof -
  show "keeps_content (repo_DeleteBanner i now) d"
    unfolding repo_DeleteBanner_def by (auto intro!: wp_rules content_banners_map simp: window_ok_def)
  show "keeps_content (repo_AddCards b ids) d" "keeps_content (repo_AddGroupCards b g) d"
    unfolding repo_AddCards_def repo_AddGroupCards_def by (auto intro!: wp_rules content_pairs)
  show "keeps_content (repo_SetCards b ids) d"
    unfolding repo_SetCards_def
    by (rule wp_transaction)
       (auto intro!: wp_rules content_pairs)
qed

end
