(* ===== verification/Gacha_Pull.thy ===== *)
theory Gacha_Pull
  imports Gacha_Roll Gacha_Content
begin

text \<open>
  A pull as one transaction: \<^verbatim>\<open>PullService.Pull\<close> (\<^verbatim>\<open>internal/service/pull.go\<close>) over
  \<^verbatim>\<open>internal/repo/pull.go\<close> and \<^verbatim>\<open>GetBanner\<close> of \<^verbatim>\<open>internal/repo/banner.go\<close>. An index out of range
  in the roll is \<open>GoPanic\<close>; GORM rolls a panicking transaction back. The two readings of the clock
  and the pull id (a time stamp and a random number) are arguments.
\<close>

section \<open>Repository\<close>

definition DebitTx :: "string \<Rightarrow> int \<Rightarrow> string \<Rightarrow> string \<Rightarrow> unit gacha" where
  "DebitTx userID amount reason ref =
     bnd (command (updateWallet userID (\<lambda>w. Balance w \<ge> amount) (addBalance (- amount)))) (\<lambda>rows.
     if rows = 0 then fail (errInvalidInput ''insufficient balance'')
     else command (insertLedger
            \<lparr>entryUser = userID, Delta = - amount, Reason = reason, Ref = ref\<rparr>))"

definition insertPityIgnore :: "string \<Rightarrow> string \<Rightarrow> gacha_db \<Rightarrow> (err + unit) \<times> gacha_db" where
  "insertPityIgnore u b d =
     (case gacha_pity d (u, b) of
        Some n \<Rightarrow> (Inr (), d)
      | None \<Rightarrow> (Inr (), d\<lparr>gacha_pity := (gacha_pity d)((u, b) \<mapsto> 0)\<rparr>))"

definition firstPity :: "string \<Rightarrow> string \<Rightarrow> gacha_db \<Rightarrow> (err + int) \<times> gacha_db" where
  "firstPity u b d =
     (case gacha_pity d (u, b) of None \<Rightarrow> (Inl RecordNotFound, d) | Some n \<Rightarrow> (Inr n, d))"

definition GetPityForUpdate :: "string \<Rightarrow> string \<Rightarrow> int gacha" where
  "GetPityForUpdate userID bannerID' =
     bnd (command (insertPityIgnore userID bannerID')) (\<lambda>_. command (firstPity userID bannerID'))"

definition updatePity :: "string \<Rightarrow> string \<Rightarrow> int \<Rightarrow> gacha_db \<Rightarrow> (err + unit) \<times> gacha_db" where
  "updatePity u b n d =
     (case gacha_pity d (u, b) of
        None \<Rightarrow> (Inr (), d)
      | Some _ \<Rightarrow> (Inr (), d\<lparr>gacha_pity := (gacha_pity d)((u, b) \<mapsto> n)\<rparr>))"

definition SavePityTx :: "string \<Rightarrow> string \<Rightarrow> int \<Rightarrow> unit gacha" where
  "SavePityTx userID bannerID' n = command (updatePity userID bannerID' n)"

text \<open>\<^verbatim>\<open>INSERT ... ON CONFLICT (user_id, card_id) DO UPDATE SET count = count + 1\<close>.\<close>

definition bumpEntry :: "instant \<Rightarrow> collection_entry option \<Rightarrow> collection_entry" where
  "bumpEntry now old =
     (case old of
        None \<Rightarrow> \<lparr>Count = 1, FirstObtainedAt = now\<rparr>
      | Some en \<Rightarrow> en\<lparr>Count := Count en + 1\<rparr>)"

definition upsertCollection ::
  "string \<Rightarrow> string \<Rightarrow> instant \<Rightarrow> gacha_db \<Rightarrow> (err + unit) \<times> gacha_db" where
  "upsertCollection u cid now d =
     (Inr (), d\<lparr>gacha_collection :=
        AList.update (u, cid) (bumpEntry now (map_of (gacha_collection d) (u, cid)))
          (gacha_collection d)\<rparr>)"

definition addOne :: "string \<Rightarrow> instant \<Rightarrow> string list \<Rightarrow> string \<Rightarrow> string list gacha" where
  "addOne userID now newIDs cid =
     bnd (query (\<lambda>d. map_of (gacha_collection d) (userID, cid) \<noteq> None)) (\<lambda>existing.
     bnd (command (upsertCollection userID cid now)) (\<lambda>_.
     ret (if \<not> existing \<and> cid \<notin> set newIDs then cid # newIDs else newIDs)))"

definition readCount ::
  "string \<Rightarrow> (string \<times> int) list \<Rightarrow> string \<Rightarrow> (string \<times> int) list gacha" where
  "readCount userID counts cid =
     (if map_of counts cid \<noteq> None then ret counts
      else
        bnd (query (\<lambda>d. case map_of (gacha_collection d) (userID, cid) of
               None \<Rightarrow> 0 | Some en \<Rightarrow> Count en)) (\<lambda>c.
        ret ((cid, c) # counts)))"

definition AddToCollectionTx ::
  "string \<Rightarrow> string list \<Rightarrow> instant \<Rightarrow> (string list \<times> (string \<times> int) list) gacha" where
  "AddToCollectionTx userID cardIDs now =
     bnd (loop (addOne userID now) [] cardIDs) (\<lambda>newIDs.
     bnd (loop (readCount userID) [] cardIDs) (\<lambda>counts.
     ret (newIDs, counts)))"

section \<open>Pull\<close>

definition bannerActiveNow :: "banner \<Rightarrow> instant \<Rightarrow> bool" where
  "bannerActiveNow b now =
     (if \<not> bannerEnabled b then False
      else if (case bannerActiveFrom b of None \<Rightarrow> False | Some t \<Rightarrow> TimeAfter t now) then False
      else if (case bannerActiveTo b of None \<Rightarrow> False | Some t \<Rightarrow> TimeBefore t now) then False
      else True)"

record pulled_card =
  pulledCard :: card
  pulledNew :: bool
  pulledCount :: int

record pull_result =
  resultCards :: "pulled_card list"
  resultBalance :: int
  resultPity :: int

definition pullMode :: "economy_config \<Rightarrow> string \<Rightarrow> (nat \<times> int \<times> string) option" where
  "pullMode econ mode =
     (if mode = ''x1'' then Some (1, PullCostX1 econ, ReasonPullX1)
      else if mode = ''x10'' then Some (10, PullCostX10 econ, ReasonPullX10)
      else None)"

text \<open>The response rows: \<open>New\<close> only on the first occurrence of a freshly obtained card.\<close>

fun markCards :: "string list \<Rightarrow> (string \<times> int) list \<Rightarrow> string list \<Rightarrow> card list \<Rightarrow> pulled_card list" where
  "markCards newIDs counts seen [] = []"
| "markCards newIDs counts seen (c # cs) =
     (let isNew = cardID c \<in> set newIDs \<and> cardID c \<notin> set seen in
      \<lparr>pulledCard = c, pulledNew = isNew,
       pulledCount = (case map_of counts (cardID c) of None \<Rightarrow> 0 | Some n \<Rightarrow> n)\<rparr>
      # markCards newIDs counts (if isNew then cardID c # seen else seen) cs)"

definition pullTx :: "economy_config \<Rightarrow> tier_entry list \<Rightarrow> pool \<Rightarrow> rand \<Rightarrow> instant \<Rightarrow> string
    \<Rightarrow> string \<Rightarrow> string \<Rightarrow> nat \<Rightarrow> int \<Rightarrow> string \<Rightarrow> pull_result gacha" where
  "pullTx econ table pool rnd now pullID userID bannerID' n cost reason =
     bnd (DebitTx userID cost reason pullID) (\<lambda>_.
     bnd (GetPityForUpdate userID bannerID') (\<lambda>pity.
     case rollPack econ table pool rnd n pity of
       None \<Rightarrow> fail GoPanic
     | Some (rolled, pity') \<Rightarrow>
         bnd (AddToCollectionTx userID (map cardID rolled) now) (\<lambda>(newIDs, counts).
         bnd (SavePityTx userID bannerID' pity') (\<lambda>_.
         bnd (command (firstWallet userID)) (\<lambda>w.
         ret \<lparr>resultCards = markCards newIDs counts [] rolled,
              resultBalance = Balance w, resultPity = pity'\<rparr>)))))"

definition Pull :: "economy_config \<Rightarrow> bool \<Rightarrow> rand \<Rightarrow> instant \<Rightarrow> instant \<Rightarrow> string
    \<Rightarrow> string \<Rightarrow> string \<Rightarrow> string \<Rightarrow> pull_result gacha" where
  "Pull econ enabled rnd now obtainedAt pullID userID bannerID' mode =
     (if \<not> enabled then fail (errInvalidInput ''gacha is disabled'')
      else case pullMode econ mode of
        None \<Rightarrow> fail (errInvalidInput ''mode must be x1 or x10'')
      | Some (n, cost, reason) \<Rightarrow>
          bnd (GetBanner bannerID') (\<lambda>banner.
          if \<not> bannerActiveNow banner now then fail (errInvalidInput ''banner is not active'')
          else
            bnd (CardsByRarity bannerID') (\<lambda>pool.
            if poolSize pool = 0 then fail (errInvalidInput ''banner has no cards'')
            else
              let table = buildTierTable (econWeights econ) pool in
              if table = [] then fail (errInvalidInput ''banner has no rollable cards'')
              else transaction (pullTx econ table pool rnd obtainedAt pullID userID bannerID'
                     n cost reason))))"

section \<open>Statements of the pull\<close>

text \<open>Loop rule with the processed prefix in the invariant.\<close>

lemma wp_loop_prefix:
  assumes "\<And>ps x acc d. I ps acc d \<Longrightarrow> wp (body acc x) (I (ps @ [x])) E d"
    and "I ps acc d"
  shows "wp (loop body acc xs) (I (ps @ xs)) E d"
  using assms(2)
proof (induction xs arbitrary: ps acc d)
  case Nil
  then show ?case by (auto intro: wp_ret)
next
  case (Cons x xs)
  show ?case
    unfolding loop.simps
    by (rule wp_bnd, rule wp_mono [OF assms(1) [OF Cons.prems]])
       (use Cons.IH [of "ps @ [x]"] in auto)
qed

definition countOf :: "gacha_db \<Rightarrow> string \<Rightarrow> string \<Rightarrow> int" where
  "countOf d u cid = (case map_of (gacha_collection d) (u, cid) of None \<Rightarrow> 0 | Some en \<Rightarrow> Count en)"

definition owns :: "gacha_db \<Rightarrow> string \<Rightarrow> string \<Rightarrow> bool" where
  "owns d u cid \<longleftrightarrow> map_of (gacha_collection d) (u, cid) \<noteq> None"

lemma upsert_facts:
  assumes "upsertCollection u cid now d = (Inr (), d')"
  shows "countOf d' v c = countOf d v c + (if v = u \<and> c = cid then 1 else 0)"
    and "owns d' v c \<longleftrightarrow> owns d v c \<or> v = u \<and> c = cid"
    and "gacha_collection_update (\<lambda>_. []) d' = gacha_collection_update (\<lambda>_. []) d"
    and "distinct (map fst (gacha_collection d)) \<Longrightarrow> distinct (map fst (gacha_collection d'))"
  using assms
  by (auto simp: upsertCollection_def countOf_def owns_def update_conv' bumpEntry_def
      distinct_update split: option.splits)

text \<open>Everything but the collection: what the collection loop leaves alone.\<close>

abbreviation frame_collection :: "gacha_db \<Rightarrow> gacha_db" where
  "frame_collection \<equiv> gacha_collection_update (\<lambda>_. [])"

definition collected :: "gacha_db \<Rightarrow> string \<Rightarrow> string list \<Rightarrow> string list \<Rightarrow> gacha_db \<Rightarrow> bool" where
  "collected d u ids newIDs d' \<longleftrightarrow>
     frame_collection d' = frame_collection d
   \<and> (\<forall>v c. countOf d' v c = countOf d v c + (if v = u then int (count_list ids c) else 0))
   \<and> (\<forall>v c. owns d' v c \<longleftrightarrow> owns d v c \<or> v = u \<and> c \<in> set ids)
   \<and> set newIDs = {c \<in> set ids. \<not> owns d u c}
   \<and> (distinct (map fst (gacha_collection d)) \<longrightarrow> distinct (map fst (gacha_collection d')))"

lemma addOne_step:
  assumes "collected d u ids newIDs d1"
  shows "wp (addOne u now newIDs x) (\<lambda>n d'. collected d u (ids @ [x]) n d') (\<lambda>_ _. True) d1"
proof -
  have step: "collected d u (ids @ [x]) (if \<not> owns d1 u x \<and> x \<notin> set newIDs then x # newIDs else newIDs) d2"
    if "upsertCollection u x now d1 = (Inr (), d2)" for d2
    using assms upsert_facts [OF that] by (auto simp: collected_def)
  show ?thesis
    unfolding addOne_def
    by (auto intro!: wp_rules step simp: owns_def [symmetric] simp del: not_None_eq)
qed

definition counted :: "gacha_db \<Rightarrow> string \<Rightarrow> string list \<Rightarrow> (string \<times> int) list \<Rightarrow> bool" where
  "counted d u ids counts \<longleftrightarrow>
     (\<forall>c. map_of counts c = (if c \<in> set ids then Some (countOf d u c) else None))"

lemma readCount_step:
  assumes "counted d u ids counts"
  shows "wp (readCount u counts x) (\<lambda>n d'. d' = d \<and> counted d u (ids @ [x]) n) (\<lambda>_ _. True) d"
  unfolding readCount_def using assms
  by (auto intro!: wp_rules simp: countOf_def [symmetric] counted_def split: if_splits)

lemma AddToCollectionTx_spec:
  "wp (AddToCollectionTx u ids now)
     (\<lambda>(newIDs, counts) d'. collected d u ids newIDs d' \<and> counted d' u ids counts)
     (\<lambda>_ _. True) d"
proof -
  have start: "collected d u [] [] d" by (simp add: collected_def)
  have adds: "wp (loop (addOne u now) [] ids) (\<lambda>n d'. collected d u ids n d') (\<lambda>_ _. True) d"
    using wp_loop_prefix [where I = "\<lambda>ps. collected d u ps" and ps = "[]", OF addOne_step start]
    by simp
  have reads: "wp (loop (readCount u) [] ids) (\<lambda>n d'. d' = d1 \<and> counted d1 u ids n) (\<lambda>_ _. True) d1"
    for d1
    using wp_loop_prefix [where I = "\<lambda>ps n d'. d' = d1 \<and> counted d1 u ps n" and ps = "[]"
        and body = "readCount u" and d = d1 and acc = "[]" and E = "\<lambda>_ _. True"]
      readCount_step by (auto simp: counted_def)
  show ?thesis
    unfolding AddToCollectionTx_def
    by (rule wp_bnd, rule wp_mono [OF adds], rule wp_bnd, rule wp_mono [OF reads])
       (auto intro!: wp_rules)
qed

lemma DebitTx_spec:
  fixes u amount reason ref
  defines "e \<equiv> \<lparr>entryUser = u, Delta = - amount, Reason = reason, Ref = ref\<rparr>"
  shows "wp (DebitTx u amount reason ref)
     (\<lambda>_ d'. d' = posting id e d \<and> amount \<le> balance_of d u \<and> gacha_wallets d u \<noteq> None
        \<and> \<not> ledgerConflict e (gacha_ledger d)) (\<lambda>_ _. True) d"
  unfolding DebitTx_def
  by (auto intro!: wp_rules simp: sql_defs posting_eq e_def balance_of_def split: if_splits option.splits)

definition pity_of :: "gacha_db \<Rightarrow> string \<Rightarrow> string \<Rightarrow> int" where
  "pity_of d u b = (case gacha_pity d (u, b) of None \<Rightarrow> 0 | Some n \<Rightarrow> n)"

lemma GetPityForUpdate_spec:
  "wp (GetPityForUpdate u b)
     (\<lambda>p d'. p = pity_of d u b \<and> d' = d\<lparr>gacha_pity := (gacha_pity d)((u, b) \<mapsto> p)\<rparr>)
     (\<lambda>_ _. True) d"
  unfolding GetPityForUpdate_def
  by (auto intro!: wp_rules simp: insertPityIgnore_def firstPity_def pity_of_def fun_upd_idem
      split: option.splits)

lemma SavePityTx_spec:
  assumes "gacha_pity d (u, b) \<noteq> None"
  shows "wp (SavePityTx u b n) (\<lambda>_ d'. d' = d\<lparr>gacha_pity := (gacha_pity d)((u, b) \<mapsto> n)\<rparr>)
     (\<lambda>_ _. True) d"
  unfolding SavePityTx_def using assms
  by (auto intro!: wp_rules simp: updatePity_def split: option.splits)

lemma markCards_nth:
  assumes "i < length cs"
  shows "pulledCard (markCards newIDs counts seen cs ! i) = cs ! i
    \<and> pulledCount (markCards newIDs counts seen cs ! i) =
        (case map_of counts (cardID (cs ! i)) of None \<Rightarrow> 0 | Some n \<Rightarrow> n)
    \<and> (pulledNew (markCards newIDs counts seen cs ! i) \<longleftrightarrow>
        cardID (cs ! i) \<in> set newIDs \<and> cardID (cs ! i) \<notin> set seen
        \<and> cardID (cs ! i) \<notin> cardID ` set (take i cs))"
  using assms
proof (induction cs arbitrary: i seen)
  case (Cons c cs)
  then show ?case by (cases i) (auto simp: Let_def)
qed simp

lemma length_markCards [simp]: "length (markCards newIDs counts seen cs) = length cs"
  by (induction cs arbitrary: seen) (auto simp: Let_def)

lemma map_markCards [simp]: "map pulledCard (markCards newIDs counts seen cs) = cs"
  by (rule nth_equalityI) (simp_all add: markCards_nth)

lemma pack_run:
  assumes "rand_ok rnd" and "buildTierTable (econWeights econ) (groupByRarity rows) \<noteq> []"
  obtains cards where "rollPack econ (buildTierTable (econWeights econ) (groupByRarity rows))
      (groupByRarity rows) rnd n pity = Some (cards, pityAfter pity cards)"
    and "length cards = n" and "set cards \<subseteq> set rows"
proof -
  have "reachableCards (groupByRarity rows) \<subseteq> set rows" by (auto simp: reachableCards_def)
  then show thesis
    using that by (rule_tac rollPack_run [OF assms pool_ok_groupByRarity, of n pity]) blast
qed

section \<open>The books of a pull\<close>

definition resultIDs :: "pull_result \<Rightarrow> string list" where
  "resultIDs r = map (\<lambda>p. cardID (pulledCard p)) (resultCards r)"

text \<open>
  What a successful pull of \<open>n\<close> cards for \<open>cost\<close> leaves in the database and reports: one posting of
  the cost, the pity counter, one more of each card, and a result that agrees with them.
\<close>

definition pull_done :: "string \<Rightarrow> string \<Rightarrow> nat \<Rightarrow> ledger_entry \<Rightarrow> gacha_db \<Rightarrow> pull_result \<Rightarrow> gacha_db \<Rightarrow> bool" where
  "pull_done u b n e d r d' \<longleftrightarrow>
     frame_collection d' = frame_collection ((posting id e d)\<lparr>gacha_pity := (gacha_pity d)((u, b) \<mapsto> resultPity r)\<rparr>)
   \<and> 0 \<le> balance_of d u + Delta e \<and> gacha_wallets d u \<noteq> None
   \<and> resultBalance r = balance_of d u + Delta e
   \<and> length (resultCards r) = n
   \<and> set (map pulledCard (resultCards r)) \<subseteq> set (bannerPoolRows b d)
   \<and> resultPity r = pityAfter (pity_of d u b) (map pulledCard (resultCards r))
   \<and> (\<forall>v c. countOf d' v c = countOf d v c + (if v = u then int (count_list (resultIDs r) c) else 0))
   \<and> (\<forall>v c. owns d' v c \<longleftrightarrow> owns d v c \<or> v = u \<and> c \<in> set (resultIDs r))
   \<and> (distinct (map fst (gacha_collection d)) \<longrightarrow> distinct (map fst (gacha_collection d')))
   \<and> (\<forall>i < n. pulledCount (resultCards r ! i) = countOf d' u (resultIDs r ! i)
        \<and> (pulledNew (resultCards r ! i) \<longleftrightarrow>
             \<not> owns d u (resultIDs r ! i) \<and> resultIDs r ! i \<notin> set (take i (resultIDs r))))"

lemma collection_frame_eqs:
  assumes "frame_collection d' = frame_collection d"
  shows "gacha_wallets d' = gacha_wallets d" "gacha_ledger d' = gacha_ledger d"
    "gacha_pity d' = gacha_pity d" "gacha_cards d' = gacha_cards d"
    "gacha_banners d' = gacha_banners d" "gacha_banner_cards d' = gacha_banner_cards d"
    "gacha_groups d' = gacha_groups d" "gacha_card_groups d' = gacha_card_groups d"
    "balance_of d' u = balance_of d u"
  using assms by (cases d; cases d'; simp add: balance_of_def)+

lemma posting_collection [simp]:
  "gacha_collection (posting f e d) = gacha_collection d"
  "gacha_pity (posting f e d) = gacha_pity d"
  "countOf (posting f e d) v c = countOf d v c"
  "owns (posting f e d) v c = owns d v c"
  "pity_of (posting f e d) v b = pity_of d v b"
  "countOf (gacha_pity_update g d) v c = countOf d v c"
  "owns (gacha_pity_update g d) v c = owns d v c"
  by (simp_all add: posting_def countOf_def owns_def pity_of_def)

lemma pull_doneI:
  fixes u b n cost reason pullID
  defines "e \<equiv> \<lparr>entryUser = u, Delta = - cost, Reason = reason, Ref = pullID\<rparr>"
  assumes rolled: "length rolled = n" "set rolled \<subseteq> set (bannerPoolRows b d)"
    "pity' = pityAfter (pity_of d u b) rolled"
    and debit: "cost \<le> balance_of d u" "gacha_wallets d u \<noteq> None"
    and coll: "collected ((posting id e d)\<lparr>gacha_pity := (gacha_pity d)((u, b) \<mapsto> p)\<rparr>) u
       (map cardID rolled) newIDs d2"
    and counts: "counted d2 u (map cardID rolled) counts"
    and d': "d' = d2\<lparr>gacha_pity := (gacha_pity d2)((u, b) \<mapsto> pity')\<rparr>"
    and w: "gacha_wallets d' u = Some w"
    and r: "r = \<lparr>resultCards = markCards newIDs counts [] rolled, resultBalance = Balance w,
      resultPity = pity'\<rparr>"
  shows "pull_done u b n e d r d'"
proof -
  let ?d1 = "(posting id e d)\<lparr>gacha_pity := (gacha_pity d)((u, b) \<mapsto> p)\<rparr>"
  have fr: "frame_collection d2 = frame_collection ?d1" using coll by (simp add: collected_def)
  note eqs = collection_frame_eqs [OF fr]
  have ids: "resultIDs r = map cardID rolled"
    unfolding resultIDs_def r
    by (rule nth_equalityI) (simp_all add: markCards_nth)
  have cards: "map pulledCard (resultCards r) = rolled" by (simp add: r)
  have bal: "Balance w = balance_of d u - cost"
    using w debit(2) unfolding d' by (auto simp: eqs e_def posting_def balance_of_def addBalance_def)
  have frame: "frame_collection d' =
      frame_collection ((posting id e d)\<lparr>gacha_pity := (gacha_pity d)((u, b) \<mapsto> pity')\<rparr>)"
    using fr unfolding d' eqs by (cases d2; cases d) (simp add: posting_def)
  have n: "pulledCount (resultCards r ! i) = countOf d' u (resultIDs r ! i)
      \<and> (pulledNew (resultCards r ! i) \<longleftrightarrow>
           \<not> owns d u (resultIDs r ! i) \<and> resultIDs r ! i \<notin> set (take i (resultIDs r)))"
    if "i < n" for i
    using that rolled(1) coll counts unfolding ids
    by (auto simp: r markCards_nth counted_def collected_def d' take_map)
  show ?thesis
    unfolding pull_done_def cards ids
    using frame rolled debit bal n coll ids
    by (auto simp: r e_def collected_def d')
qed

lemma pullTx_tail:
  fixes u b n cost reason pullID
  defines "e \<equiv> \<lparr>entryUser = u, Delta = - cost, Reason = reason, Ref = pullID\<rparr>"
  assumes "length rolled = n" "set rolled \<subseteq> set (bannerPoolRows b d)"
    "pity' = pityAfter (pity_of d u b) rolled"
    and "cost \<le> balance_of d u" "gacha_wallets d u \<noteq> None"
    and coll: "collected ((posting id e d)\<lparr>gacha_pity := (gacha_pity d)((u, b) \<mapsto> p)\<rparr>) u
       (map cardID rolled) newIDs d2"
    and counts: "counted d2 u (map cardID rolled) counts"
  shows "wp (bnd (SavePityTx u b pity') (\<lambda>_. bnd (command (firstWallet u)) (\<lambda>w.
       ret \<lparr>resultCards = markCards newIDs counts [] rolled, resultBalance = Balance w,
            resultPity = pity'\<rparr>)))
     (pull_done u b n e d) (\<lambda>_ _. True) d2"
proof -
  have "gacha_pity d2 = (gacha_pity d)((u, b) \<mapsto> p)"
    using collection_frame_eqs(3) [OF conjunct1 [OF coll [unfolded collected_def]]] by simp
  then have "gacha_pity d2 (u, b) \<noteq> None" by simp
  from SavePityTx_spec [OF this] have save: "wp (SavePityTx u b pity')
      (\<lambda>_ d'. d' = d2\<lparr>gacha_pity := (gacha_pity d2)((u, b) \<mapsto> pity')\<rparr>) (\<lambda>_ _. True) d2" .
  note fin = pull_doneI [OF assms(2-8) [unfolded e_def] refl _ refl]
  show ?thesis
    by (rule wp_bnd, rule wp_mono [OF save], rule wp_bnd, rule wp_command)
       (auto simp: firstWallet_def e_def intro!: wp_ret fin split: option.splits)
qed

lemma pullTx_spec:
  fixes u b n cost reason pullID
  defines "e \<equiv> \<lparr>entryUser = u, Delta = - cost, Reason = reason, Ref = pullID\<rparr>"
    and "pool \<equiv> \<lambda>d. groupByRarity (bannerPoolRows b d)"
  assumes r: "rand_ok rnd" and t: "buildTierTable (econWeights econ) (pool d) \<noteq> []"
  shows "wp (pullTx econ (buildTierTable (econWeights econ) (pool d)) (pool d) rnd now pullID u b n cost reason)
     (pull_done u b n e d) (\<lambda>_ _. True) d"
proof -
  let ?t = "buildTierTable (econWeights econ) (pool d)"
  obtain rolled where roll: "rollPack econ ?t (pool d) rnd n (pity_of d u b) =
      Some (rolled, pityAfter (pity_of d u b) rolled)"
    "length rolled = n" "set rolled \<subseteq> set (bannerPoolRows b d)"
    using pack_run [OF r, of econ "bannerPoolRows b d" n "pity_of d u b"] t
    by (auto simp: pool_def)
  have rest: "wp (bnd (AddToCollectionTx u (map cardID rolled) now) (\<lambda>(newIDs, counts).
         bnd (SavePityTx u b (pityAfter (pity_of d u b) rolled)) (\<lambda>_.
         bnd (command (firstWallet u)) (\<lambda>w.
         ret \<lparr>resultCards = markCards newIDs counts [] rolled,
              resultBalance = Balance w, resultPity = pityAfter (pity_of d u b) rolled\<rparr>))))
      (pull_done u b n e d) (\<lambda>_ _. True)
      ((posting id e d)\<lparr>gacha_pity := (gacha_pity d)((u, b) \<mapsto> p)\<rparr>)"
    if "cost \<le> balance_of d u" "gacha_wallets d u \<noteq> None" for p
    by (rule wp_bnd, rule wp_mono [OF AddToCollectionTx_spec])
       (auto intro!: pullTx_tail [folded e_def] roll that simp: e_def)
  show ?thesis
    unfolding pullTx_def
    by (rule wp_bnd, rule wp_mono [OF DebitTx_spec], rule wp_bnd, rule wp_mono [OF GetPityForUpdate_spec])
       (auto simp: roll rest [unfolded e_def] e_def)
qed

lemma GetBanner_spec:
  "wp (GetBanner b)
     (\<lambda>x d'. d' = d \<and> find (\<lambda>y. bannerID y = b \<and> bannerDeletedAt y = None) (gacha_banners d) = Some x)
     (\<lambda>_ d'. d' = d) d"
  unfolding GetBanner_def by (auto intro!: wp_rules split: option.splits)

lemma CardsByRarity_spec:
  "wp (CardsByRarity b) (\<lambda>p d'. d' = d \<and> p = groupByRarity (bannerPoolRows b d)) (\<lambda>_ d'. d' = d) d"
  unfolding CardsByRarity_def by (auto intro!: wp_rules)

lemma Pull_spec:
  assumes r: "rand_ok rnd"
  shows "wp (Pull econ enabled rnd now obtainedAt pullID u b mode)
     (\<lambda>res d'. enabled \<and> (\<exists>n cost reason x. pullMode econ mode = Some (n, cost, reason)
        \<and> find (\<lambda>y. bannerID y = b \<and> bannerDeletedAt y = None) (gacha_banners d) = Some x
        \<and> bannerActiveNow x now
        \<and> pull_done u b n \<lparr>entryUser = u, Delta = - cost, Reason = reason, Ref = pullID\<rparr> d res d'))
     (\<lambda>_ d'. d' = d) d"
  unfolding Pull_def Let_def
  by (auto intro!: wp_rules wp_mono [OF GetBanner_spec] wp_mono [OF CardsByRarity_spec]
      wp_mono [OF pullTx_spec [OF r]])

section \<open>Pulls without faults\<close>

lemma twp_wp: "twp m (\<lambda>_ _. True) d \<Longrightarrow> wp m Q E d \<Longrightarrow> twp m Q d"
proof -
  assume m: "twp m (\<lambda>_ _. True) d" and w: "wp m Q E d"
  from m obtain a d' where run: "m (clean d) = (Inr a, clean d')" by (auto simp: twp_def)
  have "ends Q E (m (clean d))" using w by (simp add: wp_iff clean_def)
  with run show ?thesis by (auto simp: twp_def clean_def)
qed

lemma twp_total_loop:
  assumes "\<And>acc x d. twp (body acc x) (\<lambda>_ _. True) d"
  shows "twp (loop body acc xs) (\<lambda>_ _. True) d0"
  by (induction xs arbitrary: acc d0) (auto intro!: twp_ret twp_bnd twp_mono [OF assms])

lemma AddToCollectionTx_total: "twp (AddToCollectionTx u ids now) (\<lambda>_ _. True) d"
  unfolding AddToCollectionTx_def
proof (rule twp_bnd, rule twp_mono [OF twp_total_loop])
  show "twp (addOne u now acc x) (\<lambda>_ _. True) d" for acc x d
    unfolding addOne_def
    by (auto intro!: twp_bnd twp_query twp_ret twp_command simp: upsertCollection_def)
next
  fix newIDs d'
  have "twp (readCount u acc x) (\<lambda>_ _. True) d" for acc x d
    unfolding readCount_def by (auto intro!: twp_bnd twp_query twp_ret)
  then show "twp (bnd (loop (readCount u) [] ids) (\<lambda>counts. ret (newIDs, counts))) (\<lambda>_ _. True) d'"
    by (intro twp_bnd twp_mono [OF twp_total_loop]) (auto intro: twp_ret)
qed

lemma DebitTx_total:
  fixes u amount reason ref
  defines "e \<equiv> \<lparr>entryUser = u, Delta = - amount, Reason = reason, Ref = ref\<rparr>"
  assumes "gacha_wallets d u = Some w" and "0 \<le> amount" "amount \<le> Balance w" "fits64 (Balance w)"
    and "\<not> ledgerConflict e (gacha_ledger d)"
  shows "twp (DebitTx u amount reason ref) (\<lambda>_ _. True) d"
proof -
  have "fits64 (Balance w - amount)" using assms(3-5) by (simp add: fits64_def)
  then have u: "updateWallet u (\<lambda>w. Balance w \<ge> amount) (addBalance (- amount)) d =
      (Inr 1, d\<lparr>gacha_wallets := (gacha_wallets d)(u \<mapsto> addBalance (- amount) w)\<rparr>)"
    using assms(2,4) by (simp add: updateWallet_def)
  show ?thesis
    unfolding DebitTx_def
    by (rule twp_bnd, rule twp_command, rule u)
       (use assms(6) in \<open>auto simp: insertLedger_def e_def intro!: twp_command\<close>)
qed

lemma GetPityForUpdate_total: "twp (GetPityForUpdate u b) (\<lambda>_ _. True) d"
  unfolding GetPityForUpdate_def
  by (cases "gacha_pity d (u, b)")
     (auto intro!: twp_bnd twp_command simp: insertPityIgnore_def firstPity_def)

lemma SavePityTx_total: "twp (SavePityTx u b n) (\<lambda>_ d'. gacha_wallets d' = gacha_wallets d) d"
  unfolding SavePityTx_def
  by (cases "gacha_pity d (u, b)") (auto intro!: twp_command simp: updatePity_def)

lemma pullTx_total:
  fixes u b n cost reason pullID d
  defines "e \<equiv> \<lparr>entryUser = u, Delta = - cost, Reason = reason, Ref = pullID\<rparr>"
    and "pool \<equiv> groupByRarity (bannerPoolRows b d)"
  assumes r: "rand_ok rnd" and t: "buildTierTable (econWeights econ) pool \<noteq> []"
    and w: "gacha_wallets d u = Some w" "0 \<le> cost" "cost \<le> Balance w" "fits64 (Balance w)"
    and "\<not> ledgerConflict e (gacha_ledger d)"
  shows "twp (pullTx econ (buildTierTable (econWeights econ) pool) pool rnd now pullID u b n cost reason)
     (\<lambda>_ _. True) d"
proof -
  let ?t = "buildTierTable (econWeights econ) pool"
  have roll: "\<exists>cards. rollPack econ ?t pool rnd n p = Some (cards, pityAfter p cards)" for p
    using pack_run [OF r, of econ "bannerPoolRows b d" n p] t by (auto simp: pool_def)
  have debit: "twp (DebitTx u cost reason pullID) (\<lambda>_ d'. gacha_wallets d' u \<noteq> None) d"
    by (rule twp_mono [OF twp_wp [OF DebitTx_total DebitTx_spec]])
       (use assms in \<open>auto simp: e_def posting_def\<close>)
  have add: "twp (AddToCollectionTx u ids now) (\<lambda>_ d'. gacha_wallets d' u \<noteq> None) d1"
    if "gacha_wallets d1 u \<noteq> None" for ids d1
    by (rule twp_mono [OF twp_wp [OF AddToCollectionTx_total AddToCollectionTx_spec]])
       (use that in \<open>auto simp: collected_def dest: collection_frame_eqs(1)\<close>)
  have tail: "twp (bnd (SavePityTx u b p) (\<lambda>_. bnd (command (firstWallet u)) (\<lambda>w. ret (f w)))) (\<lambda>_ _. True) d1"
    if "gacha_wallets d1 u \<noteq> None" for p f d1
    by (rule twp_bnd, rule twp_mono [OF SavePityTx_total])
       (use that in \<open>auto intro!: twp_bnd twp_command twp_ret simp: firstWallet_def\<close>)
  have rest: "twp (case rollPack econ ?t pool rnd n p of
       None \<Rightarrow> fail GoPanic
     | Some (rolled, pity') \<Rightarrow>
         bnd (AddToCollectionTx u (map cardID rolled) now) (\<lambda>(newIDs, counts).
         bnd (SavePityTx u b pity') (\<lambda>_.
         bnd (command (firstWallet u)) (\<lambda>w.
         ret \<lparr>resultCards = markCards newIDs counts [] rolled,
              resultBalance = Balance w, resultPity = pity'\<rparr>)))) (\<lambda>_ _. True) d1"
    if "gacha_wallets d1 u \<noteq> None" for p d1
  proof -
    obtain cards where "rollPack econ ?t pool rnd n p = Some (cards, pityAfter p cards)"
      using roll by blast
    then show ?thesis
      by (auto intro!: twp_bnd twp_mono [OF add [OF that]] tail)
  qed
  have pity: "twp (GetPityForUpdate u b) (\<lambda>_ d'. gacha_wallets d' u \<noteq> None) d1"
    if "gacha_wallets d1 u \<noteq> None" for d1
    by (rule twp_mono [OF twp_wp [OF GetPityForUpdate_total GetPityForUpdate_spec]])
       (use that in auto)
  show ?thesis
    unfolding pullTx_def
    by (rule twp_bnd, rule twp_mono [OF debit], rule twp_bnd, rule twp_mono [OF pity], assumption)
       (rule rest)
qed

lemma Pull_errors:
  "wp (Pull econ enabled rnd now obtainedAt pullID u b mode) (\<lambda>_ _. True) (\<lambda>_ d'. d' = d) d"
proof -
  have tx: "wp (transaction m) (\<lambda>_ _. True) (\<lambda>_ d'. d' = d) d" for m :: "'a gacha"
    unfolding wp_iff
  proof (intro allI impI)
    fix s0 :: "gacha_db store"
    assume d: "data s0 = d"
    show "ends (\<lambda>_ _. True) (\<lambda>_ d'. d' = d) (transaction m s0)"
    proof (cases s0 rule: touch_cases)
      case (ok a s)
      obtain r s' where "m s = (r, s')" by force
      with ok d show ?thesis
        by (cases r; cases s' rule: touch_cases) (auto simp: transaction_def)
    qed (use d in \<open>auto simp: transaction_def\<close>)
  qed
  show ?thesis
    unfolding Pull_def Let_def
    by (auto intro!: wp_fail wp_if wp_option wp_prod wp_bnd tx
        wp_mono [OF GetBanner_spec] wp_mono [OF CardsByRarity_spec])
qed

text \<open>What a pull needs to go through.\<close>

definition pull_ready :: "economy_config \<Rightarrow> instant \<Rightarrow> string \<Rightarrow> string \<Rightarrow> string \<Rightarrow> string \<Rightarrow> gacha_db \<Rightarrow> bool" where
  "pull_ready econ now pullID u b mode d \<longleftrightarrow>
     (\<exists>n cost reason x. pullMode econ mode = Some (n, cost, reason) \<and> 0 \<le> cost
        \<and> find (\<lambda>y. bannerID y = b \<and> bannerDeletedAt y = None) (gacha_banners d) = Some x
        \<and> bannerActiveNow x now
        \<and> \<not> ledgerConflict \<lparr>entryUser = u, Delta = - cost, Reason = reason, Ref = pullID\<rparr> (gacha_ledger d))
   \<and> (\<exists>c \<in> set (bannerPoolRows b d). ValidRarity (cardRarity c))"

lemma poolSize_append:
  "distinct (map fst pool) \<Longrightarrow> poolSize (AList.update r (cardsOf pool r @ [c]) pool) = poolSize pool + 1"
  by (induction pool) (auto simp: poolSize_def cardsOf_def)

lemma poolSize_groupByRarity: "poolSize (groupByRarity cards) = int (length cards)"
proof -
  have "distinct (map fst pool) \<Longrightarrow> poolSize (foldl poolAppend pool cards) = poolSize pool + int (length cards)
      \<and> distinct (map fst (foldl poolAppend pool cards))" for pool
    by (induction cards arbitrary: pool)
       (auto simp: poolAppend_def poolSize_append distinct_update)
  then show ?thesis by (simp add: groupByRarity_def poolSize_def)
qed

lemma rollable_table:
  assumes "c \<in> set rows" and "ValidRarity (cardRarity c)"
  shows "buildTierTable weights (groupByRarity rows) \<noteq> []"
  using assms
  by (auto simp: table_Nil_iff rarityOrder_def hasCards_def filter_empty_conv ValidRarity_def)

lemma Pull_total:
  assumes r: "rand_ok rnd" and ready: "pull_ready econ now pullID u b mode d"
    and w: "gacha_wallets d u = Some w" "fits64 (Balance w)"
    and cost: "\<And>n cost reason. pullMode econ mode = Some (n, cost, reason) \<Longrightarrow> cost \<le> Balance w"
  shows "twp (Pull econ True rnd now obtainedAt pullID u b mode) (\<lambda>_ _. True) d"
proof -
  from ready obtain n cost reason x where m: "pullMode econ mode = Some (n, cost, reason)" "0 \<le> cost"
    and x: "find (\<lambda>y. bannerID y = b \<and> bannerDeletedAt y = None) (gacha_banners d) = Some x"
      "bannerActiveNow x now"
    and fresh: "\<not> ledgerConflict \<lparr>entryUser = u, Delta = - cost, Reason = reason, Ref = pullID\<rparr> (gacha_ledger d)"
    by (auto simp: pull_ready_def)
  from ready obtain c where c: "c \<in> set (bannerPoolRows b d)" "ValidRarity (cardRarity c)"
    by (auto simp: pull_ready_def)
  note t = rollable_table [OF c, of "econWeights econ"]
  have size: "poolSize (groupByRarity (bannerPoolRows b d)) \<noteq> 0"
    using c(1) by (auto simp: poolSize_groupByRarity)
  have banner: "twp (GetBanner b) (\<lambda>y d'. y = x \<and> d' = d) d"
    unfolding GetBanner_def using x by (auto intro!: twp_bnd twp_query twp_ret)
  have pool: "twp (CardsByRarity b) (\<lambda>p d'. p = groupByRarity (bannerPoolRows b d) \<and> d' = d) d"
    unfolding CardsByRarity_def by (auto intro!: twp_query)
  show ?thesis
    unfolding Pull_def Let_def using m x(2) size t
    by (auto intro!: twp_bnd twp_mono [OF banner] twp_mono [OF pool] twp_transaction
        pullTx_total r w cost fresh)
qed

lemma clean_data [simp]: "data (clean d) = d"
  by (simp add: clean_def)

definition sample_banner :: banner where
  "sample_banner = \<lparr>bannerID = ''std'', bannerName = ''std'', bannerDescription = [],
     bannerBackdropPath = [], bannerIsStandard = True, bannerEnabled = True, bannerActiveFrom = None,
     bannerActiveTo = None, bannerSortOrder = 0, bannerCreatedAt = 0, bannerDeletedAt = None\<rparr>"

definition sample_db :: gacha_db where
  "sample_db = \<lparr>gacha_wallets = [''u'' \<mapsto> \<lparr>Balance = 1000, StarterGranted = True, DailyStreak = 0,
       LastDailyAt = None\<rparr>],
     gacha_ledger = [\<lparr>entryUser = ''u'', Delta = 1000, Reason = ''gift'', Ref = ''g1''\<rparr>],
     gacha_pity = Map.empty, gacha_collection = [],
     gacha_cards = [sample_card ''a'' RarityN, sample_card ''b'' RaritySSR],
     gacha_banners = [sample_banner], gacha_banner_cards = [(''std'', ''a''), (''std'', ''b'')],
     gacha_groups = [], gacha_card_groups = []\<rparr>"

lemma sample_db_ready: "pull_ready sample_econ 0 ''p1'' ''u'' ''std'' ''x10'' sample_db"
  by (simp add: pull_ready_def sample_db_def pullMode_def sample_econ_def sample_banner_def
      bannerActiveNow_def ledgerConflict_def bannerPoolRows_def sample_card_def ValidRarity_def)

lemma sample_db_wallet:
  "gacha_wallets sample_db ''u'' = Some \<lparr>Balance = 1000, StarterGranted = True, DailyStreak = 0, LastDailyAt = None\<rparr>"
  by (simp add: sample_db_def)

lemma sample_pull_runs:
  "\<exists>r d'. Pull sample_econ True (\<lambda>_ _. 0) 0 0 ''p1'' ''u'' ''std'' ''x10'' (clean sample_db) = (Inr r, clean d')"
  using Pull_total [OF rand_ok_zero sample_db_ready sample_db_wallet, of 0]
  by (auto simp: twp_def fits64_def pullMode_def sample_econ_def)

section \<open>What a pull guarantees\<close>

text \<open>
  C10. Atomicity: whatever commands of the database fail, and whatever the random source returns, a
  pull that returns an error has changed nothing.
\<close>

theorem pull_atomic:
  assumes "Pull econ enabled rnd now obtainedAt pullID u b mode s = (Inl e, s')"
  shows "data s' = data s"
  using Pull_errors [of econ enabled rnd now obtainedAt pullID u b mode "data s"] assms
  by (auto simp: wp_iff dest!: spec [of _ s])

theorem pull_atomic_witness:
  "data (snd (Pull sample_econ True (\<lambda>_ _. 0) 0 0 ''p1'' ''u'' ''std'' ''x10''
     \<lparr>data = sample_db, faults = [True]\<rparr>)) = sample_db"
proof -
  have "Pull sample_econ True (\<lambda>_ _. 0) 0 0 ''p1'' ''u'' ''std'' ''x10''
      \<lparr>data = sample_db, faults = [True]\<rparr> = (Inl StoreFault, \<lparr>data = sample_db, faults = []\<rparr>)"
    by (simp add: Pull_def pullMode_def bnd_def GetBanner_def query_def command_def)
  from pull_atomic [OF this] this show ?thesis by simp
qed

text \<open>
  C26. The books of a pull: a successful pull runs on an active banner in a known mode, debits the
  cost of that mode exactly once from a balance that covers it, appends one ledger row, adds each
  rolled card once to the collection, saves the number of cards since the last SSR, and reports the
  resulting balance, counts, and \<open>New\<close> exactly on the first copy of each card the user did not own.
\<close>

theorem pull_books:
  assumes "rand_ok rnd"
    and "Pull econ enabled rnd now obtainedAt pullID u b mode s = (Inr r, s')"
  shows "enabled \<and> (\<exists>n cost reason x. pullMode econ mode = Some (n, cost, reason)
     \<and> find (\<lambda>y. bannerID y = b \<and> bannerDeletedAt y = None) (gacha_banners (data s)) = Some x
     \<and> bannerActiveNow x now
     \<and> pull_done u b n \<lparr>entryUser = u, Delta = - cost, Reason = reason, Ref = pullID\<rparr>
         (data s) r (data s'))"
  using Pull_spec [OF assms(1), of econ enabled now obtainedAt pullID u b mode "data s"] assms(2)
  by (auto simp: wp_iff dest!: spec [of _ s])

theorem pull_books_witness:
  "\<exists>r d'. Pull sample_econ True (\<lambda>_ _. 0) 0 0 ''p1'' ''u'' ''std'' ''x10'' (clean sample_db) = (Inr r, clean d')
     \<and> pull_done ''u'' ''std'' 10 \<lparr>entryUser = ''u'', Delta = - 900, Reason = ReasonPullX10, Ref = ''p1''\<rparr>
         sample_db r d'"
proof -
  obtain r d' where run: "Pull sample_econ True (\<lambda>_ _. 0) 0 0 ''p1'' ''u'' ''std'' ''x10'' (clean sample_db)
      = (Inr r, clean d')"
    using sample_pull_runs by blast
  from pull_books [OF rand_ok_zero run] run show ?thesis
    by (auto simp: pullMode_def sample_econ_def)
qed

text \<open>
  C35. Success: without faults, a pull on an active banner with a rollable pool by a user whose
  balance covers the cost returns a result (no panic, no error), as long as the pull id is fresh.
\<close>

theorem pull_succeeds:
  assumes "rand_ok rnd" and "pull_ready econ now pullID u b mode d"
    and "gacha_wallets d u = Some w" and "fits64 (Balance w)"
    and "\<forall>n cost reason. pullMode econ mode = Some (n, cost, reason) \<longrightarrow> cost \<le> Balance w"
  shows "\<exists>r d'. Pull econ True rnd now obtainedAt pullID u b mode (clean d) = (Inr r, clean d')"
  using Pull_total [OF assms(1-4), of obtainedAt] assms(5) by (auto simp: twp_def)

theorem pull_succeeds_witness:
  "\<exists>r d'. Pull sample_econ True (\<lambda>_ _. 0) 0 0 ''p1'' ''u'' ''std'' ''x10'' (clean sample_db) = (Inr r, clean d')"
  using pull_succeeds [OF rand_ok_zero sample_db_ready sample_db_wallet, of 0]
  by (simp add: fits64_def pullMode_def sample_econ_def)

text \<open>
  Overdrafts are refused: without faults, a pull whose cost exceeds the balance returns the
  insufficient-balance error and changes nothing, even the creation of a pity row.
\<close>

theorem pull_refuses_overdraft:
  assumes "pull_ready econ now pullID u b mode d"
    and "\<forall>n cost reason. pullMode econ mode = Some (n, cost, reason) \<longrightarrow> balance_of d u < cost"
  shows "Pull econ True rnd now obtainedAt pullID u b mode (clean d) =
           (Inl (errInvalidInput ''insufficient balance''), clean d)"
proof -
  from assms(1) obtain n cost reason x where m: "pullMode econ mode = Some (n, cost, reason)"
    and x: "find (\<lambda>y. bannerID y = b \<and> bannerDeletedAt y = None) (gacha_banners d) = Some x"
      "bannerActiveNow x now"
    by (auto simp: pull_ready_def)
  from assms(1) obtain c where c: "c \<in> set (bannerPoolRows b d)" "ValidRarity (cardRarity c)"
    by (auto simp: pull_ready_def)
  note t = rollable_table [OF c, of "econWeights econ"]
  have size: "poolSize (groupByRarity (bannerPoolRows b d)) \<noteq> 0"
    using c(1) by (auto simp: poolSize_groupByRarity)
  have poor: "updateWallet u (\<lambda>w. Balance w \<ge> cost) f d = (Inr 0, d)" for f
    using assms(2) m by (auto simp: updateWallet_def balance_of_def split: option.split)
  show ?thesis
    using m x size t poor
    by (simp add: Pull_def bnd_def GetBanner_def query_def command_def clean_def ret_def
        CardsByRarity_def Let_def transaction_def touch_def pullTx_def DebitTx_def fail_def)
qed

theorem pull_refuses_overdraft_witness:
  "Pull (sample_econ\<lparr>PullCostX10 := 1001\<rparr>) True (\<lambda>_ _. 0) 0 0 ''p1'' ''u'' ''std'' ''x10'' (clean sample_db) =
     (Inl (errInvalidInput ''insufficient balance''), clean sample_db)"
  by (rule pull_refuses_overdraft)
     (simp_all add: pull_ready_def sample_db_def pullMode_def sample_econ_def sample_banner_def
      bannerActiveNow_def ledgerConflict_def bannerPoolRows_def sample_card_def ValidRarity_def balance_of_def)

end
