(* ===== verification/Gacha_Views.thy ===== *)
theory Gacha_Views
  imports Gacha_Pull
begin

text \<open>
  The views of a player (\<^verbatim>\<open>internal/service/pull.go\<close>): the banners active now with their pools and
  the player's pity, and the collection album with the progress per tier; the reads they use are in
  \<^verbatim>\<open>internal/repo/pull.go\<close>, \<^verbatim>\<open>repo/banner.go\<close> and \<^verbatim>\<open>repo/card.go\<close>. A Go \<^verbatim>\<open>map\<close> that is built and
  then only read is a function to \<open>option\<close>.
\<close>

section \<open>Reads\<close>

definition ListCollection :: "string \<Rightarrow> (string \<times> collection_entry) list gacha" where
  "ListCollection u = query (\<lambda>d.
     map (\<lambda>(k, en). (snd k, en)) (filter (\<lambda>(k, en). fst k = u) (gacha_collection d)))"

definition GetPity :: "string \<Rightarrow> string \<Rightarrow> int gacha" where
  "GetPity u b =
     attempt (command (firstPity u b)) (\<lambda>r.
       case r of
         Inl e \<Rightarrow> if e = RecordNotFound then ret 0 else fail e
       | Inr n \<Rightarrow> ret n)"

definition ownedSet :: "string \<Rightarrow> (string \<Rightarrow> int option) gacha" where
  "ownedSet u =
     bnd (ListCollection u) (\<lambda>entries.
     ret (foldl (\<lambda>owned (cid, en). owned(cid \<mapsto> Count en)) Map.empty entries))"

section \<open>Active banners\<close>

record banner_card_view =
  viewCardID :: string
  viewCardName :: string
  viewCardRarity :: rarity
  viewCardImage :: string
  viewCardBack :: string
  viewCardOwned :: bool

record banner_view =
  viewID :: string
  viewName :: string
  viewDescription :: string
  viewBackdrop :: string
  viewStandard :: bool
  viewCards :: "banner_card_view list"
  viewPity :: int
  viewThreshold :: int

definition cardView :: "(string \<Rightarrow> int option) \<Rightarrow> card \<Rightarrow> banner_card_view" where
  "cardView owned c = \<lparr>viewCardID = cardID c, viewCardName = cardName c, viewCardRarity = cardRarity c,
     viewCardImage = cardImagePath c, viewCardBack = cardBackPath c,
     viewCardOwned = (case owned (cardID c) of None \<Rightarrow> False | Some n \<Rightarrow> n > 0)\<rparr>"

definition bannerView :: "economy_config \<Rightarrow> string \<Rightarrow> (string \<Rightarrow> int option) \<Rightarrow> banner_view list
    \<Rightarrow> banner \<Rightarrow> banner_view list gacha" where
  "bannerView econ u owned views b =
     bnd (CardsByRarity (bannerID b)) (\<lambda>pool.
     bnd (GetPity u (bannerID b)) (\<lambda>pity.
     ret (views @ [\<lparr>viewID = bannerID b, viewName = bannerName b,
        viewDescription = bannerDescription b, viewBackdrop = bannerBackdropPath b,
        viewStandard = bannerIsStandard b,
        viewCards = concat (map (\<lambda>tier. map (cardView owned) (cardsOf pool tier)) rarityOrder),
        viewPity = pity, viewThreshold = PityThreshold econ\<rparr>])))"

definition ActiveBannersView :: "economy_config \<Rightarrow> bool \<Rightarrow> string \<Rightarrow> instant \<Rightarrow> banner_view list gacha" where
  "ActiveBannersView econ enabled u now =
     (if \<not> enabled then ret []
      else
        bnd (repo_ActiveNow now) (\<lambda>banners.
        bnd (ownedSet u) (\<lambda>owned.
        loop (bannerView econ u owned) [] banners)))"

section \<open>The album\<close>

record collection_card_view =
  albumCard :: card
  albumOwned :: bool
  albumCount :: int
  albumFirst :: "instant option"

record rarity_progress =
  progOwned :: int
  progTotal :: int

record collection_view =
  albumCards :: "collection_card_view list"
  albumProgress :: "rarity \<Rightarrow> rarity_progress option"

definition addToAlbum :: "(string \<Rightarrow> collection_entry option) \<Rightarrow> collection_view \<Rightarrow> card \<Rightarrow> collection_view" where
  "addToAlbum owned out c =
     (let prog = (case albumProgress out (cardRarity c) of
            None \<Rightarrow> \<lparr>progOwned = 0, progTotal = 0\<rparr> | Some p \<Rightarrow> p);
          prog = prog\<lparr>progTotal := progTotal prog + 1\<rparr>
      in case owned (cardID c) of
           None \<Rightarrow> \<lparr>albumCards = albumCards out @
                [\<lparr>albumCard = c, albumOwned = False, albumCount = 0, albumFirst = None\<rparr>],
              albumProgress = (albumProgress out)(cardRarity c \<mapsto> prog)\<rparr>
         | Some en \<Rightarrow> \<lparr>albumCards = albumCards out @
                [\<lparr>albumCard = c, albumOwned = True, albumCount = Count en,
                  albumFirst = Some (FirstObtainedAt en)\<rparr>],
              albumProgress = (albumProgress out)(cardRarity c \<mapsto>
                prog\<lparr>progOwned := progOwned prog + 1\<rparr>)\<rparr>)"

definition emptyAlbum :: collection_view where
  "emptyAlbum = \<lparr>albumCards = [], albumProgress = Map.empty\<rparr>"

definition CollectionView :: "bool \<Rightarrow> string \<Rightarrow> collection_view gacha" where
  "CollectionView enabled u =
     (if \<not> enabled then ret emptyAlbum
      else
        bnd (repo_ListCards \<lparr>filterRarity = [], filterEnabled = Some True, filterGroup = []\<rparr>) (\<lambda>allCards.
        bnd (ListCollection u) (\<lambda>entries.
        let ownedMap = foldl (\<lambda>m (cid, en). m(cid \<mapsto> en)) Map.empty entries
        in ret (foldl (addToAlbum ownedMap) emptyAlbum allCards))))"

section \<open>The reads agree with the tables\<close>

text \<open>One collection row per user and card, as the unique index has it, each with a positive count.\<close>

definition collection_ok :: "gacha_db \<Rightarrow> bool" where
  "collection_ok d \<longleftrightarrow> distinct (map fst (gacha_collection d))
     \<and> (\<forall>e \<in> set (gacha_collection d). 1 \<le> Count (snd e))"

lemma foldl_upd:
  "foldl (\<lambda>m (k, v). m(k \<mapsto> f v)) m0 kvs k =
     (case map_of (rev kvs) k of None \<Rightarrow> m0 k | Some v \<Rightarrow> Some (f v))"
  by (induction kvs arbitrary: m0) (auto simp: map_add_def split: option.splits)

lemma map_of_user:
  "map_of (map (\<lambda>(k, en). (snd k, en)) (filter (\<lambda>(k, en). fst k = u) kvs)) c = map_of kvs (u, c)"
  by (induction kvs) auto

lemma distinct_user:
  "distinct (map fst kvs) \<Longrightarrow>
   distinct (map fst (map (\<lambda>(k, en). (snd k, en)) (filter (\<lambda>(k, en). fst k = u) kvs)))"
  by (induction kvs) (force simp: split_beta)+

lemma map_of_rev_distinct: "distinct (map fst kvs) \<Longrightarrow> map_of (rev kvs) = map_of kvs"
  by (rule map_of_eqI) (auto simp: rev_map [symmetric] map_of_eq_Some_iff distinct_rev)

lemma ownedMap_eq:
  assumes "collection_ok d"
  shows "foldl (\<lambda>m (k, v). m(k \<mapsto> f v)) Map.empty
      (map (\<lambda>(k, en). (snd k, en)) (filter (\<lambda>(k, en). fst k = u) (gacha_collection d))) c =
    map_option f (map_of (gacha_collection d) (u, c))"
proof -
  let ?L = "map (\<lambda>(k, en). (snd k, en)) (filter (\<lambda>(k, en). fst k = u) (gacha_collection d))"
  have "map_of (rev ?L) = map_of ?L"
    by (rule map_of_rev_distinct, rule distinct_user) (use assms in \<open>simp add: collection_ok_def\<close>)
  then show ?thesis
    unfolding foldl_upd by (simp only: map_of_user) (simp split: option.split)
qed

lemma bannerActiveNow_row: "liveBanner b \<Longrightarrow> bannerActiveNow b now \<longleftrightarrow> activeRow now b"
  by (auto simp: activeRow_def bannerActiveNow_def TimeAfter_def TimeBefore_def split: option.splits)

lemma GetPity_spec: "wp (GetPity u b) (\<lambda>n d'. d' = d \<and> n = pity_of d u b) (\<lambda>_ d'. d' = d) d"
  unfolding GetPity_def
  by (auto intro!: wp_rules simp: firstPity_def pity_of_def split: option.splits sum.splits)


lemma ownedSet_spec:
  assumes "collection_ok d"
  shows "wp (ownedSet u)
     (\<lambda>m d'. d' = d \<and> (\<forall>c. m c = map_option Count (map_of (gacha_collection d) (u, c))))
     (\<lambda>_ d'. d' = d) d"
  unfolding ownedSet_def ListCollection_def
  using ownedMap_eq [OF assms, where f = Count] by (auto intro!: wp_rules)

text \<open>One banner's view agrees with the tables.\<close>

definition view_agrees :: "economy_config \<Rightarrow> string \<Rightarrow> gacha_db \<Rightarrow> banner \<Rightarrow> banner_view \<Rightarrow> bool" where
  "view_agrees econ u d b v \<longleftrightarrow>
     viewID v = bannerID b \<and> viewPity v = pity_of d u (bannerID b)
   \<and> viewThreshold v = PityThreshold econ
   \<and> (\<forall>x. x \<in> set (viewCards v) \<longleftrightarrow>
        (\<exists>c \<in> set (bannerPoolRows (bannerID b) d). ValidRarity (cardRarity c)
           \<and> x = \<lparr>viewCardID = cardID c, viewCardName = cardName c, viewCardRarity = cardRarity c,
                  viewCardImage = cardImagePath c, viewCardBack = cardBackPath c,
                  viewCardOwned = owns d u (cardID c)\<rparr>))"

lemma owned_flag:
  assumes "collection_ok d" and "owned c = map_option Count (map_of (gacha_collection d) (u, c))"
  shows "(case owned c of None \<Rightarrow> False | Some n \<Rightarrow> n > 0) \<longleftrightarrow> owns d u c"
proof (cases "map_of (gacha_collection d) (u, c)")
  case (Some en)
  then have "1 \<le> Count en" using assms(1) by (force simp: collection_ok_def dest: map_of_SomeD)
  then show ?thesis using Some assms(2) by (simp add: owns_def)
qed (use assms(2) in \<open>simp add: owns_def\<close>)

lemma view_cards:
  assumes "collection_ok d" and "\<forall>c. owned c = map_option Count (map_of (gacha_collection d) (u, c))"
  shows "x \<in> set (concat (map (\<lambda>tier. map (cardView owned)
       (filter (\<lambda>c. cardRarity c = tier) rows)) rarityOrder)) \<longleftrightarrow>
     (\<exists>c \<in> set rows. ValidRarity (cardRarity c)
        \<and> x = \<lparr>viewCardID = cardID c, viewCardName = cardName c, viewCardRarity = cardRarity c,
               viewCardImage = cardImagePath c, viewCardBack = cardBackPath c,
               viewCardOwned = owns d u (cardID c)\<rparr>)"
proof -
  have "cardView owned c = \<lparr>viewCardID = cardID c, viewCardName = cardName c, viewCardRarity = cardRarity c,
      viewCardImage = cardImagePath c, viewCardBack = cardBackPath c,
      viewCardOwned = owns d u (cardID c)\<rparr>" for c
    using owned_flag [OF assms(1)] assms(2) by (simp add: cardView_def)
  then show ?thesis by (auto simp: rarityOrder_def ValidRarity_def)
qed

lemma bannerView_step:
  assumes "collection_ok d" and "\<forall>c. owned c = map_option Count (map_of (gacha_collection d) (u, c))"
    and "list_all2 (view_agrees econ u d) bs views"
  shows "wp (bannerView econ u owned views b)
     (\<lambda>vs d'. d' = d \<and> list_all2 (view_agrees econ u d) (bs @ [b]) vs) (\<lambda>_ d'. d' = d) d"
  unfolding bannerView_def using assms
  by (auto intro!: wp_bnd wp_ret wp_mono [OF CardsByRarity_spec] wp_mono [OF GetPity_spec]
      list_all2_appendI simp: view_agrees_def view_cards simp del: set_concat)

lemma ActiveBannersView_spec:
  assumes "collection_ok d"
  shows "wp (ActiveBannersView econ enabled u now)
     (\<lambda>vs d'. d' = d \<and> list_all2 (view_agrees econ u d)
        (if enabled then orderActive (filter (activeRow now) (gacha_banners d)) else []) vs)
     (\<lambda>_ d'. d' = d) d"
proof -
  let ?I = "\<lambda>bs vs d'. d' = d \<and> list_all2 (view_agrees econ u d) bs vs"
  have body: "wp (loop (bannerView econ u owned) [] bs) (?I bs) (\<lambda>_ d'. d' = d) d"
    if "\<forall>c. owned c = map_option Count (map_of (gacha_collection d) (u, c))" for owned bs
    using wp_loop_prefix [where I = ?I and ps = "[]" and xs = bs and acc = "[]" and d = d
        and E = "\<lambda>_ d'. d' = d" and body = "bannerView econ u owned"]
      bannerView_step [OF assms that] by auto
  show ?thesis
    unfolding ActiveBannersView_def repo_ActiveNow_def
    by (auto intro!: wp_if wp_ret wp_bnd wp_query wp_mono [OF ownedSet_spec [OF assms]] body)
qed

lemma set_orderActive [simp]: "set (orderActive bs) = set bs"
  by (simp add: orderActive_def)

section \<open>The album agrees with the tables\<close>

definition album_agrees :: "string \<Rightarrow> gacha_db \<Rightarrow> card list \<Rightarrow> collection_view \<Rightarrow> bool" where
  "album_agrees u d cards v \<longleftrightarrow>
     map albumCard (albumCards v) = cards
   \<and> (\<forall>a \<in> set (albumCards v). (albumOwned a \<longleftrightarrow> owns d u (cardID (albumCard a)))
        \<and> albumCount a = countOf d u (cardID (albumCard a)))
   \<and> (\<forall>r. albumProgress v r =
        (if r \<in> cardRarity ` set cards
         then Some \<lparr>progOwned = int (length (filter (\<lambda>c. cardRarity c = r \<and> owns d u (cardID c)) cards)),
                    progTotal = int (length (filter (\<lambda>c. cardRarity c = r) cards))\<rparr>
         else None))"

lemma addToAlbum_step:
  assumes "album_agrees u d cards v" and "\<forall>c. owned c = map_of (gacha_collection d) (u, c)"
  shows "album_agrees u d (cards @ [c]) (addToAlbum owned v c)"
proof -
  let ?r = "cardRarity c"
  let ?own = "\<lambda>r cs. int (length (filter (\<lambda>c. cardRarity c = r \<and> owns d u (cardID c)) cs))"
  let ?tot = "\<lambda>r cs. int (length (filter (\<lambda>c. cardRarity c = r) cs))"
  have prog: "(case albumProgress v ?r of None \<Rightarrow> \<lparr>progOwned = 0, progTotal = 0\<rparr> | Some p \<Rightarrow> p) =
      \<lparr>progOwned = ?own ?r cards, progTotal = ?tot ?r cards\<rparr>"
  proof (cases "?r \<in> cardRarity ` set cards")
    case False
    then have "\<forall>x \<in> set cards. cardRarity x \<noteq> ?r" by (metis imageI)
    then have "filter (\<lambda>x. cardRarity x = ?r) cards = []"
      "filter (\<lambda>x. cardRarity x = ?r \<and> owns d u (cardID x)) cards = []"
      by (simp_all add: filter_empty_conv)
    then show ?thesis using False assms(1) by (simp add: album_agrees_def)
  qed (use assms(1) in \<open>simp add: album_agrees_def\<close>)
  have c: "owns d u (cardID c) \<longleftrightarrow> owned (cardID c) \<noteq> None"
    "countOf d u (cardID c) = (case owned (cardID c) of None \<Rightarrow> 0 | Some en \<Rightarrow> Count en)"
    using assms(2) by (simp_all add: owns_def countOf_def)
  have old: "map albumCard (albumCards v) = cards"
    "\<forall>a \<in> set (albumCards v). (albumOwned a \<longleftrightarrow> owns d u (cardID (albumCard a)))
        \<and> albumCount a = countOf d u (cardID (albumCard a))"
    "\<And>r. albumProgress v r = (if r \<in> cardRarity ` set cards
         then Some \<lparr>progOwned = ?own r cards, progTotal = ?tot r cards\<rparr> else None)"
    using assms(1) by (auto simp: album_agrees_def)
  show ?thesis
  proof (cases "owned (cardID c)")
    case None
    then show ?thesis
      unfolding album_agrees_def addToAlbum_def Let_def prog using old c by simp
  next
    case (Some en)
    then show ?thesis
      unfolding album_agrees_def addToAlbum_def Let_def prog using old c by simp
  qed
qed

lemma album_fold:
  assumes "\<forall>c. owned c = map_of (gacha_collection d) (u, c)"
  shows "album_agrees u d cards (foldl (addToAlbum owned) emptyAlbum cards)"
proof (induction cards rule: rev_induct)
  case Nil
  then show ?case by (simp add: album_agrees_def emptyAlbum_def)
qed (simp add: addToAlbum_step assms)


lemma album_lookup:
  assumes "collection_ok d"
  shows "foldl (\<lambda>m (cid, en). m(cid \<mapsto> en)) Map.empty
      (map (\<lambda>(k, en). (snd k, en)) (filter (\<lambda>(k, en). fst k = u) (gacha_collection d))) c =
    map_of (gacha_collection d) (u, c)"
  using ownedMap_eq [OF assms, where f = "\<lambda>x. x"] by (simp add: option.map_ident)

lemma CollectionView_spec:
  assumes "collection_ok d"
  shows "wp (CollectionView True u)
     (\<lambda>v d'. d' = d \<and> album_agrees u d
        (sort_key (\<lambda>c. - cardCreatedAt c) (filter (\<lambda>c. liveCard c \<and> cardEnabled c) (gacha_cards d))) v)
     (\<lambda>_ d'. d' = d) d"
  unfolding CollectionView_def repo_ListCards_def ListCollection_def Let_def
  using album_fold [of _ d u] album_lookup [OF assms]
  by (auto intro!: wp_bnd wp_query wp_ret)

section \<open>What a player sees\<close>

text \<open>
  The banners view offers exactly what a pull accepts: it changes nothing, its banners are the
  live banners for which the pull's own gate \<open>bannerActiveNow\<close> is open, each with the cards of its
  pull pool, the owned flags of the collection and the pity counter a pull would start from.
\<close>

theorem banners_view_is_pullable:
  assumes "collection_ok (data s)" and "ActiveBannersView econ True u now s = (Inr vs, s')"
  shows "data s' = data s \<and> (\<exists>bs. list_all2 (view_agrees econ u (data s)) bs vs
     \<and> set bs = {b \<in> set (gacha_banners (data s)). bannerDeletedAt b = None \<and> bannerActiveNow b now})"
proof -
  have "list_all2 (view_agrees econ u (data s))
      (orderActive (filter (activeRow now) (gacha_banners (data s)))) vs" "data s' = data s"
    using ActiveBannersView_spec [OF assms(1), of econ True u now] assms(2)
    by (auto simp: wp_iff dest!: spec [of _ s])
  moreover have "set (orderActive (filter (activeRow now) (gacha_banners (data s)))) =
      {b \<in> set (gacha_banners (data s)). bannerDeletedAt b = None \<and> bannerActiveNow b now}"
    using bannerActiveNow_row by (auto simp: liveBanner_def activeRow_def)
  ultimately show ?thesis by blast
qed

lemma sample_db_collection: "collection_ok sample_db"
  by (simp add: collection_ok_def sample_db_def)

theorem banners_view_is_pullable_witness:
  "\<exists>vs bs. ActiveBannersView sample_econ True ''u'' 0 (clean sample_db) = (Inr vs, clean sample_db)
     \<and> list_all2 (view_agrees sample_econ ''u'' sample_db) bs vs \<and> set bs = {sample_banner}"
proof -
  have "twp (ActiveBannersView sample_econ True ''u'' 0) (\<lambda>_ d'. d' = sample_db) sample_db"
    unfolding ActiveBannersView_def repo_ActiveNow_def ownedSet_def ListCollection_def bannerView_def
      CardsByRarity_def GetPity_def
    by (auto simp: sample_db_def orderActive_def activeRow_def sample_banner_def liveBanner_def
        twp_def bnd_def query_def command_def clean_def ret_def attempt_def firstPity_def)
  then obtain vs where run: "ActiveBannersView sample_econ True ''u'' 0 (clean sample_db) = (Inr vs, clean sample_db)"
    by (auto simp: twp_def)
  have only: "{b \<in> set (gacha_banners sample_db). bannerDeletedAt b = None \<and> bannerActiveNow b 0} = {sample_banner}"
    by (auto simp: sample_db_def sample_banner_def bannerActiveNow_def)
  show ?thesis
    using banners_view_is_pullable [OF _ run] sample_db_collection run only by auto
qed

text \<open>
  The album lists every enabled live card, newest first, with the owned flag and count of the
  collection, and per tier its progress counts exactly the cards of the tier and those owned.
\<close>

theorem album_is_complete:
  assumes "collection_ok (data s)" and "CollectionView True u s = (Inr v, s')"
  shows "data s' = data s \<and> album_agrees u (data s)
     (sort_key (\<lambda>c. - cardCreatedAt c)
        (filter (\<lambda>c. cardDeletedAt c = None \<and> cardEnabled c) (gacha_cards (data s)))) v"
  using CollectionView_spec [OF assms(1), of u] assms(2)
  by (auto simp: wp_iff liveCard_def dest!: spec [of _ s])

theorem album_is_complete_witness:
  "\<exists>v. CollectionView True ''u'' (clean sample_db) = (Inr v, clean sample_db)
     \<and> album_agrees ''u'' sample_db [sample_card ''a'' RarityN, sample_card ''b'' RaritySSR] v"
proof -
  obtain v where run: "CollectionView True ''u'' (clean sample_db) = (Inr v, clean sample_db)"
    by (auto simp: CollectionView_def repo_ListCards_def ListCollection_def bnd_def query_def
        command_def clean_def ret_def Let_def)
  have "sort_key (\<lambda>c. - cardCreatedAt c)
        (filter (\<lambda>c. cardDeletedAt c = None \<and> cardEnabled c) (gacha_cards sample_db)) =
      [sample_card ''a'' RarityN, sample_card ''b'' RaritySSR]"
    by (simp add: sample_db_def sample_card_def)
  then show ?thesis using album_is_complete [OF _ run] sample_db_collection run by auto
qed

end
