(* ===== verification/Gacha_Safety.thy ===== *)
theory Gacha_Safety
  imports Gacha_Views
begin

text \<open>
  The gacha service as a transition system. A step is one request of the API, or one transaction of
  a request that runs concurrently with others, so that what it read before its transaction (the
  wallet of a daily claim, the pool of a pull) may be stale; every command may fail. The invariants
  of all reachable databases: balances are the sums of the ledger and never negative, and the
  content is well-formed.
\<close>

section \<open>Pulls over stale reads\<close>

definition same_content :: "gacha_db \<Rightarrow> gacha_db \<Rightarrow> bool" where
  "same_content d d' \<longleftrightarrow> gacha_cards d' = gacha_cards d \<and> gacha_banners d' = gacha_banners d
   \<and> gacha_banner_cards d' = gacha_banner_cards d \<and> gacha_groups d' = gacha_groups d
   \<and> gacha_card_groups d' = gacha_card_groups d"

definition same_books :: "gacha_db \<Rightarrow> gacha_db \<Rightarrow> bool" where
  "same_books d d' \<longleftrightarrow> gacha_wallets d' = gacha_wallets d \<and> gacha_ledger d' = gacha_ledger d"

lemma content_ok_cong: "same_content d d' \<Longrightarrow> content_ok d' = content_ok d"
  by (simp add: content_ok_def same_content_def)

lemma gacha_inv_cong: "same_books d d' \<Longrightarrow> gacha_inv d' = gacha_inv d"
  by (simp add: same_books_def gacha_inv_def books_balance_def never_overdrawn_def starter_open_def
      streaks_ok_def balance_of_def ledger_sum_def)

lemma collection_ok_cong: "gacha_collection d' = gacha_collection d \<Longrightarrow> collection_ok d' = collection_ok d"
  by (simp add: collection_ok_def)

lemma collected_ok:
  assumes "collection_ok d" and c: "collected d u ids newIDs d'"
  shows "collection_ok d'"
proof -
  have dist: "distinct (map fst (gacha_collection d'))"
    using assms by (simp add: collection_ok_def collected_def)
  have pos: "1 \<le> countOf d v k" if "owns d v k" for v k
    using that assms(1) by (force simp: collection_ok_def owns_def countOf_def dest: map_of_SomeD)
  have "1 \<le> Count en" if e: "((v, k), en) \<in> set (gacha_collection d')" for v k en
  proof -
    have m: "map_of (gacha_collection d') (v, k) = Some en" using e dist by simp
    then have "owns d' v k" "countOf d' v k = Count en" by (simp_all add: owns_def countOf_def)
    moreover have "0 \<le> countOf d v k"
      using pos [of v k] by (cases "owns d v k") (auto simp: owns_def countOf_def)
    moreover have "1 \<le> count_list ids k" if "k \<in> set ids"
      using that count_list_0_iff [of ids k] by linarith
    moreover have "owns d' v k \<longleftrightarrow> owns d v k \<or> v = u \<and> k \<in> set ids"
      "countOf d' v k = countOf d v k + (if v = u then int (count_list ids k) else 0)"
      using c by (simp_all add: collected_def)
    ultimately show ?thesis using pos [of v k] by (auto split: if_splits)
  qed
  with dist show ?thesis by (auto simp: collection_ok_def)
qed

definition pull_frame :: "ledger_entry \<Rightarrow> gacha_db \<Rightarrow> gacha_db \<Rightarrow> bool" where
  "pull_frame e d d' \<longleftrightarrow> same_books (posting id e d) d' \<and> same_content d d'
   \<and> (collection_ok d \<longrightarrow> collection_ok d')
   \<and> 0 \<le> balance_of d (entryUser e) + Delta e \<and> gacha_wallets d (entryUser e) \<noteq> None"

lemma pullTx_frame:
  fixes u cost reason pullID
  defines "e \<equiv> \<lparr>entryUser = u, Delta = - cost, Reason = reason, Ref = pullID\<rparr>"
  shows "wp (pullTx econ table pool rnd now pullID u b n cost reason)
     (\<lambda>_. pull_frame e d) (\<lambda>_ _. True) d"
proof -
  have save: "wp (SavePityTx u b p) (\<lambda>_ d'. d' = d2 \<or> (\<exists>g. d' = d2\<lparr>gacha_pity := g\<rparr>)) (\<lambda>_ _. True) d2" for p d2
    unfolding SavePityTx_def by (auto intro!: wp_command simp: updatePity_def split: option.splits)
  have tail: "wp (bnd (SavePityTx u b p) (\<lambda>_. bnd (command (firstWallet u)) (\<lambda>w. ret (f w))))
      (\<lambda>_. pull_frame e d) (\<lambda>_ _. True) d2" if "pull_frame e d d2" for p f d2
  proof -
    have "pull_frame e d (d2\<lparr>gacha_pity := g\<rparr>)" for g
      using that collection_ok_cong [of "d2\<lparr>gacha_pity := g\<rparr>" d2]
      by (simp add: pull_frame_def same_books_def same_content_def)
    with that show ?thesis
      by (auto intro!: wp_bnd wp_mono [OF save] wp_command wp_ret simp: firstWallet_def split: option.splits)
  qed
  have coll: "pull_frame e d d2"
    if "cost \<le> balance_of d u" "gacha_wallets d u \<noteq> None"
      "collected ((posting id e d)\<lparr>gacha_pity := g\<rparr>) u ids newIDs d2" for g ids newIDs d2
  proof -
    have fr: "frame_collection d2 = frame_collection ((posting id e d)\<lparr>gacha_pity := g\<rparr>)"
      using that(3) by (simp add: collected_def)
    have "collection_ok d2" if "collection_ok d"
      using collected_ok [OF _ \<open>collected _ _ _ _ d2\<close>] that by (simp add: collection_ok_def)
    then show ?thesis
      using that(1,2) collection_frame_eqs [OF fr]
      by (simp add: pull_frame_def same_books_def same_content_def e_def posting_def)
  qed
  show ?thesis
    unfolding pullTx_def
    by (rule wp_bnd, rule wp_mono [OF DebitTx_spec], rule wp_bnd, rule wp_mono [OF GetPityForUpdate_spec])
       (auto simp: e_def [symmetric] intro!: wp_option wp_fail wp_prod wp_bnd tail
          wp_mono [OF AddToCollectionTx_spec] elim!: coll)
qed

lemma wp_tx_frame:
  assumes "wp m (\<lambda>_. R d) (\<lambda>_ _. True) d"
  shows "wp (transaction m) (\<lambda>_ d'. d' = d \<or> R d d') (\<lambda>_ d'. d' = d) d"
  by (rule wp_transaction) (use assms in \<open>auto elim!: wp_mono\<close>)

definition pull_effect :: "economy_config \<Rightarrow> string \<Rightarrow> string \<Rightarrow> gacha_db \<Rightarrow> gacha_db \<Rightarrow> bool" where
  "pull_effect econ u mode d d' \<longleftrightarrow> d' = d \<or> (\<exists>n cost reason pullID. pullMode econ mode = Some (n, cost, reason)
     \<and> pull_frame \<lparr>entryUser = u, Delta = - cost, Reason = reason, Ref = pullID\<rparr> d d')"

lemma Pull_effect:
  "wp (Pull econ enabled rnd now obtainedAt pullID u b mode)
     (\<lambda>_. pull_effect econ u mode d) (\<lambda>_. pull_effect econ u mode d) d"
proof -
  have refl: "pull_effect econ u mode d d" by (simp add: pull_effect_def)
  have tx: "wp (transaction (pullTx econ table pool rnd obtainedAt pullID u b n cost reason))
      (\<lambda>_. pull_effect econ u mode d) (\<lambda>_. pull_effect econ u mode d) d"
    if "pullMode econ mode = Some (n, cost, reason)" for table pool n cost reason
    by (rule wp_mono [OF wp_tx_frame [OF pullTx_frame]])
       (use that in \<open>auto simp: pull_effect_def\<close>)
  show ?thesis
    unfolding Pull_def Let_def using refl
    by (auto intro!: wp_fail wp_if wp_option wp_prod wp_bnd tx
        wp_mono [OF GetBanner_spec] wp_mono [OF CardsByRarity_spec])
qed

lemma pull_effect_inv:
  assumes "pull_effect econ u mode d d'" and "gacha_inv d"
  shows "gacha_inv d'" and "content_ok d \<Longrightarrow> content_ok d'" and "collection_ok d \<Longrightarrow> collection_ok d'"
proof -
  have r: "reason \<noteq> ReasonStarter" if "pullMode econ mode = Some (n, cost, reason)" for n cost reason
    using that by (auto simp: pullMode_def reason_defs split: if_splits)
  show "gacha_inv d'"
    using assms(1) unfolding pull_effect_def
  proof (elim disjE exE conjE)
    fix n cost reason pullID
    let ?e = "\<lparr>entryUser = u, Delta = - cost, Reason = reason, Ref = pullID\<rparr>"
    assume m: "pullMode econ mode = Some (n, cost, reason)" and f: "pull_frame ?e d d'"
    from f obtain w where w: "gacha_wallets d u = Some w" and "0 \<le> Balance w - cost"
      by (auto simp: pull_frame_def balance_of_def)
    then have "gacha_inv (posting id ?e d)"
      using assms(2) r [OF m] gacha_inv_wallet [OF assms(2) w] by (intro gacha_inv_posting) auto
    then show "gacha_inv d'" using f gacha_inv_cong [of "posting id ?e d" d'] by (simp add: pull_frame_def)
  qed (use assms(2) in simp)
  show "content_ok d \<Longrightarrow> content_ok d'" "collection_ok d \<Longrightarrow> collection_ok d'"
    using assms(1) content_ok_cong [of d d'] by (auto simp: pull_effect_def pull_frame_def)
qed


section \<open>Steps\<close>

inductive gacha_step :: "economy_config \<Rightarrow> bool \<Rightarrow> gacha_db \<Rightarrow> gacha_db \<Rightarrow> bool" for econ enabled where
  wallet_request: "WalletService_GetOrCreate (NewWalletService econ enabled) u s = (r, s') \<Longrightarrow>
     gacha_step econ enabled (data s) (data s')"
| daily_request: "WalletService_Daily (NewWalletService econ enabled) u now s = (r, s') \<Longrightarrow>
     gacha_step econ enabled (data s) (data s')"
| credit_request: "InternalHandler_Credit (NewWalletService econ enabled) u amount reason ref s = (r, s') \<Longrightarrow>
     \<not> (reason = ReasonStarter \<and> ref = ''starter'') \<Longrightarrow> gacha_step econ enabled (data s) (data s')"
| pull_request: "Pull econ enabled rnd now obtainedAt pullID u b mode s = (res, s') \<Longrightarrow>
     gacha_step econ enabled (data s) (data s')"
| stale_daily: "gacha_wallets (data s) u \<noteq> None \<Longrightarrow> 1 \<le> streak \<Longrightarrow>
     claimAmount (NewWalletService econ enabled) streak = Some amount \<Longrightarrow>
     repo_DailyClaimTx u amount streak now s = (res', s') \<Longrightarrow> gacha_step econ enabled (data s) (data s')"
| stale_starter: "gacha_wallets (data s) u \<noteq> None \<Longrightarrow> 0 < StarterBonus econ \<Longrightarrow>
     repo_GrantStarterOnce u (StarterBonus econ) s = (g, s') \<Longrightarrow> gacha_step econ enabled (data s) (data s')"
| stale_pull: "pullMode econ mode = Some (n, cost, reason) \<Longrightarrow>
     transaction (pullTx econ table pool rnd obtainedAt pullID u b n cost reason) s = (res, s') \<Longrightarrow>
     gacha_step econ enabled (data s) (data s')"
| create_card: "CreateCard newID now req s = (c, s') \<Longrightarrow> gacha_step econ enabled (data s) (data s')"
| update_card: "UpdateCard i req s = (c, s') \<Longrightarrow> gacha_step econ enabled (data s) (data s')"
| delete_card: "repo_DeleteCard i now s = (a, s') \<Longrightarrow> gacha_step econ enabled (data s) (data s')"
| bulk_update: "BulkUpdateCards ids upd s = (k, s') \<Longrightarrow> gacha_step econ enabled (data s) (data s')"
| bulk_delete: "BulkDeleteCards ids now s = (k, s') \<Longrightarrow> gacha_step econ enabled (data s) (data s')"
| create_group: "CreateGroup newID now name s = (gr, s') \<Longrightarrow> gacha_step econ enabled (data s) (data s')"
| rename_group: "RenameGroup i name s = (a, s') \<Longrightarrow> gacha_step econ enabled (data s) (data s')"
| delete_group: "repo_DeleteGroup i s = (a, s') \<Longrightarrow> gacha_step econ enabled (data s) (data s')"
| add_to_group: "repo_AddCardsToGroup i ids s = (a, s') \<Longrightarrow> gacha_step econ enabled (data s) (data s')"
| remove_from_group: "repo_RemoveCardFromGroup i cid s = (a, s') \<Longrightarrow> gacha_step econ enabled (data s) (data s')"
| create_banner: "CreateBanner newID now breq s = (bn, s') \<Longrightarrow> gacha_step econ enabled (data s) (data s')"
| update_banner: "UpdateBanner i breq s = (bn, s') \<Longrightarrow> gacha_step econ enabled (data s) (data s')"
| delete_banner: "repo_DeleteBanner i now s = (a, s') \<Longrightarrow> gacha_step econ enabled (data s) (data s')"
| set_cards: "repo_SetCards b ids s = (a, s') \<Longrightarrow> gacha_step econ enabled (data s) (data s')"
| add_cards: "repo_AddCards b ids s = (a, s') \<Longrightarrow> gacha_step econ enabled (data s) (data s')"
| add_group_cards: "repo_AddGroupCards b i s = (a, s') \<Longrightarrow> gacha_step econ enabled (data s) (data s')"

definition empty_db :: gacha_db where
  "empty_db = \<lparr>gacha_wallets = Map.empty, gacha_ledger = [], gacha_pity = Map.empty,
     gacha_collection = [], gacha_cards = [], gacha_banners = [], gacha_banner_cards = [],
     gacha_groups = [], gacha_card_groups = []\<rparr>"

inductive gacha_reachable :: "economy_config \<Rightarrow> bool \<Rightarrow> gacha_db \<Rightarrow> bool" for econ enabled where
  reach_init: "gacha_reachable econ enabled empty_db"
| reach_step: "gacha_reachable econ enabled d \<Longrightarrow> gacha_step econ enabled d d' \<Longrightarrow>
     gacha_reachable econ enabled d'"

definition gacha_ok :: "gacha_db \<Rightarrow> bool" where
  "gacha_ok d \<longleftrightarrow> gacha_inv d \<and> content_ok d \<and> collection_ok d"

lemma wp_run: "wp m (\<lambda>_. R) (\<lambda>_. R) (data s) \<Longrightarrow> m s = (r, s') \<Longrightarrow> R (data s')"
  by (cases r) (auto simp: wp_iff dest!: spec [of _ s])

lemma validated_service:
  assumes "Validate econ = None" and "0 \<le> DailyStreakCap econ"
  shows "service_ok (NewWalletService econ enabled)"
  using assms by (auto simp: Validate_def service_ok_def NewWalletService_def split: if_splits)

text \<open>
  Requests on the economy leave content and collection alone; the ledger and the wallets only grow.
\<close>

definition history_grows :: "gacha_db \<Rightarrow> gacha_db \<Rightarrow> bool" where
  "history_grows d d' \<longleftrightarrow> set (gacha_ledger d) \<subseteq> set (gacha_ledger d')
     \<and> dom (gacha_wallets d) \<subseteq> dom (gacha_wallets d')"

definition wallets_step :: "gacha_db \<Rightarrow> gacha_db \<Rightarrow> bool" where
  "wallets_step d d' \<longleftrightarrow> same_content d d' \<and> gacha_collection d' = gacha_collection d \<and> history_grows d d'"

lemma history_grows_refl [simp]: "history_grows d d"
  by (simp add: history_grows_def)

lemma history_grows_trans: "history_grows d d' \<Longrightarrow> history_grows d' d'' \<Longrightarrow> history_grows d d''"
  unfolding history_grows_def by blast

lemma wallets_step_refl [simp]: "wallets_step d d"
  by (simp add: wallets_step_def same_content_def)

lemma wallets_step_trans: "wallets_step d d' \<Longrightarrow> wallets_step d' d'' \<Longrightarrow> wallets_step d d''"
  by (auto simp: wallets_step_def same_content_def intro: history_grows_trans)

lemma wallets_step_updates [simp]:
  "wallets_step d (d\<lparr>gacha_wallets := (gacha_wallets d)(u \<mapsto> w)\<rparr>)"
  "wallets_step d (d\<lparr>gacha_ledger := gacha_ledger d @ es\<rparr>)"
  "wallets_step d (d\<lparr>gacha_ledger := gacha_ledger d @ es, gacha_wallets := (gacha_wallets d)(u \<mapsto> w)\<rparr>)"
  "wallets_step d (d\<lparr>gacha_wallets := (gacha_wallets d)(u \<mapsto> w), gacha_ledger := gacha_ledger d @ es\<rparr>)"
  "wallets_step d (d\<lparr>gacha_ledger := gacha_ledger d @ es, gacha_wallets := (gacha_wallets d)(u \<mapsto> w, u \<mapsto> w')\<rparr>)"
  "wallets_step d (d\<lparr>gacha_wallets := (gacha_wallets d)(u \<mapsto> w, u \<mapsto> w'), gacha_ledger := gacha_ledger d @ es\<rparr>)"
  by (auto simp: wallets_step_def same_content_def history_grows_def)

abbreviation keeps_tables :: "'a gacha \<Rightarrow> gacha_db \<Rightarrow> bool" where
  "keeps_tables m d \<equiv> wp m (\<lambda>_. wallets_step d) (\<lambda>_. wallets_step d) d"

lemma GetOrCreate_tables: "keeps_tables (repo_GetOrCreate u) d"
  unfolding repo_GetOrCreate_def
  by (auto intro!: wp_rules simp: sql_defs split: option.splits)

lemma tx_tables:
  "keeps_tables (repo_Credit u delta reason ref) d"
  "keeps_tables (repo_DailyClaimTx u amount streak now) d"
  "keeps_tables (repo_GrantStarterOnce u amount) d"
  unfolding repo_Credit_def repo_DailyClaimTx_def repo_GrantStarterOnce_def
  by (rule wp_transaction, simp, auto intro!: wp_rules simp: sql_defs split: option.splits if_splits)+

lemma chain_tables:
  "keeps_tables m d \<Longrightarrow> (\<And>a d1. wp (f a) (\<lambda>_. wallets_step d1) (\<lambda>_. wallets_step d1) d1) \<Longrightarrow>
   keeps_tables (bnd m f) d"
  by (rule wp_bnd, erule wp_mono)
     (blast intro: wp_mono wallets_step_trans)+

lemma requests_tables:
  "keeps_tables (WalletService_GetOrCreate sv u) d"
  "keeps_tables (WalletService_Daily sv u now) d"
  "keeps_tables (InternalHandler_Credit sv u amount reason ref) d"
  unfolding WalletService_GetOrCreate_def WalletService_Daily_def InternalHandler_Credit_def
    WalletService_Credit_def
  by (auto intro!: wp_ret wp_fail wp_if wp_option chain_tables GetOrCreate_tables tx_tables)


lemma wallets_step_ok:
  "wallets_step d d' \<Longrightarrow> content_ok d \<Longrightarrow> content_ok d'"
  "wallets_step d d' \<Longrightarrow> collection_ok d \<Longrightarrow> collection_ok d'"
  using content_ok_cong [of d d'] collection_ok_cong [of d' d] by (simp_all add: wallets_step_def)

lemma economy_step_ok:
  assumes "gacha_ok d" and "gacha_inv d'" and "wallets_step d d'"
  shows "gacha_ok d'"
  using assms wallets_step_ok by (auto simp: gacha_ok_def)

lemma content_step_ok:
  assumes "gacha_ok d" and "content_step d d'"
  shows "gacha_ok d'"
  using assms gacha_inv_cong [of d d'] collection_ok_cong [of d' d]
  by (auto simp: gacha_ok_def content_step_def economy_frame_def same_books_def)

lemma wp_run2:
  "wp m (\<lambda>_. R) (\<lambda>_. R) (data s) \<Longrightarrow> wp m (\<lambda>_. T) (\<lambda>_. T) (data s) \<Longrightarrow> m s = (r, s') \<Longrightarrow>
   R (data s') \<and> T (data s')"
  by (blast dest: wp_run)

lemma stale_daily_inv:
  assumes "gacha_inv d" "gacha_wallets d u \<noteq> None" "1 \<le> streak" "service_ok sv"
    and "claimAmount sv streak = Some amount"
  shows "keeps_inv (repo_DailyClaimTx u amount streak now) d"
proof -
  obtain w where w: "gacha_wallets d u = Some w" using assms(2) by auto
  have "0 \<le> amount"
    using assms(4) claimAmount_bounds(1) [OF _ _ assms(3,5)] by (auto simp: service_ok_def)
  then show ?thesis using assms(3) by (intro DailyClaimTx_inv [OF assms(1) w]) auto
qed

lemma stale_starter_inv:
  assumes "gacha_inv d" "gacha_wallets d u \<noteq> None" "0 < a"
  shows "keeps_inv (repo_GrantStarterOnce u a) d"
proof -
  obtain w where w: "gacha_wallets d u = Some w" using assms(2) by auto
  show ?thesis
  proof (cases "StarterGranted w")
    case False
    then show ?thesis by (rule GrantStarterOnce_inv [OF assms(1) w _ assms(3)])
  next
    case True
    then show ?thesis
      unfolding repo_GrantStarterOnce_def
      by (intro wp_transaction)
         (use assms(1) w in \<open>auto intro!: wp_bnd wp_command wp_if wp_ret simp: updateWallet_def\<close>)
  qed
qed

lemma InternalHandler_Credit_inv:
  assumes "gacha_inv d" and "\<not> (reason = ReasonStarter \<and> ref = ''starter'')"
  shows "keeps_inv (InternalHandler_Credit s u delta reason ref) d"
  unfolding InternalHandler_Credit_def
  by (auto intro!: wp_if wp_fail Credit_inv assms)

lemma pull_effect_grows: "pull_effect econ u mode d d' \<Longrightarrow> history_grows d d'"
  by (auto simp: pull_effect_def pull_frame_def same_books_def posting_def history_grows_def)

lemma content_step_grows: "content_step d d' \<Longrightarrow> history_grows d d'"
  by (simp add: content_step_def economy_frame_def history_grows_def)

lemma wallets_step_grows: "wallets_step d d' \<Longrightarrow> history_grows d d'"
  by (simp add: wallets_step_def)

lemma eco_run:
  assumes "d = data s" "d' = data s'" "keeps_inv m d" "keeps_tables m d" "m s = (r, s')" "gacha_ok d"
  shows "gacha_ok d' \<and> history_grows d d'"
  using assms economy_step_ok [of "data s" "data s'"] wp_run [of m gacha_inv s r s']
    wp_run [of m "wallets_step (data s)" s r s'] wallets_step_grows by simp

lemma con_run:
  assumes "d = data s" "d' = data s'" "keeps_content m d" "m s = (r, s')" "gacha_ok d"
  shows "gacha_ok d' \<and> history_grows d d'"
  using assms content_step_ok [of "data s" "data s'"] wp_run [of m "content_step (data s)" s r s']
    content_step_grows by simp

lemma pull_run:
  assumes "d = data s" "d' = data s'"
    and "wp m (\<lambda>_. pull_effect econ u mode d) (\<lambda>_. pull_effect econ u mode d) d"
    and "m s = (r, s')" "gacha_ok d"
  shows "gacha_ok d' \<and> history_grows d d'"
  using assms pull_effect_inv [of econ u mode d d'] wp_run [of m "pull_effect econ u mode d" s r s']
    pull_effect_grows by (simp add: gacha_ok_def)

lemma stale_pull_effect:
  assumes "pullMode econ mode = Some (n, cost, reason)"
  shows "wp (transaction (pullTx econ table pool rnd obtainedAt pullID u b n cost reason))
     (\<lambda>_. pull_effect econ u mode d) (\<lambda>_. pull_effect econ u mode d) d"
  by (rule wp_mono [OF wp_tx_frame [OF pullTx_frame]])
     (use assms in \<open>auto simp: pull_effect_def\<close>)

lemmas content_keeps = CreateCard_keeps UpdateCard_keeps BulkUpdateCards_keeps delete_cards_keeps
  groups_keep CreateBanner_keeps UpdateBanner_keeps banners_keep

lemma step_gacha_ok:
  assumes "gacha_step econ enabled d d'" and cfg: "Validate econ = None" "0 \<le> DailyStreakCap econ"
    and "gacha_ok d"
  shows "gacha_ok d' \<and> history_grows d d'"
proof -
  note sv = validated_service [OF cfg, of enabled]
  have inv: "gacha_inv d" using assms(4) by (simp add: gacha_ok_def)
  show ?thesis
    using assms(1)
  proof cases
    case f: wallet_request
    show ?thesis by (rule eco_run [OF f(1,2) OpenWallet_inv [OF inv] requests_tables(1) f(3) assms(4)])
  next
    case f: daily_request
    show ?thesis by (rule eco_run [OF f(1,2) Daily_inv [OF sv inv] requests_tables(2) f(3) assms(4)])
  next
    case f: credit_request
    show ?thesis
      by (rule eco_run [OF f(1,2) InternalHandler_Credit_inv [OF inv f(4)] requests_tables(3) f(3) assms(4)])
  next
    case f: pull_request
    show ?thesis by (rule pull_run [OF f(1,2) Pull_effect f(3) assms(4)])
  next
    case f: stale_daily
    show ?thesis
      by (rule eco_run [OF f(1,2) stale_daily_inv [OF inv f(3) [folded f(1)] f(4) sv f(5)] tx_tables(2) f(6) assms(4)])
  next
    case f: stale_starter
    show ?thesis
      by (rule eco_run [OF f(1,2) stale_starter_inv [OF inv f(3) [folded f(1)] f(4)] tx_tables(3) f(5) assms(4)])
  next
    case f: stale_pull
    show ?thesis by (rule pull_run [OF f(1,2) stale_pull_effect [OF f(3)] f(4) assms(4)])
  qed (rule con_run, assumption, assumption, rule content_keeps, assumption, rule assms(4))+
qed

lemma reachable_ok:
  assumes "gacha_reachable econ enabled d" and "Validate econ = None" "0 \<le> DailyStreakCap econ"
  shows "gacha_ok d"
  using assms
proof induction
  case reach_init
  show ?case
    by (simp add: gacha_ok_def gacha_inv_def books_balance_def never_overdrawn_def starter_open_def
        streaks_ok_def content_ok_def collection_ok_def empty_db_def balance_of_def ledger_sum_def)
qed (use step_gacha_ok in blast)

lemma steps_ok:
  assumes "(gacha_step econ enabled)\<^sup>*\<^sup>* d d'" and "Validate econ = None" "0 \<le> DailyStreakCap econ"
    and "gacha_ok d"
  shows "gacha_ok d' \<and> history_grows d d'"
  using assms
proof (induction rule: rtranclp_induct)
  case (step y z)
  then show ?case using step_gacha_ok [of econ enabled y z] history_grows_trans [of d y z] by blast
qed simp

section \<open>What the service guarantees\<close>


lemma sample_econ_valid: "Validate sample_econ = None" "0 \<le> DailyStreakCap sample_econ"
  by (simp_all add: Validate_def sample_econ_def)

definition opened_db :: gacha_db where
  "opened_db = data (snd (WalletService_GetOrCreate (NewWalletService sample_econ True) ''u'' (clean empty_db)))"

lemma opened_db_reachable: "gacha_reachable sample_econ True opened_db"
proof -
  obtain r s' where "WalletService_GetOrCreate (NewWalletService sample_econ True) ''u'' (clean empty_db) = (r, s')"
    by force
  from gacha_step.wallet_request [OF this] this
  have "gacha_step sample_econ True empty_db opened_db" by (simp add: opened_db_def)
  then show ?thesis by (rule reach_step [OF reach_init])
qed





lemma opened_db_eq:
  "opened_db = empty_db\<lparr>gacha_wallets := [''u'' \<mapsto> \<lparr>Balance = 300, StarterGranted = True,
       DailyStreak = 0, LastDailyAt = None\<rparr>],
     gacha_ledger := [\<lparr>entryUser = ''u'', Delta = 300, Reason = ReasonStarter, Ref = ''starter''\<rparr>]\<rparr>"
  by (simp add: opened_db_def WalletService_GetOrCreate_def repo_GetOrCreate_def bnd_def command_def
      clean_def insertWalletIgnore_def firstWallet_def empty_db_def NewWalletService_def sample_econ_def
      repo_GrantStarterOnce_def transaction_def touch_def updateWallet_def setGranted_def ret_def
      insertLedgerIgnore_def ledgerConflict_def addBalance_def fits64_def)

lemmas credit_run_defs = InternalHandler_Credit_def WalletService_Credit_def repo_GetOrCreate_def
  repo_Credit_def bnd_def command_def clean_def insertWalletIgnore_def firstWallet_def
  NewWalletService_def transaction_def touch_def updateWallet_def ret_def insertLedgerIgnore_def
  ledgerConflict_def addBalance_def fits64_def



text \<open>
  A claim of the daily reward pays once per day: when a claim of a user has been paid at \<open>now\<close>,
  any later claim whose clock reads the same UTC day pays nothing.
\<close>

theorem daily_pays_once:
  assumes "Validate econ = None" and "0 \<le> DailyStreakCap econ" and "gacha_reachable econ enabled (data s)"
    and "WalletService_Daily (NewWalletService econ enabled) u now s = (Inr r1, s1)" and "dailyClaimed r1"
    and "(gacha_step econ enabled)\<^sup>*\<^sup>* (data s1) (data s2)"
    and "now' div Day = now div Day"
    and "WalletService_Daily (NewWalletService econ enabled) u now' s2 = (Inr r2, s3)"
  shows "\<not> dailyClaimed r2 \<and> (\<forall>v. balance_of (data s3) v = balance_of (data s2) v)"
proof -
  let ?sv = "NewWalletService econ enabled"
  let ?e = "\<lambda>a. \<lparr>entryUser = u, Delta = a, Reason = ReasonDaily, Ref = date_ref now\<rparr>"
  have ok1: "gacha_ok (data s1)"
    using step_gacha_ok [OF gacha_step.daily_request [OF assms(4)] assms(1,2) reachable_ok [OF assms(3,1,2)]]
    by blast
  have first: "wp (WalletService_Daily ?sv u now)
      (\<lambda>r d'. dailyClaimed r \<longrightarrow> (\<exists>a. ?e a \<in> set (gacha_ledger d'))) (\<lambda>_ _. True) (data s)"
    unfolding WalletService_Daily_def
    by (auto intro!: wp_if wp_fail wp_ret wp_bnd wp_option wp_mono [OF GetOrCreate_spec]
        wp_mono [OF DailyClaimTx_spec] simp: posting_def emptyDaily_def)
  then obtain a where "?e a \<in> set (gacha_ledger (data s1))"
    using assms(4,5) by (auto simp: wp_iff dest!: spec [of _ s])
  moreover have "set (gacha_ledger (data s1)) \<subseteq> set (gacha_ledger (data s2))"
    using steps_ok [OF assms(6,1,2) ok1] by (simp add: history_grows_def)
  moreover have ref: "date_ref now' = date_ref now" "date_ref now \<noteq> []"
    by (simp_all add: date_ref_def assms(7) split: prod.split)
  ultimately have dup: "ledgerConflict \<lparr>entryUser = u, Delta = a', Reason = ReasonDaily, Ref = date_ref now'\<rparr>
      (gacha_ledger (data s2))" for a'
    by (auto simp: ledgerConflict_def list_ex_iff intro!: bexI [of _ "?e a"])
  have "wp (WalletService_Daily ?sv u now')
      (\<lambda>r d'. \<not> dailyClaimed r \<and> (\<forall>v. balance_of d' v = balance_of (data s2) v)) (\<lambda>_ _. True) (data s2)"
    unfolding WalletService_Daily_def using dup
    by (auto intro!: wp_if wp_fail wp_ret wp_bnd wp_option wp_mono [OF GetOrCreate_spec]
        wp_mono [OF DailyClaimTx_spec] simp: emptyDaily_def)
  then show ?thesis using assms(8) by (auto simp: wp_iff dest!: spec [of _ s2])
qed


lemmas daily_run_defs = WalletService_Daily_def repo_GetOrCreate_def repo_DailyClaimTx_def
  bnd_def command_def clean_def insertWalletIgnore_def firstWallet_def NewWalletService_def
  transaction_def touch_def updateWallet_def ret_def insertLedgerIgnore_def ledgerConflict_def
  addBalance_def fits64_def setDaily_def

lemma daily_run:
  "\<exists>r d. WalletService_Daily (NewWalletService sample_econ True) ''u'' 0 (clean opened_db) = (Inr r, clean d)
     \<and> dailyClaimed r"
  unfolding opened_db_eq
  by (simp add: daily_run_defs empty_db_def reason_defs sameDay_def newStreak_def claimAmount_def
      sample_econ_def Let_def)

theorem daily_pays_once_witness:
  "\<exists>d r2 s3. WalletService_Daily (NewWalletService sample_econ True) ''u'' Hour (clean d) = (Inr r2, s3)
     \<and> \<not> dailyClaimed r2 \<and> balance_of (data s3) ''u'' = balance_of d ''u''"
proof -
  obtain r d where d: "WalletService_Daily (NewWalletService sample_econ True) ''u'' 0 (clean opened_db) =
      (Inr r, clean d)" and r: "dailyClaimed r"
    using daily_run by blast
  let ?again = "WalletService_Daily (NewWalletService sample_econ True) ''u'' Hour (clean d)"
  have "gacha_wallets d ''u'' \<noteq> None"
    using step_gacha_ok [OF gacha_step.daily_request [OF d] sample_econ_valid
        reachable_ok [OF _ sample_econ_valid]] opened_db_reachable
    by (auto simp: history_grows_def opened_db_eq)
  then obtain w where w: "gacha_wallets d ''u'' = Some w" by auto
  have get: "twp (repo_GetOrCreate ''u'') (\<lambda>x d'. x = w \<and> d' = d) d"
    unfolding repo_GetOrCreate_def using w
    by (auto intro!: twp_bnd twp_command simp: insertWalletIgnore_def firstWallet_def)
  have same: "sameDay w Hour"
    using d w unfolding opened_db_eq
    by (auto simp: daily_run_defs empty_db_def reason_defs sameDay_def newStreak_def claimAmount_def
        sample_econ_def Let_def truncateDay_def Day_def duration_defs split: if_splits)
  have "twp (WalletService_Daily (NewWalletService sample_econ True) ''u'' Hour) (\<lambda>_ _. True) d"
    unfolding WalletService_Daily_def using same
    by (auto intro!: twp_bnd twp_mono [OF get] twp_ret simp: NewWalletService_def)
  then obtain r2 d2 where r2: "?again = (Inr r2, clean d2)" by (auto simp: twp_def)
  have "\<not> dailyClaimed r2 \<and> (\<forall>v. balance_of (data (clean d2)) v = balance_of (data (clean d)) v)"
    by (rule daily_pays_once [OF sample_econ_valid _ d r _ _ r2])
       (simp_all add: opened_db_reachable Day_def duration_defs)
  then have "\<not> dailyClaimed r2 \<and> balance_of (data (clean d2)) ''u'' = balance_of d ''u''" by simp
  with r2 show ?thesis by blast
qed

definition pull_errors :: "err set" where
  "pull_errors = {StoreFault, RecordNotFound, GoPanic, errInvalidInput ''insufficient balance''}"

lemma pullTx_errors:
  "wp (pullTx econ table pool rnd now pullID u b n cost reason) (\<lambda>_ _. True) (\<lambda>e _. e \<in> pull_errors) d"
proof -
  let ?T = "\<lambda>_ _. True" and ?E = "\<lambda>e (_ :: gacha_db). e \<in> pull_errors"
  have debit: "wp (DebitTx u cost reason pullID) ?T ?E d" for d
    unfolding DebitTx_def
    by (auto intro!: wp_rules simp: pull_errors_def sql_defs split: option.splits if_splits)
  have pity: "wp (GetPityForUpdate u b) ?T ?E d" "wp (SavePityTx u b p) ?T ?E d" for d p
    unfolding GetPityForUpdate_def SavePityTx_def
    by (auto intro!: wp_rules simp: pull_errors_def insertPityIgnore_def firstPity_def updatePity_def
        split: option.splits)
  have "wp (addOne u now acc x) ?T ?E d" "wp (readCount u counts x) ?T ?E d" for acc counts x d
    unfolding addOne_def readCount_def
    by (auto intro!: wp_rules simp: pull_errors_def upsertCollection_def)
  then have add: "wp (AddToCollectionTx u ids now) ?T ?E d" for ids d
    unfolding AddToCollectionTx_def
    by (intro wp_bnd wp_mono [OF wp_loop [where I = ?T]] wp_ret) auto
  show ?thesis
    unfolding pullTx_def
    by (rule wp_bnd, rule wp_mono [OF debit], rule wp_bnd, rule wp_mono [OF pity(1)])
       (auto intro!: wp_option wp_fail wp_bnd wp_prod wp_mono [OF add] wp_mono [OF pity(2)] wp_command wp_ret
          simp: pull_errors_def firstWallet_def split: option.splits)
qed

text \<open>
  A pool with cards is always rollable: in a reachable database the pull's branch \<open>banner has no
  rollable cards\<close> is dead, because every stored card has one of the four rarities.
\<close>

theorem pools_are_rollable:
  assumes "gacha_reachable econ enabled (data s)" and "Validate econ = None" and "0 \<le> DailyStreakCap econ"
  shows "fst (Pull econ enabled rnd now obtainedAt pullID u b mode s) \<noteq>
     Inl (errInvalidInput ''banner has no rollable cards'')
   \<and> (poolSize (groupByRarity (bannerPoolRows b (data s))) \<noteq> 0 \<longrightarrow>
        buildTierTable weights (groupByRarity (bannerPoolRows b (data s))) \<noteq> [])"
proof -
  let ?d = "data s"
  have cards: "\<forall>c \<in> set (gacha_cards ?d). ValidRarity (cardRarity c)"
    using reachable_ok [OF assms] by (auto simp: gacha_ok_def content_ok_def card_ok_def)
  have t: "buildTierTable w (groupByRarity (bannerPoolRows b ?d)) \<noteq> []"
    if "poolSize (groupByRarity (bannerPoolRows b ?d)) \<noteq> 0" for w
  proof -
    from that obtain c where "c \<in> set (bannerPoolRows b ?d)"
      by (cases "bannerPoolRows b ?d") (auto simp: poolSize_groupByRarity)
    moreover from this have "ValidRarity (cardRarity c)" using cards by (auto simp: bannerPoolRows_def)
    ultimately show ?thesis by (rule rollable_table)
  qed
  let ?E = "\<lambda>e (_ :: gacha_db). e \<noteq> errInvalidInput ''banner has no rollable cards''"
  have tx: "wp (transaction (pullTx econ table pool rnd obtainedAt pullID u b n cost reason)) (\<lambda>_ _. True) ?E d"
    for table pool n cost reason d
    by (rule wp_transaction_errors, simp add: errInvalidInput_def, rule wp_mono [OF pullTx_errors])
       (auto simp: pull_errors_def errInvalidInput_def)
  have "wp (Pull econ enabled rnd now obtainedAt pullID u b mode) (\<lambda>_ _. True) ?E ?d"
    unfolding Pull_def Let_def GetBanner_def CardsByRarity_def using t
    by (auto intro!: wp_fail wp_if wp_option wp_prod wp_bnd wp_query wp_ret
        tx [unfolded errInvalidInput_def] simp: errInvalidInput_def errNotFound_def)
  then show ?thesis using t by (auto simp: wp_iff ends_def dest!: spec [of _ s] split: sum.splits)
qed


lemma stocked_db_reachable:
  "\<exists>d. gacha_reachable sample_econ True d \<and> bannerPoolRows ''std'' d = [sample_card ''a'' RarityN]"
proof -
  let ?req = "\<lparr>reqName = ''a'', reqSourceTitle = [], reqImagePath = ''p'', reqBackPath = [],
     reqRarity = RarityN, reqEnabled = True, reqGroupIDs = []\<rparr>"
  let ?d = "empty_db\<lparr>gacha_cards := [sample_card ''a'' RarityN]\<rparr>"
  let ?d2 = "?d\<lparr>gacha_banner_cards := [(''std'', ''a'')]\<rparr>"
  have "fst (CreateCard ''a'' 0 ?req (clean empty_db)) = Inr (sample_card ''a'' RarityN)"
    "snd (CreateCard ''a'' 0 ?req (clean empty_db)) = clean ?d"
    by (simp_all add: CreateCard_def validateCardRequest_def ValidRarity_def Let_def repo_CreateCard_def
        bnd_def command_def clean_def empty_db_def ret_def sample_card_def)
  then have c: "CreateCard ''a'' 0 ?req (clean empty_db) = (Inr (sample_card ''a'' RarityN), clean ?d)"
    by (simp add: prod_eq_iff)
  have a: "repo_AddCards ''std'' [''a''] (clean ?d) = (Inr (), clean ?d2)"
    by (simp add: repo_AddCards_def command_def clean_def insertPairs_def empty_db_def)
  have "gacha_reachable sample_econ True ?d2"
    using reach_step [OF reach_step [OF reach_init] gacha_step.add_cards [OF a]]
      gacha_step.create_card [OF c] by simp
  moreover have "bannerPoolRows ''std'' ?d2 = [sample_card ''a'' RarityN]"
    by (simp add: bannerPoolRows_def sample_card_def)
  ultimately show ?thesis by blast
qed

theorem pools_are_rollable_witness:
  "\<exists>d. bannerPoolRows ''std'' d = [sample_card ''a'' RarityN]
     \<and> buildTierTable (econWeights sample_econ) (groupByRarity (bannerPoolRows ''std'' d)) \<noteq> []"
proof -
  obtain d where d: "gacha_reachable sample_econ True d" "bannerPoolRows ''std'' d = [sample_card ''a'' RarityN]"
    using stocked_db_reachable by blast
  then show ?thesis
    using pools_are_rollable [of sample_econ True "clean d", OF _ sample_econ_valid,
        where b = "''std''" and weights = "econWeights sample_econ"]
    by (intro exI [of _ d]) (simp add: poolSize_groupByRarity)
qed

section \<open>Where the promises end\<close>

definition starter_credit_run :: gacha_db where
  "starter_credit_run =
     (let sv = NewWalletService sample_econ True;
          s1 = snd (InternalHandler_Credit sv ''u'' 300 ReasonStarter ''starter'' (clean empty_db))
      in data (snd (WalletService_GetOrCreate sv ''u'' s1)))"

text \<open>
  The exclusion of the starter reason in the books invariant is needed: the internal credit
  endpoint accepts the reason and ref of the starter grant, and the grant that follows finds its
  ledger row taken, skips the row, and bumps the balance all the same, so the balance is 600 while
  the ledger of the user sums to 300.
\<close>

theorem starter_credit_breaks_books:
  "balance_of starter_credit_run ''u'' = 600 \<and> ledger_sum starter_credit_run ''u'' = 300"
  by (simp add: starter_credit_run_def credit_run_defs empty_db_def reason_defs sample_econ_def
      WalletService_GetOrCreate_def repo_GrantStarterOnce_def setGranted_def balance_of_def
      ledger_sum_def)

text \<open>Boot-time validation accepts a negative streak cap, with which a claim debits the player.\<close>

theorem negative_cap_debits:
  "Validate (sample_econ\<lparr>DailyStreakCap := - 100\<rparr>) = None
   \<and> claimAmount (NewWalletService (sample_econ\<lparr>DailyStreakCap := - 100\<rparr>) True) 1 = Some (- 50)"
  by (simp add: Validate_def sample_econ_def claimAmount_def NewWalletService_def go_quot_def Let_def)

end
