(* ===== verification/WT_Domain.thy ===== *)
theory WT_Domain
  imports Complex_Main Prelude
begin

text \<open>
  The data of the watch-together service (\<^verbatim>\<open>services/watch-together/internal/domain\<close>): rooms,
  members, chat messages, and the envelopes of the WebSocket protocol. An outbound envelope is a
  constructor per message type with the payload's fields; what JSON does to it is outside the model.
  A \<^verbatim>\<open>float64\<close> is a real number; the operations that round take a rounding function.
\<close>

section \<open>Rooms\<close>

definition PlayerKodik :: string where "PlayerKodik = ''kodik''"
definition PlayerAnimeLib :: string where "PlayerAnimeLib = ''animelib''"
definition PlayerOurEnglish :: string where "PlayerOurEnglish = ''ourenglish''"
definition PlayerHanime :: string where "PlayerHanime = ''hanime''"
definition PlayerAePlayer :: string where "PlayerAePlayer = ''aeplayer''"

definition StatePlaying :: string where "StatePlaying = ''playing''"
definition StatePaused :: string where "StatePaused = ''paused''"

definition ProtocolVersion :: string where "ProtocolVersion = ''1.0''"

record room =
  roomID :: string
  roomCreatedAt :: int
  roomAnimeID :: string
  roomEpisodeID :: string
  roomPlayer :: string
  roomTranslationID :: string
  roomState :: string
  roomTime :: real
  roomUpdatedAtMs :: int
  roomHost :: string

record member_meta =
  metaUsername :: string
  metaAvatarURL :: string
  metaJoinedAt :: int
  metaLastSeenAt :: int

record member =
  memberUserID :: string
  memberMeta :: member_meta

record chat_message =
  msgID :: string
  msgUserID :: string
  msgUsername :: string
  msgBody :: string
  msgTS :: int

record room_snapshot =
  snapRoom :: room
  snapMembers :: "member list"
  snapMessages :: "chat_message list"
  snapProtocol :: string

section \<open>Protocol\<close>

definition MsgPlaybackPlay :: string where "MsgPlaybackPlay = ''playback:play''"
definition MsgPlaybackPause :: string where "MsgPlaybackPause = ''playback:pause''"
definition MsgPlaybackSeek :: string where "MsgPlaybackSeek = ''playback:seek''"
definition MsgPlaybackTimeTick :: string where "MsgPlaybackTimeTick = ''playback:time_tick''"
definition MsgStateChangeEpisode :: string where "MsgStateChangeEpisode = ''state:change_episode''"
definition MsgStateChangePlayer :: string where "MsgStateChangePlayer = ''state:change_player''"
definition MsgStateChangeTrans :: string where "MsgStateChangeTrans = ''state:change_translation''"
definition MsgChatMessage :: string where "MsgChatMessage = ''chat:message''"
definition MsgChatReaction :: string where "MsgChatReaction = ''chat:reaction''"
definition MsgPresenceHeartbeat :: string where "MsgPresenceHeartbeat = ''presence:heartbeat''"

lemmas msg_defs [model_defs] = MsgPlaybackPlay_def MsgPlaybackPause_def MsgPlaybackSeek_def
  MsgPlaybackTimeTick_def MsgStateChangeEpisode_def MsgStateChangePlayer_def MsgStateChangeTrans_def
  MsgChatMessage_def MsgChatReaction_def MsgPresenceHeartbeat_def

definition ErrCodeCapacityFull :: string where "ErrCodeCapacityFull = ''CAPACITY_FULL''"
definition ErrCodeRateLimited :: string where "ErrCodeRateLimited = ''RATE_LIMITED''"
definition ErrCodeChatTooLong :: string where "ErrCodeChatTooLong = ''CHAT_TOO_LONG''"
definition ErrCodePersistentDrift :: string where "ErrCodePersistentDrift = ''PERSISTENT_DRIFT''"
definition ErrCodeEpisodeUnavailable :: string where
  "ErrCodeEpisodeUnavailable = ''EPISODE_UNAVAILABLE''"
definition ErrCodePlayerUnavailable :: string where
  "ErrCodePlayerUnavailable = ''PLAYER_UNAVAILABLE''"
definition ErrCodeTranslationUnavailable :: string where
  "ErrCodeTranslationUnavailable = ''TRANSLATION_UNAVAILABLE''"

datatype envelope =
    RoomSnapshotEnv room_snapshot
  | RoomStateChanged (changedField: string) (changedValue: string) (changedBy: string)
  | PlaybackEvent (eventKind: string) (eventTime: real) (eventBy: string) (eventTS: int)
  | PlaybackCorrection (correctionTime: real) (correctionTS: int)
  | MemberJoined string member_meta
  | MemberLeft string
  | ChatMessageOut chat_message
  | ChatReactionOut (reactionBy: string) (reactionEmoji: string)
  | RoomClosed
  | ErrorEnv (errorCode: string) (errorMessage: string) (errorHint: string)

end
