(* ===== verification/WT_Redis.thy ===== *)
theory WT_Redis
  imports WT_Domain Fallible_Store
begin

text \<open>
  The Redis layer of the watch-together service (\<^verbatim>\<open>internal/repo/keys.go\<close>,
  \<^verbatim>\<open>internal/repo/redis_repo.go\<close>). Redis is a map from key strings to hashes and lists with an
  optional expiry; a command on an expired key finds nothing, a hash that loses its last field is
  gone, and a command on a value of the wrong type is an error. A stored text is a \<open>blob\<close> that
  remembers which encoder produced it (a plain string, a formatted number, the JSON of a member or
  of a chat message), and a decoder reads back only texts of its own encoder. The clock (Unix
  milliseconds) is the one of Redis and of the service. Metrics and logging are left out.

  The state is an extensible record, so that the same operations run on the state of the whole
  service, which adds the memory of its other components.
\<close>

section \<open>Redis\<close>

datatype blob =
    Text string
  | IntText int
  | FloatText real
  | MetaJSON member_meta
  | MessageJSON chat_message

datatype redis_value = RHash "(string \<times> blob) list" | RList "blob list"

record redis =
  redisClock :: int
  redisKeys :: "string \<rightharpoonup> redis_value \<times> int option"

definition live :: "'x redis_scheme \<Rightarrow> string \<Rightarrow> redis_value option" where
  "live s k = (case redisKeys s k of
     None \<Rightarrow> None
   | Some (v, None) \<Rightarrow> Some v
   | Some (v, Some t) \<Rightarrow> if t \<le> redisClock s then None else Some v)"

definition expiryOf :: "'x redis_scheme \<Rightarrow> string \<Rightarrow> int option" where
  "expiryOf s k = (case live s k of None \<Rightarrow> None | Some _ \<Rightarrow> snd (the (redisKeys s k)))"

definition put :: "string \<Rightarrow> redis_value \<Rightarrow> 'x redis_scheme \<Rightarrow> 'x redis_scheme" where
  "put k v s = s\<lparr>redisKeys := (redisKeys s)(k \<mapsto> (v, expiryOf s k))\<rparr>"

definition drop_key :: "string \<Rightarrow> 'x redis_scheme \<Rightarrow> 'x redis_scheme" where
  "drop_key k s = s\<lparr>redisKeys := (redisKeys s)(k := None)\<rparr>"

definition hashOf :: "'x redis_scheme \<Rightarrow> string \<Rightarrow> (string \<times> blob) list option" where
  "hashOf s k = (case live s k of None \<Rightarrow> Some [] | Some (RHash h) \<Rightarrow> Some h | Some (RList _) \<Rightarrow> None)"

definition listOf :: "'x redis_scheme \<Rightarrow> string \<Rightarrow> blob list option" where
  "listOf s k = (case live s k of None \<Rightarrow> Some [] | Some (RList l) \<Rightarrow> Some l | Some (RHash _) \<Rightarrow> None)"

text \<open>\<^verbatim>\<open>HSET\<close> on the fields of a hash.\<close>

definition hset :: "(string \<times> blob) list \<Rightarrow> (string \<times> blob) list \<Rightarrow> (string \<times> blob) list" where
  "hset h fs = foldl (\<lambda>h (f, v). AList.update f v h) h fs"

datatype redis_op =
    HSet string "(string \<times> blob) list"
  | HDel string string
  | LPush string blob
  | LTrim string nat
  | Expire string int

text \<open>One command of a pipeline: whether Redis accepted it, and the new store.\<close>

fun exec_op :: "redis_op \<Rightarrow> 'x redis_scheme \<Rightarrow> bool \<times> 'x redis_scheme" where
  "exec_op (HSet k fs) s = (case hashOf s k of
     None \<Rightarrow> (False, s)
   | Some h \<Rightarrow> (True, put k (RHash (hset h fs)) s))"
| "exec_op (HDel k f) s = (case hashOf s k of
     None \<Rightarrow> (False, s)
   | Some h \<Rightarrow>
       let h' = AList.delete f h in
       (True, if h' = [] then drop_key k s else put k (RHash h') s))"
| "exec_op (LPush k v) s = (case listOf s k of
     None \<Rightarrow> (False, s)
   | Some l \<Rightarrow> (True, put k (RList (v # l)) s))"
| "exec_op (LTrim k n) s = (case listOf s k of
     None \<Rightarrow> (False, s)
   | Some l \<Rightarrow> (True, if live s k = None then s else put k (RList (take (Suc n) l)) s))"
| "exec_op (Expire k ttl) s = (True, case live s k of
     None \<Rightarrow> s
   | Some v \<Rightarrow> s\<lparr>redisKeys := (redisKeys s)(k \<mapsto> (v, Some (redisClock s + ttl)))\<rparr>)"

fun exec_all :: "redis_op list \<Rightarrow> 'x redis_scheme \<Rightarrow> bool \<times> 'x redis_scheme" where
  "exec_all [] s = (True, s)"
| "exec_all (op # ops) s =
     (case exec_op op s of (ok, s') \<Rightarrow> case exec_all ops s' of (oks, s'') \<Rightarrow> (ok \<and> oks, s''))"

type_synonym ('x, 'a) rprog = "('x redis_scheme, 'a) prog"

text \<open>
  \<^verbatim>\<open>TxPipelined\<close>: the commands run together or, when the connection fails, not at all; one that
  Redis rejects makes the call an error without undoing the others.
\<close>

definition txPipelined :: "redis_op list \<Rightarrow> ('x, unit) rprog" where
  "txPipelined ops =
     bnd (command (\<lambda>s. case exec_all ops s of (ok, s') \<Rightarrow> (Inr ok, s'))) (\<lambda>ok.
     if ok then ret () else fail StoreFault)"

definition readRedis :: "('x redis_scheme \<Rightarrow> 'a option) \<Rightarrow> ('x, 'a) rprog" where
  "readRedis f = command (\<lambda>s. case f s of None \<Rightarrow> (Inl StoreFault, s) | Some a \<Rightarrow> (Inr a, s))"

section \<open>Keys\<close>

definition KeyRoom :: "string \<Rightarrow> string" where
  "KeyRoom r = ''wt:room:'' @ r"

definition KeyRoomMembers :: "string \<Rightarrow> string" where
  "KeyRoomMembers r = ''wt:room:'' @ r @ '':members''"

definition KeyRoomMessages :: "string \<Rightarrow> string" where
  "KeyRoomMessages r = ''wt:room:'' @ r @ '':messages''"

section \<open>Room repository\<close>

definition allowedRoomFields :: "string list" where
  "allowedRoomFields = [''id'', ''created_at'', ''anime_id'', ''episode_id'', ''player'',
     ''translation_id'', ''playback_state'', ''playback_time'', ''playback_time_updated_at'',
     ''host_user_id'']"

definition chatListMaxIndex :: nat where "chatListMaxIndex = 99"

definition roomToFields :: "room \<Rightarrow> (string \<times> blob) list" where
  "roomToFields r =
     [(''id'', Text (roomID r)),
      (''created_at'', IntText (roomCreatedAt r)),
      (''anime_id'', Text (roomAnimeID r)),
      (''episode_id'', Text (roomEpisodeID r)),
      (''player'', Text (roomPlayer r)),
      (''translation_id'', Text (roomTranslationID r)),
      (''playback_state'', Text (roomState r)),
      (''playback_time'', FloatText (roomTime r)),
      (''playback_time_updated_at'', IntText (roomUpdatedAtMs r)),
      (''host_user_id'', Text (roomHost r))]"

text \<open>A missing or unreadable field is the zero value.\<close>

definition textField :: "(string \<rightharpoonup> blob) \<Rightarrow> string \<Rightarrow> string" where
  "textField m f = (case m f of Some (Text s) \<Rightarrow> s | _ \<Rightarrow> [])"

definition intField :: "(string \<rightharpoonup> blob) \<Rightarrow> string \<Rightarrow> int" where
  "intField m f = (case m f of Some (IntText n) \<Rightarrow> n | _ \<Rightarrow> 0)"

definition floatField :: "(string \<rightharpoonup> blob) \<Rightarrow> string \<Rightarrow> real" where
  "floatField m f = (case m f of Some (FloatText x) \<Rightarrow> x | Some (IntText n) \<Rightarrow> of_int n | _ \<Rightarrow> 0)"

definition fieldsToRoom :: "(string \<rightharpoonup> blob) \<Rightarrow> room" where
  "fieldsToRoom m =
     \<lparr>roomID = textField m ''id'',
      roomCreatedAt = intField m ''created_at'',
      roomAnimeID = textField m ''anime_id'',
      roomEpisodeID = textField m ''episode_id'',
      roomPlayer = textField m ''player'',
      roomTranslationID = textField m ''translation_id'',
      roomState = textField m ''playback_state'',
      roomTime = floatField m ''playback_time'',
      roomUpdatedAtMs = intField m ''playback_time_updated_at'',
      roomHost = textField m ''host_user_id''\<rparr>"

definition expireAll :: "int \<Rightarrow> string \<Rightarrow> redis_op list" where
  "expireAll ttl r =
     [Expire (KeyRoom r) ttl, Expire (KeyRoomMembers r) ttl, Expire (KeyRoomMessages r) ttl]"

definition internalErr :: "string \<Rightarrow> err" where
  "internalErr msg = AppError CodeInternal msg"

definition CreateRoom :: "int \<Rightarrow> room \<Rightarrow> ('x, unit) rprog" where
  "CreateRoom ttl rm =
     (if roomID rm = [] then fail (errInvalidInput ''room id is required'')
      else wrap (txPipelined (HSet (KeyRoom (roomID rm)) (roomToFields rm) # expireAll ttl (roomID rm)))
             (internalErr ''watch-together: create room failed''))"

definition GetRoom :: "string \<Rightarrow> ('x, room) rprog" where
  "GetRoom r =
     bnd (wrap (readRedis (\<lambda>s. hashOf s (KeyRoom r)))
            (internalErr ''watch-together: get room failed'')) (\<lambda>m.
     if m = [] then fail RoomNotFound else ret (fieldsToRoom (map_of m)))"

definition Exists :: "string \<Rightarrow> ('x, bool) rprog" where
  "Exists r =
     wrap (query (\<lambda>s. live s (KeyRoom r) \<noteq> None)) (internalErr ''watch-together: exists check failed'')"

datatype field_value = FieldText string | FieldFloat real | FieldInt int

fun encodeField :: "field_value \<Rightarrow> blob" where
  "encodeField (FieldText s) = Text s"
| "encodeField (FieldFloat x) = FloatText x"
| "encodeField (FieldInt n) = IntText n"

definition UpdateRoomState :: "int \<Rightarrow> string \<Rightarrow> (string \<times> field_value) list \<Rightarrow> ('x, unit) rprog" where
  "UpdateRoomState ttl r updates =
     (if r = [] then fail (errInvalidInput ''room id is required'')
      else if updates = [] then fail (errInvalidInput ''at least one field is required'')
      else case find (\<lambda>(name, _). name \<notin> set allowedRoomFields) updates of
        Some (name, _) \<Rightarrow> fail (errInvalidInput (''invalid field name: '' @ name))
      | None \<Rightarrow>
          wrap (txPipelined (HSet (KeyRoom r) (map (\<lambda>(name, v). (name, encodeField v)) updates)
                  # expireAll ttl r))
            (internalErr ''watch-together: update room failed''))"

definition DeleteRoom :: "string \<Rightarrow> ('x, unit) rprog" where
  "DeleteRoom r =
     wrap (command (\<lambda>s. (Inr (), drop_key (KeyRoomMessages r) (drop_key (KeyRoomMembers r)
             (drop_key (KeyRoom r) s)))))
       (internalErr ''watch-together: delete room failed'')"

definition AddMember :: "int \<Rightarrow> string \<Rightarrow> string \<Rightarrow> member_meta \<Rightarrow> ('x, unit) rprog" where
  "AddMember ttl r u meta =
     (if r = [] \<or> u = [] then fail (errInvalidInput ''room_id and user_id are required'')
      else wrap (txPipelined (HSet (KeyRoomMembers r) [(u, MetaJSON meta)] # expireAll ttl r))
             (internalErr ''watch-together: add member failed''))"

definition RemoveMember :: "int \<Rightarrow> string \<Rightarrow> string \<Rightarrow> ('x, unit) rprog" where
  "RemoveMember ttl r u =
     (if r = [] \<or> u = [] then fail (errInvalidInput ''room_id and user_id are required'')
      else wrap (txPipelined (HDel (KeyRoomMembers r) u # expireAll ttl r))
             (internalErr ''watch-together: remove member failed''))"

fun decodeMeta :: "blob \<Rightarrow> member_meta option" where
  "decodeMeta (MetaJSON m) = Some m"
| "decodeMeta _ = None"

fun decodeMessage :: "blob \<Rightarrow> chat_message option" where
  "decodeMessage (MessageJSON m) = Some m"
| "decodeMessage _ = None"

definition ListMembers :: "string \<Rightarrow> ('x, member list) rprog" where
  "ListMembers r =
     bnd (wrap (readRedis (\<lambda>s. hashOf s (KeyRoomMembers r)))
            (internalErr ''watch-together: list members failed'')) (\<lambda>m.
     ret (List.map_filter (\<lambda>(u, raw). map_option (\<lambda>meta. \<lparr>memberUserID = u, memberMeta = meta\<rparr>)
            (decodeMeta raw)) m))"

definition CountMembers :: "string \<Rightarrow> ('x, int) rprog" where
  "CountMembers r =
     wrap (readRedis (\<lambda>s. map_option (\<lambda>h. int (length h)) (hashOf s (KeyRoomMembers r))))
       (internalErr ''watch-together: count members failed'')"

definition MessageCount :: "string \<Rightarrow> ('x, int) rprog" where
  "MessageCount r =
     wrap (readRedis (\<lambda>s. map_option (\<lambda>l. int (length l)) (listOf s (KeyRoomMessages r))))
       (internalErr ''watch-together: count messages failed'')"

definition AppendMessage :: "int \<Rightarrow> string \<Rightarrow> chat_message \<Rightarrow> ('x, unit) rprog" where
  "AppendMessage ttl r msg =
     (if r = [] then fail (errInvalidInput ''room_id is required'')
      else wrap (txPipelined (LPush (KeyRoomMessages r) (MessageJSON msg)
                  # LTrim (KeyRoomMessages r) chatListMaxIndex # expireAll ttl r))
             (internalErr ''watch-together: append message failed''))"

definition GetMessages :: "string \<Rightarrow> int \<Rightarrow> ('x, chat_message list) rprog" where
  "GetMessages r limit =
     (if limit \<le> 0 then ret []
      else
        bnd (wrap (readRedis (\<lambda>s. map_option (take (nat limit)) (listOf s (KeyRoomMessages r))))
               (internalErr ''watch-together: get messages failed'')) (\<lambda>raw.
        ret (rev (List.map_filter decodeMessage raw))))"

definition RefreshTTL :: "int \<Rightarrow> string \<Rightarrow> ('x, unit) rprog" where
  "RefreshTTL ttl r =
     wrap (txPipelined (expireAll ttl r)) (internalErr ''watch-together: refresh ttl failed'')"

text \<open>\<^verbatim>\<open>PUBLISH\<close>: the only subscriber of this instance drops its own frames, so the store is unchanged.\<close>

definition Publish :: "string \<Rightarrow> ('x, unit) rprog" where
  "Publish r = wrap touch (internalErr ''watch-together: publish failed'')"

end
