(* ===== verification/WT_Repo_Laws.thy ===== *)
theory WT_Repo_Laws
  imports WT_Redis
begin

text \<open>
  Laws of the Redis layer, one group per operation of the repository: its weakest precondition under
  any failure (\<open>..._spec\<close>), when it succeeds (\<open>succeeds_...\<close>), and which keys it can touch. Typed views
  of the keys (\<open>storedRoom\<close>, \<open>chatLog\<close>, \<open>memberMap\<close>) state the laws in terms of rooms, messages and members.
\<close>

section \<open>Facts of the store\<close>

lemma put_clock [simp]: "redisClock (put k v s) = redisClock s" "redisClock (drop_key k s) = redisClock s"
  by (simp_all add: put_def drop_key_def)

lemma live_put [simp]: "live (put k v s) k' = (if k' = k then Some v else live s k')"
proof (cases "k' = k")
  case True
  then show ?thesis
    by (cases "redisKeys s k") (auto simp: live_def put_def expiryOf_def split: option.splits if_splits)
qed (auto simp: live_def put_def split: option.splits)

lemma live_drop [simp]: "live (drop_key k s) k' = (if k' = k then None else live s k')"
  by (auto simp: live_def drop_key_def split: option.splits)

lemma exec_op_clock [simp]: "redisClock (snd (exec_op op s)) = redisClock s"
  by (cases op) (auto simp: Let_def split: option.split)

lemma exec_all_clock [simp]: "redisClock (snd (exec_all ops s)) = redisClock s"
proof (induction ops arbitrary: s)
  case (Cons op ops)
  obtain ok s1 where 1: "exec_op op s = (ok, s1)" by force
  obtain oks s2 where 2: "exec_all ops s1 = (oks, s2)" by force
  show ?case using exec_op_clock [of op s] Cons.IH [of s1] by (simp add: 1 2)
qed simp

lemma live_expire [simp]:
  "0 < ttl \<Longrightarrow> live (snd (exec_op (Expire k ttl) s)) k' = live s k'"
  by (auto simp: live_def split: option.splits)

text \<open>Keys a command can touch.\<close>

fun keyOf :: "redis_op \<Rightarrow> string" where
  "keyOf (HSet k _) = k" | "keyOf (HDel k _) = k" | "keyOf (LPush k _) = k" | "keyOf (LTrim k _) = k"
| "keyOf (Expire k _) = k"

lemma exec_op_other: "k \<noteq> keyOf op \<Longrightarrow> redisKeys (snd (exec_op op s)) k = redisKeys s k"
  by (cases op) (auto simp: Let_def put_def drop_key_def split: option.split)

lemma exec_all_other:
  "k \<notin> keyOf ` set ops \<Longrightarrow> redisKeys (snd (exec_all ops s)) k = redisKeys s k"
proof (induction ops arbitrary: s)
  case (Cons op ops)
  obtain ok s1 where 1: "exec_op op s = (ok, s1)" by force
  obtain oks s2 where 2: "exec_all ops s1 = (oks, s2)" by force
  have "redisKeys s1 k = redisKeys s k" using exec_op_other [of k op s] Cons.prems 1 by simp
  moreover have "redisKeys s2 k = redisKeys s1 k" using Cons.IH [of s1] Cons.prems 2 by simp
  ultimately show ?case by (simp add: 1 2)
qed simp

section \<open>Key spaces\<close>

lemma key_inj [simp]:
  "KeyRoom r = KeyRoom r' \<longleftrightarrow> r = r'" "KeyRoomMembers r = KeyRoomMembers r' \<longleftrightarrow> r = r'"
  "KeyRoomMessages r = KeyRoomMessages r' \<longleftrightarrow> r = r'"
  by (simp_all add: KeyRoom_def KeyRoomMembers_def KeyRoomMessages_def)

lemma members_not_messages [simp]:
  "KeyRoomMembers r \<noteq> KeyRoomMessages r'" "KeyRoomMessages r' \<noteq> KeyRoomMembers r"
proof -
  have "last (butlast (KeyRoomMembers r)) \<noteq> last (butlast (KeyRoomMessages r'))"
    by (simp add: KeyRoomMembers_def KeyRoomMessages_def butlast_append)
  then show "KeyRoomMembers r \<noteq> KeyRoomMessages r'" "KeyRoomMessages r' \<noteq> KeyRoomMembers r" by metis+
qed

text \<open>A room id without a colon, as every generated id (a UUID) is.\<close>

definition plainID :: "string \<Rightarrow> bool" where
  "plainID r \<longleftrightarrow> CHR '':'' \<notin> set r"

lemma plain_keys [simp]:
  assumes "plainID r"
  shows "KeyRoom r \<noteq> KeyRoomMembers r'" "KeyRoom r \<noteq> KeyRoomMessages r'"
    "KeyRoomMembers r' \<noteq> KeyRoom r" "KeyRoomMessages r' \<noteq> KeyRoom r"
  using assms by (auto simp: KeyRoom_def KeyRoomMembers_def KeyRoomMessages_def plainID_def)

definition keysOf :: "string \<Rightarrow> string set" where
  "keysOf r = {KeyRoom r, KeyRoomMembers r, KeyRoomMessages r}"

lemma keysOf_disjoint: "plainID r \<Longrightarrow> plainID r' \<Longrightarrow> r \<noteq> r' \<Longrightarrow> keysOf r \<inter> keysOf r' = {}"
  by (auto simp: keysOf_def)


section \<open>Pipelines that end in the expiry of the three keys\<close>

definition expired :: "int \<Rightarrow> string \<Rightarrow> 'x redis_scheme \<Rightarrow> 'x redis_scheme" where
  "expired ttl k s = snd (exec_op (Expire k ttl) s)"

definition touched :: "int \<Rightarrow> string \<Rightarrow> 'x redis_scheme \<Rightarrow> 'x redis_scheme" where
  "touched ttl r s = expired ttl (KeyRoomMessages r) (expired ttl (KeyRoomMembers r) (expired ttl (KeyRoom r) s))"

lemma expireAll_eq: "exec_all (expireAll ttl r) s = (True, touched ttl r s)"
  unfolding expireAll_def touched_def expired_def by (simp add: case_prod_beta)

lemma expired_facts:
  "redisClock (expired ttl k s) = redisClock s"
  "k' \<noteq> k \<Longrightarrow> redisKeys (expired ttl k s) k' = redisKeys s k'"
  "live s k = Some v \<Longrightarrow> redisKeys (expired ttl k s) k = Some (v, Some (redisClock s + ttl))"
  "0 < ttl \<Longrightarrow> live (expired ttl k s) k' = live s k'"
  unfolding expired_def by (simp_all only: exec_op_clock live_expire) (simp_all split: option.split)

lemma touched_clock [simp]: "redisClock (touched ttl r s) = redisClock s"
  by (simp add: touched_def expired_facts)

lemma touched_live [simp]: "0 < ttl \<Longrightarrow> live (touched ttl r s) k = live s k"
  by (simp add: touched_def expired_facts)

lemma touched_other: "k \<notin> keysOf r \<Longrightarrow> redisKeys (touched ttl r s) k = redisKeys s k"
  by (simp add: touched_def expired_facts keysOf_def)

lemma touched_expiry:
  assumes "0 < ttl" and "plainID r" and "k \<in> keysOf r" and "live s k \<noteq> None"
  shows "redisKeys (touched ttl r s) k = Some (the (live s k), Some (redisClock s + ttl))"
  using assms by (auto simp: touched_def expired_facts keysOf_def)

lemma exec_all_append:
  "exec_all (ops @ ops') s = (case exec_all ops s of (ok, s') \<Rightarrow>
     case exec_all ops' s' of (oks, s'') \<Rightarrow> (ok \<and> oks, s''))"
  by (induction ops arbitrary: s) (auto split: prod.splits)

lemma wp_pipelines:
  assumes "E StoreFault s"
    and "fst (exec_all ops s) \<Longrightarrow> Q () (touched ttl r (snd (exec_all ops s)))"
    and "\<not> fst (exec_all ops s) \<Longrightarrow> E StoreFault (touched ttl r (snd (exec_all ops s)))"
  shows "wp (txPipelined (ops @ expireAll ttl r)) Q E s"
  unfolding txPipelined_def using assms
  by (auto intro!: wp_bnd wp_command wp_if wp_ret wp_fail simp: exec_all_append expireAll_eq split: prod.splits)

lemma wp_pipeline:
  assumes "E StoreFault s"
    and "fst (exec_op op s) \<Longrightarrow> Q () (touched ttl r (snd (exec_op op s)))"
    and "\<not> fst (exec_op op s) \<Longrightarrow> E StoreFault (touched ttl r (snd (exec_op op s)))"
  shows "wp (txPipelined (op # expireAll ttl r)) Q E s"
  unfolding txPipelined_def using assms
  by (auto intro!: wp_bnd wp_command wp_if wp_ret wp_fail simp: expireAll_eq split: prod.splits)

lemma wp_readRedis:
  "E StoreFault s \<Longrightarrow> (\<And>a. f s = Some a \<Longrightarrow> Q a s) \<Longrightarrow> wp (readRedis f) Q E s"
  unfolding readRedis_def by (auto intro!: wp_command split: option.splits)

lemma twp_readRedis: "f s = Some a \<Longrightarrow> Q a s \<Longrightarrow> twp (readRedis f) Q s"
  unfolding readRedis_def by (auto intro!: twp_command)

section \<open>Stored rooms\<close>

definition storedRoom :: "'x redis_scheme \<Rightarrow> string \<Rightarrow> room option" where
  "storedRoom s r = (case hashOf s (KeyRoom r) of
     Some h \<Rightarrow> if h = [] then None else Some (fieldsToRoom (map_of h)) | None \<Rightarrow> None)"

lemma GetRoom_spec:
  "wp (GetRoom r) (\<lambda>rm s'. s' = s \<and> storedRoom s r = Some rm) (\<lambda>_ s'. s' = s) s"
  unfolding GetRoom_def storedRoom_def
  by (auto intro!: wp_bnd wp_wrap wp_readRedis wp_if wp_fail wp_ret)

lemma GetRoom_found: "storedRoom s r = Some rm \<Longrightarrow> GetRoom r (clean s) = (Inr rm, clean s)"
  by (auto simp: storedRoom_def GetRoom_def bnd_def wrap_def attempt_def readRedis_def command_clean
      ret_def split: option.splits if_splits)

lemma GetRoom_missing: "live s (KeyRoom r) = None \<Longrightarrow> GetRoom r (clean s) = (Inl RoomNotFound, clean s)"
  by (simp add: GetRoom_def bnd_def wrap_def attempt_def readRedis_def command_clean hashOf_def
      ret_def fail_def)


section \<open>What each operation does to the live keys\<close>

lemma hashOf_touched [simp]: "0 < ttl \<Longrightarrow> hashOf (touched ttl r s) k = hashOf s k"
  by (simp add: hashOf_def)

lemma listOf_touched [simp]: "0 < ttl \<Longrightarrow> listOf (touched ttl r s) k = listOf s k"
  by (simp add: listOf_def)

lemma hashOf_put [simp]:
  "hashOf (put k (RHash h) s) k' = (if k' = k then Some h else hashOf s k')"
  by (simp add: hashOf_def)

lemma listOf_put [simp]:
  "listOf (put k (RList l) s) k' = (if k' = k then Some l else listOf s k')"
  by (simp add: listOf_def)

lemma map_of_hset [simp]: "map_of (hset h fs) = map_of h ++ map_of (rev fs)"
  unfolding hset_def
  by (induction fs arbitrary: h) (auto simp: update_conv' map_add_def fun_eq_iff split: option.splits)

lemma hset_nonempty [simp]: "fs \<noteq> [] \<Longrightarrow> hset h fs \<noteq> []"
proof -
  assume "fs \<noteq> []"
  then have "map_of (hset h fs) (fst (last fs)) \<noteq> None"
    by (cases fs rule: rev_cases) (auto simp: map_add_def split: option.split)
  then show ?thesis by (auto simp del: map_of_hset)
qed

lemma fieldsToRoom_roomToFields: "fieldsToRoom (m ++ map_of (rev (roomToFields rm))) = rm"
  by (simp add: fieldsToRoom_def roomToFields_def textField_def intField_def floatField_def)

lemma storedRoom_touched [simp]: "0 < ttl \<Longrightarrow> storedRoom (touched ttl r s) r' = storedRoom s r'"
  by (simp add: storedRoom_def)

lemma storedRoom_put_room: "storedRoom (put (KeyRoom r) (RHash (hset h (roomToFields rm))) s) r = Some rm"
proof -
  have "hset h (roomToFields rm) \<noteq> []" by (rule hset_nonempty) (simp add: roomToFields_def)
  then show ?thesis by (simp add: storedRoom_def fieldsToRoom_roomToFields)
qed

lemma CreateRoom_spec:
  assumes "0 < ttl"
  shows "wp (CreateRoom ttl rm) (\<lambda>_ s'. storedRoom s' (roomID rm) = Some rm \<and> redisClock s' = redisClock s
       \<and> (\<forall>k. k \<noteq> KeyRoom (roomID rm) \<longrightarrow> live s' k = live s k)
       \<and> (plainID (roomID rm) \<longrightarrow>
            (\<exists>v. redisKeys s' (KeyRoom (roomID rm)) = Some (v, Some (redisClock s + ttl)))))
     (\<lambda>_ _. True) s"
  unfolding CreateRoom_def
  using assms storedRoom_put_room
  by (auto intro!: wp_if wp_fail wp_wrap wp_pipeline simp: touched_expiry keysOf_def split: option.splits)

text \<open>The typed view of an update of room fields.\<close>

fun setField :: "room \<Rightarrow> string \<times> field_value \<Rightarrow> room" where
  "setField rm (f, v) =
     (if f = ''id'' then rm\<lparr>roomID := textField [f \<mapsto> encodeField v] f\<rparr>
      else if f = ''created_at'' then rm\<lparr>roomCreatedAt := intField [f \<mapsto> encodeField v] f\<rparr>
      else if f = ''anime_id'' then rm\<lparr>roomAnimeID := textField [f \<mapsto> encodeField v] f\<rparr>
      else if f = ''episode_id'' then rm\<lparr>roomEpisodeID := textField [f \<mapsto> encodeField v] f\<rparr>
      else if f = ''player'' then rm\<lparr>roomPlayer := textField [f \<mapsto> encodeField v] f\<rparr>
      else if f = ''translation_id'' then rm\<lparr>roomTranslationID := textField [f \<mapsto> encodeField v] f\<rparr>
      else if f = ''playback_state'' then rm\<lparr>roomState := textField [f \<mapsto> encodeField v] f\<rparr>
      else if f = ''playback_time'' then rm\<lparr>roomTime := floatField [f \<mapsto> encodeField v] f\<rparr>
      else if f = ''playback_time_updated_at'' then rm\<lparr>roomUpdatedAtMs := intField [f \<mapsto> encodeField v] f\<rparr>
      else if f = ''host_user_id'' then rm\<lparr>roomHost := textField [f \<mapsto> encodeField v] f\<rparr>
      else rm)"

lemma fieldsToRoom_upd: "fieldsToRoom (m(f \<mapsto> encodeField v)) = setField (fieldsToRoom m) (f, v)"
  by (simp add: fieldsToRoom_def textField_def intField_def floatField_def)

lemma fieldsToRoom_updates:
  "fieldsToRoom (map_of (hset h (map (\<lambda>(f, v). (f, encodeField v)) fs))) =
   foldl setField (fieldsToRoom (map_of h)) fs"
proof (induction fs arbitrary: h)
  case Nil
  then show ?case by (simp add: hset_def)
next
  case (Cons fv fs)
  obtain f v where fv: "fv = (f, v)" by force
  have upd: "map_of (AList.update f (encodeField v) h) = (map_of h)(f \<mapsto> encodeField v)"
    by (simp add: update_conv' fun_eq_iff)
  show ?case
    using Cons.IH [of "AList.update f (encodeField v) h"]
    by (simp only: hset_def fv upd fieldsToRoom_upd list.map foldl_Cons case_prod_conv)
qed

definition blankRoom :: room where
  "blankRoom = fieldsToRoom Map.empty"

lemma storedRoom_put_fields:
  assumes "hashOf s (KeyRoom r) = Some h" and "fs \<noteq> []"
  shows "storedRoom (put (KeyRoom r) (RHash (hset h (map (\<lambda>(f, v). (f, encodeField v)) fs))) s) r =
      Some (foldl setField (case storedRoom s r of Some rm \<Rightarrow> rm | None \<Rightarrow> blankRoom) fs)"
proof -
  have "hset h (map (\<lambda>(f, v). (f, encodeField v)) fs) \<noteq> []" by (rule hset_nonempty) (use assms in simp)
  then show ?thesis
    using assms fieldsToRoom_updates [of h fs]
    by (auto simp: storedRoom_def blankRoom_def simp del: map_of_hset setField.simps)
qed

lemma UpdateRoomState_spec:
  assumes "0 < ttl"
  shows "wp (UpdateRoomState ttl r fs)
     (\<lambda>_ s'. storedRoom s' r = Some (foldl setField (case storedRoom s r of Some rm \<Rightarrow> rm | None \<Rightarrow> blankRoom) fs)
       \<and> redisClock s' = redisClock s \<and> (\<forall>k. k \<noteq> KeyRoom r \<longrightarrow> live s' k = live s k))
     (\<lambda>_ s'. (\<forall>k. live s' k = live s k) \<and> redisClock s' = redisClock s) s"
  unfolding UpdateRoomState_def using assms storedRoom_put_fields [of s r]
  by (auto intro!: wp_if wp_fail wp_option wp_prod wp_wrap wp_pipeline
      simp del: setField.simps split: option.splits)


section \<open>Chat\<close>

text \<open>
  The abstract chat of a room is its whole history, oldest first; the list in Redis is the window of
  the last hundred messages, newest first.
\<close>

definition chatLog :: "'x redis_scheme \<Rightarrow> string \<Rightarrow> chat_message list \<Rightarrow> bool" where
  "chatLog s r hist \<longleftrightarrow> listOf s (KeyRoomMessages r) = Some (map MessageJSON (take 100 (rev hist)))"

lemma decode_messages: "List.map_filter decodeMessage (map MessageJSON ms) = ms"
  by (induction ms) (simp_all add: List.map_filter_simps)

lemma decode_take: "List.map_filter decodeMessage (take n (map MessageJSON ms)) = take n ms"
  by (metis take_map decode_messages)

lemma AppendMessage_spec:
  assumes "0 < ttl" and "chatLog s r hist"
  shows "wp (AppendMessage ttl r m)
     (\<lambda>_ s'. chatLog s' r (hist @ [m]) \<and> (\<forall>k. k \<noteq> KeyRoomMessages r \<longrightarrow> live s' k = live s k)
        \<and> redisClock s' = redisClock s)
     (\<lambda>_ s'. (\<forall>k. live s' k = live s k) \<and> redisClock s' = redisClock s) s"
proof -
  let ?k = "KeyRoomMessages r"
  let ?ops = "[LPush ?k (MessageJSON m), LTrim ?k chatListMaxIndex]"
  let ?l = "map MessageJSON (take 100 (rev hist))"
  have l: "listOf s ?k = Some ?l" using assms(2) by (simp add: chatLog_def)
  have run: "exec_all ?ops s = (True, put ?k (RList (take 100 (MessageJSON m # ?l))) (put ?k (RList (MessageJSON m # ?l)) s))"
    using l by (simp add: chatListMaxIndex_def)
  have window: "take 100 (MessageJSON m # ?l) = map MessageJSON (take 100 (rev (hist @ [m])))"
    by (simp add: take_Cons' take_map)
  have "wp (txPipelined (?ops @ expireAll ttl r))
      (\<lambda>_ s'. chatLog s' r (hist @ [m]) \<and> (\<forall>k. k \<noteq> ?k \<longrightarrow> live s' k = live s k) \<and> redisClock s' = redisClock s)
      (\<lambda>_ s'. (\<forall>k. live s' k = live s k) \<and> redisClock s' = redisClock s) s"
    by (rule wp_pipelines) (use assms(1) window in \<open>simp_all add: run chatLog_def del: exec_all.simps exec_op.simps\<close>)
  then show ?thesis
    unfolding AppendMessage_def by (auto intro!: wp_if wp_fail wp_wrap elim: wp_mono)
qed

lemma GetMessages_spec:
  assumes "chatLog s r hist"
  shows "wp (GetMessages r limit)
     (\<lambda>ms s'. s' = s \<and> ms = drop (length hist - min (nat limit) 100) hist) (\<lambda>_ s'. s' = s) s"
proof -
  have "rev (take (nat limit) (take 100 (rev hist))) = drop (length hist - min (nat limit) 100) hist"
    by (simp only: take_take) (simp add: take_rev)
  then show ?thesis
    unfolding GetMessages_def using assms
    by (auto intro!: wp_if wp_bnd wp_wrap wp_readRedis wp_ret
        simp: chatLog_def decode_take take_map [symmetric] simp del: take_map)
qed

section \<open>Members\<close>

definition memberMap :: "'x redis_scheme \<Rightarrow> string \<Rightarrow> string \<rightharpoonup> member_meta" where
  "memberMap s r u = (case hashOf s (KeyRoomMembers r) of
     None \<Rightarrow> None | Some h \<Rightarrow> Option.bind (map_of h u) decodeMeta)"

definition membersOK :: "'x redis_scheme \<Rightarrow> string \<Rightarrow> bool" where
  "membersOK s r \<longleftrightarrow> (\<exists>h. hashOf s (KeyRoomMembers r) = Some h \<and> distinct (map fst h)
     \<and> (\<forall>(u, raw) \<in> set h. decodeMeta raw \<noteq> None))"

lemma distinct_hset: "distinct (map fst h) \<Longrightarrow> distinct (map fst (hset h fs))"
  unfolding hset_def by (induction fs arbitrary: h) (auto simp: distinct_update)

lemma update_entry: "x \<in> set (AList.update k v al) \<Longrightarrow> x = (k, v) \<or> x \<in> set al"
  by (induction al) (auto split: if_splits)

lemma hset_one: "hset h [(f, v)] = AList.update f v h"
  by (simp add: hset_def)

lemma AddMember_spec:
  assumes "0 < ttl" and "membersOK s r"
  shows "wp (AddMember ttl r u meta)
     (\<lambda>_ s'. memberMap s' r = (memberMap s r)(u \<mapsto> meta) \<and> membersOK s' r
        \<and> (\<forall>k. k \<noteq> KeyRoomMembers r \<longrightarrow> live s' k = live s k) \<and> redisClock s' = redisClock s)
     (\<lambda>_ s'. (\<forall>k. live s' k = live s k) \<and> redisClock s' = redisClock s) s"
proof -
  obtain h where h: "hashOf s (KeyRoomMembers r) = Some h" "distinct (map fst h)"
    "\<forall>(u, raw) \<in> set h. decodeMeta raw \<noteq> None"
    using assms(2) by (auto simp: membersOK_def)
  let ?s = "put (KeyRoomMembers r) (RHash (hset h [(u, MetaJSON meta)])) s"
  have "\<forall>(u, raw) \<in> set (hset h [(u, MetaJSON meta)]). decodeMeta raw \<noteq> None"
    using h(3) update_entry by (fastforce simp: hset_one)
  then have ok: "membersOK (touched ttl r ?s) r"
    using distinct_hset [OF h(2)] assms(1) by (auto simp: membersOK_def)
  have "memberMap (touched ttl r ?s) r = (memberMap s r)(u \<mapsto> meta)"
    using assms(1) by (auto simp: memberMap_def h(1) fun_eq_iff split: option.split)
  then show ?thesis
    unfolding AddMember_def using assms(1) h(1) ok
    by (auto intro!: wp_if wp_fail wp_wrap wp_pipeline simp del: map_of_hset)
qed


lemma RemoveMember_spec:
  assumes "0 < ttl" and "membersOK s r"
  shows "wp (RemoveMember ttl r u)
     (\<lambda>_ s'. memberMap s' r = (memberMap s r)(u := None) \<and> membersOK s' r
        \<and> (\<forall>k. k \<noteq> KeyRoomMembers r \<longrightarrow> live s' k = live s k) \<and> redisClock s' = redisClock s)
     (\<lambda>_ s'. (\<forall>k. live s' k = live s k) \<and> redisClock s' = redisClock s) s"
proof -
  obtain h where h: "hashOf s (KeyRoomMembers r) = Some h" "distinct (map fst h)"
    "\<forall>(u, raw) \<in> set h. decodeMeta raw \<noteq> None"
    using assms(2) by (auto simp: membersOK_def)
  let ?h = "AList.delete u h"
  have d: "distinct (map fst ?h)" using h(2) by (rule distinct_delete)
  have dec: "\<forall>(u, raw) \<in> set ?h. decodeMeta raw \<noteq> None" using h(3) by (auto simp: AList.delete_eq)
  have m: "Option.bind (map_of ?h x) decodeMeta = ((memberMap s r)(u := None)) x" for x
    by (simp add: memberMap_def h(1) delete_conv')
  show ?thesis
  proof (cases "?h = []")
    case True
    let ?s = "drop_key (KeyRoomMembers r) s"
    have "membersOK (touched ttl r ?s) r" using assms(1) by (simp add: membersOK_def hashOf_def)
    moreover have "memberMap (touched ttl r ?s) r = (memberMap s r)(u := None)"
      using m True assms(1) by (auto simp: memberMap_def hashOf_def fun_eq_iff)
    ultimately show ?thesis
      unfolding RemoveMember_def using assms(1) h(1) True
      by (auto intro!: wp_if wp_fail wp_wrap wp_pipeline)
  next
    case False
    let ?s = "put (KeyRoomMembers r) (RHash ?h) s"
    have "membersOK (touched ttl r ?s) r" using assms(1) d dec by (simp add: membersOK_def)
    moreover have "memberMap (touched ttl r ?s) r = (memberMap s r)(u := None)"
      using m assms(1) by (auto simp: memberMap_def fun_eq_iff)
    ultimately show ?thesis
      unfolding RemoveMember_def using assms(1) h(1) False
      by (auto intro!: wp_if wp_fail wp_wrap wp_pipeline)
  qed
qed

lemma ListMembers_spec:
  assumes "membersOK s r"
  shows "wp (ListMembers r)
     (\<lambda>ms s'. s' = s \<and> distinct (map memberUserID ms)
        \<and> (\<forall>u meta. \<lparr>memberUserID = u, memberMeta = meta\<rparr> \<in> set ms \<longleftrightarrow> memberMap s r u = Some meta))
     (\<lambda>_ s'. s' = s) s"
proof -
  obtain h where h: "hashOf s (KeyRoomMembers r) = Some h" "distinct (map fst h)"
    "\<forall>(u, raw) \<in> set h. decodeMeta raw \<noteq> None"
    using assms by (auto simp: membersOK_def)
  let ?f = "\<lambda>(u, raw). map_option (\<lambda>meta. \<lparr>memberUserID = u, memberMeta = meta\<rparr>) (decodeMeta raw)"
  have keys: "\<forall>(u, raw) \<in> set h. decodeMeta raw \<noteq> None \<Longrightarrow>
      map memberUserID (List.map_filter ?f h) = map fst h" for h
    by (induction h) (auto simp: List.map_filter_simps)
  have mem: "\<lparr>memberUserID = u, memberMeta = meta\<rparr> \<in> set (List.map_filter ?f h)
      \<longleftrightarrow> memberMap s r u = Some meta" for u meta
    using h(2) by (force simp: List.map_filter_def memberMap_def h(1) image_iff bind_eq_Some_conv
        dest: map_of_SomeD)
  show ?thesis
    unfolding ListMembers_def using keys [OF h(3)] mem h(1,2)
    by (auto intro!: wp_bnd wp_wrap wp_readRedis wp_ret)
qed

section \<open>The memory of the process\<close>

text \<open>No operation of the repository touches what the process keeps beside Redis.\<close>

lemma put_more [simp]:
  "redis.more (put k v s) = redis.more s" "redis.more (drop_key k s) = redis.more s"
  by (simp_all add: put_def drop_key_def)

lemma exec_op_more [simp]: "redis.more (snd (exec_op op s)) = redis.more s"
  by (cases op) (auto simp: Let_def split: option.split)

lemma exec_all_more [simp]: "redis.more (snd (exec_all ops s)) = redis.more s"
proof (induction ops arbitrary: s)
  case (Cons op ops)
  obtain ok s1 where 1: "exec_op op s = (ok, s1)" by force
  obtain oks s2 where 2: "exec_all ops s1 = (oks, s2)" by force
  show ?case using exec_op_more [of op s] Cons.IH [of s1] by (simp add: 1 2)
qed simp

definition memoryKept :: "('x, 'a) rprog \<Rightarrow> bool" where
  "memoryKept m \<longleftrightarrow> (\<forall>s. wp m (\<lambda>_ s'. redis.more s' = redis.more s) (\<lambda>_ s'. redis.more s' = redis.more s) s)"

lemma memoryKept_pipeline: "memoryKept (txPipelined ops)"
proof -
  have "exec_all ops s = (ok, s') \<Longrightarrow> redis.more s' = redis.more s" for ok s s'
    using exec_all_more [of ops s] by simp
  then show ?thesis
    unfolding memoryKept_def txPipelined_def
    by (auto intro!: wp_bnd wp_command wp_if wp_ret wp_fail split: prod.splits)
qed

lemma memoryKept_rules:
  "memoryKept (ret a)" "memoryKept (fail e)"
  "memoryKept m \<Longrightarrow> memoryKept (wrap m e)"
  "memoryKept m \<Longrightarrow> memoryKept m' \<Longrightarrow> memoryKept (if c then m else m')"
  "memoryKept (readRedis f)" "memoryKept (query q)"
  by (auto simp: memoryKept_def readRedis_def intro!: wp_ret wp_fail wp_wrap wp_command wp_query split: option.splits)

lemma memoryKept_bnd:
  assumes "memoryKept m" and "\<And>a. memoryKept (f a)"
  shows "memoryKept (bnd m f)"
  unfolding memoryKept_def
proof
  fix s
  have "wp (f a) (\<lambda>_ s'. redis.more s' = redis.more s) (\<lambda>_ s'. redis.more s' = redis.more s) s'"
    if "redis.more s' = redis.more s" for a s'
    using assms(2) that unfolding memoryKept_def by metis
  then show "wp (bnd m f) (\<lambda>_ s'. redis.more s' = redis.more s) (\<lambda>_ s'. redis.more s' = redis.more s) s"
    using assms(1) by (auto simp: memoryKept_def intro!: wp_bnd elim!: allE [of _ s] wp_mono)
qed

lemma memoryKept_repo:
  "memoryKept (CreateRoom ttl rm)" "memoryKept (GetRoom r)" "memoryKept (Exists r)"
  "memoryKept (UpdateRoomState ttl r fs)" "memoryKept (DeleteRoom r)" "memoryKept (AddMember ttl r u meta)"
  "memoryKept (RemoveMember ttl r u)" "memoryKept (ListMembers r)" "memoryKept (CountMembers r)"
  "memoryKept (MessageCount r)" "memoryKept (AppendMessage ttl r m)" "memoryKept (GetMessages r n)"
  "memoryKept (RefreshTTL ttl r)" "memoryKept (Publish r)"
proof -
  show "memoryKept (UpdateRoomState ttl r fs)"
    unfolding UpdateRoomState_def
    by (cases "find (\<lambda>(name, _). name \<notin> set allowedRoomFields) fs")
      (auto intro!: memoryKept_rules memoryKept_pipeline)
  show "memoryKept (DeleteRoom r)"
    unfolding DeleteRoom_def by (rule memoryKept_rules) (auto simp: memoryKept_def intro!: wp_command)
  show "memoryKept (Publish r)"
    unfolding Publish_def touch_def by (rule memoryKept_rules) (auto simp: memoryKept_def intro!: wp_command)
qed (auto simp: CreateRoom_def GetRoom_def Exists_def AddMember_def RemoveMember_def ListMembers_def
    CountMembers_def MessageCount_def AppendMessage_def GetMessages_def RefreshTTL_def
    intro!: memoryKept_rules memoryKept_bnd memoryKept_pipeline)

section \<open>Runs without faults\<close>

text \<open>When Redis answers and the keys hold values of their own types, every operation succeeds.\<close>

lemma succeeds_pipeline:
  assumes "fst (exec_all ops s)"
  shows "twp (txPipelined ops) (\<lambda>_ _. True) s"
proof -
  obtain s' where "exec_all ops s = (True, s')" using assms by (cases "exec_all ops s") auto
  then have "twp (command (\<lambda>s. case exec_all ops s of (ok, s') \<Rightarrow> (Inr ok, s')))
      (\<lambda>ok s'. twp (if ok then ret () else fail StoreFault) (\<lambda>_ _. True) s') s"
    by (intro twp_command [where a = True and d' = s']) (simp_all add: twp_ret)
  then show ?thesis
    unfolding txPipelined_def by (rule twp_bnd)
qed

lemma fst_exec_Cons: "fst (exec_all (op # expireAll ttl r) s) = fst (exec_op op s)"
  by (simp add: expireAll_eq split: prod.split)

lemma succeeds_command: "(\<And>s. \<exists>a s'. q s = (Inr a, s')) \<Longrightarrow> twp (command q) (\<lambda>_ _. True) s"
  by (metis twp_command)

lemma succeeds_read: "f s \<noteq> None \<Longrightarrow> twp (readRedis f) (\<lambda>_ _. True) s"
  by (auto intro: twp_readRedis)

lemma succeeds_CreateRoom:
  "roomID rm \<noteq> [] \<Longrightarrow> hashOf s (KeyRoom (roomID rm)) \<noteq> None \<Longrightarrow> twp (CreateRoom ttl rm) (\<lambda>_ _. True) s"
  unfolding CreateRoom_def by (auto intro!: twp_wrap succeeds_pipeline simp: expireAll_eq fst_exec_Cons)

lemma succeeds_members:
  assumes "r \<noteq> []" and "u \<noteq> []" and "hashOf s (KeyRoomMembers r) \<noteq> None"
  shows "twp (AddMember ttl r u meta) (\<lambda>_ _. True) s" and "twp (RemoveMember ttl r u) (\<lambda>_ _. True) s"
  using assms unfolding AddMember_def RemoveMember_def
  by (auto intro!: twp_wrap succeeds_pipeline simp: expireAll_eq fst_exec_Cons Let_def)

lemma succeeds_simple:
  "twp (Exists r) (\<lambda>_ _. True) s" "twp (DeleteRoom r) (\<lambda>_ _. True) s" "twp (Publish r) (\<lambda>_ _. True) s"
  unfolding Exists_def DeleteRoom_def Publish_def touch_def
  by (auto intro!: twp_wrap twp_query succeeds_command)

lemma twp_ListMembers:
  "hashOf s (KeyRoomMembers r) = Some h \<Longrightarrow> Q (List.map_filter (\<lambda>(u, raw). map_option
     (\<lambda>meta. \<lparr>memberUserID = u, memberMeta = meta\<rparr>) (decodeMeta raw)) h) s \<Longrightarrow> twp (ListMembers r) Q s"
  unfolding ListMembers_def by (intro twp_bnd twp_wrap twp_readRedis [where a = h] twp_ret)

lemma succeeds_reads:
  "hashOf s (KeyRoomMembers r) \<noteq> None \<Longrightarrow> twp (ListMembers r) (\<lambda>_ _. True) s"
  "listOf s (KeyRoomMessages r) \<noteq> None \<Longrightarrow> twp (GetMessages r n) (\<lambda>_ _. True) s"
  unfolding GetMessages_def
  by (auto intro!: twp_ListMembers twp_if twp_bnd twp_wrap twp_readRedis twp_ret)

lemma succeeds_UpdateRoomState:
  assumes "r \<noteq> []" and "fs \<noteq> []" and "set (map fst fs) \<subseteq> set allowedRoomFields"
    and "hashOf s (KeyRoom r) \<noteq> None"
  shows "twp (UpdateRoomState ttl r fs) (\<lambda>_ _. True) s"
proof -
  have "find (\<lambda>(name, _). name \<notin> set allowedRoomFields) fs = None"
    using assms(3) by (auto simp: find_None_iff)
  then show ?thesis
    unfolding UpdateRoomState_def using assms
    by (auto intro!: twp_wrap succeeds_pipeline simp: expireAll_eq fst_exec_Cons)
qed

lemma succeeds_AppendMessage:
  assumes "r \<noteq> []" and "listOf s (KeyRoomMessages r) \<noteq> None"
  shows "twp (AppendMessage ttl r m) (\<lambda>_ _. True) s"
proof -
  obtain l where "listOf s (KeyRoomMessages r) = Some l" using assms(2) by auto
  then have "fst (exec_all (LPush (KeyRoomMessages r) (MessageJSON m)
      # LTrim (KeyRoomMessages r) chatListMaxIndex # expireAll ttl r) s)"
    by (simp add: expireAll_eq split: prod.split)
  then show ?thesis
    unfolding AppendMessage_def using assms(1) by (auto intro!: twp_wrap succeeds_pipeline)
qed

end
