(* ===== verification/WT_State.thy ===== *)
theory WT_State
  imports WT_Repo_Laws
begin

text \<open>
  The state of one watch-together process: Redis (inherited from \<open>redis\<close>) and the memory of the
  drift engine, the rate limiter, the room cache, the catalog client, the hub and the grace
  manager; and what the process is given from outside (\<open>deps\<close>): its configuration, the rounding of
  floating point, the token bucket of \<^verbatim>\<open>golang.org/x/time/rate\<close>, the catalog service.

  The clock \<open>redisClock\<close> counts Unix milliseconds; it stands still during an operation.
\<close>

section \<open>Inbound envelopes\<close>

text \<open>
  The payload of an inbound envelope is a parsed JSON value; \<open>None\<close> is a missing payload. The
  decoders follow \<^verbatim>\<open>json.Unmarshal\<close> into a struct with one field: \<open>null\<close> leaves the zero value,
  a key matches the field's name up to ASCII case, the last matching key wins, other keys are
  ignored, and a value of the wrong kind is an error.
\<close>

datatype json =
    JNull | JBool bool | JNumber real | JString string | JArray "json list"
  | JObject "(string \<times> json) list"

record inbound =
  inType :: string
  inData :: "json option"

definition lower :: "char \<Rightarrow> char" where
  "lower c = (let n = of_char c :: nat in if 65 \<le> n \<and> n \<le> 90 then char_of (n + 32) else c)"

definition sameKey :: "string \<Rightarrow> string \<Rightarrow> bool" where
  "sameKey a b \<longleftrightarrow> map lower a = map lower b"

fun numberOf :: "real \<Rightarrow> json \<Rightarrow> real option" where
  "numberOf old JNull = Some old"
| "numberOf _ (JNumber x) = Some x"
| "numberOf _ _ = None"

fun stringOf :: "string \<Rightarrow> json \<Rightarrow> string option" where
  "stringOf old JNull = Some old"
| "stringOf _ (JString x) = Some x"
| "stringOf _ _ = None"

fun decodeField :: "('a \<Rightarrow> json \<Rightarrow> 'a option) \<Rightarrow> string \<Rightarrow> 'a \<Rightarrow> (string \<times> json) list \<Rightarrow> 'a option" where
  "decodeField conv name old [] = Some old"
| "decodeField conv name old ((k, v) # kvs) =
     (if sameKey k name
      then (case conv old v of None \<Rightarrow> None | Some x \<Rightarrow> decodeField conv name x kvs)
      else decodeField conv name old kvs)"

fun decodeStruct :: "('a \<Rightarrow> json \<Rightarrow> 'a option) \<Rightarrow> string \<Rightarrow> 'a \<Rightarrow> json option \<Rightarrow> 'a option" where
  "decodeStruct conv name zero (Some (JObject kvs)) = decodeField conv name zero kvs"
| "decodeStruct conv name zero (Some JNull) = Some zero"
| "decodeStruct conv name zero _ = None"

definition decodeTime :: "json option \<Rightarrow> real option" where
  "decodeTime = decodeStruct numberOf ''time'' 0"

definition decodeText :: "string \<Rightarrow> json option \<Rightarrow> string option" where
  "decodeText name = decodeStruct stringOf name []"

section \<open>The state of a process\<close>

record drift_state =
  consecutiveHardDrifts :: int
  suspended :: bool

record validate_result =
  resultValid :: bool
  resultReason :: string

text \<open>
  A connection of the hub: its outbound buffer, the frames its write pump has put on the wire
  (oldest first), the \<open>closed\<close> signal, and whether the upgrade handler has installed its hooks
  \<open>OnMessage\<close> and \<open>OnClose\<close>.
\<close>

record connection =
  connUserID :: string
  connUsername :: string
  connRoomID :: string
  connQueue :: "envelope list"
  connWire :: "envelope list"
  connClosed :: bool
  connHooks :: bool

text \<open>
  The hub keeps the connections of each room; a pointer to a connection is a number. A grace
  entry names a timer: \<open>graceTimers\<close> are the timers that neither fired nor were stopped (room and
  deadline), \<open>graceFiring\<close> the rooms of the callbacks that the runtime has started and that have
  not run yet.
\<close>

record 'l wt = redis +
  driftMembers :: "string \<rightharpoonup> drift_state"
  seekBuckets :: "string \<rightharpoonup> 'l"
  chatBuckets :: "string \<rightharpoonup> 'l"
  roomEntries :: "string \<rightharpoonup> room \<times> int"
  catalogCache :: "string \<rightharpoonup> validate_result \<times> int"
  conns :: "nat \<rightharpoonup> connection"
  nextConn :: nat
  roomConns :: "string \<rightharpoonup> nat list"
  roomSubs :: "string list"
  graceEntries :: "string \<rightharpoonup> nat"
  graceTimers :: "nat \<rightharpoonup> string \<times> int"
  nextTimer :: nat
  graceFiring :: "string list"
  graceClosed :: bool

type_synonym ('l, 'a) wprog = "('l wt, 'a) prog"

section \<open>What the process is given\<close>

text \<open>What the catalog answers to one HTTP request: no response, or a status with the decoded body.\<close>

datatype catalog_reply =
    TransportError
  | CatalogResponse int "(bool \<times> validate_result) option"

record 'l deps =
  roomTTL :: int
  maxMembers :: int
  gracePeriod :: int
  publicBaseURL :: string
  instanceID :: string
  rounding :: "real \<Rightarrow> real"
  limNew :: "nat \<Rightarrow> nat \<Rightarrow> 'l"
  limAllow :: "int \<Rightarrow> 'l \<Rightarrow> bool \<times> 'l"
  catalogFetch :: "int \<Rightarrow> string \<Rightarrow> string \<Rightarrow> string \<Rightarrow> string \<Rightarrow> string \<Rightarrow> catalog_reply"
  decodeErrorText :: "json option \<Rightarrow> string"
  quoteText :: "string \<Rightarrow> string"

section \<open>Frames: what an operation leaves alone\<close>

text \<open>
  The parts of the state, one per component. Lemmas about an operation say which parts it may
  change (\<open>changesOnly\<close>); a whole state is never equated with another.
\<close>

datatype part = PRedis | PDrift | PLimiter | PCache | PCatalog | PHub | PGrace

fun samePart :: "part \<Rightarrow> 'l wt \<Rightarrow> 'l wt \<Rightarrow> bool" where
  "samePart PRedis s s' \<longleftrightarrow> redisClock s' = redisClock s \<and> redisKeys s' = redisKeys s"
| "samePart PDrift s s' \<longleftrightarrow> driftMembers s' = driftMembers s"
| "samePart PLimiter s s' \<longleftrightarrow> seekBuckets s' = seekBuckets s \<and> chatBuckets s' = chatBuckets s"
| "samePart PCache s s' \<longleftrightarrow> roomEntries s' = roomEntries s"
| "samePart PCatalog s s' \<longleftrightarrow> catalogCache s' = catalogCache s"
| "samePart PHub s s' \<longleftrightarrow> conns s' = conns s \<and> nextConn s' = nextConn s \<and> roomConns s' = roomConns s
     \<and> roomSubs s' = roomSubs s"
| "samePart PGrace s s' \<longleftrightarrow> graceEntries s' = graceEntries s \<and> graceTimers s' = graceTimers s
     \<and> nextTimer s' = nextTimer s \<and> graceFiring s' = graceFiring s \<and> graceClosed s' = graceClosed s"

definition changesOnly :: "part list \<Rightarrow> 'l wt \<Rightarrow> 'l wt \<Rightarrow> bool" where
  "changesOnly ps s s' \<longleftrightarrow> (\<forall>p \<in> {PRedis, PDrift, PLimiter, PCache, PCatalog, PHub, PGrace}.
     p \<in> set ps \<or> samePart p s s')"

lemma samePart_refl [simp]: "samePart p s s"
  by (cases p) simp_all

lemma samePart_trans: "samePart p s s' \<Longrightarrow> samePart p s' s'' \<Longrightarrow> samePart p s s''"
  by (cases p) simp_all

lemma all_parts: "p \<in> {PRedis, PDrift, PLimiter, PCache, PCatalog, PHub, PGrace}"
  by (cases p) simp_all

lemma changesOnlyD: "changesOnly ps s s' \<Longrightarrow> p \<notin> set ps \<Longrightarrow> samePart p s s'"
  using all_parts [of p] unfolding changesOnly_def by blast

lemma changesOnlyI: "(\<And>p. p \<notin> set ps \<Longrightarrow> samePart p s s') \<Longrightarrow> changesOnly ps s s'"
  unfolding changesOnly_def by blast

lemma changesOnly_refl [simp, intro]: "changesOnly ps s s"
  by (rule changesOnlyI) (rule samePart_refl)

lemma changesOnly_trans:
  "changesOnly ps s s' \<Longrightarrow> changesOnly qs s' s'' \<Longrightarrow> set ps \<union> set qs \<subseteq> set rs \<Longrightarrow> changesOnly rs s s''"
  by (rule changesOnlyI) (meson UnCI changesOnlyD samePart_trans subset_iff)

lemma changesOnly_mono: "changesOnly ps s s' \<Longrightarrow> set ps \<subseteq> set rs \<Longrightarrow> changesOnly rs s s'"
  by (rule changesOnly_trans [of ps s s' "[]" s']) auto

declare samePart.simps [simp del]

lemma changesOnly_keeps:
  assumes "changesOnly ps s s'"
  shows "PRedis \<notin> set ps \<Longrightarrow> redisClock s' = redisClock s"
    and "PRedis \<notin> set ps \<Longrightarrow> redisKeys s' = redisKeys s"
    and "PDrift \<notin> set ps \<Longrightarrow> driftMembers s' = driftMembers s"
    and "PLimiter \<notin> set ps \<Longrightarrow> seekBuckets s' = seekBuckets s"
    and "PLimiter \<notin> set ps \<Longrightarrow> chatBuckets s' = chatBuckets s"
    and "PCache \<notin> set ps \<Longrightarrow> roomEntries s' = roomEntries s"
    and "PCatalog \<notin> set ps \<Longrightarrow> catalogCache s' = catalogCache s"
    and "PHub \<notin> set ps \<Longrightarrow> conns s' = conns s"
    and "PHub \<notin> set ps \<Longrightarrow> nextConn s' = nextConn s"
    and "PHub \<notin> set ps \<Longrightarrow> roomConns s' = roomConns s"
    and "PHub \<notin> set ps \<Longrightarrow> roomSubs s' = roomSubs s"
    and "PGrace \<notin> set ps \<Longrightarrow> graceEntries s' = graceEntries s"
    and "PGrace \<notin> set ps \<Longrightarrow> graceTimers s' = graceTimers s"
    and "PGrace \<notin> set ps \<Longrightarrow> nextTimer s' = nextTimer s"
    and "PGrace \<notin> set ps \<Longrightarrow> graceFiring s' = graceFiring s"
    and "PGrace \<notin> set ps \<Longrightarrow> graceClosed s' = graceClosed s"
  using changesOnlyD [OF assms] samePart.simps by blast+

lemma live_more: "redisKeys s' = redisKeys s \<Longrightarrow> redisClock s' = redisClock s \<Longrightarrow> live s' = live s"
  by (simp add: fun_eq_iff live_def split: option.split)

text \<open>What Redis holds does not depend on the memory of the process.\<close>

lemma live_memory [simp]:
  "live (s\<lparr>driftMembers := v_driftMembers\<rparr>) = live s"
  "live (s\<lparr>seekBuckets := v_seekBuckets\<rparr>) = live s"
  "live (s\<lparr>chatBuckets := v_chatBuckets\<rparr>) = live s"
  "live (s\<lparr>roomEntries := v_roomEntries\<rparr>) = live s"
  "live (s\<lparr>catalogCache := v_catalogCache\<rparr>) = live s"
  "live (s\<lparr>conns := v_conns\<rparr>) = live s"
  "live (s\<lparr>nextConn := v_nextConn\<rparr>) = live s"
  "live (s\<lparr>roomConns := v_roomConns\<rparr>) = live s"
  "live (s\<lparr>roomSubs := v_roomSubs\<rparr>) = live s"
  "live (s\<lparr>graceEntries := v_graceEntries\<rparr>) = live s"
  "live (s\<lparr>graceTimers := v_graceTimers\<rparr>) = live s"
  "live (s\<lparr>nextTimer := v_nextTimer\<rparr>) = live s"
  "live (s\<lparr>graceFiring := v_graceFiring\<rparr>) = live s"
  "live (s\<lparr>graceClosed := v_graceClosed\<rparr>) = live s"
  by (rule live_more; simp)+

lemma hashOf_memory [simp]:
  "hashOf (s\<lparr>driftMembers := v_driftMembers\<rparr>) = hashOf s"
  "hashOf (s\<lparr>seekBuckets := v_seekBuckets\<rparr>) = hashOf s"
  "hashOf (s\<lparr>chatBuckets := v_chatBuckets\<rparr>) = hashOf s"
  "hashOf (s\<lparr>roomEntries := v_roomEntries\<rparr>) = hashOf s"
  "hashOf (s\<lparr>catalogCache := v_catalogCache\<rparr>) = hashOf s"
  "hashOf (s\<lparr>conns := v_conns\<rparr>) = hashOf s"
  "hashOf (s\<lparr>nextConn := v_nextConn\<rparr>) = hashOf s"
  "hashOf (s\<lparr>roomConns := v_roomConns\<rparr>) = hashOf s"
  "hashOf (s\<lparr>roomSubs := v_roomSubs\<rparr>) = hashOf s"
  "hashOf (s\<lparr>graceEntries := v_graceEntries\<rparr>) = hashOf s"
  "hashOf (s\<lparr>graceTimers := v_graceTimers\<rparr>) = hashOf s"
  "hashOf (s\<lparr>nextTimer := v_nextTimer\<rparr>) = hashOf s"
  "hashOf (s\<lparr>graceFiring := v_graceFiring\<rparr>) = hashOf s"
  "hashOf (s\<lparr>graceClosed := v_graceClosed\<rparr>) = hashOf s"
  by (simp_all add: fun_eq_iff hashOf_def)

lemma listOf_memory [simp]:
  "listOf (s\<lparr>driftMembers := v_driftMembers\<rparr>) = listOf s"
  "listOf (s\<lparr>seekBuckets := v_seekBuckets\<rparr>) = listOf s"
  "listOf (s\<lparr>chatBuckets := v_chatBuckets\<rparr>) = listOf s"
  "listOf (s\<lparr>roomEntries := v_roomEntries\<rparr>) = listOf s"
  "listOf (s\<lparr>catalogCache := v_catalogCache\<rparr>) = listOf s"
  "listOf (s\<lparr>conns := v_conns\<rparr>) = listOf s"
  "listOf (s\<lparr>nextConn := v_nextConn\<rparr>) = listOf s"
  "listOf (s\<lparr>roomConns := v_roomConns\<rparr>) = listOf s"
  "listOf (s\<lparr>roomSubs := v_roomSubs\<rparr>) = listOf s"
  "listOf (s\<lparr>graceEntries := v_graceEntries\<rparr>) = listOf s"
  "listOf (s\<lparr>graceTimers := v_graceTimers\<rparr>) = listOf s"
  "listOf (s\<lparr>nextTimer := v_nextTimer\<rparr>) = listOf s"
  "listOf (s\<lparr>graceFiring := v_graceFiring\<rparr>) = listOf s"
  "listOf (s\<lparr>graceClosed := v_graceClosed\<rparr>) = listOf s"
  by (simp_all add: fun_eq_iff listOf_def)

lemma storedRoom_memory [simp]:
  "storedRoom (s\<lparr>driftMembers := v_driftMembers\<rparr>) = storedRoom s"
  "storedRoom (s\<lparr>seekBuckets := v_seekBuckets\<rparr>) = storedRoom s"
  "storedRoom (s\<lparr>chatBuckets := v_chatBuckets\<rparr>) = storedRoom s"
  "storedRoom (s\<lparr>roomEntries := v_roomEntries\<rparr>) = storedRoom s"
  "storedRoom (s\<lparr>catalogCache := v_catalogCache\<rparr>) = storedRoom s"
  "storedRoom (s\<lparr>conns := v_conns\<rparr>) = storedRoom s"
  "storedRoom (s\<lparr>nextConn := v_nextConn\<rparr>) = storedRoom s"
  "storedRoom (s\<lparr>roomConns := v_roomConns\<rparr>) = storedRoom s"
  "storedRoom (s\<lparr>roomSubs := v_roomSubs\<rparr>) = storedRoom s"
  "storedRoom (s\<lparr>graceEntries := v_graceEntries\<rparr>) = storedRoom s"
  "storedRoom (s\<lparr>graceTimers := v_graceTimers\<rparr>) = storedRoom s"
  "storedRoom (s\<lparr>nextTimer := v_nextTimer\<rparr>) = storedRoom s"
  "storedRoom (s\<lparr>graceFiring := v_graceFiring\<rparr>) = storedRoom s"
  "storedRoom (s\<lparr>graceClosed := v_graceClosed\<rparr>) = storedRoom s"
  by (simp_all add: fun_eq_iff storedRoom_def)

lemma memberMap_memory [simp]:
  "memberMap (s\<lparr>driftMembers := v_driftMembers\<rparr>) = memberMap s"
  "memberMap (s\<lparr>seekBuckets := v_seekBuckets\<rparr>) = memberMap s"
  "memberMap (s\<lparr>chatBuckets := v_chatBuckets\<rparr>) = memberMap s"
  "memberMap (s\<lparr>roomEntries := v_roomEntries\<rparr>) = memberMap s"
  "memberMap (s\<lparr>catalogCache := v_catalogCache\<rparr>) = memberMap s"
  "memberMap (s\<lparr>conns := v_conns\<rparr>) = memberMap s"
  "memberMap (s\<lparr>nextConn := v_nextConn\<rparr>) = memberMap s"
  "memberMap (s\<lparr>roomConns := v_roomConns\<rparr>) = memberMap s"
  "memberMap (s\<lparr>roomSubs := v_roomSubs\<rparr>) = memberMap s"
  "memberMap (s\<lparr>graceEntries := v_graceEntries\<rparr>) = memberMap s"
  "memberMap (s\<lparr>graceTimers := v_graceTimers\<rparr>) = memberMap s"
  "memberMap (s\<lparr>nextTimer := v_nextTimer\<rparr>) = memberMap s"
  "memberMap (s\<lparr>graceFiring := v_graceFiring\<rparr>) = memberMap s"
  "memberMap (s\<lparr>graceClosed := v_graceClosed\<rparr>) = memberMap s"
  by (simp_all add: fun_eq_iff memberMap_def)

lemma membersOK_memory [simp]:
  "membersOK (s\<lparr>driftMembers := v_driftMembers\<rparr>) = membersOK s"
  "membersOK (s\<lparr>seekBuckets := v_seekBuckets\<rparr>) = membersOK s"
  "membersOK (s\<lparr>chatBuckets := v_chatBuckets\<rparr>) = membersOK s"
  "membersOK (s\<lparr>roomEntries := v_roomEntries\<rparr>) = membersOK s"
  "membersOK (s\<lparr>catalogCache := v_catalogCache\<rparr>) = membersOK s"
  "membersOK (s\<lparr>conns := v_conns\<rparr>) = membersOK s"
  "membersOK (s\<lparr>nextConn := v_nextConn\<rparr>) = membersOK s"
  "membersOK (s\<lparr>roomConns := v_roomConns\<rparr>) = membersOK s"
  "membersOK (s\<lparr>roomSubs := v_roomSubs\<rparr>) = membersOK s"
  "membersOK (s\<lparr>graceEntries := v_graceEntries\<rparr>) = membersOK s"
  "membersOK (s\<lparr>graceTimers := v_graceTimers\<rparr>) = membersOK s"
  "membersOK (s\<lparr>nextTimer := v_nextTimer\<rparr>) = membersOK s"
  "membersOK (s\<lparr>graceFiring := v_graceFiring\<rparr>) = membersOK s"
  "membersOK (s\<lparr>graceClosed := v_graceClosed\<rparr>) = membersOK s"
  by (simp_all add: fun_eq_iff membersOK_def)

lemma chatLog_memory [simp]:
  "chatLog (s\<lparr>driftMembers := v_driftMembers\<rparr>) = chatLog s"
  "chatLog (s\<lparr>seekBuckets := v_seekBuckets\<rparr>) = chatLog s"
  "chatLog (s\<lparr>chatBuckets := v_chatBuckets\<rparr>) = chatLog s"
  "chatLog (s\<lparr>roomEntries := v_roomEntries\<rparr>) = chatLog s"
  "chatLog (s\<lparr>catalogCache := v_catalogCache\<rparr>) = chatLog s"
  "chatLog (s\<lparr>conns := v_conns\<rparr>) = chatLog s"
  "chatLog (s\<lparr>nextConn := v_nextConn\<rparr>) = chatLog s"
  "chatLog (s\<lparr>roomConns := v_roomConns\<rparr>) = chatLog s"
  "chatLog (s\<lparr>roomSubs := v_roomSubs\<rparr>) = chatLog s"
  "chatLog (s\<lparr>graceEntries := v_graceEntries\<rparr>) = chatLog s"
  "chatLog (s\<lparr>graceTimers := v_graceTimers\<rparr>) = chatLog s"
  "chatLog (s\<lparr>nextTimer := v_nextTimer\<rparr>) = chatLog s"
  "chatLog (s\<lparr>graceFiring := v_graceFiring\<rparr>) = chatLog s"
  "chatLog (s\<lparr>graceClosed := v_graceClosed\<rparr>) = chatLog s"
  by (simp_all add: fun_eq_iff chatLog_def)

lemma live_same: "samePart PRedis s s' \<Longrightarrow> live s' = live s"
  by (rule live_more) (simp_all add: samePart.simps)

lemma storedRoom_same: "samePart PRedis s s' \<Longrightarrow> storedRoom s' = storedRoom s"
  using live_same [of s s'] by (simp add: fun_eq_iff storedRoom_def hashOf_def)

lemma changesOnly_live:
  assumes "changesOnly ps s s'" and "PRedis \<notin> set ps"
  shows "live s' = live s" and "hashOf s' = hashOf s" and "listOf s' = listOf s"
    and "storedRoom s' = storedRoom s" and "memberMap s' = memberMap s"
    and "membersOK s' = membersOK s" and "chatLog s' = chatLog s"
proof -
  have l: "live s' = live s" by (rule live_same) (rule changesOnlyD [OF assms])
  then show "live s' = live s" .
  from l show h: "hashOf s' = hashOf s" and "listOf s' = listOf s"
    by (simp_all add: fun_eq_iff hashOf_def listOf_def)
  then show "storedRoom s' = storedRoom s" "memberMap s' = memberMap s" "membersOK s' = membersOK s"
    "chatLog s' = chatLog s"
    by (simp_all add: fun_eq_iff storedRoom_def memberMap_def membersOK_def chatLog_def)
qed

section \<open>Repository operations on the state of a process\<close>

lemma more_changesOnly:
  fixes s s' :: "'l wt"
  assumes "redis.more s' = redis.more s"
  shows "changesOnly [PRedis] s s'"
  using assms by (cases s; cases s') (simp add: changesOnly_def samePart.simps)

lemma wp_repo:
  assumes "memoryKept m" and "wp m Q E s"
  shows "wp m (\<lambda>a s'. Q a s' \<and> changesOnly [PRedis] s s') (\<lambda>e s'. E e s' \<and> changesOnly [PRedis] s s') s"
proof -
  have "wp m (\<lambda>_ s'. redis.more s' = redis.more s) (\<lambda>_ s'. redis.more s' = redis.more s) s"
    using assms(1) by (simp add: memoryKept_def)
  then have "wp m (\<lambda>_ s'. changesOnly [PRedis] s s') (\<lambda>_ s'. changesOnly [PRedis] s s') s"
    by (rule wp_mono) (rule more_changesOnly, assumption)+
  from wp_conj [OF assms(2) this] show ?thesis .
qed

lemma twp_UpdateRoomState:
  assumes "0 < ttl" and "r \<noteq> []" and "fs \<noteq> []" and "set (map fst fs) \<subseteq> set allowedRoomFields"
    and "storedRoom s r = Some rm"
    and post: "\<And>s'. storedRoom s' r = Some (foldl setField rm fs) \<Longrightarrow> redisClock s' = redisClock s \<Longrightarrow>
       \<forall>k. k \<noteq> KeyRoom r \<longrightarrow> live s' k = live s k \<Longrightarrow> changesOnly [PRedis] s s' \<Longrightarrow> Q () s'"
  shows "twp (UpdateRoomState ttl r fs) Q s"
proof -
  have "hashOf s (KeyRoom r) \<noteq> None" using assms(5) by (auto simp: storedRoom_def split: option.splits)
  then have ok: "twp (UpdateRoomState ttl r fs) (\<lambda>_ _. True) s"
    using assms by (intro succeeds_UpdateRoomState)
  show ?thesis
    by (rule twp_mono [OF twp_from_wp [OF wp_repo [OF memoryKept_repo(4) UpdateRoomState_spec [OF assms(1)]] ok]])
      (use assms(5) post in \<open>simp del: setField.simps\<close>)
qed

section \<open>A process that has just started\<close>

definition initWT :: "int \<Rightarrow> 'l wt" where
  "initWT now =
     \<lparr>redisClock = now, redisKeys = Map.empty, driftMembers = Map.empty, seekBuckets = Map.empty,
      chatBuckets = Map.empty, roomEntries = Map.empty, catalogCache = Map.empty, conns = Map.empty,
      nextConn = 0, roomConns = Map.empty, roomSubs = [], graceEntries = Map.empty,
      graceTimers = Map.empty, nextTimer = 0, graceFiring = [], graceClosed = False\<rparr>"

lemma initWT_simps [simp]:
  "redisClock (initWT now) = now" "redisKeys (initWT now) = Map.empty"
  "driftMembers (initWT now) = Map.empty" "seekBuckets (initWT now) = Map.empty"
  "chatBuckets (initWT now) = Map.empty" "roomEntries (initWT now) = Map.empty"
  "catalogCache (initWT now) = Map.empty" "conns (initWT now) = Map.empty"
  "nextConn (initWT now) = 0" "roomConns (initWT now) = Map.empty" "roomSubs (initWT now) = []"
  "graceEntries (initWT now) = Map.empty" "graceTimers (initWT now) = Map.empty"
  "nextTimer (initWT now) = 0" "graceFiring (initWT now) = []" "graceClosed (initWT now) = False"
  by (simp_all add: initWT_def)

text \<open>A state that holds one room, for the witnesses.\<close>

definition withRoom :: "room \<Rightarrow> 'l wt \<Rightarrow> 'l wt" where
  "withRoom rm s = s\<lparr>redisKeys := (redisKeys s)(KeyRoom (roomID rm) \<mapsto> (RHash (roomToFields rm), None))\<rparr>"

lemma withRoom_stored [simp]: "storedRoom (withRoom rm s) (roomID rm) = Some rm"
proof -
  have "roomToFields rm \<noteq> []" by (simp add: roomToFields_def)
  moreover have "map_of (roomToFields rm) = Map.empty ++ map_of (rev (roomToFields rm))"
    by (simp add: roomToFields_def fun_eq_iff)
  then have "fieldsToRoom (map_of (roomToFields rm)) = rm" by (metis fieldsToRoom_roomToFields)
  ultimately show ?thesis by (simp add: storedRoom_def hashOf_def live_def withRoom_def)
qed

lemma withRoom_keeps: "changesOnly [PRedis] s (withRoom rm s)" "redisClock (withRoom rm s) = redisClock s"
  by (simp_all add: withRoom_def changesOnly_def samePart.simps)

lemmas withRoom_simps [simp] = withRoom_keeps(2) changesOnly_keeps [OF withRoom_keeps(1), simplified]

definition demoRoom :: room where
  "demoRoom = \<lparr>roomID = ''r1'', roomCreatedAt = 1, roomAnimeID = ''a1'', roomEpisodeID = ''1'',
     roomPlayer = ''kodik'', roomTranslationID = ''t1'', roomState = StatePlaying, roomTime = 10,
     roomUpdatedAtMs = 5000, roomHost = ''u1''\<rparr>"

definition demoState :: "'l wt" where
  "demoState = withRoom demoRoom (initWT 5000)"

lemma demoRoom_simps [simp]:
  "roomID demoRoom = ''r1''" "roomTime demoRoom = 10" "roomState demoRoom = StatePlaying"
  "roomUpdatedAtMs demoRoom = 5000" "roomEpisodeID demoRoom = ''1''" "roomHost demoRoom = ''u1''"
  "roomAnimeID demoRoom = ''a1''" "roomPlayer demoRoom = ''kodik''" "roomTranslationID demoRoom = ''t1''"
  by (simp_all add: demoRoom_def)

lemma demoState_stored [simp]: "storedRoom demoState ''r1'' = Some demoRoom"
  using withRoom_stored [of demoRoom "initWT 5000"] by (simp add: demoState_def)

lemma demoState_simps [simp]:
  "redisClock demoState = 5000" "driftMembers demoState = Map.empty" "seekBuckets demoState = Map.empty"
  "chatBuckets demoState = Map.empty" "roomEntries demoState = Map.empty" "catalogCache demoState = Map.empty"
  "conns demoState = Map.empty" "nextConn demoState = 0" "roomConns demoState = Map.empty"
  "roomSubs demoState = []" "graceEntries demoState = Map.empty" "graceTimers demoState = Map.empty"
  "nextTimer demoState = 0" "graceFiring demoState = []" "graceClosed demoState = False"
  by (simp_all add: demoState_def)

end
