(* ===== verification/WT_Drift.thy ===== *)
theory WT_Drift
  imports WT_State
begin

text \<open>
  The drift engine (\<^verbatim>\<open>internal/service/sync.go\<close>): a member reports its playback position about once
  a second, and the engine decides between no action, a soft or a hard correction, and, after five
  hard corrections in a row, a single persistent-drift error, after which the member is left alone
  until it is reset. The room is read through an argument, as in the code (\<^verbatim>\<open>roomGetter\<close>); the
  locale \<open>room_source\<close> says what a getter promises, and the engine's lemmas are proved once in it.
\<close>

section \<open>Severity bands\<close>

datatype drift_severity = DriftNone | DriftSoft | DriftHard | DriftPersistent

definition PersistentDriftThreshold :: int where "PersistentDriftThreshold = 5"

definition softDriftLowerSeconds :: real where "softDriftLowerSeconds = 3 / 2"

definition hardDriftThresholdSeconds :: real where "hardDriftThresholdSeconds = 5"

lemmas drift_consts = PersistentDriftThreshold_def softDriftLowerSeconds_def
  hardDriftThresholdSeconds_def

record correction =
  corrTime :: real
  corrTS :: int
  corrSeverity :: drift_severity

definition computeExpected :: "(real \<Rightarrow> real) \<Rightarrow> string \<Rightarrow> real \<Rightarrow> int \<Rightarrow> int \<Rightarrow> real" where
  "computeExpected rnd state roomT updatedAtMs nowMs =
     (if state = StatePlaying
      then rnd (roomT + rnd (rnd (real_of_int (nowMs - updatedAtMs)) / 1000))
      else roomT)"

definition ComputeDrift :: "(real \<Rightarrow> real) \<Rightarrow> string \<Rightarrow> real \<Rightarrow> int \<Rightarrow> real \<Rightarrow> int \<Rightarrow> real" where
  "ComputeDrift rnd state roomT updatedAtMs reported nowMs =
     \<bar>rnd (reported - computeExpected rnd state roomT updatedAtMs nowMs)\<bar>"

definition memberKey :: "string \<Rightarrow> string \<Rightarrow> string" where
  "memberKey r u = r @ ''|'' @ u"

definition freshDrift :: drift_state where
  "freshDrift = \<lparr>consecutiveHardDrifts = 0, suspended = False\<rparr>"

section \<open>The engine\<close>

definition putDrift :: "string \<Rightarrow> drift_state \<Rightarrow> 'l wt \<Rightarrow> 'l wt" where
  "putDrift key st s = s\<lparr>driftMembers := (driftMembers s)(key \<mapsto> st)\<rparr>"

text \<open>The entry of a member, created on its first tick.\<close>

definition driftEntry :: "string \<Rightarrow> 'l wt \<Rightarrow> drift_state \<times> 'l wt" where
  "driftEntry key s =
     (let st = (case driftMembers s key of Some st \<Rightarrow> st | None \<Rightarrow> freshDrift) in
      (st, putDrift key st s))"

text \<open>The decision table (the \<^verbatim>\<open>switch\<close> of \<^verbatim>\<open>OnTimeTick\<close>).\<close>

definition driftDecide ::
  "(real \<Rightarrow> real) \<Rightarrow> string \<Rightarrow> drift_state \<Rightarrow> room \<Rightarrow> real \<Rightarrow> int \<Rightarrow> ('l, correction option) wprog" where
  "driftDecide rnd key st rm reported nowMs =
     (let expected = computeExpected rnd (roomState rm) (roomTime rm) (roomUpdatedAtMs rm) nowMs;
          drift = \<bar>rnd (reported - expected)\<bar>
      in
      if drift \<le> softDriftLowerSeconds then
        bnd (memory (\<lambda>s. ((), putDrift key (st\<lparr>consecutiveHardDrifts := 0\<rparr>) s))) (\<lambda>_. ret None)
      else if drift \<le> hardDriftThresholdSeconds then
        bnd (memory (\<lambda>s. ((), putDrift key (st\<lparr>consecutiveHardDrifts := 0\<rparr>) s))) (\<lambda>_.
        ret (Some \<lparr>corrTime = expected, corrTS = nowMs, corrSeverity = DriftSoft\<rparr>))
      else
        let count = consecutiveHardDrifts st + 1 in
        bnd (memory (\<lambda>s. ((), putDrift key
               (st\<lparr>consecutiveHardDrifts := count,
                   suspended := (suspended st \<or> PersistentDriftThreshold \<le> count)\<rparr>) s))) (\<lambda>_.
        if PersistentDriftThreshold \<le> count
        then ret (Some \<lparr>corrTime = 0, corrTS = 0, corrSeverity = DriftPersistent\<rparr>)
        else ret (Some \<lparr>corrTime = expected, corrTS = nowMs, corrSeverity = DriftHard\<rparr>)))"

definition OnTimeTick ::
  "(real \<Rightarrow> real) \<Rightarrow> (string \<Rightarrow> ('l, room) wprog) \<Rightarrow> string \<Rightarrow> string \<Rightarrow> real \<Rightarrow> int
   \<Rightarrow> ('l, correction option) wprog" where
  "OnTimeTick rnd getRoom r u reported nowMs =
     bnd (memory (driftEntry (memberKey r u))) (\<lambda>st.
     if suspended st then ret None
     else
     bnd (getRoom r) (\<lambda>rm.
     driftDecide rnd (memberKey r u) st rm reported nowMs))"

lemma putDrift_simps [simp]:
  "driftMembers (putDrift key st s) = (driftMembers s)(key \<mapsto> st)"
  "storedRoom (putDrift key st s) = storedRoom s"
  "changesOnly ps s (putDrift key st s) \<longleftrightarrow> PDrift \<in> set ps \<or> (driftMembers s)(key \<mapsto> st) = driftMembers s"
  by (auto simp: putDrift_def changesOnly_def samePart.simps)

definition DriftReset :: "string \<Rightarrow> string \<Rightarrow> 'l wt \<Rightarrow> unit \<times> 'l wt" where
  "DriftReset r u s = ((), s\<lparr>driftMembers := (driftMembers s)(memberKey r u := None)\<rparr>)"

section \<open>The decision table on its own\<close>

text \<open>What one tick with a given drift decides, and the member's next state.\<close>

definition bandStep :: "drift_state \<Rightarrow> real \<Rightarrow> drift_severity \<times> drift_state" where
  "bandStep st d =
     (if suspended st then (DriftNone, st)
      else if d \<le> 3 / 2 then (DriftNone, st\<lparr>consecutiveHardDrifts := 0\<rparr>)
      else if d \<le> 5 then (DriftSoft, st\<lparr>consecutiveHardDrifts := 0\<rparr>)
      else if 5 \<le> consecutiveHardDrifts st + 1
      then (DriftPersistent, st\<lparr>consecutiveHardDrifts := consecutiveHardDrifts st + 1, suspended := True\<rparr>)
      else (DriftHard, st\<lparr>consecutiveHardDrifts := consecutiveHardDrifts st + 1\<rparr>))"

fun bandRun :: "drift_state \<Rightarrow> real list \<Rightarrow> drift_severity list" where
  "bandRun st [] = []"
| "bandRun st (d # ds) = (case bandStep st d of (sev, st') \<Rightarrow> sev # bandRun st' ds)"

text \<open>The same table stated over the whole history of drifts, without a counter.\<close>

definition fiveHard :: "real list \<Rightarrow> nat \<Rightarrow> bool" where
  "fiveHard ds n \<longleftrightarrow> 4 \<le> n \<and> (\<forall>i \<in> {n - 4..n}. 5 < ds ! i)"

definition severitySpec :: "real list \<Rightarrow> nat \<Rightarrow> drift_severity" where
  "severitySpec ds n =
     (if \<exists>m \<in> {..<n}. fiveHard ds m then DriftNone
      else if fiveHard ds n then DriftPersistent
      else if ds ! n \<le> 3 / 2 then DriftNone
      else if ds ! n \<le> 5 then DriftSoft
      else DriftHard)"

definition hardRun :: "real list \<Rightarrow> nat" where
  "hardRun p = length (takeWhile (\<lambda>d. 5 < d) (rev p))"

lemma hardRun_simps [simp]: "hardRun [] = 0" "hardRun (p @ [d]) = (if 5 < d then Suc (hardRun p) else 0)"
  by (simp_all add: hardRun_def)

lemma le_takeWhile: "k \<le> length (takeWhile P xs) \<longleftrightarrow> k \<le> length xs \<and> (\<forall>i<k. P (xs ! i))"
proof (induction xs arbitrary: k)
  case (Cons x xs)
  then show ?case by (cases k) (auto simp: nth_Cons' All_less_Suc2)
qed auto

lemma fiveHard_run: "n < length ds \<Longrightarrow> fiveHard ds n \<longleftrightarrow> 5 \<le> hardRun (take (Suc n) ds)"
proof -
  assume n: "n < length ds"
  have "5 \<le> hardRun (take (Suc n) ds) \<longleftrightarrow> 4 \<le> n \<and> (\<forall>i<5. 5 < ds ! (n - i))"
    using n by (auto simp: hardRun_def le_takeWhile rev_nth)
  also have "\<dots> \<longleftrightarrow> fiveHard ds n"
  proof (cases "4 \<le> n")
    case True
    have "(\<forall>i<5. 5 < ds ! (n - i)) \<longleftrightarrow> (\<forall>j \<in> {n - 4..n}. 5 < ds ! j)"
    proof
      assume l: "\<forall>i<5. 5 < ds ! (n - i)"
      show "\<forall>j \<in> {n - 4..n}. 5 < ds ! j"
      proof
        fix j assume "j \<in> {n - 4..n}"
        then show "5 < ds ! j" using l [rule_format, of "n - j"] True by auto
      qed
    qed (use True in auto)
    with True show ?thesis by (simp add: fiveHard_def)
  qed (simp add: fiveHard_def)
  finally show ?thesis by simp
qed

lemma fiveHard_append [simp]: "n < length p \<Longrightarrow> fiveHard (p @ q) n = fiveHard p n"
  by (auto simp: fiveHard_def nth_append)

text \<open>The state after a history.\<close>

definition agrees :: "real list \<Rightarrow> drift_state \<Rightarrow> bool" where
  "agrees p st \<longleftrightarrow> suspended st = (\<exists>m<length p. fiveHard p m)
     \<and> (\<not> suspended st \<longrightarrow> consecutiveHardDrifts st = int (hardRun p))"

lemma severitySpec_prefix: "n < length p \<Longrightarrow> severitySpec (p @ q) n = severitySpec p n"
  by (auto simp: severitySpec_def nth_append)

lemma bandStep_spec:
  assumes "agrees p st"
  shows "fst (bandStep st d) = severitySpec (p @ [d]) (length p)" (is ?sev)
    and "agrees (p @ [d]) (snd (bandStep st d))" (is ?next)
proof -
  have five: "fiveHard (p @ [d]) (length p) \<longleftrightarrow> 5 < d \<and> 4 \<le> hardRun p"
    by (simp add: fiveHard_run)
  have past: "(\<exists>m\<in>{..<length p}. fiveHard (p @ [d]) m) \<longleftrightarrow> suspended st"
    using assms by (auto simp: agrees_def)
  have upto: "(\<exists>m<length (p @ [d]). fiveHard (p @ [d]) m) \<longleftrightarrow> suspended st \<or> 5 < d \<and> 4 \<le> hardRun p"
    using past five by (auto simp: less_Suc_eq)
  have count: "\<not> suspended st \<Longrightarrow> consecutiveHardDrifts st = int (hardRun p)"
    using assms by (simp add: agrees_def)
  show ?sev
    unfolding severitySpec_def past five by (auto simp: bandStep_def count)
  show ?next
    unfolding agrees_def upto by (auto simp: bandStep_def count)
qed

lemma bandRun_spec:
  "agrees p st \<Longrightarrow>
   bandRun st ds = map (severitySpec (p @ ds)) [length p..<length p + length ds]"
proof (induction ds arbitrary: p st)
  case (Cons d ds)
  obtain sev st' where step: "bandStep st d = (sev, st')" by force
  have sev: "sev = severitySpec (p @ [d]) (length p)" and "agrees (p @ [d]) st'"
    using bandStep_spec [OF Cons.prems, of d] by (simp_all add: step)
  then have rest: "bandRun st' ds = map (severitySpec (p @ d # ds)) [Suc (length p)..<Suc (length p + length ds)]"
    using Cons.IH [of "p @ [d]" st'] by simp
  have "severitySpec (p @ d # ds) (length p) = sev"
    using severitySpec_prefix [of "length p" "p @ [d]" ds] sev by simp
  moreover have "[length p..<length p + length (d # ds)] = length p # [Suc (length p)..<Suc (length p + length ds)]"
    by (simp add: upt_rec)
  ultimately show ?case using rest by (simp add: step)
qed simp

lemma agrees_fresh: "agrees [] freshDrift"
  by (simp add: agrees_def freshDrift_def)

section \<open>What a source of rooms promises\<close>

text \<open>
  The promise of a \<^verbatim>\<open>roomGetter\<close>: it changes nothing but the room cache; and under its invariant,
  which it keeps and which speaks of Redis and the cache alone, a room it returns is \<open>current\<close>.
\<close>

locale room_source =
  fixes getRoom :: "string \<Rightarrow> ('l wt, room) prog"
    and inv :: "'l wt \<Rightarrow> bool"
    and current :: "'l wt \<Rightarrow> string \<Rightarrow> room \<Rightarrow> bool"
  assumes getRoom_law:
      "inv s \<Longrightarrow> wp (getRoom r)
         (\<lambda>rm s'. current s r rm \<and> changesOnly [PCache] s s' \<and> inv s')
         (\<lambda>_ s'. changesOnly [PCache] s s' \<and> inv s') s"
    and inv_frame: "samePart PRedis s s' \<Longrightarrow> samePart PCache s s' \<Longrightarrow> inv s' = inv s"
    and current_frame: "samePart PRedis s s' \<Longrightarrow> samePart PCache s s' \<Longrightarrow> current s' = current s"

definition reported :: "correction option \<Rightarrow> drift_severity" where
  "reported c = (case c of None \<Rightarrow> DriftNone | Some c \<Rightarrow> corrSeverity c)"

definition driftOf :: "'l wt \<Rightarrow> string \<Rightarrow> drift_state" where
  "driftOf s key = (case driftMembers s key of Some st \<Rightarrow> st | None \<Rightarrow> freshDrift)"

text \<open>The engine's step, once the room is known.\<close>

definition tickOutcome ::
  "(real \<Rightarrow> real) \<Rightarrow> room \<Rightarrow> drift_state \<Rightarrow> real \<Rightarrow> int \<Rightarrow> correction option \<Rightarrow> drift_state \<Rightarrow> bool" where
  "tickOutcome rnd rm st t nowMs c st' \<longleftrightarrow>
     bandStep st (ComputeDrift rnd (roomState rm) (roomTime rm) (roomUpdatedAtMs rm) t nowMs) = (reported c, st')
     \<and> (reported c = DriftNone \<longrightarrow> c = None)
     \<and> (reported c \<in> {DriftSoft, DriftHard} \<longrightarrow>
         corrTime (the c) = computeExpected rnd (roomState rm) (roomTime rm) (roomUpdatedAtMs rm) nowMs
         \<and> corrTS (the c) = nowMs)"

lemma suspend_again:
  "\<not> suspended st \<Longrightarrow> st\<lparr>consecutiveHardDrifts := n, suspended := False\<rparr> = st\<lparr>consecutiveHardDrifts := n\<rparr>"
  by (cases st) simp

lemma putDrift_only: "changesOnly [PDrift] s (putDrift key st s)"
  by simp

lemma driftDecide_outcome:
  assumes "\<not> suspended st"
  shows "wp (driftDecide rnd key st rm t nowMs)
     (\<lambda>c s'. changesOnly [PDrift] s s' \<and> (\<exists>st'. tickOutcome rnd rm st t nowMs c st'
        \<and> driftMembers s' = (driftMembers s)(key \<mapsto> st'))) E s"
  unfolding driftDecide_def using assms
  by (auto intro!: wp_bnd wp_memory wp_if wp_ret exI simp: Let_def tickOutcome_def
      ComputeDrift_def bandStep_def reported_def drift_consts suspend_again)

lemma driftEntry_eq: "driftEntry key s = (driftOf s key, putDrift key (driftOf s key) s)"
  by (simp add: driftEntry_def driftOf_def Let_def)

context room_source begin

lemma OnTimeTick_suspended:
  assumes "suspended (driftOf s (memberKey r u))"
  shows "wp (OnTimeTick rnd getRoom r u t nowMs) (\<lambda>c s'. c = None \<and> changesOnly [PDrift] s s'
       \<and> driftMembers s' = (driftMembers s)(memberKey r u \<mapsto> driftOf s (memberKey r u))) E s"
  unfolding OnTimeTick_def using assms
  by (auto intro!: wp_bnd wp_memory wp_if wp_ret simp: driftEntry_eq)

lemma OnTimeTick_refines:
  assumes "inv s" and "\<not> suspended (driftOf s (memberKey r u))"
  shows "wp (OnTimeTick rnd getRoom r u t nowMs)
     (\<lambda>c s'. changesOnly [PDrift, PCache] s s' \<and> inv s' \<and>
        (\<exists>rm. current s r rm \<and> (\<exists>st'. tickOutcome rnd rm (driftOf s (memberKey r u)) t nowMs c st'
        \<and> driftMembers s' = (driftMembers s)(memberKey r u \<mapsto> st'))))
     (\<lambda>_ s'. changesOnly [PDrift, PCache] s s' \<and> inv s'
        \<and> driftMembers s' = (driftMembers s)(memberKey r u \<mapsto> driftOf s (memberKey r u))) s"
proof -
  let ?k = "memberKey r u"
  let ?s = "putDrift ?k (driftOf s ?k) s"
  have same: "samePart PRedis s ?s" "samePart PCache s ?s"
    by (rule changesOnlyD [OF putDrift_only]; simp)+
  have 1: "wp (getRoom r) (\<lambda>rm s'. current s r rm \<and> changesOnly [PCache] ?s s' \<and> inv s')
         (\<lambda>_ s'. changesOnly [PCache] ?s s' \<and> inv s') ?s"
    using getRoom_law [of ?s r] assms(1) inv_frame [OF same] current_frame [OF same] by simp
  have to: "changesOnly [PDrift, PCache] s s'" if "changesOnly [PCache] ?s s'" for s'
    by (rule changesOnly_trans [OF putDrift_only that]) simp
  have drift: "driftMembers s' = driftMembers ?s" if "changesOnly [PCache] ?s s'" for s'
    using changesOnly_keeps(3) [OF that] by simp
  have 2: "wp (driftDecide rnd ?k (driftOf s ?k) rm t nowMs)
     (\<lambda>c s''. changesOnly [PDrift, PCache] s s'' \<and> inv s'' \<and>
        (\<exists>rm. current s r rm \<and> (\<exists>st'. tickOutcome rnd rm (driftOf s ?k) t nowMs c st'
        \<and> driftMembers s'' = (driftMembers s)(?k \<mapsto> st')))) E s'"
    if rm: "current s r rm" and s': "changesOnly [PCache] ?s s'" and i: "inv s'" for rm s' E
  proof (rule wp_mono [OF driftDecide_outcome [OF assms(2), where E = "\<lambda>_ _. False"]])
    fix c s''
    assume d: "changesOnly [PDrift] s' s'' \<and> (\<exists>st'. tickOutcome rnd rm (driftOf s ?k) t nowMs c st'
        \<and> driftMembers s'' = (driftMembers s')(?k \<mapsto> st'))"
    have "changesOnly [PDrift, PCache] s s''" by (rule changesOnly_trans [OF to [OF s']]) (use d in auto)
    moreover have "inv s'' = inv s'"
      using d changesOnlyD [of "[PDrift]" s' s''] by (intro inv_frame) auto
    ultimately show "changesOnly [PDrift, PCache] s s'' \<and> inv s'' \<and>
        (\<exists>rm. current s r rm \<and> (\<exists>st'. tickOutcome rnd rm (driftOf s ?k) t nowMs c st'
        \<and> driftMembers s'' = (driftMembers s)(?k \<mapsto> st')))"
      using d rm i drift [OF s'] by auto
  qed simp
  show ?thesis
    unfolding OnTimeTick_def using assms(2)
    by (auto intro!: wp_bnd wp_memory wp_mono [OF 1] 2 simp: driftEntry_eq to drift)
qed

end

section \<open>The repository as a source\<close>

interpretation repo_source:
  room_source GetRoom "\<lambda>_. True" "\<lambda>s r rm. storedRoom s r = Some rm"
proof
  fix s s' :: "'l wt" and r
  show "wp (GetRoom r) (\<lambda>rm s'. storedRoom s r = Some rm \<and> changesOnly [PCache] s s' \<and> True)
         (\<lambda>_ s'. changesOnly [PCache] s s' \<and> True) s"
    by (rule wp_mono [OF GetRoom_spec]) auto
  assume "samePart PRedis s s'"
  then show "(\<lambda>r rm. storedRoom s' r = Some rm) = (\<lambda>r rm. storedRoom s r = Some rm)"
    using storedRoom_same by metis
qed simp

section \<open>A member's ticks\<close>

text \<open>A sequence of ticks of one member; a tick whose room cannot be read reports nothing.\<close>

primrec tickAll ::
  "(real \<Rightarrow> real) \<Rightarrow> (string \<Rightarrow> ('l, room) wprog) \<Rightarrow> string \<Rightarrow> string \<Rightarrow> (real \<times> int) list
   \<Rightarrow> ('l, drift_severity list) wprog" where
  "tickAll rnd getRoom r u [] = ret []"
| "tickAll rnd getRoom r u (tick # ticks) =
     attempt (OnTimeTick rnd getRoom r u (fst tick) (snd tick)) (\<lambda>res.
     bnd (tickAll rnd getRoom r u ticks) (\<lambda>sevs.
     ret ((case res of Inl _ \<Rightarrow> DriftNone | Inr c \<Rightarrow> reported c) # sevs)))"

definition roomDrift :: "(real \<Rightarrow> real) \<Rightarrow> room \<Rightarrow> real \<Rightarrow> int \<Rightarrow> real" where
  "roomDrift rnd rm t nowMs = ComputeDrift rnd (roomState rm) (roomTime rm) (roomUpdatedAtMs rm) t nowMs"

lemma twp_driftDecide:
  assumes "\<not> suspended st"
  shows "twp (driftDecide rnd key st rm t nowMs)
     (\<lambda>c s'. changesOnly [PDrift] s s' \<and> (\<exists>st'. tickOutcome rnd rm st t nowMs c st'
        \<and> driftMembers s' = (driftMembers s)(key \<mapsto> st'))) s"
  unfolding driftDecide_def using assms
  by (auto intro!: twp_bnd twp_memory twp_if twp_ret exI simp: Let_def tickOutcome_def
      ComputeDrift_def bandStep_def reported_def drift_consts suspend_again)

lemma twp_GetRoom: "storedRoom s r = Some rm \<Longrightarrow> Q rm s \<Longrightarrow> twp (GetRoom r) Q s"
  by (rule twpI, rule GetRoom_found)

lemma twp_OnTimeTick:
  assumes "storedRoom s r = Some rm"
  shows "twp (OnTimeTick rnd GetRoom r u t nowMs)
     (\<lambda>c s'. changesOnly [PDrift] s s' \<and> (\<exists>st'. driftMembers s' = (driftMembers s)(memberKey r u \<mapsto> st')
        \<and> bandStep (driftOf s (memberKey r u)) (roomDrift rnd rm t nowMs) = (reported c, st')
        \<and> (reported c = DriftNone \<longrightarrow> c = None)
        \<and> (\<not> suspended (driftOf s (memberKey r u)) \<longrightarrow>
             tickOutcome rnd rm (driftOf s (memberKey r u)) t nowMs c st'))) s"
proof (cases "suspended (driftOf s (memberKey r u))")
  case True
  then show ?thesis
    unfolding OnTimeTick_def
    by (auto intro!: twp_bnd twp_memory twp_if twp_ret exI simp: driftEntry_eq bandStep_def reported_def)
next
  case False
  let ?k = "memberKey r u"
  let ?s = "putDrift ?k (driftOf s ?k) s"
  have get: "twp (GetRoom r) Q ?s" if "Q rm ?s" for Q :: "room \<Rightarrow> 'a wt \<Rightarrow> bool"
    by (rule twp_GetRoom [where rm = rm]) (use assms that in simp_all)
  have only: "changesOnly [PDrift] s s'" if "changesOnly [PDrift] ?s s'" for s'
    by (rule changesOnly_trans [OF putDrift_only that]) simp
  have "twp (driftDecide rnd ?k (driftOf s ?k) rm t nowMs)
     (\<lambda>c s'. changesOnly [PDrift] s s' \<and> (\<exists>st'. driftMembers s' = (driftMembers s)(?k \<mapsto> st')
        \<and> bandStep (driftOf s ?k) (roomDrift rnd rm t nowMs) = (reported c, st')
        \<and> (reported c = DriftNone \<longrightarrow> c = None)
        \<and> tickOutcome rnd rm (driftOf s ?k) t nowMs c st')) ?s"
    by (rule twp_mono [OF twp_driftDecide [OF False]]) (auto simp: only tickOutcome_def roomDrift_def)
  then show ?thesis
    unfolding OnTimeTick_def using False
    by (auto intro!: twp_bnd twp_memory get simp: driftEntry_eq)
qed

lemma twp_tickAll:
  assumes "storedRoom s r = Some rm"
  shows "twp (tickAll rnd GetRoom r u ts)
     (\<lambda>sevs s'. sevs = bandRun (driftOf s (memberKey r u)) (map (\<lambda>(t, n). roomDrift rnd rm t n) ts)) s"
  using assms
proof (induction ts arbitrary: s)
  case (Cons tn ts)
  obtain t n where tn: "tn = (t, n)" by force
  have rest: "twp (tickAll rnd GetRoom r u ts)
     (\<lambda>sevs _. sevs = bandRun st' (map (\<lambda>(t, n). roomDrift rnd rm t n) ts)) s'"
    if "changesOnly [PDrift] s s'" and "driftMembers s' = (driftMembers s)(memberKey r u \<mapsto> st')" for st' s'
    using Cons.IH [of s'] Cons.prems changesOnly_live(4) [OF that(1)] that(2) by (simp add: driftOf_def)
  show ?case
    unfolding tn tickAll.simps
    by (rule twp_attempt, rule twp_mono [OF twp_OnTimeTick [OF Cons.prems]])
      (auto intro!: twp_bnd twp_mono [OF rest] twp_ret simp: case_prod_unfold)
qed (simp add: twp_ret)

text \<open>
  C32. Drift decisions of one member in a room whose playback anchor does not change: over any
  sequence of reports, the severities the engine returns are those of the declarative table over the
  whole history (\<open>severitySpec\<close>): nothing within 1.5 s, a soft correction up to 5 s, a hard one
  beyond, a single persistent report exactly at the first tick that completes five hard drifts in a
  row, and silence ever after.
\<close>

theorem drift_severities:
  assumes "storedRoom s r = Some rm" and "driftMembers s (memberKey r u) = None"
  shows "twp (tickAll rnd GetRoom r u ts)
     (\<lambda>sevs s'. let ds = map (\<lambda>(t, nowMs). roomDrift rnd rm t nowMs) ts in
        sevs = map (severitySpec ds) [0..<length ds]) s"
  using twp_tickAll [OF assms(1), of rnd u ts] bandRun_spec [OF agrees_fresh]
  by (simp add: driftOf_def assms(2) case_prod_beta)

theorem drift_severities_witness:
  "twp (tickAll (\<lambda>x. x) GetRoom ''r1'' ''u1'' [(10, 5000), (12, 5000), (20, 5000)])
     (\<lambda>sevs s'. sevs = [DriftNone, DriftSoft, DriftHard]) (demoState :: unit wt)"
  by (rule twp_mono [OF drift_severities [of demoState _ demoRoom]])
    (simp_all add: roomDrift_def ComputeDrift_def computeExpected_def severitySpec_def fiveHard_def
      upt_rec)

section \<open>Corrections converge\<close>

text \<open>Rounding is accurate to a sixteenth of a second up to \<open>2 ^ 40\<close>, as that of \<^verbatim>\<open>float64\<close> is.\<close>

definition accurate :: "(real \<Rightarrow> real) \<Rightarrow> bool" where
  "accurate rnd \<longleftrightarrow> (\<forall>x. \<bar>x\<bar> \<le> 2 ^ 40 \<longrightarrow> \<bar>rnd x - x\<bar> \<le> 1 / 16)"

lemma rounded_sum:
  "\<bar>a - d\<bar> \<le> 1 / 16 \<Longrightarrow> \<bar>b - a / 1000\<bar> \<le> 1 / 16 \<Longrightarrow> \<bar>c - (t + b)\<bar> \<le> 1 / 16 \<Longrightarrow>
   \<bar>c - (t + d / 1000)\<bar> \<le> 3 / (16::real)"
  unfolding abs_le_iff by linarith

lemma expected_accurate:
  assumes "accurate rnd" and "\<bar>roomT\<bar> \<le> 2 ^ 20" and "\<bar>nowMs - upd\<bar> \<le> 2 ^ 38"
  shows "\<bar>computeExpected rnd st roomT upd nowMs
          - (roomT + (if st = StatePlaying then real_of_int (nowMs - upd) / 1000 else 0))\<bar> \<le> 3 / 16"
proof (cases "st = StatePlaying")
  case True
  let ?d = "real_of_int (nowMs - upd)"
  have powers: "(2::real) ^ 38 = 274877906944" "(2::real) ^ 40 = 1099511627776" "(2::real) ^ 20 = 1048576"
    by simp_all
  have d: "\<bar>?d\<bar> \<le> 2 ^ 38"
    using assms(3) by (metis of_int_abs of_int_le_iff of_int_numeral of_int_power)
  have acc: "\<bar>x\<bar> \<le> 2 ^ 40 \<Longrightarrow> \<bar>rnd x - x\<bar> \<le> 1 / 16" for x
    using assms(1) by (simp add: accurate_def)
  have r1: "\<bar>rnd ?d - ?d\<bar> \<le> 1 / 16"
    by (rule acc) (use d in \<open>unfold powers abs_le_iff, linarith\<close>)
  have r2: "\<bar>rnd (rnd ?d / 1000) - rnd ?d / 1000\<bar> \<le> 1 / 16"
    by (rule acc) (use d r1 in \<open>unfold powers abs_le_iff, linarith\<close>)
  have r3: "\<bar>rnd (roomT + rnd (rnd ?d / 1000)) - (roomT + rnd (rnd ?d / 1000))\<bar> \<le> 1 / 16"
    by (rule acc) (use d r1 r2 assms(2) in \<open>unfold powers abs_le_iff, linarith\<close>)
  show ?thesis
    using rounded_sum [OF r1 r2 r3] unfolding computeExpected_def True if_P [OF refl] .
qed (simp add: computeExpected_def)

lemma abs_shift: "\<bar>a - x\<bar> \<le> e \<Longrightarrow> \<bar>b - y\<bar> \<le> e \<Longrightarrow> \<bar>a + (y - x) - b\<bar> \<le> 2 * (e::real)"
  by linarith

lemma corrected_in_sync:
  assumes "accurate rnd" and "\<bar>roomTime rm\<bar> \<le> 2 ^ 20"
    and "\<bar>n - roomUpdatedAtMs rm\<bar> \<le> 2 ^ 38" and "\<bar>n' - roomUpdatedAtMs rm\<bar> \<le> 2 ^ 38"
  shows "roomDrift rnd rm (computeExpected rnd (roomState rm) (roomTime rm) (roomUpdatedAtMs rm) n
           + (if roomState rm = StatePlaying then real_of_int (n' - n) / 1000 else 0)) n' \<le> 3 / 2"
proof -
  let ?e = "computeExpected rnd (roomState rm) (roomTime rm) (roomUpdatedAtMs rm)"
  let ?y = "\<lambda>k. roomTime rm
      + (if roomState rm = StatePlaying then real_of_int (k - roomUpdatedAtMs rm) / 1000 else 0)"
  let ?x = "?e n + (if roomState rm = StatePlaying then real_of_int (n' - n) / 1000 else 0) - ?e n'"
  have "?x = ?e n + (?y n' - ?y n) - ?e n'" by (simp add: diff_divide_distrib)
  then have "\<bar>?x\<bar> \<le> 2 * (3 / 16)"
    using abs_shift [OF expected_accurate [OF assms(1,2,3)] expected_accurate [OF assms(1,2,4)]] by metis
  moreover from this have "\<bar>rnd ?x - ?x\<bar> \<le> 1 / 16"
    using assms(1) by (auto simp: accurate_def)
  ultimately have "\<bar>rnd ?x\<bar> \<le> 3 / 2" unfolding abs_le_iff by linarith
  then show ?thesis by (simp only: roomDrift_def ComputeDrift_def)
qed

text \<open>
  A correction is enough: a member that jumps to the corrected time and goes on playing at
  normal speed (or stays there, in a paused room) gets no correction for its next report while the
  room's anchor is unchanged, under any rounding as accurate as that of \<^verbatim>\<open>float64\<close>.
\<close>

theorem correction_converges:
  assumes "storedRoom s r = Some rm" and "accurate rnd" and "\<bar>roomTime rm\<bar> \<le> 2 ^ 20"
    and "\<bar>n - roomUpdatedAtMs rm\<bar> \<le> 2 ^ 38" and "\<bar>n' - roomUpdatedAtMs rm\<bar> \<le> 2 ^ 38"
  shows "twp (bnd (OnTimeTick rnd GetRoom r u t n) (\<lambda>c.
     case c of
       None \<Rightarrow> ret None
     | Some c \<Rightarrow>
         if corrSeverity c = DriftPersistent then ret None
         else OnTimeTick rnd GetRoom r u
                (corrTime c + (if roomState rm = StatePlaying then real_of_int (n' - n) / 1000 else 0)) n'))
     (\<lambda>c' s'. c' = None) s"
proof -
  have again: "twp (OnTimeTick rnd GetRoom r u x n') (\<lambda>c' _. c' = None) s'"
    if "roomDrift rnd rm x n' \<le> 3 / 2" and "changesOnly [PDrift] s s'" for x s'
  proof -
    have "storedRoom s' r = Some rm"
      using assms(1) changesOnly_live(4) [OF that(2)] by simp
    then show ?thesis
      by (rule twp_mono [OF twp_OnTimeTick]) (use that in \<open>auto simp: bandStep_def reported_def
         split: option.splits if_splits\<close>)
  qed
  have second: "twp (OnTimeTick rnd GetRoom r u
        (corrTime k + (if roomState rm = StatePlaying then real_of_int (n' - n) / 1000 else 0)) n')
        (\<lambda>c' _. c' = None) s'"
    if "changesOnly [PDrift] s s'"
      and "bandStep (driftOf s (memberKey r u)) (roomDrift rnd rm t n) = (reported (Some k), st')"
      and "reported (Some k) \<noteq> DriftNone" "corrSeverity k \<noteq> DriftPersistent"
      and "\<not> suspended (driftOf s (memberKey r u)) \<Longrightarrow>
             tickOutcome rnd rm (driftOf s (memberKey r u)) t n (Some k) st'" for s' k st'
  proof -
    have "\<not> suspended (driftOf s (memberKey r u))" using that(2,3) by (auto simp: bandStep_def)
    then have "corrTime k = computeExpected rnd (roomState rm) (roomTime rm) (roomUpdatedAtMs rm) n"
      using that(3-5) by (cases "corrSeverity k") (simp_all add: tickOutcome_def reported_def)
    then show ?thesis
      using again [OF corrected_in_sync [OF assms(2-5)] that(1)] by simp
  qed
  show ?thesis
  proof (rule twp_bnd, rule twp_mono [OF twp_OnTimeTick [OF assms(1)]])
    fix c s'
    assume o: "changesOnly [PDrift] s s' \<and> (\<exists>st'. driftMembers s' = (driftMembers s)(memberKey r u \<mapsto> st')
        \<and> bandStep (driftOf s (memberKey r u)) (roomDrift rnd rm t n) = (reported c, st')
        \<and> (reported c = DriftNone \<longrightarrow> c = None)
        \<and> (\<not> suspended (driftOf s (memberKey r u)) \<longrightarrow>
             tickOutcome rnd rm (driftOf s (memberKey r u)) t n c st'))"
    then show "twp (case c of None \<Rightarrow> ret None | Some c \<Rightarrow>
         if corrSeverity c = DriftPersistent then ret None
         else OnTimeTick rnd GetRoom r u
                (corrTime c + (if roomState rm = StatePlaying then real_of_int (n' - n) / 1000 else 0)) n')
       (\<lambda>c' _. c' = None) s'"
      using second [of s'] by (intro twp_option twp_if twp_ret) auto
  qed
qed

theorem correction_converges_witness:
  "twp (bnd (OnTimeTick (\<lambda>x. x) GetRoom ''r1'' ''u1'' 90 5000) (\<lambda>c.
     case c of
       None \<Rightarrow> ret None
     | Some c \<Rightarrow>
         if corrSeverity c = DriftPersistent then ret None
         else OnTimeTick (\<lambda>x. x) GetRoom ''r1'' ''u1'' (corrTime c + real_of_int (6000 - 5000) / 1000) 6000))
     (\<lambda>c' s'. c' = None) (demoState :: unit wt)"
proof -
  have "accurate (\<lambda>x. x)" by (simp add: accurate_def)
  from correction_converges [OF demoState_stored this, of 5000 6000 "''u1''" 90, unfolded demoRoom_simps if_P [OF refl]]
  show ?thesis by simp
qed

end
