(* ===== verification/WT_Limiter.thy ===== *)
theory WT_Limiter
  imports WT_State
begin

text \<open>
  The per-user rate limiter (\<^verbatim>\<open>internal/service/ratelimit.go\<close>): one token bucket per user for seeks
  (one per second, burst one) and one for chat messages (five per second, burst five). The bucket
  itself is \<^verbatim>\<open>golang.org/x/time/rate\<close>, a parameter: \<open>limNew rate burst\<close> and \<open>limAllow now\<close>.
\<close>

section \<open>Operations\<close>

definition seekRate :: nat where "seekRate = 1"
definition seekBurst :: nat where "seekBurst = 1"
definition chatRate :: nat where "chatRate = 5"
definition chatBurst :: nat where "chatBurst = 5"

lemmas limit_consts = seekRate_def seekBurst_def chatRate_def chatBurst_def

text \<open>Look up or create the user's bucket, then ask it.\<close>

definition askBucket :: "'l deps \<Rightarrow> int \<Rightarrow> nat \<Rightarrow> nat \<Rightarrow> (string \<rightharpoonup> 'l) \<Rightarrow> string \<Rightarrow> bool \<times> (string \<rightharpoonup> 'l)" where
  "askBucket c now rate burst buckets u =
     (let l = (case buckets u of Some l \<Rightarrow> l | None \<Rightarrow> limNew c rate burst);
          (ok, l') = limAllow c now l
      in (ok, buckets(u \<mapsto> l')))"

definition AllowSeek :: "'l deps \<Rightarrow> string \<Rightarrow> 'l wt \<Rightarrow> bool \<times> 'l wt" where
  "AllowSeek c u s =
     (if u = [] then (True, s)
      else case askBucket c (redisClock s) seekRate seekBurst (seekBuckets s) u of
        (ok, b) \<Rightarrow> (ok, s\<lparr>seekBuckets := b\<rparr>))"

definition AllowChat :: "'l deps \<Rightarrow> string \<Rightarrow> 'l wt \<Rightarrow> bool \<times> 'l wt" where
  "AllowChat c u s =
     (if u = [] then (True, s)
      else case askBucket c (redisClock s) chatRate chatBurst (chatBuckets s) u of
        (ok, b) \<Rightarrow> (ok, s\<lparr>chatBuckets := b\<rparr>))"

definition Forget :: "string \<Rightarrow> 'l wt \<Rightarrow> unit \<times> 'l wt" where
  "Forget u s =
     ((), if u = [] then s
          else s\<lparr>seekBuckets := (seekBuckets s)(u := None), chatBuckets := (chatBuckets s)(u := None)\<rparr>)"

lemma limiter_frames [simp]:
  "changesOnly [PLimiter] s (snd (AllowSeek c u s))"
  "changesOnly [PLimiter] s (snd (AllowChat c u s))"
  "changesOnly [PLimiter] s (snd (Forget u s))"
  by (auto simp: AllowSeek_def AllowChat_def Forget_def changesOnly_def samePart.simps split: prod.split)

section \<open>What a token bucket promises\<close>

text \<open>The answers of one bucket to requests at the given times.\<close>

fun answers :: "(int \<Rightarrow> 'l \<Rightarrow> bool \<times> 'l) \<Rightarrow> 'l \<Rightarrow> int list \<Rightarrow> bool list" where
  "answers allow l [] = []"
| "answers allow l (t # ts) = (case allow t l of (ok, l') \<Rightarrow> ok # answers allow l' ts)"

definition allowed :: "bool list \<Rightarrow> nat" where
  "allowed oks = length (filter id oks)"

text \<open>
  The documented promise of the library: a fresh bucket with \<open>rate\<close> events per second and \<open>burst\<close>
  tokens lets the first \<open>burst\<close> requests pass, and over any stretch of time at most \<open>burst\<close> plus
  \<open>rate\<close> per elapsed second.
\<close>

definition token_bucket :: "'l deps \<Rightarrow> bool" where
  "token_bucket c \<longleftrightarrow>
     (\<forall>rate burst ts. sorted ts \<longrightarrow>
        (\<forall>i < length ts. i < burst \<longrightarrow> answers (limAllow c) (limNew c rate burst) ts ! i)
      \<and> (ts \<noteq> [] \<longrightarrow>
           1000 * int (allowed (answers (limAllow c) (limNew c rate burst) ts))
             \<le> 1000 * int burst + int rate * (last ts - hd ts)))"

lemma token_bucketD:
  assumes "token_bucket c" and "sorted ts"
  shows "i < length ts \<Longrightarrow> i < burst \<Longrightarrow> answers (limAllow c) (limNew c rate burst) ts ! i"
    and "ts \<noteq> [] \<Longrightarrow> 1000 * int (allowed (answers (limAllow c) (limNew c rate burst) ts))
             \<le> 1000 * int burst + int rate * (last ts - hd ts)"
  using assms unfolding token_bucket_def by blast+

section \<open>Sequences of requests\<close>

datatype limiter_call = SeekCall string | ChatCall string

fun limiterStep :: "'l deps \<Rightarrow> limiter_call \<Rightarrow> 'l wt \<Rightarrow> bool \<times> 'l wt" where
  "limiterStep c (SeekCall u) s = AllowSeek c u s"
| "limiterStep c (ChatCall u) s = AllowChat c u s"

text \<open>Calls at times, with their answers.\<close>

fun limiterRun :: "'l deps \<Rightarrow> (int \<times> limiter_call) list \<Rightarrow> 'l wt \<Rightarrow> bool list" where
  "limiterRun c [] s = []"
| "limiterRun c ((t, call) # calls) s =
     (case limiterStep c call (s\<lparr>redisClock := t\<rparr>) of (ok, s') \<Rightarrow> ok # limiterRun c calls s')"

definition answersTo :: "limiter_call \<Rightarrow> (int \<times> limiter_call) list \<Rightarrow> bool list \<Rightarrow> bool list" where
  "answersTo call calls oks = map snd (filter (\<lambda>((_, call'), _). call' = call) (zip calls oks))"

definition timesOf :: "limiter_call \<Rightarrow> (int \<times> limiter_call) list \<Rightarrow> int list" where
  "timesOf call calls = map fst (filter (\<lambda>(_, call'). call' = call) calls)"

definition bucketOf :: "'l deps \<Rightarrow> limiter_call \<Rightarrow> 'l wt \<Rightarrow> 'l" where
  "bucketOf c call s = (case call of
     SeekCall u \<Rightarrow> (case seekBuckets s u of Some l \<Rightarrow> l | None \<Rightarrow> limNew c seekRate seekBurst)
   | ChatCall u \<Rightarrow> (case chatBuckets s u of Some l \<Rightarrow> l | None \<Rightarrow> limNew c chatRate chatBurst))"

fun callUser :: "limiter_call \<Rightarrow> string" where
  "callUser (SeekCall u) = u" | "callUser (ChatCall u) = u"

lemma limiterStep_own:
  assumes "callUser call \<noteq> []" and "limAllow c (redisClock s) (bucketOf c call s) = (ok, l')"
  shows "fst (limiterStep c call s) = ok" and "bucketOf c call (snd (limiterStep c call s)) = l'"
  using assms by (cases call; auto simp: AllowSeek_def AllowChat_def askBucket_def bucketOf_def Let_def
      split: option.splits prod.splits)+

lemma limiterStep_other:
  "call' \<noteq> call \<Longrightarrow> bucketOf c call (snd (limiterStep c call' s)) = bucketOf c call s"
  by (cases call; cases call'; auto simp: AllowSeek_def AllowChat_def askBucket_def bucketOf_def Let_def
      split: option.splits prod.splits)

lemma bucketOf_clock [simp]: "bucketOf c call (s\<lparr>redisClock := t\<rparr>) = bucketOf c call s"
  by (cases call) (simp_all add: bucketOf_def)

lemma limiterRun_bucket:
  assumes "callUser call \<noteq> []"
  shows "answersTo call calls (limiterRun c calls s) =
         answers (limAllow c) (bucketOf c call s) (timesOf call calls)"
proof (induction calls arbitrary: s)
  case (Cons tc calls)
  obtain t call' where tc: "tc = (t, call')" by force
  let ?s = "s\<lparr>redisClock := t\<rparr>"
  obtain ok s' where step: "limiterStep c call' ?s = (ok, s')" by force
  show ?case
  proof (cases "call' = call")
    case True
    obtain ok' l' where ask: "limAllow c (redisClock ?s) (bucketOf c call ?s) = (ok', l')" by force
    have "ok' = ok" "bucketOf c call s' = l'"
      using limiterStep_own [OF assms ask] step True by simp_all
    then show ?thesis using Cons.IH [of s'] True ask step
      by (simp add: tc answersTo_def timesOf_def)
  next
    case False
    have "bucketOf c call s' = bucketOf c call s"
      using limiterStep_other [OF False, of c ?s] step by simp
    then show ?thesis using Cons.IH [of s'] False step
      by (simp add: tc answersTo_def timesOf_def)
  qed
qed (simp add: answersTo_def timesOf_def)

lemma sorted_times: "sorted (map fst calls) \<Longrightarrow> sorted (timesOf call calls)"
  by (induction calls) (auto simp: timesOf_def)

text \<open>
  Rate limits per user: in any interleaving of seek and chat requests of any users at
  non-decreasing times, a user with fresh buckets gets its first seek and its first five chat
  messages through, and at most one seek plus one per elapsed second and five messages plus five
  per elapsed second; requests of other users and of the other kind never count against it.
\<close>

theorem rate_limits:
  assumes "token_bucket c" and "sorted (map fst calls)" and "u \<noteq> []"
    and "seekBuckets s u = None" and "chatBuckets s u = None"
  shows "(let seeks = answersTo (SeekCall u) calls (limiterRun c calls s);
              chats = answersTo (ChatCall u) calls (limiterRun c calls s);
              ts = timesOf (SeekCall u) calls; tc = timesOf (ChatCall u) calls
          in length seeks = length ts \<and> length chats = length tc
           \<and> (ts \<noteq> [] \<longrightarrow> seeks ! 0 \<and> 1000 * int (allowed seeks) \<le> 1000 + (last ts - hd ts))
           \<and> (\<forall>i < min 5 (length tc). chats ! i)
           \<and> (tc \<noteq> [] \<longrightarrow> 1000 * int (allowed chats) \<le> 5000 + 5 * (last tc - hd tc)))"
proof -
  have len: "length (answers f l ts) = length ts" for f and l :: 'a and ts
    by (induction ts arbitrary: l) (auto split: prod.split)
  have seeks: "answersTo (SeekCall u) calls (limiterRun c calls s) =
      answers (limAllow c) (limNew c seekRate seekBurst) (timesOf (SeekCall u) calls)"
    using limiterRun_bucket [of "SeekCall u" calls c s] assms(3,4) by (simp add: bucketOf_def)
  have chats: "answersTo (ChatCall u) calls (limiterRun c calls s) =
      answers (limAllow c) (limNew c chatRate chatBurst) (timesOf (ChatCall u) calls)"
    using limiterRun_bucket [of "ChatCall u" calls c s] assms(3,5) by (simp add: bucketOf_def)
  note sorted = sorted_times [OF assms(2)]
  show ?thesis
    using token_bucketD [OF assms(1) sorted [of "SeekCall u"], where rate = seekRate and burst = seekBurst]
      token_bucketD [OF assms(1) sorted [of "ChatCall u"], where rate = chatRate and burst = chatBurst]
    unfolding seeks chats Let_def by (auto simp: len limit_consts)
qed

text \<open>A token bucket that counts in thousandths of a token, for the witness.\<close>

definition milli_new :: "nat \<Rightarrow> nat \<Rightarrow> int \<times> int option \<times> int \<times> int" where
  "milli_new rate burst = (1000 * int burst, None, int rate, int burst)"

fun milli_allow :: "int \<Rightarrow> int \<times> int option \<times> int \<times> int \<Rightarrow> bool \<times> int \<times> int option \<times> int \<times> int" where
  "milli_allow now (tok, prev, rate, burst) =
     (let tok' = (case prev of None \<Rightarrow> tok | Some t \<Rightarrow> min (1000 * burst) (tok + rate * (now - t)))
      in if 1000 \<le> tok' then (True, tok' - 1000, Some now, rate, burst)
         else (False, tok', Some now, rate, burst))"

definition milli_deps :: "(int \<times> int option \<times> int \<times> int) deps" where
  "milli_deps = \<lparr>roomTTL = 900000, maxMembers = 10, gracePeriod = 300000,
     publicBaseURL = ''https://animeenigma.ru'', instanceID = ''i1'', rounding = (\<lambda>x. x),
     limNew = milli_new, limAllow = milli_allow,
     catalogFetch = (\<lambda>_ _ _ _ _ _. TransportError), decodeErrorText = (\<lambda>_. []),
     quoteText = (\<lambda>x. x)\<rparr>"

lemma spend: "1000 * (if 1000 \<le> k then 1 else 0) + (if 1000 \<le> k then k - 1000 else k) = (k :: int)"
  by simp

lemma milli_upper:
  "sorted (t # ts) \<Longrightarrow> 0 \<le> tok \<Longrightarrow>
   1000 * int (allowed (answers milli_allow (tok, Some t, int rate, int burst) ts))
     \<le> tok + int rate * (last (t # ts) - t)"
proof (induction ts arbitrary: t tok)
  case (Cons t' ts)
  let ?tok = "min (1000 * int burst) (tok + int rate * (t' - t))"
  have rest: "sorted (t' # ts)" "t \<le> t'" using Cons.prems by auto
  have mono: "0 \<le> int rate * (t' - t)" using rest(2) by simp
  have split: "int rate * (last (t' # ts) - t) = int rate * (last (t' # ts) - t') + int rate * (t' - t)"
    by (simp add: algebra_simps)
  have last: "last (t # t' # ts) = last (t' # ts)" by simp
  let ?left = "if 1000 \<le> ?tok then ?tok - 1000 else ?tok"
  have step: "answers milli_allow (tok, Some t, int rate, int burst) (t' # ts) =
      (1000 \<le> ?tok) # answers milli_allow (?left, Some t', int rate, int burst) ts"
    by (simp add: Let_def)
  have left: "0 \<le> ?left" "?tok \<le> tok + int rate * (t' - t)" using Cons.prems(2) mono by simp_all
  have "1000 * int (allowed (answers milli_allow (?left, Some t', int rate, int burst) ts))
      \<le> ?left + int rate * (last (t' # ts) - t')"
    by (rule Cons.IH [OF rest(1) left(1)])
  moreover have "int (allowed ((1000 \<le> ?tok) # bs)) = (if 1000 \<le> ?tok then 1 else 0) + int (allowed bs)" for bs
    by (simp add: allowed_def)
  ultimately show ?case
    unfolding step last split using left(2) spend [of ?tok] by (simp only: distrib_left)
qed (simp add: allowed_def)

lemma milli_first:
  "sorted (case prev of None \<Rightarrow> ts | Some t \<Rightarrow> t # ts) \<Longrightarrow> 1000 * int n \<le> tok \<Longrightarrow> n \<le> burst \<Longrightarrow>
   i < length ts \<Longrightarrow> i < n \<Longrightarrow> answers milli_allow (tok, prev, int rate, int burst) ts ! i"
proof (induction ts arbitrary: prev tok n i)
  case (Cons t' ts)
  let ?tok = "case prev of None \<Rightarrow> tok | Some t \<Rightarrow> min (1000 * int burst) (tok + int rate * (t' - t))"
  have tok: "1000 * int n \<le> ?tok"
    using Cons.prems by (auto split: option.splits simp: min_def intro: order_trans)
  then have pass: "milli_allow t' (tok, prev, int rate, int burst) = (True, ?tok - 1000, Some t', int rate, int burst)"
    using Cons.prems by (auto simp: Let_def)
  show ?case
  proof (cases i)
    case (Suc j)
    have "answers milli_allow (?tok - 1000, Some t', int rate, int burst) ts ! j"
      by (rule Cons.IH [of "Some t'" "n - 1"])
        (use Cons.prems tok Suc in \<open>auto split: option.splits\<close>)
    then show ?thesis using pass Suc by simp
  qed (use pass in simp)
qed simp

lemma milli_token_bucket: "token_bucket milli_deps"
  unfolding token_bucket_def
proof (intro allI impI conjI)
  fix rate burst :: nat and ts :: "int list" and i
  assume "sorted ts" "i < length ts" "i < burst"
  then show "answers (limAllow milli_deps) (limNew milli_deps rate burst) ts ! i"
    using milli_first [where prev = None and ts = ts and n = burst and i = i and rate = rate and burst = burst
        and tok = "1000 * int burst"]
    by (simp add: milli_deps_def milli_new_def)
next
  fix rate burst :: nat and ts :: "int list"
  assume "sorted ts" "ts \<noteq> []"
  then obtain t ts' where ts: "ts = t # ts'" by (cases ts) auto
  have later: "1000 * int (allowed (answers milli_allow (tok, Some t, int rate, int burst) ts'))
      \<le> tok + int rate * (last ts - t)" if "0 \<le> tok" for tok
    using milli_upper [of t ts' tok rate burst] \<open>sorted ts\<close> that ts by simp
  show "1000 * int (allowed (answers (limAllow milli_deps) (limNew milli_deps rate burst) ts))
      \<le> 1000 * int burst + int rate * (last ts - hd ts)"
    using later [of "1000 * int burst - 1000"] later [of "1000 * int burst"]
    by (auto simp: milli_deps_def milli_new_def ts allowed_def Let_def)
qed

theorem rate_limits_witness:
  "limiterRun milli_deps [(0, SeekCall ''u''), (400, SeekCall ''u''), (500, SeekCall ''v''), (1000, SeekCall ''u'')]
     (initWT 0) ! 0"
proof -
  let ?calls = "[(0, SeekCall ''u''), (400, SeekCall ''u''), (500, SeekCall ''v''), (1000, SeekCall ''u'')]"
  have "answersTo (SeekCall ''u'') ?calls (limiterRun milli_deps ?calls (initWT 0)) ! 0"
    using rate_limits [OF milli_token_bucket, of ?calls "''u''" "initWT 0"]
    by (simp add: Let_def timesOf_def)
  then show ?thesis
    by (simp add: answersTo_def split: prod.splits)
qed

end
