(* ===== verification/WT_Repo.thy ===== *)
theory WT_Repo
  imports WT_State
begin

text \<open>
  What the Redis layer of the watch-together service promises as a whole: the lifetime of a room, the
  sliding expiry of its three keys, the isolation of rooms from each other, and the chat history and
  the member list as refinements of a list of messages and of a map from users to members.
\<close>

section \<open>The writes of a room\<close>

datatype room_write =
    WriteState "(string \<times> field_value) list"
  | WriteMember string member_meta
  | WriteLeave string
  | WriteChat chat_message
  | WriteTouch

fun roomWrite :: "int \<Rightarrow> string \<Rightarrow> room_write \<Rightarrow> ('x, unit) rprog" where
  "roomWrite ttl r (WriteState fs) = UpdateRoomState ttl r fs"
| "roomWrite ttl r (WriteMember u meta) = AddMember ttl r u meta"
| "roomWrite ttl r (WriteLeave u) = RemoveMember ttl r u"
| "roomWrite ttl r (WriteChat m) = AppendMessage ttl r m"
| "roomWrite ttl r WriteTouch = RefreshTTL ttl r"

text \<open>Every write is, if it gets past its guards, one pipeline on the room's own keys.\<close>

lemma wp_roomWrite:
  assumes bad: "\<And>e. E e s"
    and run: "\<And>ops. keyOf ` set ops \<subseteq> keysOf r \<Longrightarrow> fst (exec_all ops s) \<Longrightarrow>
       Q () (touched ttl r (snd (exec_all ops s)))"
    and rejected: "\<And>e ops. keyOf ` set ops \<subseteq> keysOf r \<Longrightarrow> E e (touched ttl r (snd (exec_all ops s)))"
  shows "wp (roomWrite ttl r w) Q E s"
proof -
  have pipe: "wp (wrap (txPipelined (ops @ expireAll ttl r)) e) Q E s" if "keyOf ` set ops \<subseteq> keysOf r" for ops e
    by (rule wp_wrap, rule wp_pipelines) (use bad run rejected that in blast)+
  note one = pipe [of "[op]" for op, simplified]
  show ?thesis
  proof (cases w)
    case (WriteChat m)
    show ?thesis
      unfolding WriteChat roomWrite.simps AppendMessage_def
      using pipe [of "[LPush (KeyRoomMessages r) (MessageJSON m), LTrim (KeyRoomMessages r) chatListMaxIndex]"]
      by (intro wp_if wp_fail bad) (simp add: keysOf_def)
  next
    case WriteTouch
    show ?thesis
      unfolding WriteTouch roomWrite.simps RefreshTTL_def using pipe [of "[]"] by simp
  next
    case (WriteState fs)
    show ?thesis
      unfolding WriteState roomWrite.simps UpdateRoomState_def
      by (intro wp_if wp_fail wp_option wp_prod bad one) (simp_all add: keysOf_def)
  next
    case (WriteMember u meta)
    show ?thesis
      unfolding WriteMember roomWrite.simps AddMember_def
      by (intro wp_if wp_fail bad one) (simp_all add: keysOf_def)
  next
    case (WriteLeave u)
    show ?thesis
      unfolding WriteLeave roomWrite.simps RemoveMember_def
      by (intro wp_if wp_fail bad one) (simp_all add: keysOf_def)
  qed
qed

section \<open>Lifetime\<close>

lemma live_at:
  "redisKeys s k = Some (v, Some e) \<Longrightarrow> live (s\<lparr>redisClock := t\<rparr>) k = (if e \<le> t then None else Some v)"
  by (simp add: live_def)

lemma live_later: "live s k = None \<Longrightarrow> redisClock s \<le> t \<Longrightarrow> live (s\<lparr>redisClock := t\<rparr>) k = None"
  by (auto simp: live_def split: option.splits if_splits)

text \<open>
  A room that is created can be read back unchanged, every field included, until its time to
  live has passed, and is then not found, if nothing else touches it.
\<close>

theorem room_lifetime:
  assumes "0 < ttl" and "plainID (roomID rm)" and "roomID rm \<noteq> []"
    and "hashOf s (KeyRoom (roomID rm)) \<noteq> None"
  shows "twp (CreateRoom ttl rm)
     (\<lambda>_ s'. \<forall>t \<ge> redisClock s. fst (GetRoom (roomID rm) (clean (s'\<lparr>redisClock := t\<rparr>))) =
        (if t < redisClock s + ttl then Inr rm else Inl RoomNotFound)) s"
proof (rule twp_from_wp [OF wp_mono [OF CreateRoom_spec [OF assms(1)]] succeeds_CreateRoom [OF assms(3,4)]])
  fix a :: unit and s' :: "'a redis_scheme"
  let ?k = "KeyRoom (roomID rm)"
  assume a: "storedRoom s' (roomID rm) = Some rm \<and> redisClock s' = redisClock s
       \<and> (\<forall>k. k \<noteq> ?k \<longrightarrow> live s' k = live s k)
       \<and> (plainID (roomID rm) \<longrightarrow> (\<exists>v. redisKeys s' ?k = Some (v, Some (redisClock s + ttl))))"
  then obtain v where v: "redisKeys s' ?k = Some (v, Some (redisClock s + ttl))" using assms(2) by blast
  have now: "live s' ?k = Some v" using v a assms(1) by (simp add: live_def)
  show "\<forall>t \<ge> redisClock s. fst (GetRoom (roomID rm) (clean (s'\<lparr>redisClock := t\<rparr>))) =
        (if t < redisClock s + ttl then Inr rm else Inl RoomNotFound)"
  proof (intro allI impI)
    fix t
    show "fst (GetRoom (roomID rm) (clean (s'\<lparr>redisClock := t\<rparr>))) =
        (if t < redisClock s + ttl then Inr rm else Inl RoomNotFound)"
    proof (cases "t < redisClock s + ttl")
      case True
      then have "hashOf (s'\<lparr>redisClock := t\<rparr>) ?k = hashOf s' ?k"
        using live_at [OF v, of t] now by (simp add: hashOf_def)
      then have "storedRoom (s'\<lparr>redisClock := t\<rparr>) (roomID rm) = Some rm"
        using a by (simp add: storedRoom_def)
      then show ?thesis using True by (simp add: GetRoom_found)
    next
      case False
      then show ?thesis using live_at [OF v, of t] by (simp add: GetRoom_missing)
    qed
  qed
qed

theorem room_lifetime_witness:
  "twp (CreateRoom 900000 demoRoom)
     (\<lambda>_ s'. fst (GetRoom ''r1'' (clean (s'\<lparr>redisClock := 899999\<rparr>))) = Inr demoRoom
        \<and> fst (GetRoom ''r1'' (clean (s'\<lparr>redisClock := 900000\<rparr>))) = Inl RoomNotFound) (initWT 0 :: unit wt)"
  by (rule twp_mono [OF room_lifetime]) (simp_all add: plainID_def hashOf_def live_def)

text \<open>
  The expiry slides: a successful write of any kind (state, join, leave, chat, refresh) at time
  \<open>now\<close> keeps every key of the room that exists readable exactly until \<open>now + ttl\<close>; from then on the
  room, its members and its chat are all gone.
\<close>

theorem sliding_expiry:
  assumes "0 < ttl" and "plainID r"
  shows "wp (roomWrite ttl r w)
     (\<lambda>_ s'. \<forall>k \<in> keysOf r. \<forall>t \<ge> redisClock s.
        live (s'\<lparr>redisClock := t\<rparr>) k = (if t < redisClock s + ttl then live s' k else None))
     (\<lambda>_ _. True) s"
proof (rule wp_roomWrite)
  fix ops :: "redis_op list"
  let ?s = "snd (exec_all ops s)"
  show "\<forall>k \<in> keysOf r. \<forall>t \<ge> redisClock s.
        live ((touched ttl r ?s)\<lparr>redisClock := t\<rparr>) k =
          (if t < redisClock s + ttl then live (touched ttl r ?s) k else None)"
  proof (intro ballI allI impI)
    fix k t assume k: "k \<in> keysOf r" and t: "redisClock s \<le> t"
    show "live ((touched ttl r ?s)\<lparr>redisClock := t\<rparr>) k =
          (if t < redisClock s + ttl then live (touched ttl r ?s) k else None)"
    proof (cases "live ?s k")
      case None
      then show ?thesis using t assms(1) live_later [of "touched ttl r ?s" k t] by simp
    next
      case (Some v)
      then have "redisKeys (touched ttl r ?s) k = Some (v, Some (redisClock s + ttl))"
        using touched_expiry [OF assms k, of ?s] by simp
      then show ?thesis using live_at Some assms(1) by fastforce
    qed
  qed
qed simp_all

theorem sliding_expiry_witness:
  "twp (roomWrite 900000 ''r1'' WriteTouch)
     (\<lambda>_ s'. live (s'\<lparr>redisClock := 905000\<rparr>) (KeyRoom ''r1'') = None) (demoState :: unit wt)"
proof -
  have "wp (roomWrite 900000 ''r1'' WriteTouch)
     (\<lambda>_ s'. \<forall>k \<in> keysOf ''r1''. \<forall>t \<ge> redisClock (demoState :: unit wt).
        live (s'\<lparr>redisClock := t\<rparr>) k = (if t < redisClock (demoState :: unit wt) + 900000 then live s' k else None))
     (\<lambda>_ _. True) (demoState :: unit wt)"
    by (rule sliding_expiry) (simp_all add: plainID_def)
  then have "wp (roomWrite 900000 ''r1'' WriteTouch)
     (\<lambda>_ s'. live (s'\<lparr>redisClock := 905000\<rparr>) (KeyRoom ''r1'') = None) (\<lambda>_ _. True) (demoState :: unit wt)"
    by (rule wp_mono) (simp_all add: keysOf_def)
  then show ?thesis
    by (rule twp_from_wp) (auto simp: RefreshTTL_def expireAll_eq intro!: twp_wrap succeeds_pipeline)
qed

text \<open>
  Rooms are isolated: whatever is written to a room or when it is deleted, and whatever fails
  on the way, the keys of every other room with a plain id keep their values and their expiry.
\<close>

theorem rooms_isolated:
  assumes "plainID r" and "plainID r'" and "r \<noteq> r'"
  shows "(\<forall>w. wp (roomWrite ttl r w) (\<lambda>_ s'. \<forall>k \<in> keysOf r'. redisKeys s' k = redisKeys s k)
           (\<lambda>_ s'. \<forall>k \<in> keysOf r'. redisKeys s' k = redisKeys s k) s)
     \<and> wp (DeleteRoom r) (\<lambda>_ s'. \<forall>k \<in> keysOf r'. redisKeys s' k = redisKeys s k)
           (\<lambda>_ s'. \<forall>k \<in> keysOf r'. redisKeys s' k = redisKeys s k) s"
proof (intro conjI allI)
  fix w
  have same: "\<forall>k \<in> keysOf r'. redisKeys (touched ttl r (snd (exec_all ops s))) k = redisKeys s k"
    if "keyOf ` set ops \<subseteq> keysOf r" for ops
  proof
    fix k assume "k \<in> keysOf r'"
    then have "k \<notin> keysOf r" using keysOf_disjoint [OF assms] by blast
    then show "redisKeys (touched ttl r (snd (exec_all ops s))) k = redisKeys s k"
      using that exec_all_other [of k ops s] by (auto simp: touched_other)
  qed
  show "wp (roomWrite ttl r w) (\<lambda>_ s'. \<forall>k \<in> keysOf r'. redisKeys s' k = redisKeys s k)
           (\<lambda>_ s'. \<forall>k \<in> keysOf r'. redisKeys s' k = redisKeys s k) s"
    by (rule wp_roomWrite) (use same in blast)+
next
  have "k \<notin> keysOf r" if "k \<in> keysOf r'" for k
    using keysOf_disjoint [OF assms] that by blast
  then have gone: "redisKeys (drop_key (KeyRoomMessages r) (drop_key (KeyRoomMembers r)
      (drop_key (KeyRoom r) s))) k = redisKeys s k" if "k \<in> keysOf r'" for k
    using that by (auto simp: drop_key_def keysOf_def)
  show "wp (DeleteRoom r) (\<lambda>_ s'. \<forall>k \<in> keysOf r'. redisKeys s' k = redisKeys s k)
           (\<lambda>_ s'. \<forall>k \<in> keysOf r'. redisKeys s' k = redisKeys s k) s"
    unfolding DeleteRoom_def
    by (intro wp_wrap wp_command) (auto simp: gone)
qed

theorem rooms_isolated_witness:
  "wp (DeleteRoom ''r2'') (\<lambda>_ s'. redisKeys s' (KeyRoom ''r1'') = redisKeys (demoState :: unit wt) (KeyRoom ''r1''))
     (\<lambda>_ _. True) (demoState :: unit wt)"
proof -
  have "wp (DeleteRoom ''r2'') (\<lambda>_ s'. \<forall>k \<in> keysOf ''r1''. redisKeys s' k = redisKeys (demoState :: unit wt) k)
     (\<lambda>_ s'. \<forall>k \<in> keysOf ''r1''. redisKeys s' k = redisKeys (demoState :: unit wt) k)
     (demoState :: unit wt)"
    using rooms_isolated [of "''r2''" "''r1''" 0 "demoState :: unit wt"] by (simp add: plainID_def)
  then show ?thesis by (rule wp_mono) (simp_all add: keysOf_def)
qed

section \<open>Chat\<close>

lemma listOf_none: "live s (KeyRoomMessages r) = None \<Longrightarrow> chatLog s r []"
  by (simp add: chatLog_def listOf_def)

lemma twp_AppendMessage:
  assumes "0 < ttl" and "r \<noteq> []" and "chatLog s r hist"
  shows "twp (AppendMessage ttl r m) (\<lambda>_ s'. chatLog s' r (hist @ [m])) s"
proof (rule twp_mono)
  show "twp (AppendMessage ttl r m) (\<lambda>_ s'. chatLog s' r (hist @ [m])
      \<and> (\<forall>k. k \<noteq> KeyRoomMessages r \<longrightarrow> live s' k = live s k) \<and> redisClock s' = redisClock s) s"
    by (rule twp_from_wp [OF AppendMessage_spec [OF assms(1,3)]], rule succeeds_AppendMessage [OF assms(2)])
      (use assms(3) in \<open>simp add: chatLog_def\<close>)
qed simp

lemma twp_appends:
  assumes "0 < ttl" and "r \<noteq> []" and "chatLog s r hist"
  shows "twp (loop (\<lambda>_. AppendMessage ttl r) () ms) (\<lambda>_ s'. chatLog s' r (hist @ ms)) s"
  using assms(3)
proof (induction ms arbitrary: s hist)
  case (Cons m ms)
  show ?case
    unfolding loop.simps
    by (rule twp_bnd, rule twp_mono [OF twp_AppendMessage [OF assms(1,2) Cons.prems]])
      (use Cons.IH [of _ "hist @ [m]"] in simp)
qed (simp add: twp_ret)

lemma twp_GetMessages:
  assumes "chatLog s r hist"
  shows "twp (GetMessages r limit) (\<lambda>res s'. s' = s \<and> res = drop (length hist - min (nat limit) 100) hist) s"
  by (rule twp_from_wp [OF GetMessages_spec [OF assms] succeeds_reads(2)])
    (use assms in \<open>simp add: chatLog_def\<close>)

lemma twp_MessageCount:
  assumes "chatLog s r hist"
  shows "twp (MessageCount r) (\<lambda>n s'. s' = s \<and> n = int (min (length hist) 100)) s"
  unfolding MessageCount_def using assms
  by (intro twp_wrap twp_readRedis) (simp_all add: chatLog_def min.commute)

text \<open>
  C33. The chat list implements a log: after any sequence of messages appended to a room without
  chat, Redis holds the last hundred of them at most, and \<^verbatim>\<open>GetMessages\<close> returns exactly the last
  \<open>min limit 100\<close> in chronological order, nothing for a limit that is not positive.
\<close>

theorem chat_is_bounded_log:
  assumes "0 < ttl" and "r \<noteq> []" and "live s (KeyRoomMessages r) = None"
  shows "twp (bnd (loop (\<lambda>_. AppendMessage ttl r) () ms) (\<lambda>_.
              bnd (MessageCount r) (\<lambda>n. bnd (GetMessages r limit) (\<lambda>res. ret (n, res)))))
     (\<lambda>(n, res) _. n = int (min (length ms) 100) \<and> res = drop (length ms - min (nat limit) 100) ms) s"
proof (rule twp_bnd, rule twp_mono [OF twp_appends [OF assms(1,2) listOf_none [OF assms(3)]]])
  fix a :: unit and s' :: "'a redis_scheme"
  assume "chatLog s' r ([] @ ms)"
  then have log: "chatLog s' r ms" by simp
  show "twp (bnd (MessageCount r) (\<lambda>n. bnd (GetMessages r limit) (\<lambda>res. ret (n, res))))
     (\<lambda>(n, res) _. n = int (min (length ms) 100) \<and> res = drop (length ms - min (nat limit) 100) ms) s'"
    by (rule twp_bnd, rule twp_mono [OF twp_MessageCount [OF log]], rule twp_bnd,
        rule twp_mono [OF twp_GetMessages]) (use log in \<open>auto intro: twp_ret\<close>)
qed

definition demoMessage :: "string \<Rightarrow> chat_message" where
  "demoMessage body = \<lparr>msgID = ''m'', msgUserID = ''u'', msgUsername = ''n'', msgBody = body, msgTS = 1\<rparr>"

theorem chat_is_bounded_log_witness:
  "twp (bnd (loop (\<lambda>_. AppendMessage 900000 ''r1'') () (map demoMessage [''a'', ''b'', ''c''])) (\<lambda>_.
              bnd (MessageCount ''r1'') (\<lambda>n. bnd (GetMessages ''r1'' 2) (\<lambda>res. ret (n, res)))))
     (\<lambda>(n, res) _. n = 3 \<and> res = map demoMessage [''b'', ''c'']) (initWT 0 :: unit wt)"
  using chat_is_bounded_log [of 900000 "''r1''" "initWT 0 :: unit wt" "map demoMessage [''a'', ''b'', ''c'']" 2]
  by (simp add: live_def)

section \<open>Members\<close>

datatype member_change = Joins string member_meta | Leaves string

fun changeMember :: "int \<Rightarrow> string \<Rightarrow> member_change \<Rightarrow> ('x, unit) rprog" where
  "changeMember ttl r (Joins u meta) = AddMember ttl r u meta"
| "changeMember ttl r (Leaves u) = RemoveMember ttl r u"

fun changed :: "(string \<rightharpoonup> member_meta) \<Rightarrow> member_change \<Rightarrow> (string \<rightharpoonup> member_meta)" where
  "changed m (Joins u meta) = m(u \<mapsto> meta)"
| "changed m (Leaves u) = m(u := None)"

fun changeUser :: "member_change \<Rightarrow> string" where
  "changeUser (Joins u _) = u" | "changeUser (Leaves u) = u"

lemma twp_changeMember:
  assumes "0 < ttl" and "r \<noteq> []" and "changeUser ch \<noteq> []" and "membersOK s r"
  shows "twp (changeMember ttl r ch)
     (\<lambda>_ s'. memberMap s' r = changed (memberMap s r) ch \<and> membersOK s' r) s"
proof -
  have h: "hashOf s (KeyRoomMembers r) \<noteq> None" using assms(4) by (auto simp: membersOK_def)
  show ?thesis
  proof (cases ch)
    case (Joins u meta)
    show ?thesis
      unfolding Joins changeMember.simps changed.simps
      by (rule twp_mono [OF twp_from_wp [OF AddMember_spec [OF assms(1,4)] succeeds_members(1) [OF assms(2) _ h]]])
        (use assms(3) Joins in auto)
  next
    case (Leaves u)
    show ?thesis
      unfolding Leaves changeMember.simps changed.simps
      by (rule twp_mono [OF twp_from_wp [OF RemoveMember_spec [OF assms(1,4)] succeeds_members(2) [OF assms(2) _ h]]])
        (use assms(3) Leaves in auto)
  qed
qed

lemma twp_changes:
  assumes "0 < ttl" and "r \<noteq> []" and "\<forall>ch \<in> set chs. changeUser ch \<noteq> []" and "membersOK s r"
  shows "twp (loop (\<lambda>_. changeMember ttl r) () chs)
     (\<lambda>_ s'. memberMap s' r = foldl changed (memberMap s r) chs \<and> membersOK s' r) s"
  using assms(3,4)
proof (induction chs arbitrary: s)
  case (Cons ch chs)
  show ?case
    unfolding loop.simps
  proof (rule twp_bnd, rule twp_mono [OF twp_changeMember [OF assms(1,2) _ Cons.prems(2)]])
    show "changeUser ch \<noteq> []" using Cons.prems(1) by simp
    fix a :: unit and s' :: "'a redis_scheme"
    assume "memberMap s' r = changed (memberMap s r) ch \<and> membersOK s' r"
    then show "twp (loop (\<lambda>_. changeMember ttl r) a chs)
       (\<lambda>_ s'. memberMap s' r = foldl changed (memberMap s r) (ch # chs) \<and> membersOK s' r) s'"
      using Cons.IH [of s'] Cons.prems(1) by simp
  qed
qed (simp add: twp_ret)

text \<open>
  C34. The member hash implements a map: after any sequence of joins and leaves in a room without
  members, \<^verbatim>\<open>ListMembers\<close> returns each present user exactly once, with the metadata of the last
  join.
\<close>

theorem members_are_a_map:
  assumes "0 < ttl" and "r \<noteq> []" and "\<forall>ch \<in> set chs. changeUser ch \<noteq> []"
    and "live s (KeyRoomMembers r) = None"
  shows "twp (bnd (loop (\<lambda>_. changeMember ttl r) () chs) (\<lambda>_. ListMembers r))
     (\<lambda>ms _. distinct (map memberUserID ms)
        \<and> (\<forall>u meta. \<lparr>memberUserID = u, memberMeta = meta\<rparr> \<in> set ms
              \<longleftrightarrow> foldl changed Map.empty chs u = Some meta)) s"
proof -
  have start: "membersOK s r" "memberMap s r = Map.empty"
    using assms(4) by (simp_all add: membersOK_def memberMap_def hashOf_def fun_eq_iff)
  show ?thesis
  proof (rule twp_bnd, rule twp_mono [OF twp_changes [OF assms(1-3) start(1)]])
    fix a :: unit and s' :: "'a redis_scheme"
    assume s': "memberMap s' r = foldl changed (memberMap s r) chs \<and> membersOK s' r"
    then have h: "hashOf s' (KeyRoomMembers r) \<noteq> None" by (auto simp: membersOK_def)
    show "twp (ListMembers r) (\<lambda>ms _. distinct (map memberUserID ms)
        \<and> (\<forall>u meta. \<lparr>memberUserID = u, memberMeta = meta\<rparr> \<in> set ms
              \<longleftrightarrow> foldl changed Map.empty chs u = Some meta)) s'"
      by (rule twp_mono [OF twp_from_wp [OF ListMembers_spec [OF conjunct2 [OF s']] succeeds_reads(1) [OF h]]])
        (use s' start(2) in simp)
  qed
qed

definition demoMeta :: "string \<Rightarrow> member_meta" where
  "demoMeta name = \<lparr>metaUsername = name, metaAvatarURL = [], metaJoinedAt = 1, metaLastSeenAt = 1\<rparr>"

theorem members_are_a_map_witness:
  "twp (bnd (loop (\<lambda>_. changeMember 900000 ''r1'') () [Joins ''u'' (demoMeta ''A''), Joins ''v'' (demoMeta ''B''), Leaves ''u'']) (\<lambda>_. ListMembers ''r1''))
     (\<lambda>ms _. \<lparr>memberUserID = ''v'', memberMeta = demoMeta ''B''\<rparr> \<in> set ms
        \<and> \<lparr>memberUserID = ''u'', memberMeta = demoMeta ''A''\<rparr> \<notin> set ms) (initWT 0 :: unit wt)"
  by (rule twp_mono [OF members_are_a_map]) (simp_all add: live_def)

section \<open>Room ids with a colon\<close>

lemma twp_CountMembers:
  "hashOf s (KeyRoomMembers r) = Some h \<Longrightarrow> Q (int (length h)) s \<Longrightarrow> twp (CountMembers r) Q s"
  unfolding CountMembers_def by (intro twp_wrap twp_readRedis [where a = "int (length h)"]) simp_all

text \<open>
  Isolation needs plain ids: the room key of \<open>r:members\<close> is the member hash of room \<open>r\<close>. A
  seek in the room \<open>r:members\<close>, an id that a WebSocket client chooses, adds two fields to the members
  of \<open>r\<close>: its member list is the same, but its member count is two higher.
\<close>

theorem colon_id_reaches_members:
  assumes "0 < ttl" and "hashOf s (KeyRoomMembers r) = Some h"
    and "map_of h ''playback_time'' = None" and "map_of h ''playback_time_updated_at'' = None"
  shows "twp (bnd (CountMembers r) (\<lambda>n. bnd (ListMembers r) (\<lambda>ms.
              bnd (UpdateRoomState ttl (r @ '':members'')
                     [(''playback_time'', FieldFloat t), (''playback_time_updated_at'', FieldInt now)]) (\<lambda>_.
              bnd (CountMembers r) (\<lambda>n'. bnd (ListMembers r) (\<lambda>ms'. ret (n, ms, n', ms')))))))
     (\<lambda>(n, ms, n', ms') _. n' = n + 2 \<and> ms' = ms) s"
proof -
  let ?fs = "[(''playback_time'', FieldFloat t), (''playback_time_updated_at'', FieldInt now)]"
  let ?h = "h @ [(''playback_time'', FloatText t), (''playback_time_updated_at'', IntText now)]"
  have key: "KeyRoom (r @ '':members'') = KeyRoomMembers r"
    by (simp add: KeyRoom_def KeyRoomMembers_def)
  have new: "k \<notin> set (map fst h) \<Longrightarrow> AList.update k v (h @ h') = h @ AList.update k v h'" for k v and h' :: "(string \<times> blob) list"
    by (induction h) auto
  have "hset h [(''playback_time'', FloatText t), (''playback_time_updated_at'', IntText now)] = ?h"
    using new [of "''playback_time''" _ "[]"] new [of "''playback_time_updated_at''" _ "[(''playback_time'', FloatText t)]"]
      assms(3,4) by (simp add: hset_def map_of_eq_None_iff)
  then have run: "exec_op (HSet (KeyRoom (r @ '':members'')) [(''playback_time'', FloatText t),
      (''playback_time_updated_at'', IntText now)]) s = (True, put (KeyRoomMembers r) (RHash ?h) s)"
    using assms(2) by (simp add: key)
  let ?s = "touched ttl (r @ '':members'') (put (KeyRoomMembers r) (RHash ?h) s)"
  have upd: "twp (UpdateRoomState ttl (r @ '':members'') ?fs) Q s" if "Q () ?s" for Q
  proof -
    have "wp (UpdateRoomState ttl (r @ '':members'') ?fs) Q (\<lambda>_ _. True) s"
      unfolding UpdateRoomState_def
      by (intro wp_if wp_fail wp_option wp_prod wp_wrap wp_pipeline)
        (use run that in \<open>simp_all add: allowedRoomFields_def\<close>)
    moreover have "twp (UpdateRoomState ttl (r @ '':members'') ?fs) (\<lambda>_ _. True) s"
      by (rule succeeds_UpdateRoomState) (simp_all add: allowedRoomFields_def key assms(2))
    ultimately show ?thesis by (rule twp_from_wp)
  qed
  have after: "hashOf ?s (KeyRoomMembers r) = Some ?h" using assms(1) by simp
  show ?thesis
    by (intro twp_bnd twp_CountMembers [OF assms(2)] twp_ListMembers [OF assms(2)] upd
        twp_CountMembers [OF after] twp_ListMembers [OF after] twp_ret)
      (simp add: List.map_filter_def)
qed

theorem colon_id_reaches_members_witness:
  "twp (bnd (CountMembers ''r1'') (\<lambda>n. bnd (ListMembers ''r1'') (\<lambda>ms.
        bnd (UpdateRoomState 900000 ''r1:members''
               [(''playback_time'', FieldFloat 7), (''playback_time_updated_at'', FieldInt 1)]) (\<lambda>_.
        bnd (CountMembers ''r1'') (\<lambda>n'. bnd (ListMembers ''r1'') (\<lambda>ms'. ret (n, ms, n', ms')))))))
     (\<lambda>(n, ms, n', ms') _. n' = n + 2 \<and> ms' = ms) (initWT 0 :: unit wt)"
  using colon_id_reaches_members [of 900000 "initWT 0 :: unit wt" "''r1''" "[]" 7 1]
  by (simp add: hashOf_def live_def)

end
