(* ===== verification/WT_Cache.thy ===== *)
theory WT_Cache
  imports WT_Drift
begin

text \<open>
  The room cache (\<^verbatim>\<open>internal/service/room_cache.go\<close>): a read-through cache of one second over a
  source of rooms, invalidated by the writers. The miss path of the code releases its lock while it
  reads Redis; \<open>cacheLookup\<close> and \<open>cacheStore\<close> are the two locked sections, and \<open>RoomCache_GetRoom\<close>
  composes them around the read.
\<close>

section \<open>Operations\<close>

definition roomCacheTTL :: int where "roomCacheTTL = 1000"

definition cacheLookup :: "string \<Rightarrow> 'l wt \<Rightarrow> room option \<times> 'l wt" where
  "cacheLookup r s =
     ((case roomEntries s r of
         Some (rm, fetchedAt) \<Rightarrow> if redisClock s - fetchedAt < roomCacheTTL then Some rm else None
       | None \<Rightarrow> None), s)"

definition cacheStore :: "string \<Rightarrow> room \<Rightarrow> 'l wt \<Rightarrow> unit \<times> 'l wt" where
  "cacheStore r rm s = ((), s\<lparr>roomEntries := (roomEntries s)(r \<mapsto> (rm, redisClock s))\<rparr>)"

definition RoomCache_GetRoom :: "(string \<Rightarrow> ('l, room) wprog) \<Rightarrow> string \<Rightarrow> ('l, room) wprog" where
  "RoomCache_GetRoom getter r =
     bnd (memory (cacheLookup r)) (\<lambda>hit.
     case hit of
       Some rm \<Rightarrow> ret rm
     | None \<Rightarrow>
         bnd (getter r) (\<lambda>rm.
         bnd (memory (cacheStore r rm)) (\<lambda>_.
         ret rm)))"

definition Invalidate :: "string \<Rightarrow> 'l wt \<Rightarrow> unit \<times> 'l wt" where
  "Invalidate r s = ((), s\<lparr>roomEntries := (roomEntries s)(r := None)\<rparr>)"

lemma cache_frames [simp]:
  "snd (cacheLookup r s) = s"
  "changesOnly [PCache] s (snd (cacheStore r rm s))"
  "changesOnly [PCache] s (snd (Invalidate r s))"
  by (auto simp: cacheLookup_def cacheStore_def Invalidate_def changesOnly_def samePart.simps)

lemma cache_entries [simp]:
  "roomEntries (snd (cacheStore r rm s)) = (roomEntries s)(r \<mapsto> (rm, redisClock s))"
  "roomEntries (snd (Invalidate r s)) = (roomEntries s)(r := None)"
  by (simp_all add: cacheStore_def Invalidate_def)

lemma cache_stored [simp]:
  "storedRoom (snd (cacheStore r rm s)) = storedRoom s" "storedRoom (snd (Invalidate r s)) = storedRoom s"
  by (rule changesOnly_live(4) [where ps = "[PCache]"]; simp)+

section \<open>Coherence\<close>

text \<open>
  A fresh entry of a room with a plain id is the stored room, unless that room is gone from Redis
  (expired or deleted).
\<close>

definition freshEntry :: "'l wt \<Rightarrow> string \<Rightarrow> room option" where
  "freshEntry s r = fst (cacheLookup r s)"

definition coherent :: "'l wt \<Rightarrow> bool" where
  "coherent s \<longleftrightarrow> (\<forall>r rm. plainID r \<longrightarrow> freshEntry s r = Some rm \<longrightarrow> storedRoom s r \<in> {None, Some rm})"

lemma freshEntry_frame:
  "samePart PRedis s s' \<Longrightarrow> samePart PCache s s' \<Longrightarrow> freshEntry s' = freshEntry s"
  by (simp add: fun_eq_iff freshEntry_def cacheLookup_def samePart.simps split: option.split)

lemma freshEntry_store [simp]:
  "freshEntry (snd (cacheStore r rm s)) r' = (if r' = r then Some rm else freshEntry s r')"
  by (simp add: freshEntry_def cacheLookup_def cacheStore_def roomCacheTTL_def split: option.split)

lemma freshEntry_invalidate [simp]:
  "freshEntry (snd (Invalidate r s)) r' = (if r' = r then None else freshEntry s r')"
  by (simp add: freshEntry_def cacheLookup_def Invalidate_def split: option.split)

lemma coherent_frame: "samePart PRedis s s' \<Longrightarrow> samePart PCache s s' \<Longrightarrow> coherent s' = coherent s"
  by (simp add: coherent_def freshEntry_frame [of s s'] storedRoom_same [of s s'])

lemma coherent_store:
  assumes "coherent s" and "storedRoom s r = Some rm"
  shows "coherent (snd (cacheStore r rm s))"
proof -
  show ?thesis using assms by (auto simp: coherent_def)
qed

text \<open>
  A plain source reads the stored room and changes nothing. The cache over a plain source is a source
  of rooms whose invariant is coherence.
\<close>

locale plain_source =
  fixes getRoom :: "string \<Rightarrow> ('l wt, room) prog"
  assumes plain_law:
    "wp (getRoom r) (\<lambda>rm s'. storedRoom s r = Some rm \<and> changesOnly [] s s') (\<lambda>_ s'. changesOnly [] s s') s"

definition cacheCurrent :: "'l wt \<Rightarrow> string \<Rightarrow> room \<Rightarrow> bool" where
  "cacheCurrent s r rm \<longleftrightarrow> (plainID r \<longrightarrow> storedRoom s r \<in> {None, Some rm})"

context plain_source begin

lemma cached_read:
  assumes "coherent s"
  shows "wp (RoomCache_GetRoom getRoom r)
     (\<lambda>rm s'. cacheCurrent s r rm \<and> changesOnly [PCache] s s' \<and> coherent s')
     (\<lambda>_ s'. changesOnly [PCache] s s' \<and> coherent s') s"
proof (cases "freshEntry s r")
  case (Some rm)
  then have "cacheLookup r s = (Some rm, s)"
    by (simp add: freshEntry_def prod_eq_iff)
  then show ?thesis
    unfolding RoomCache_GetRoom_def using assms Some
    by (intro wp_bnd wp_memory) (simp add: wp_ret cacheCurrent_def coherent_def)
next
  case None
  then have look: "cacheLookup r s = (None, s)"
    by (simp add: freshEntry_def prod_eq_iff)
  have same: "coherent s'" "storedRoom s' = storedRoom s" if "changesOnly [] s s'" for s'
    using assms coherent_frame changesOnlyD [OF that] changesOnly_live(4) [OF that] by auto
  have stored: "changesOnly [PCache] s (snd (cacheStore r rm s'))" "coherent (snd (cacheStore r rm s'))"
    if "changesOnly [] s s'" "storedRoom s r = Some rm" for rm s'
  proof -
    show "changesOnly [PCache] s (snd (cacheStore r rm s'))"
      by (rule changesOnly_trans [OF that(1) cache_frames(2)]) simp
    show "coherent (snd (cacheStore r rm s'))"
      by (rule coherent_store) (use same [OF that(1)] that(2) in simp_all)
  qed
  have mono: "changesOnly [PCache] s s'" if "changesOnly [] s s'" for s'
    by (rule changesOnly_mono [OF that]) simp
  have miss: "wp (bnd (getRoom r) (\<lambda>rm. bnd (memory (cacheStore r rm)) (\<lambda>_. ret rm)))
     (\<lambda>rm s'. cacheCurrent s r rm \<and> changesOnly [PCache] s s' \<and> coherent s')
     (\<lambda>_ s'. changesOnly [PCache] s s' \<and> coherent s') s"
  proof (rule wp_bnd, rule wp_mono [OF plain_law])
    fix rm s'
    assume a: "storedRoom s r = Some rm \<and> changesOnly [] s s'"
    show "wp (bnd (memory (cacheStore r rm)) (\<lambda>_. ret rm))
     (\<lambda>rm s'. cacheCurrent s r rm \<and> changesOnly [PCache] s s' \<and> coherent s')
     (\<lambda>_ s'. changesOnly [PCache] s s' \<and> coherent s') s'"
      using a stored [of s' rm] by (intro wp_bnd wp_memory wp_ret) (simp add: cacheCurrent_def)
  qed (simp add: mono same)
  then show ?thesis
    unfolding RoomCache_GetRoom_def by (intro wp_bnd wp_memory) (simp add: look)
qed

end

sublocale plain_source \<subseteq> direct: room_source getRoom "\<lambda>_. True" "\<lambda>s r rm. storedRoom s r = Some rm"
proof
  fix s s' :: "'l wt" and r
  show "wp (getRoom r) (\<lambda>rm s'. storedRoom s r = Some rm \<and> changesOnly [PCache] s s' \<and> True)
         (\<lambda>_ s'. changesOnly [PCache] s s' \<and> True) s"
    by (rule wp_mono [OF plain_law]) (auto intro: changesOnly_mono)
  assume "samePart PRedis s s'"
  then show "(\<lambda>r rm. storedRoom s' r = Some rm) = (\<lambda>r rm. storedRoom s r = Some rm)"
    using storedRoom_same by metis
qed simp

sublocale plain_source \<subseteq> cached: room_source "RoomCache_GetRoom getRoom" coherent cacheCurrent
proof
  fix s s' :: "'l wt" and r
  show "coherent s \<Longrightarrow> wp (RoomCache_GetRoom getRoom r)
     (\<lambda>rm s'. cacheCurrent s r rm \<and> changesOnly [PCache] s s' \<and> coherent s')
     (\<lambda>_ s'. changesOnly [PCache] s s' \<and> coherent s') s"
    by (rule cached_read)
  assume p: "samePart PRedis s s'" "samePart PCache s s'"
  show "coherent s' = coherent s" by (rule coherent_frame [OF p])
  show "cacheCurrent s' = cacheCurrent s"
    using storedRoom_same [OF p(1)] by (simp add: fun_eq_iff cacheCurrent_def)
qed

interpretation repo: plain_source GetRoom
  by unfold_locales (rule wp_mono [OF GetRoom_spec], auto)

section \<open>A read that races with a write\<close>

text \<open>
  The interleaving the lock does not exclude: a miss reads Redis, a writer updates the room and
  invalidates the entry, then the miss stores what it read.
\<close>

definition racedRead :: "int \<Rightarrow> string \<Rightarrow> (string \<times> field_value) list \<Rightarrow> ('l, room) wprog" where
  "racedRead ttl r update =
     bnd (GetRoom r) (\<lambda>rm.
     bnd (UpdateRoomState ttl r update) (\<lambda>_.
     bnd (memory (Invalidate r)) (\<lambda>_.
     bnd (memory (cacheStore r rm)) (\<lambda>_.
     ret rm))))"

text \<open>
  The cache is not exactly consistent with the store: when a miss is interleaved with a seek,
  the next reads through the cache still return the room as it was before the seek, although the
  writer invalidated its entry.
\<close>

theorem raced_read_is_stale:
  assumes "storedRoom s r = Some rm" and "0 < ttl" and "r \<noteq> []"
    and "t \<noteq> roomTime rm"
  shows "twp (bnd (racedRead ttl r [(''playback_time'', FieldFloat t)]) (\<lambda>_.
              bnd (RoomCache_GetRoom GetRoom r) (\<lambda>cached. bnd (GetRoom r) (\<lambda>stored. ret (cached, stored)))))
     (\<lambda>(cached, stored) _. cached = rm \<and> stored = rm\<lparr>roomTime := t\<rparr> \<and> cached \<noteq> stored) s"
proof -
  have differ: "rm \<noteq> rm\<lparr>roomTime := t\<rparr>"
    using assms(4) by (metis room.select_convs(8) room.surjective room.update_convs(8))
  have read: "twp (bnd (RoomCache_GetRoom GetRoom r) (\<lambda>cached. bnd (GetRoom r) (\<lambda>stored. ret (cached, stored))))
      (\<lambda>(cached, stored) _. cached = rm \<and> stored = rm\<lparr>roomTime := t\<rparr> \<and> cached \<noteq> stored)
      (snd (cacheStore r rm (snd (Invalidate r s'))))"
    if "storedRoom s' r = Some (rm\<lparr>roomTime := t\<rparr>)" for s' :: "'a wt"
  proof -
    let ?s = "snd (cacheStore r rm (snd (Invalidate r s')))"
    have stored: "storedRoom ?s r = Some (rm\<lparr>roomTime := t\<rparr>)"
      using that by simp
    have hit: "fst (cacheLookup r ?s) = Some rm"
      using freshEntry_store [of r rm "snd (Invalidate r s')" r] by (simp add: freshEntry_def)
    show ?thesis
      unfolding RoomCache_GetRoom_def
      by (intro twp_bnd twp_memory)
        (simp add: hit, intro twp_ret twp_bnd twp_GetRoom [OF stored], simp add: differ)
  qed
  show ?thesis
    unfolding racedRead_def
    by (intro twp_bnd twp_GetRoom [OF assms(1)] twp_UpdateRoomState [OF assms(2,3) _ _ assms(1)]
        twp_memory twp_ret read)
      (simp_all add: allowedRoomFields_def floatField_def)
qed

theorem raced_read_is_stale_witness:
  "twp (bnd (racedRead 900000 ''r1'' [(''playback_time'', FieldFloat 99)]) (\<lambda>_.
        bnd (RoomCache_GetRoom GetRoom ''r1'') (\<lambda>cached. bnd (GetRoom ''r1'') (\<lambda>stored. ret (cached, stored)))))
     (\<lambda>(cached, stored) _. roomTime cached = 10 \<and> roomTime stored = 99) (demoState :: unit wt)"
  by (rule twp_mono [OF raced_read_is_stale [of demoState "''r1''" demoRoom]]) auto

end
