(* ===== verification/WT_Catalog.thy ===== *)
theory WT_Catalog
  imports WT_State
begin

text \<open>
  The catalog client (\<^verbatim>\<open>internal/service/catalog_client.go\<close>): one HTTP request per validation, with a
  five-second cache of positive answers. The answer of the catalog service is a parameter
  (\<open>catalogFetch\<close>: clock and the five components of the request). \<open>None\<close> is a transport or protocol
  error, whose text only reaches the log.
\<close>

section \<open>Operations\<close>

definition catalogPositiveCacheTTL :: int where "catalogPositiveCacheTTL = 5000"

definition cacheKey :: "string \<Rightarrow> string \<Rightarrow> string \<Rightarrow> string \<Rightarrow> string \<Rightarrow> string" where
  "cacheKey shikimoriID player episodeID translationID watchType =
     shikimoriID @ ''|'' @ player @ ''|'' @ episodeID @ ''|'' @ translationID @ ''|'' @ watchType"

text \<open>The request and the interpretation of its response.\<close>

definition catalogRequest ::
  "'l deps \<Rightarrow> string \<Rightarrow> string \<Rightarrow> string \<Rightarrow> string \<Rightarrow> string \<Rightarrow> 'l wt \<Rightarrow> validate_result option \<times> 'l wt" where
  "catalogRequest c sid pl ep tr w s =
     (case catalogFetch c (redisClock s) sid pl ep tr w of
        TransportError \<Rightarrow> (None, s)
      | CatalogResponse status body \<Rightarrow>
          if status = 200 then
            (case body of
               None \<Rightarrow> (None, s)
             | Some (success, result) \<Rightarrow>
                 if \<not> success then (None, s)
                 else (Some result,
                   if resultValid result
                   then s\<lparr>catalogCache := (catalogCache s)
                            (cacheKey sid pl ep tr w \<mapsto> (result, redisClock s + catalogPositiveCacheTTL))\<rparr>
                   else s))
          else (None, s))"

definition ValidateEpisode ::
  "'l deps \<Rightarrow> string \<Rightarrow> string \<Rightarrow> string \<Rightarrow> string \<Rightarrow> string \<Rightarrow> 'l wt \<Rightarrow> validate_result option \<times> 'l wt" where
  "ValidateEpisode c sid pl ep tr w s =
     (let key = cacheKey sid pl ep tr w in
      case catalogCache s key of
        None \<Rightarrow> catalogRequest c sid pl ep tr w s
      | Some (result, expireAt) \<Rightarrow>
          if \<not> redisClock s < expireAt
          then catalogRequest c sid pl ep tr w (s\<lparr>catalogCache := (catalogCache s)(key := None)\<rparr>)
          else (Some result, s))"

definition evictExpired :: "'l wt \<Rightarrow> unit \<times> 'l wt" where
  "evictExpired s = ((), s\<lparr>catalogCache := (\<lambda>k. case catalogCache s k of
       None \<Rightarrow> None
     | Some (result, expireAt) \<Rightarrow> if \<not> redisClock s < expireAt then None else Some (result, expireAt))\<rparr>)"

lemma catalog_frames [simp]:
  "changesOnly [PCatalog] s (snd (ValidateEpisode c sid pl ep tr w s))"
  "changesOnly [PCatalog] s (snd (evictExpired s))"
  by (auto simp: ValidateEpisode_def catalogRequest_def evictExpired_def changesOnly_def samePart.simps Let_def
      split: option.split catalog_reply.split)

section \<open>What a positive answer rests on\<close>

text \<open>The catalog answered a request with the same cache key positively within the last five seconds.\<close>

definition blessed :: "'l deps \<Rightarrow> int \<Rightarrow> string \<Rightarrow> validate_result \<Rightarrow> bool" where
  "blessed c now key result \<longleftrightarrow> (\<exists>t sid pl ep tr w. now - catalogPositiveCacheTTL < t \<and> t \<le> now
     \<and> cacheKey sid pl ep tr w = key
     \<and> catalogFetch c t sid pl ep tr w = CatalogResponse 200 (Some (True, result)))"

lemma blessedI:
  "catalogFetch c t sid pl ep tr w = CatalogResponse 200 (Some (True, res)) \<Longrightarrow>
   now - catalogPositiveCacheTTL < t \<Longrightarrow> t \<le> now \<Longrightarrow> blessed c now (cacheKey sid pl ep tr w) res"
  unfolding blessed_def by blast

text \<open>Every cached entry is a valid answer, with its expiry five seconds after it was given.\<close>

definition catalogOK :: "'l deps \<Rightarrow> 'l wt \<Rightarrow> bool" where
  "catalogOK c s \<longleftrightarrow> (\<forall>key result e. catalogCache s key = Some (result, e) \<longrightarrow>
     resultValid result \<and> e - catalogPositiveCacheTTL \<le> redisClock s \<and>
     (\<exists>sid pl ep tr w. cacheKey sid pl ep tr w = key
        \<and> catalogFetch c (e - catalogPositiveCacheTTL) sid pl ep tr w = CatalogResponse 200 (Some (True, result))))"

lemma catalogOK_time: "catalogOK c s \<Longrightarrow> redisClock s \<le> t \<Longrightarrow> catalogOK c (s\<lparr>redisClock := t\<rparr>)"
  by (fastforce simp: catalogOK_def)

lemma catalogOK_remove: "catalogOK c s \<Longrightarrow> catalogOK c (s\<lparr>catalogCache := (catalogCache s)(k := None)\<rparr>)"
  by (simp add: catalogOK_def)

lemma catalogOK_evict: "catalogOK c s \<Longrightarrow> catalogOK c (snd (evictExpired s))"
  by (fastforce simp: catalogOK_def evictExpired_def split: option.splits if_splits)

lemma catalogRequest_OK:
  assumes "catalogOK c s" and "catalogRequest c sid pl ep tr w s = (answer, s')"
  shows "catalogOK c s'" and "answer = Some res \<Longrightarrow> blessed c (redisClock s) (cacheKey sid pl ep tr w) res"
proof -
  show "catalogOK c s'"
    using assms
    by (auto simp: catalogRequest_def catalogOK_def split: catalog_reply.splits option.splits if_splits) blast
  show "answer = Some res \<Longrightarrow> blessed c (redisClock s) (cacheKey sid pl ep tr w) res"
  proof -
    assume "answer = Some res"
    then have "catalogFetch c (redisClock s) sid pl ep tr w = CatalogResponse 200 (Some (True, res))"
      using assms(2) by (auto simp: catalogRequest_def split: catalog_reply.splits option.splits if_splits)
    then show "blessed c (redisClock s) (cacheKey sid pl ep tr w) res"
      by (rule blessedI) (simp_all add: catalogPositiveCacheTTL_def)
  qed
qed

text \<open>A part of a key that cannot be confused with another.\<close>

definition noPipe :: "string \<Rightarrow> bool" where
  "noPipe x \<longleftrightarrow> CHR ''|'' \<notin> set x"

lemma append_sep:
  assumes "x \<notin> set a" and "x \<notin> set a'" and "a @ x # b = a' @ x # b'"
  shows "a = a' \<and> b = b'"
  using assms
proof (induction a arbitrary: a')
  case Nil
  then show ?case by (cases a') auto
next
  case (Cons y a)
  then show ?case by (cases a') auto
qed

lemma cacheKey_inj:
  assumes "cacheKey a b c d e = cacheKey a' b' c' d' e'"
    and "list_all noPipe [a, b, c, d, a', b', c', d']"
  shows "a = a' \<and> b = b' \<and> c = c' \<and> d = d' \<and> e = e'"
proof -
  have 1: "a = a' \<and> b @ ''|'' @ c @ ''|'' @ d @ ''|'' @ e = b' @ ''|'' @ c' @ ''|'' @ d' @ ''|'' @ e'"
    by (rule append_sep [of "CHR ''|''"]) (use assms in \<open>auto simp: noPipe_def cacheKey_def\<close>)
  then have 2: "b = b' \<and> c @ ''|'' @ d @ ''|'' @ e = c' @ ''|'' @ d' @ ''|'' @ e'"
    by (intro append_sep [of "CHR ''|''"]) (use assms(2) in \<open>auto simp: noPipe_def\<close>)
  then have 3: "c = c' \<and> d @ ''|'' @ e = d' @ ''|'' @ e'"
    by (intro append_sep [of "CHR ''|''"]) (use assms(2) in \<open>auto simp: noPipe_def\<close>)
  then have "d = d' \<and> e = e'"
    by (intro append_sep [of "CHR ''|''"]) (use assms(2) in \<open>auto simp: noPipe_def\<close>)
  with 1 2 3 show ?thesis by blast
qed

text \<open>A catalog that accepts everything it is asked about episode 1, for the witnesses.\<close>

definition demoDeps :: "unit deps" where
  "demoDeps = \<lparr>roomTTL = 900000, maxMembers = 10, gracePeriod = 300000,
     publicBaseURL = ''https://animeenigma.ru'', instanceID = ''i1'', rounding = (\<lambda>x. x),
     limNew = (\<lambda>_ _. ()), limAllow = (\<lambda>_ l. (True, l)),
     catalogFetch = (\<lambda>_ _ _ ep _ _. CatalogResponse 200 (Some (True,
        \<lparr>resultValid = (ep = ''1''), resultReason = (if ep = ''1'' then [] else ErrCodeEpisodeUnavailable)\<rparr>))),
     decodeErrorText = (\<lambda>_. []), quoteText = (\<lambda>x. x)\<rparr>"

lemma demoDeps_catalog [simp]:
  "catalogFetch demoDeps t sid pl ep tr w = CatalogResponse 200 (Some (True,
        \<lparr>resultValid = (ep = ''1''), resultReason = (if ep = ''1'' then [] else ErrCodeEpisodeUnavailable)\<rparr>))"
  by (simp add: demoDeps_def)

text \<open>
  An answer of the client is an answer of the catalog: what \<^verbatim>\<open>ValidateEpisode\<close> returns was given
  by the catalog, to a request with the same cache key, less than five seconds ago; a negative answer
  is never taken from the cache; and the cache keeps its invariant.
\<close>

theorem validation_is_recent:
  assumes "catalogOK c s" and "ValidateEpisode c sid pl ep tr w s = (answer, s')"
  shows "catalogOK c s'
    \<and> (\<forall>res. answer = Some res \<longrightarrow>
         blessed c (redisClock s) (cacheKey sid pl ep tr w) res
         \<and> (\<not> resultValid res \<longrightarrow>
              catalogFetch c (redisClock s) sid pl ep tr w = CatalogResponse 200 (Some (True, res))))"
proof -
  let ?key = "cacheKey sid pl ep tr w"
  let ?s = "s\<lparr>catalogCache := (catalogCache s)(?key := None)\<rparr>"
  have negative: "catalogRequest c sid pl ep tr w t = (Some res, s') \<Longrightarrow>
      catalogFetch c (redisClock t) sid pl ep tr w = CatalogResponse 200 (Some (True, res))" for t res
    by (auto simp: catalogRequest_def split: catalog_reply.splits option.splits if_splits)
  have ask: ?thesis if t: "catalogOK c t" "redisClock t = redisClock s"
    "catalogRequest c sid pl ep tr w t = (answer, s')" for t
    using catalogRequest_OK [OF t(1,3)] negative [of t] t by auto
  show ?thesis
  proof (cases "catalogCache s ?key")
    case None
    then show ?thesis using assms(2) by (intro ask [OF assms(1)]) (simp_all add: ValidateEpisode_def)
  next
    case (Some entry)
    then obtain res e where entry: "catalogCache s ?key = Some (res, e)" by (cases entry) simp
    show ?thesis
    proof (cases "redisClock s < e")
      case False
      then show ?thesis
        using assms(2) entry by (intro ask [OF catalogOK_remove [OF assms(1)]]) (simp_all add: ValidateEpisode_def)
    next
      case True
      have "ValidateEpisode c sid pl ep tr w s = (Some res, s)"
        using entry True by (simp add: ValidateEpisode_def)
      then have same: "answer = Some res" "catalogOK c s'" using assms by simp_all
      have e: "resultValid res" "e - catalogPositiveCacheTTL \<le> redisClock s"
        using assms(1) entry unfolding catalogOK_def by blast+
      obtain sid' pl' ep' tr' w' where src: "cacheKey sid' pl' ep' tr' w' = ?key"
        "catalogFetch c (e - catalogPositiveCacheTTL) sid' pl' ep' tr' w' = CatalogResponse 200 (Some (True, res))"
        using assms(1) entry unfolding catalogOK_def by metis
      have "blessed c (redisClock s) ?key res"
        using blessedI [OF src(2), of "redisClock s"] e(2) True src(1) by simp
      then show ?thesis using same e by simp
    qed
  qed
qed

theorem validation_is_recent_witness:
  "\<exists>res. fst (ValidateEpisode demoDeps ''a1'' ''kodik'' ''2'' ''t1'' [] (initWT 0)) = Some res
     \<and> blessed demoDeps 0 (cacheKey ''a1'' ''kodik'' ''2'' ''t1'' []) res \<and> \<not> resultValid res"
proof -
  have "catalogOK demoDeps (initWT 0)" by (simp add: catalogOK_def)
  from validation_is_recent [OF this, of "''a1''" "''kodik''" "''2''" "''t1''" "[]"] show ?thesis
    by (simp add: ValidateEpisode_def catalogRequest_def prod_eq_iff)
qed

text \<open>
  The cache key is ambiguous on client input: once the catalog has accepted episode \<open>1\<close> of
  translation \<open>2|t\<close>, a request for episode \<open>1|2\<close> of translation \<open>t\<close> is accepted from the cache,
  whatever the catalog would say of it.
\<close>

theorem cache_key_ambiguity:
  assumes "catalogFetch c (redisClock s) sid pl ''1'' (''2|'' @ tr) w = CatalogResponse 200 (Some (True, res))"
    and "resultValid res" and "catalogCache s (cacheKey sid pl ''1'' (''2|'' @ tr) w) = None"
  shows "fst (ValidateEpisode c sid pl ''1|2'' tr w
           (snd (ValidateEpisode c sid pl ''1'' (''2|'' @ tr) w s))) = Some res"
proof -
  have key: "cacheKey sid pl ''1|2'' tr w = cacheKey sid pl ''1'' (''2|'' @ tr) w"
    by (simp add: cacheKey_def)
  show ?thesis
    using assms by (simp add: ValidateEpisode_def catalogRequest_def key catalogPositiveCacheTTL_def)
qed

theorem cache_key_ambiguity_witness:
  "resultValid (the (fst (ValidateEpisode demoDeps ''a1'' ''kodik'' ''1|2'' ''t'' []
           (snd (ValidateEpisode demoDeps ''a1'' ''kodik'' ''1'' ''2|t'' [] (initWT 0))))))"
  using cache_key_ambiguity [of demoDeps "initWT 0" "''a1''" "''kodik''" "''t''" "[]"] by simp

end
