(* ===== verification/WT_Hub.thy ===== *)
theory WT_Hub
  imports WT_State
begin

text \<open>
  The hub (\<^verbatim>\<open>internal/hub/hub.go\<close>, \<^verbatim>\<open>internal/hub/connection.go\<close>): the connections of each room, with
  a bounded outbound buffer each. A Go map of connections is a list here; the order of delivery to
  different connections is irrelevant, since each has its own buffer. The write pump is a step of
  its own. JSON encoding, metrics, pings and deadlines are left out.
\<close>

section \<open>Connections\<close>

definition sendBufferSize :: nat where "sendBufferSize = 64"

definition accepts :: "connection \<Rightarrow> bool" where
  "accepts cn \<longleftrightarrow> \<not> connClosed cn \<and> length (connQueue cn) < sendBufferSize"

definition Send :: "envelope \<Rightarrow> nat \<Rightarrow> 'l wt \<Rightarrow> bool \<times> 'l wt" where
  "Send env i s =
     (case conns s i of
        None \<Rightarrow> (False, s)
      | Some cn \<Rightarrow>
          if connClosed cn then (False, s)
          else if length (connQueue cn) < sendBufferSize
          then (True, s\<lparr>conns := (conns s)(i \<mapsto> cn\<lparr>connQueue := connQueue cn @ [env]\<rparr>)\<rparr>)
          else (False, s))"

definition CloseConn :: "nat \<Rightarrow> 'l wt \<Rightarrow> unit \<times> 'l wt" where
  "CloseConn i s = ((), s\<lparr>conns := (conns s)(i := map_option (\<lambda>cn. cn\<lparr>connClosed := True\<rparr>) (conns s i))\<rparr>)"

text \<open>One iteration of the write pump; \<open>ok\<close> is whether the wire accepted the frame.\<close>

definition writePump :: "bool \<Rightarrow> nat \<Rightarrow> 'l wt \<Rightarrow> unit \<times> 'l wt" where
  "writePump ok i s =
     (case conns s i of
        None \<Rightarrow> ((), s)
      | Some cn \<Rightarrow>
          if connClosed cn then ((), s)
          else (case connQueue cn of
             [] \<Rightarrow> ((), s)
           | env # rest \<Rightarrow>
               ((), s\<lparr>conns := (conns s)(i \<mapsto>
                  (if ok then cn\<lparr>connWire := connWire cn @ [env], connQueue := rest\<rparr>
                   else cn\<lparr>connQueue := rest, connClosed := True\<rparr>))\<rparr>)))"

section \<open>The registry\<close>

definition roomList :: "'l wt \<Rightarrow> string \<Rightarrow> nat list" where
  "roomList s r = (case roomConns s r of None \<Rightarrow> [] | Some l \<Rightarrow> l)"

definition userOf :: "'l wt \<Rightarrow> nat \<Rightarrow> string" where
  "userOf s i = (case conns s i of None \<Rightarrow> [] | Some cn \<Rightarrow> connUserID cn)"

fun sendAll :: "envelope \<Rightarrow> nat list \<Rightarrow> 'l wt \<Rightarrow> nat \<times> 'l wt" where
  "sendAll env [] s = (0, s)"
| "sendAll env (i # is) s =
     (case Send env i s of (ok, s') \<Rightarrow>
      case sendAll env is s' of (n, s'') \<Rightarrow> ((if ok then Suc n else n), s''))"

definition localFanout :: "string \<Rightarrow> envelope \<Rightarrow> string \<Rightarrow> 'l wt \<Rightarrow> nat \<times> 'l wt" where
  "localFanout r env exclude s =
     sendAll env (filter (\<lambda>i. \<not> (exclude \<noteq> [] \<and> userOf s i = exclude)) (roomList s r)) s"

definition Broadcast :: "string \<Rightarrow> envelope \<Rightarrow> string \<Rightarrow> ('l, nat) wprog" where
  "Broadcast r env exclude =
     (if r = [] then fail (errInvalidInput ''hub.Broadcast: room_id is required'')
      else
        bnd (memory (localFanout r env exclude)) (\<lambda>delivered.
        bnd (logged (Publish r)) (\<lambda>_.
        ret delivered)))"

definition SendTo :: "string \<Rightarrow> string \<Rightarrow> envelope \<Rightarrow> ('l, nat) wprog" where
  "SendTo r u env =
     (if r = [] \<or> u = [] then fail (errInvalidInput ''hub.SendTo: room_id and user_id are required'')
      else memory (\<lambda>s. sendAll env (filter (\<lambda>i. userOf s i = u) (roomList s r)) s))"

definition MemberUserIDs :: "string \<Rightarrow> 'l wt \<Rightarrow> string list" where
  "MemberUserIDs r s = remdups (map (userOf s) (roomList s r))"

definition MemberCount :: "string \<Rightarrow> 'l wt \<Rightarrow> int" where
  "MemberCount r s = int (length (roomList s r))"

definition newConnection :: "string \<Rightarrow> string \<Rightarrow> string \<Rightarrow> connection" where
  "newConnection r u name =
     \<lparr>connUserID = u, connUsername = name, connRoomID = r, connQueue = [], connWire = [],
      connClosed = False, connHooks = False\<rparr>"

definition startRoomSubscriber :: "string \<Rightarrow> 'l wt \<Rightarrow> 'l wt" where
  "startRoomSubscriber r s = s\<lparr>roomSubs := r # removeAll r (roomSubs s)\<rparr>"

definition stopRoomSubscriber :: "string \<Rightarrow> 'l wt \<Rightarrow> 'l wt" where
  "stopRoomSubscriber r s = s\<lparr>roomSubs := removeAll r (roomSubs s)\<rparr>"

definition registerConn :: "string \<Rightarrow> string \<Rightarrow> string \<Rightarrow> envelope option \<Rightarrow> 'l wt \<Rightarrow> nat \<times> 'l wt" where
  "registerConn r u name firstFrame s =
     (let i = nextConn s;
          cn = newConnection r u name;
          cn = (case firstFrame of None \<Rightarrow> cn | Some frame \<Rightarrow> cn\<lparr>connQueue := connQueue cn @ [frame]\<rparr>);
          set' = i # roomList s r;
          s1 = s\<lparr>conns := (conns s)(i \<mapsto> cn), nextConn := Suc i, roomConns := (roomConns s)(r \<mapsto> set')\<rparr>
      in (i, if length set' = 1 then startRoomSubscriber r s1 else s1))"

definition RegisterWithFirstFrame ::
  "string \<Rightarrow> string \<Rightarrow> string \<Rightarrow> envelope option \<Rightarrow> ('l, nat) wprog" where
  "RegisterWithFirstFrame r u name firstFrame =
     (if r = [] \<or> u = [] then fail (errInvalidInput ''hub.Register: room_id and user_id are required'')
      else memory (registerConn r u name firstFrame))"

text \<open>Removal from the room set (under the lock): whether it was the last connection.\<close>

definition removeConn :: "nat \<Rightarrow> 'l wt \<Rightarrow> bool \<times> 'l wt" where
  "removeConn i s =
     (case conns s i of
        None \<Rightarrow> (False, s)
      | Some cn \<Rightarrow>
          (case roomConns s (connRoomID cn) of
             None \<Rightarrow> (False, s)
           | Some l \<Rightarrow>
               let l' = removeAll i l in
               (l' = [], s\<lparr>roomConns := (roomConns s)(connRoomID cn := (if l' = [] then None else Some l'))\<rparr>)))"

text \<open>The hook \<open>OnClose\<close> is an argument; a panic inside it is recovered.\<close>

definition Unregister :: "(string \<Rightarrow> string \<Rightarrow> ('l, unit) wprog) \<Rightarrow> nat \<Rightarrow> ('l, unit) wprog" where
  "Unregister onClose i =
     bnd (memory (\<lambda>s. (conns s i, s))) (\<lambda>found.
     case found of
       None \<Rightarrow> ret ()
     | Some cn \<Rightarrow>
         bnd (memory (removeConn i)) (\<lambda>lastInRoom.
         bnd (if connHooks cn then logged (onClose (connRoomID cn) (connUserID cn)) else ret ()) (\<lambda>_.
         bnd (memory (CloseConn i)) (\<lambda>_.
         if lastInRoom then memory (\<lambda>s. ((), stopRoomSubscriber (connRoomID cn) s)) else ret ()))))"

definition handlePubsubMessage :: "'l deps \<Rightarrow> string \<Rightarrow> string \<Rightarrow> envelope \<Rightarrow> 'l wt \<Rightarrow> unit \<times> 'l wt" where
  "handlePubsubMessage c r instance env s =
     (if instance = instanceID c then ((), s) else ((), snd (localFanout r env [] s)))"

definition HubClose :: "'l wt \<Rightarrow> unit \<times> 'l wt" where
  "HubClose s =
     ((), s\<lparr>conns := (\<lambda>i. case conns s i of
             None \<Rightarrow> None
           | Some cn \<Rightarrow> Some (if i \<in> set (roomList s (connRoomID cn)) then cn\<lparr>connClosed := True\<rparr> else cn)),
          roomConns := Map.empty, roomSubs := []\<rparr>)"

section \<open>Delivery\<close>

definition enqueue :: "envelope \<Rightarrow> connection \<Rightarrow> connection" where
  "enqueue env cn = (if accepts cn then cn\<lparr>connQueue := connQueue cn @ [env]\<rparr> else cn)"

text \<open>
  \<open>delivers A env s s'\<close>: from \<open>s\<close> to \<open>s'\<close> the envelope is appended to the buffer of every connection of
  \<open>A\<close> that is open and has room, and nothing else changes.
\<close>

definition delivers :: "(nat \<Rightarrow> bool) \<Rightarrow> envelope \<Rightarrow> 'l wt \<Rightarrow> 'l wt \<Rightarrow> bool" where
  "delivers A env s s' \<longleftrightarrow> changesOnly [PHub] s s' \<and> nextConn s' = nextConn s \<and> roomConns s' = roomConns s
     \<and> roomSubs s' = roomSubs s
     \<and> conns s' = (\<lambda>i. if A i then map_option (enqueue env) (conns s i) else conns s i)"

definition audience :: "'l wt \<Rightarrow> string \<Rightarrow> string \<Rightarrow> nat \<Rightarrow> bool" where
  "audience s r exclude i \<longleftrightarrow> i \<in> set (roomList s r) \<and> (exclude = [] \<or> userOf s i \<noteq> exclude)"

definition tabs :: "'l wt \<Rightarrow> string \<Rightarrow> string \<Rightarrow> nat \<Rightarrow> bool" where
  "tabs s r u i \<longleftrightarrow> i \<in> set (roomList s r) \<and> userOf s i = u"

lemma Send_conns: "conns (snd (Send env i s)) = (conns s)(i := map_option (enqueue env) (conns s i))"
  by (auto simp: Send_def enqueue_def accepts_def fun_eq_iff split: option.split)

lemma Send_frame:
  "changesOnly [PHub] s (snd (Send env i s))" "nextConn (snd (Send env i s)) = nextConn s"
  "roomConns (snd (Send env i s)) = roomConns s" "roomSubs (snd (Send env i s)) = roomSubs s"
  by (auto simp: Send_def changesOnly_def samePart.simps split: option.split)

lemma sendAll_Cons: "snd (sendAll env (i # is) s) = snd (sendAll env is (snd (Send env i s)))"
  by (simp split: prod.split)

lemma sendAll_frame:
  "changesOnly [PHub] s (snd (sendAll env is s)) \<and> nextConn (snd (sendAll env is s)) = nextConn s
   \<and> roomConns (snd (sendAll env is s)) = roomConns s \<and> roomSubs (snd (sendAll env is s)) = roomSubs s"
proof (induction "is" arbitrary: s)
  case (Cons i "is")
  have "changesOnly [PHub] s (snd (sendAll env is (snd (Send env i s))))"
    by (rule changesOnly_trans [OF Send_frame(1)]) (use Cons.IH in auto)
  then show ?case using Cons.IH [of "snd (Send env i s)"] unfolding sendAll_Cons by (simp add: Send_frame)
qed simp

lemma sendAll_conns:
  "distinct is \<Longrightarrow>
   conns (snd (sendAll env is s)) j = (if j \<in> set is then map_option (enqueue env) (conns s j) else conns s j)"
proof (induction "is" arbitrary: s)
  case (Cons i "is")
  then show ?case
    unfolding sendAll_Cons using Cons.IH [of "snd (Send env i s)"] by (simp add: Send_conns)
qed simp

lemma sendAll_delivers:
  assumes "distinct is"
  shows "delivers (\<lambda>i. i \<in> set is) env s (snd (sendAll env is s))"
  using sendAll_frame [of s env "is"] sendAll_conns [OF assms, of env s]
  by (simp add: delivers_def fun_eq_iff)

lemma sendAll_count:
  "distinct is \<Longrightarrow>
   fst (sendAll env is s) = length (filter (\<lambda>i. case conns s i of None \<Rightarrow> False | Some cn \<Rightarrow> accepts cn) is)"
proof (induction "is" arbitrary: s)
  case (Cons i "is")
  let ?ok = "\<lambda>s i. case conns s i of None \<Rightarrow> False | Some cn \<Rightarrow> accepts cn"
  have "filter (?ok (snd (Send env i s))) is = filter (?ok s) is"
    by (rule filter_cong) (use Cons.prems in \<open>auto simp: Send_conns\<close>)
  moreover have "fst (Send env i s) = ?ok s i"
    by (auto simp: Send_def accepts_def split: option.split)
  ultimately show ?case
    using Cons.IH [of "snd (Send env i s)"] Cons.prems by (auto split: prod.split)
qed simp

section \<open>Well-formed registries\<close>

definition connOK :: "'l wt \<Rightarrow> nat \<Rightarrow> connection \<Rightarrow> bool" where
  "connOK s i cn \<longleftrightarrow> i < nextConn s \<and> connRoomID cn \<noteq> [] \<and> connUserID cn \<noteq> []
     \<and> length (connQueue cn) \<le> sendBufferSize"

definition roomOK :: "'l wt \<Rightarrow> string \<Rightarrow> bool" where
  "roomOK s r \<longleftrightarrow> roomConns s r \<noteq> Some [] \<and> distinct (roomList s r)
     \<and> (\<forall>i \<in> set (roomList s r). \<exists>cn. conns s i = Some cn \<and> connRoomID cn = r)"

definition hubOK :: "'l wt \<Rightarrow> bool" where
  "hubOK s \<longleftrightarrow> (\<forall>r. roomOK s r) \<and> (\<forall>i cn. conns s i = Some cn \<longrightarrow> connOK s i cn)"

lemma hubOK_distinct: "hubOK s \<Longrightarrow> distinct (roomList s r)"
  by (simp add: hubOK_def roomOK_def)

lemma hubOK_member: "hubOK s \<Longrightarrow> i \<in> set (roomList s r) \<Longrightarrow> \<exists>cn. conns s i = Some cn \<and> connRoomID cn = r"
  by (simp add: hubOK_def roomOK_def)

lemma hubOK_conn: "hubOK s \<Longrightarrow> conns s i = Some cn \<Longrightarrow> connOK s i cn"
  by (simp add: hubOK_def)

lemma hubOK_frame:
  "conns s' = conns s \<Longrightarrow> nextConn s' = nextConn s \<Longrightarrow> roomConns s' = roomConns s \<Longrightarrow> hubOK s' = hubOK s"
  by (simp add: hubOK_def roomOK_def connOK_def roomList_def)

lemma enqueue_simps [simp]:
  "connRoomID (enqueue env cn) = connRoomID cn" "connUserID (enqueue env cn) = connUserID cn"
  "connClosed (enqueue env cn) = connClosed cn" "connWire (enqueue env cn) = connWire cn"
  "connHooks (enqueue env cn) = connHooks cn" "connUsername (enqueue env cn) = connUsername cn"
  "length (connQueue cn) \<le> sendBufferSize \<Longrightarrow> length (connQueue (enqueue env cn)) \<le> sendBufferSize"
  by (simp_all add: enqueue_def accepts_def)

text \<open>An update of connections that keeps their identity and the bound of their buffers.\<close>

lemma hubOK_update:
  assumes "hubOK s" and "nextConn s' = nextConn s" and "roomConns s' = roomConns s"
    and "\<And>i. rel_option (\<lambda>cn cn'. connRoomID cn' = connRoomID cn \<and> connUserID cn' = connUserID cn
           \<and> (length (connQueue cn) \<le> sendBufferSize \<longrightarrow> length (connQueue cn') \<le> sendBufferSize))
         (conns s i) (conns s' i)"
  shows "hubOK s'"
proof -
  have list: "roomList s' r = roomList s r" for r by (simp add: roomList_def assms(3))
  have "roomOK s' r" for r
    unfolding roomOK_def list assms(3)
  proof (intro conjI ballI)
    show "roomConns s r \<noteq> Some []" "distinct (roomList s r)"
      using assms(1) by (auto simp: hubOK_def roomOK_def)
    fix i assume "i \<in> set (roomList s r)"
    then obtain cn where "conns s i = Some cn" "connRoomID cn = r" using hubOK_member [OF assms(1)] by blast
    then show "\<exists>cn. conns s' i = Some cn \<and> connRoomID cn = r"
      using assms(4) [of i] by (auto simp: option_rel_Some1)
  qed
  moreover have "connOK s' i cn'" if found: "conns s' i = Some cn'" for i cn'
  proof -
    obtain cn where "conns s i = Some cn" "connRoomID cn' = connRoomID cn" "connUserID cn' = connUserID cn"
      "length (connQueue cn) \<le> sendBufferSize \<longrightarrow> length (connQueue cn') \<le> sendBufferSize"
      using assms(4) [of i] found by (cases "conns s i") auto
    then show ?thesis
      using hubOK_conn [OF assms(1)] assms(2) by (auto simp: connOK_def)
  qed
  ultimately show ?thesis by (simp add: hubOK_def)
qed

lemma delivers_hubOK: "delivers A env s s' \<Longrightarrow> hubOK s \<Longrightarrow> hubOK s'"
  by (rule hubOK_update [of s]) (auto simp: delivers_def option.rel_map option.rel_refl)

lemma delivers_same: "delivers A env s s' \<Longrightarrow> roomList s' r = roomList s r \<and> userOf s' = userOf s"
  by (auto simp: delivers_def roomList_def userOf_def fun_eq_iff split: option.splits)

lemma connOK_new: "r \<noteq> [] \<Longrightarrow> u \<noteq> [] \<Longrightarrow> connOK s i (newConnection r u name) = (i < nextConn s)"
  by (simp add: connOK_def newConnection_def sendBufferSize_def)

lemma registerConn_fst: "fst (registerConn r u name f s) = nextConn s"
  by (simp add: registerConn_def Let_def)

lemma registerConn_hub:
  "conns (snd (registerConn r u name f s)) = (conns s)(nextConn s \<mapsto>
     (newConnection r u name)\<lparr>connQueue := (case f of None \<Rightarrow> [] | Some e \<Rightarrow> [e])\<rparr>)"
  "nextConn (snd (registerConn r u name f s)) = Suc (nextConn s)"
  "roomConns (snd (registerConn r u name f s)) = (roomConns s)(r \<mapsto> nextConn s # roomList s r)"
  "changesOnly [PHub] s (snd (registerConn r u name f s))"
  by (auto simp: registerConn_def Let_def startRoomSubscriber_def newConnection_def changesOnly_def samePart.simps
      split: option.split)

lemma registerConn_rooms:
  "roomList (snd (registerConn r u name f s)) r' = (if r' = r then nextConn s # roomList s r else roomList s r')"
  by (simp add: roomList_def registerConn_hub)

lemma registerConn_hubOK:
  assumes "hubOK s" and "r \<noteq> []" and "u \<noteq> []"
  shows "hubOK (snd (registerConn r u name f s))"
proof -
  let ?s = "snd (registerConn r u name f s)"
  have fresh: "conns s (nextConn s) = None"
    using hubOK_conn [OF assms(1), of "nextConn s"] by (cases "conns s (nextConn s)") (auto simp: connOK_def)
  have old: "conns ?s i = Some cn" if "conns s i = Some cn" for i cn
    using that fresh by (auto simp: registerConn_hub)
  have new: "nextConn s \<notin> set (roomList s r')" for r'
    using hubOK_member [OF assms(1), of "nextConn s" r'] fresh by auto
  have "roomOK ?s r'" for r'
    unfolding roomOK_def registerConn_rooms
  proof (intro conjI ballI)
    show "roomConns ?s r' \<noteq> Some []"
      using assms(1) by (auto simp: registerConn_hub hubOK_def roomOK_def)
    show "distinct (if r' = r then nextConn s # roomList s r else roomList s r')"
      using hubOK_distinct [OF assms(1)] new by simp
    fix i assume i: "i \<in> set (if r' = r then nextConn s # roomList s r else roomList s r')"
    show "\<exists>cn. conns ?s i = Some cn \<and> connRoomID cn = r'"
    proof (cases "i \<in> set (roomList s r')")
      case True
      then show ?thesis using hubOK_member [OF assms(1)] old by blast
    next
      case False
      with i have "i = nextConn s \<and> r' = r" by (auto split: if_splits)
      then show ?thesis by (simp add: registerConn_hub newConnection_def)
    qed
  qed
  moreover have "connOK ?s i cn" if "conns ?s i = Some cn" for i cn
  proof (cases "i = nextConn s")
    case True
    then show ?thesis
      using that assms(2,3) by (auto simp: registerConn_hub connOK_def newConnection_def sendBufferSize_def split: option.split)
  next
    case False
    then have "connOK s i cn" using that hubOK_conn [OF assms(1)] by (simp add: registerConn_hub)
    then show ?thesis by (simp add: connOK_def registerConn_hub)
  qed
  ultimately show ?thesis by (simp add: hubOK_def)
qed

lemma removeConn_hub:
  "conns (snd (removeConn i s)) = conns s" "nextConn (snd (removeConn i s)) = nextConn s"
  "changesOnly [PHub] s (snd (removeConn i s))"
  by (auto simp: removeConn_def Let_def changesOnly_def samePart.simps split: option.split)

lemma removeConn_rooms:
  assumes "conns s i = Some cn"
  shows "roomList (snd (removeConn i s)) r =
    (if r = connRoomID cn then removeAll i (roomList s r) else roomList s r)"
  using assms by (auto simp: removeConn_def roomList_def Let_def split: option.splits)

lemma removeConn_hubOK:
  assumes "hubOK s"
  shows "hubOK (snd (removeConn i s))"
proof (cases "conns s i")
  case None
  then show ?thesis using assms by (simp add: removeConn_def)
next
  case (Some cn)
  have "roomConns (snd (removeConn i s)) r \<noteq> Some []" for r
    using assms Some by (auto simp: removeConn_def Let_def hubOK_def roomOK_def split: option.split if_splits)
  then have "roomOK (snd (removeConn i s)) r" for r
    using assms unfolding roomOK_def removeConn_rooms [OF Some] removeConn_hub
    by (auto simp: hubOK_def roomOK_def distinct_removeAll)
  then show ?thesis
    using assms by (simp add: hubOK_def connOK_def removeConn_hub)
qed

lemma CloseConn_hub:
  "conns (snd (CloseConn i s)) j =
     (if j = i then map_option (\<lambda>cn. cn\<lparr>connClosed := True\<rparr>) (conns s i) else conns s j)"
  "nextConn (snd (CloseConn i s)) = nextConn s" "roomConns (snd (CloseConn i s)) = roomConns s"
  "changesOnly [PHub] s (snd (CloseConn i s))"
  by (auto simp: CloseConn_def changesOnly_def samePart.simps)

lemma CloseConn_hubOK: "hubOK s \<Longrightarrow> hubOK (snd (CloseConn i s))"
  by (rule hubOK_update [of s]) (auto simp: CloseConn_hub option.rel_map option.rel_refl)

lemma stopRoomSubscriber_hub:
  "conns (stopRoomSubscriber r s) = conns s" "nextConn (stopRoomSubscriber r s) = nextConn s"
  "roomConns (stopRoomSubscriber r s) = roomConns s" "changesOnly [PHub] s (stopRoomSubscriber r s)"
  by (auto simp: stopRoomSubscriber_def changesOnly_def samePart.simps)

lemma writePump_hub:
  "nextConn (snd (writePump ok i s)) = nextConn s" "roomConns (snd (writePump ok i s)) = roomConns s"
  "changesOnly [PHub] s (snd (writePump ok i s))"
  by (auto simp: writePump_def changesOnly_def samePart.simps split: option.split list.split)

lemma writePump_hubOK: "hubOK s \<Longrightarrow> hubOK (snd (writePump ok i s))"
  by (rule hubOK_update [of s])
    (auto simp: writePump_hub writePump_def option.rel_refl split: option.split list.split)

section \<open>The interface of the hub\<close>

text \<open>
  What the router, the grace manager and the room handler rely on (\<^verbatim>\<open>HubFanout\<close> and
  \<^verbatim>\<open>RoomDeleteFanout\<close>): a broadcast reaches everyone in the room but the excluded user, \<open>SendTo\<close>
  every tab of one user, and neither changes anything else, fails otherwise than on an empty id, or
  waits for a slow connection.
\<close>

record 'l fanout =
  fanBroadcast :: "string \<Rightarrow> envelope \<Rightarrow> string \<Rightarrow> ('l, nat) wprog"
  fanSendTo :: "string \<Rightarrow> string \<Rightarrow> envelope \<Rightarrow> ('l, nat) wprog"

locale hub_fanout =
  fixes h :: "'l fanout"
  assumes broadcast_law: "hubOK s \<Longrightarrow>
      wp (fanBroadcast h r env ex) (\<lambda>_ s'. r \<noteq> [] \<and> delivers (audience s r ex) env s s')
        (\<lambda>_ s'. r = [] \<and> changesOnly [] s s') s"
    and sendTo_law: "hubOK s \<Longrightarrow>
      wp (fanSendTo h r u env) (\<lambda>_ s'. r \<noteq> [] \<and> u \<noteq> [] \<and> delivers (tabs s r u) env s s')
        (\<lambda>_ s'. (r = [] \<or> u = []) \<and> changesOnly [] s s') s"
    and broadcast_runs: "hubOK s \<Longrightarrow> r \<noteq> [] \<Longrightarrow> twp (fanBroadcast h r env ex) (\<lambda>_ _. True) s"
    and sendTo_runs: "hubOK s \<Longrightarrow> r \<noteq> [] \<Longrightarrow> u \<noteq> [] \<Longrightarrow> twp (fanSendTo h r u env) (\<lambda>_ _. True) s"

definition theHub :: "'l fanout" where
  "theHub = \<lparr>fanBroadcast = Broadcast, fanSendTo = SendTo\<rparr>"

lemma publish_wp: "Q () s \<Longrightarrow> wp (logged (Publish r)) (\<lambda>a. Q a) E s"
  unfolding Publish_def touch_def
  by (intro wp_logged wp_wrap wp_command) simp_all

lemma filter_audience: "distinct (roomList s r) \<Longrightarrow>
   delivers (audience s r ex) env s (snd (localFanout r env ex s))"
proof -
  assume d: "distinct (roomList s r)"
  have "(\<lambda>i. i \<in> set (filter (\<lambda>i. \<not> (ex \<noteq> [] \<and> userOf s i = ex)) (roomList s r))) = audience s r ex"
    by (auto simp: audience_def fun_eq_iff)
  then show ?thesis
    using sendAll_delivers [of "filter (\<lambda>i. \<not> (ex \<noteq> [] \<and> userOf s i = ex)) (roomList s r)" env s] d
    by (simp add: localFanout_def)
qed

lemma filter_tabs: "distinct (roomList s r) \<Longrightarrow>
   delivers (tabs s r u) env s (snd (sendAll env (filter (\<lambda>i. userOf s i = u) (roomList s r)) s))"
proof -
  assume d: "distinct (roomList s r)"
  have "(\<lambda>i. i \<in> set (filter (\<lambda>i. userOf s i = u) (roomList s r))) = tabs s r u"
    by (auto simp: tabs_def fun_eq_iff)
  then show ?thesis
    using sendAll_delivers [of "filter (\<lambda>i. userOf s i = u) (roomList s r)" env s] d by simp
qed

interpretation hub: hub_fanout theHub
proof
  fix s :: "'l wt" and r u ex env
  assume ok: "hubOK s"
  show "wp (fanBroadcast theHub r env ex) (\<lambda>_ s'. r \<noteq> [] \<and> delivers (audience s r ex) env s s')
        (\<lambda>_ s'. r = [] \<and> changesOnly [] s s') s"
    unfolding theHub_def Broadcast_def
    by (auto intro!: wp_if wp_fail wp_bnd wp_memory publish_wp wp_ret filter_audience hubOK_distinct ok)
  show "wp (fanSendTo theHub r u env) (\<lambda>_ s'. r \<noteq> [] \<and> u \<noteq> [] \<and> delivers (tabs s r u) env s s')
        (\<lambda>_ s'. (r = [] \<or> u = []) \<and> changesOnly [] s s') s"
    unfolding theHub_def SendTo_def
    by (auto intro!: wp_if wp_fail wp_memory filter_tabs hubOK_distinct ok)
  assume "r \<noteq> []"
  then show "twp (fanBroadcast theHub r env ex) (\<lambda>_ _. True) s"
    unfolding theHub_def Broadcast_def
    by (auto intro!: twp_if twp_bnd twp_memory twp_logged succeeds_simple twp_ret
        intro: twp_mono [OF succeeds_simple(3)])
  assume "u \<noteq> []"
  then show "twp (fanSendTo theHub r u env) (\<lambda>_ _. True) s"
    using \<open>r \<noteq> []\<close> unfolding theHub_def SendTo_def by (auto intro!: twp_if twp_memory)
qed

end
