(* ===== verification/WT_Inbound.thy ===== *)
theory WT_Inbound
  imports WT_Cache WT_Limiter WT_Catalog WT_Hub
begin

text \<open>
  The router of inbound WebSocket messages (\<^verbatim>\<open>internal/service/inbound.go\<close>): ten handlers behind
  \<open>Dispatch\<close>. The hub is reached through the interface \<open>fanout\<close>, as in the code (\<^verbatim>\<open>HubFanout\<close>). A
  failed command of Redis is logged and the handler returns; the clock is that of the state, and the
  id of a chat message is an argument. Metrics, logging and the five-second deadline are left out.
\<close>

section \<open>Limits and codes\<close>

record conn_ctx =
  ctxRoomID :: string
  ctxUserID :: string
  ctxUsername :: string

definition errCodeBadPayload :: string where "errCodeBadPayload = ''BAD_PAYLOAD''"
definition errCodeUnknownType :: string where "errCodeUnknownType = ''UNKNOWN_TYPE''"
definition chatBodyCharLimit :: nat where "chatBodyCharLimit = 500"

text \<open>The accepted reactions, as UTF-8 bytes.\<close>

definition reactionWhitelist :: "string list" where
  "reactionWhitelist =
    [[CHR 0xF0, CHR 0x9F, CHR 0x94, CHR 0xA5],
     [CHR 0xE2, CHR 0x9D, CHR 0xA4, CHR 0xEF, CHR 0xB8, CHR 0x8F],
     [CHR 0xF0, CHR 0x9F, CHR 0x98, CHR 0x82],
     [CHR 0xF0, CHR 0x9F, CHR 0x98, CHR 0xAD],
     [CHR 0xF0, CHR 0x9F, CHR 0x91, CHR 0x80],
     [CHR 0xF0, CHR 0x9F, CHR 0x99, CHR 0x8F],
     [CHR 0xF0, CHR 0x9F, CHR 0x8E, CHR 0x89],
     [CHR 0xE2, CHR 0x9C, CHR 0xA8],
     [CHR 0xF0, CHR 0x9F, CHR 0x92, CHR 0x80],
     [CHR 0xF0, CHR 0x9F, CHR 0xA5, CHR 0xBA],
     [CHR 0xF0, CHR 0x9F, CHR 0x98, CHR 0x8D],
     [CHR 0xF0, CHR 0x9F, CHR 0xA4, CHR 0x94],
     [CHR 0xF0, CHR 0x9F, CHR 0x91, CHR 0x8F],
     [CHR 0xF0, CHR 0x9F, CHR 0x99, CHR 0x8C],
     [CHR 0xF0, CHR 0x9F, CHR 0x98, CHR 0xB1],
     [CHR 0xF0, CHR 0x9F, CHR 0x98, CHR 0x8E],
     [CHR 0xF0, CHR 0x9F, CHR 0x8C, CHR 0xB8],
     [CHR 0xE2, CHR 0x9A, CHR 0xA1],
     [CHR 0xF0, CHR 0x9F, CHR 0x92, CHR 0xAF],
     [CHR 0xF0, CHR 0x9F, CHR 0x8E, CHR 0x8C],
     [CHR 0xF0, CHR 0x9F, CHR 0x8D, CHR 0xA3],
     [CHR 0xF0, CHR 0x9F, CHR 0x8C, CHR 0x9F],
     [CHR 0xF0, CHR 0x9F, CHR 0x92, CHR 0xA2],
     [CHR 0xF0, CHR 0x9F, CHR 0xA4, CHR 0xAF]]"

section \<open>Answers to the sender\<close>

definition sendErrorToSelf ::
  "'l fanout \<Rightarrow> conn_ctx \<Rightarrow> string \<Rightarrow> string \<Rightarrow> string \<Rightarrow> ('l, unit) wprog" where
  "sendErrorToSelf h conn code message hint =
     logged (fanSendTo h (ctxRoomID conn) (ctxUserID conn) (ErrorEnv code message hint))"

definition sendBadPayload :: "'l fanout \<Rightarrow> conn_ctx \<Rightarrow> string \<Rightarrow> string \<Rightarrow> ('l, unit) wprog" where
  "sendBadPayload h conn msgType decodeErr =
     sendErrorToSelf h conn errCodeBadPayload
       (''malformed '' @ msgType @ '' payload: '' @ decodeErr) []"

section \<open>Playback\<close>

text \<open>A step of the handlers that need the room written: on an error they log and return.\<close>

definition ifWritten :: "('l, unit) wprog \<Rightarrow> ('l, unit) wprog \<Rightarrow> ('l, unit) wprog" where
  "ifWritten write next = attempt write (\<lambda>res. case res of Inl _ \<Rightarrow> ret () | Inr _ \<Rightarrow> next)"

definition handlePlaybackEvent ::
  "'l deps \<Rightarrow> 'l fanout \<Rightarrow> conn_ctx \<Rightarrow> json option \<Rightarrow> string \<Rightarrow> string \<Rightarrow> ('l, unit) wprog" where
  "handlePlaybackEvent c h conn dat kind newState =
     (case decodeTime dat of
        None \<Rightarrow> sendBadPayload h conn kind (decodeErrorText c dat)
      | Some t \<Rightarrow>
          bnd (memory (\<lambda>s. (redisClock s, s))) (\<lambda>nowMs.
          ifWritten
            (UpdateRoomState (roomTTL c) (ctxRoomID conn)
               [(''playback_state'', FieldText newState), (''playback_time'', FieldFloat t),
                (''playback_time_updated_at'', FieldInt nowMs)])
            (bnd (memory (Invalidate (ctxRoomID conn))) (\<lambda>_.
             logged (fanBroadcast h (ctxRoomID conn)
               (PlaybackEvent kind t (ctxUserID conn) nowMs) (ctxUserID conn))))))"

definition handleSeek :: "'l deps \<Rightarrow> 'l fanout \<Rightarrow> conn_ctx \<Rightarrow> json option \<Rightarrow> ('l, unit) wprog" where
  "handleSeek c h conn dat =
     bnd (memory (AllowSeek c (ctxUserID conn))) (\<lambda>ok.
     if \<not> ok then sendErrorToSelf h conn ErrCodeRateLimited ''seek rate limit exceeded (1/sec)'' []
     else
       (case decodeTime dat of
          None \<Rightarrow> sendBadPayload h conn ''seek'' (decodeErrorText c dat)
        | Some t \<Rightarrow>
            bnd (memory (\<lambda>s. (redisClock s, s))) (\<lambda>nowMs.
            ifWritten
              (UpdateRoomState (roomTTL c) (ctxRoomID conn)
                 [(''playback_time'', FieldFloat t), (''playback_time_updated_at'', FieldInt nowMs)])
              (bnd (memory (Invalidate (ctxRoomID conn))) (\<lambda>_.
               logged (fanBroadcast h (ctxRoomID conn)
                 (PlaybackEvent ''seek'' t (ctxUserID conn) nowMs) (ctxUserID conn)))))))"

text \<open>
  The answer to a tick. The extra read of the room on persistent drift only labels a metric, but it
  goes through the cache and may fill it.
\<close>

definition handleTimeTick :: "'l deps \<Rightarrow> 'l fanout \<Rightarrow> conn_ctx \<Rightarrow> json option \<Rightarrow> ('l, unit) wprog" where
  "handleTimeTick c h conn dat =
     (case decodeTime dat of
        None \<Rightarrow> sendBadPayload h conn ''time_tick'' (decodeErrorText c dat)
      | Some t \<Rightarrow>
          bnd (memory (\<lambda>s. (redisClock s, s))) (\<lambda>nowMs.
          attempt (OnTimeTick (rounding c) (RoomCache_GetRoom GetRoom) (ctxRoomID conn) (ctxUserID conn) t nowMs)
            (\<lambda>res. case res of
               Inl _ \<Rightarrow> ret ()
             | Inr None \<Rightarrow> ret ()
             | Inr (Some k) \<Rightarrow>
                 (case corrSeverity k of
                    DriftPersistent \<Rightarrow>
                      bnd (logged (RoomCache_GetRoom GetRoom (ctxRoomID conn))) (\<lambda>_.
                      sendErrorToSelf h conn ErrCodePersistentDrift
                        ''drift exceeds correction threshold for 5 consecutive ticks'' ''reload'')
                  | DriftNone \<Rightarrow> ret ()
                  | _ \<Rightarrow> logged (fanSendTo h (ctxRoomID conn) (ctxUserID conn)
                           (PlaybackCorrection (corrTime k) (corrTS k)))))))"

section \<open>State changes\<close>

definition mapValidationReason :: "string \<Rightarrow> string \<Rightarrow> string" where
  "mapValidationReason reason defaultCode =
     (if reason = ErrCodeEpisodeUnavailable \<or> reason = ErrCodePlayerUnavailable
         \<or> reason = ErrCodeTranslationUnavailable
      then reason else defaultCode)"

definition applyStateChange ::
  "'l deps \<Rightarrow> 'l fanout \<Rightarrow> conn_ctx \<Rightarrow> (string \<times> field_value) list \<Rightarrow> string \<Rightarrow> string \<Rightarrow> ('l, unit) wprog" where
  "applyStateChange c h conn delta broadcastField broadcastValue =
     bnd (memory (\<lambda>s. (redisClock s, s))) (\<lambda>nowMs.
     ifWritten
       (UpdateRoomState (roomTTL c) (ctxRoomID conn)
          (delta @ [(''playback_time'', FieldFloat 0), (''playback_state'', FieldText StatePaused),
                    (''playback_time_updated_at'', FieldInt nowMs)]))
       (bnd (memory (Invalidate (ctxRoomID conn))) (\<lambda>_.
        logged (fanBroadcast h (ctxRoomID conn)
          (RoomStateChanged broadcastField broadcastValue (ctxUserID conn)) []))))"

text \<open>The verdict of the catalog: a transport error or a refusal is answered to the sender alone.\<close>

definition ifValid ::
  "'l fanout \<Rightarrow> conn_ctx \<Rightarrow> ('l wt \<Rightarrow> validate_result option \<times> 'l wt) \<Rightarrow> string \<Rightarrow> string
   \<Rightarrow> ('l, unit) wprog \<Rightarrow> ('l, unit) wprog" where
  "ifValid h conn ask defaultCode refusal next =
     bnd (memory ask) (\<lambda>answer. case answer of
       None \<Rightarrow> sendErrorToSelf h conn defaultCode ''upstream validation failed; retry'' []
     | Some result \<Rightarrow>
         if \<not> resultValid result
         then sendErrorToSelf h conn (mapValidationReason (resultReason result) defaultCode) refusal []
         else next)"

definition handleChangeEpisode :: "'l deps \<Rightarrow> 'l fanout \<Rightarrow> conn_ctx \<Rightarrow> json option \<Rightarrow> ('l, unit) wprog" where
  "handleChangeEpisode c h conn dat =
     (case decodeText ''episode_id'' dat of
        None \<Rightarrow> sendBadPayload h conn MsgStateChangeEpisode (decodeErrorText c dat)
      | Some ep \<Rightarrow>
          if ep = [] then sendBadPayload h conn MsgStateChangeEpisode ''episode_id must be non-empty''
          else
            attempt (GetRoom (ctxRoomID conn)) (\<lambda>res. case res of
              Inl _ \<Rightarrow> ret ()
            | Inr rm \<Rightarrow>
                ifValid h conn
                  (ValidateEpisode c (roomAnimeID rm) (roomPlayer rm) ep (roomTranslationID rm) [])
                  ErrCodeEpisodeUnavailable
                  (''episode '' @ ep @ '' unavailable on '' @ roomPlayer rm @ ''/'' @ roomTranslationID rm)
                  (applyStateChange c h conn [(''episode_id'', FieldText ep)] ''episode_id'' ep)))"

definition handleChangePlayer :: "'l deps \<Rightarrow> 'l fanout \<Rightarrow> conn_ctx \<Rightarrow> json option \<Rightarrow> ('l, unit) wprog" where
  "handleChangePlayer c h conn dat =
     (case decodeText ''player'' dat of
        None \<Rightarrow> sendBadPayload h conn MsgStateChangePlayer (decodeErrorText c dat)
      | Some pl \<Rightarrow>
          if pl = [] then sendBadPayload h conn MsgStateChangePlayer ''player must be non-empty''
          else
            attempt (GetRoom (ctxRoomID conn)) (\<lambda>res. case res of
              Inl _ \<Rightarrow> ret ()
            | Inr rm \<Rightarrow>
                ifValid h conn
                  (ValidateEpisode c (roomAnimeID rm) pl [] [] [])
                  ErrCodePlayerUnavailable
                  (''player '' @ pl @ '' unavailable for this anime'')
                  (applyStateChange c h conn
                     [(''player'', FieldText pl), (''translation_id'', FieldText []),
                      (''episode_id'', FieldText ''1'')]
                     ''player'' pl)))"

definition handleChangeTranslation :: "'l deps \<Rightarrow> 'l fanout \<Rightarrow> conn_ctx \<Rightarrow> json option \<Rightarrow> ('l, unit) wprog" where
  "handleChangeTranslation c h conn dat =
     (case decodeText ''translation_id'' dat of
        None \<Rightarrow> sendBadPayload h conn MsgStateChangeTrans (decodeErrorText c dat)
      | Some tr \<Rightarrow>
          if tr = [] then sendBadPayload h conn MsgStateChangeTrans ''translation_id must be non-empty''
          else
            attempt (GetRoom (ctxRoomID conn)) (\<lambda>res. case res of
              Inl _ \<Rightarrow> ret ()
            | Inr rm \<Rightarrow>
                ifValid h conn
                  (ValidateEpisode c (roomAnimeID rm) (roomPlayer rm) (roomEpisodeID rm) tr [])
                  ErrCodeTranslationUnavailable
                  (''translation '' @ tr @ '' unavailable for '' @ roomPlayer rm @ ''/ep-'' @ roomEpisodeID rm)
                  (applyStateChange c h conn [(''translation_id'', FieldText tr)] ''translation_id'' tr)))"

section \<open>Chat and presence\<close>

definition handleChat :: "'l deps \<Rightarrow> 'l fanout \<Rightarrow> string \<Rightarrow> conn_ctx \<Rightarrow> json option \<Rightarrow> ('l, unit) wprog" where
  "handleChat c h newID conn dat =
     (case decodeText ''body'' dat of
        None \<Rightarrow> sendBadPayload h conn ''chat:message'' (decodeErrorText c dat)
      | Some body \<Rightarrow>
          if chatBodyCharLimit < length body
          then sendErrorToSelf h conn ErrCodeChatTooLong ''chat body exceeds 500 chars'' []
          else
            bnd (memory (AllowChat c (ctxUserID conn))) (\<lambda>ok.
            if \<not> ok then sendErrorToSelf h conn ErrCodeRateLimited ''chat rate limit exceeded (5/sec)'' []
            else
              bnd (memory (\<lambda>s. (redisClock s, s))) (\<lambda>nowMs.
              let msg = \<lparr>msgID = newID, msgUserID = ctxUserID conn, msgUsername = ctxUsername conn,
                         msgBody = body, msgTS = nowMs\<rparr> in
              ifWritten (AppendMessage (roomTTL c) (ctxRoomID conn) msg)
                (logged (fanBroadcast h (ctxRoomID conn) (ChatMessageOut msg) [])))))"

definition handleReaction :: "'l deps \<Rightarrow> 'l fanout \<Rightarrow> conn_ctx \<Rightarrow> json option \<Rightarrow> ('l, unit) wprog" where
  "handleReaction c h conn dat =
     (case decodeText ''emoji'' dat of
        None \<Rightarrow> sendBadPayload h conn ''chat:reaction'' (decodeErrorText c dat)
      | Some emoji \<Rightarrow>
          if emoji \<notin> set reactionWhitelist then ret ()
          else logged (fanBroadcast h (ctxRoomID conn) (ChatReactionOut (ctxUserID conn) emoji) []))"

definition handleHeartbeat :: "'l deps \<Rightarrow> conn_ctx \<Rightarrow> ('l, unit) wprog" where
  "handleHeartbeat c conn =
     attempt (ListMembers (ctxRoomID conn)) (\<lambda>res. case res of
       Inl _ \<Rightarrow> ret ()
     | Inr members \<Rightarrow>
         (case find (\<lambda>m. memberUserID m = ctxUserID conn) members of
            None \<Rightarrow> ret ()
          | Some m \<Rightarrow>
              bnd (memory (\<lambda>s. (redisClock s, s))) (\<lambda>nowMs.
              logged (AddMember (roomTTL c) (ctxRoomID conn) (ctxUserID conn)
                ((memberMeta m)\<lparr>metaLastSeenAt := nowMs div 1000\<rparr>)))))"

section \<open>Dispatch\<close>

definition Dispatch :: "'l deps \<Rightarrow> 'l fanout \<Rightarrow> string \<Rightarrow> conn_ctx \<Rightarrow> inbound \<Rightarrow> ('l, unit) wprog" where
  "Dispatch c h newID conn env =
     (if inType env = MsgPlaybackPlay then
        handlePlaybackEvent c h conn (inData env) ''play'' StatePlaying
      else if inType env = MsgPlaybackPause then
        handlePlaybackEvent c h conn (inData env) ''pause'' StatePaused
      else if inType env = MsgPlaybackSeek then handleSeek c h conn (inData env)
      else if inType env = MsgPlaybackTimeTick then handleTimeTick c h conn (inData env)
      else if inType env = MsgStateChangeEpisode then handleChangeEpisode c h conn (inData env)
      else if inType env = MsgStateChangePlayer then handleChangePlayer c h conn (inData env)
      else if inType env = MsgStateChangeTrans then handleChangeTranslation c h conn (inData env)
      else if inType env = MsgChatMessage then handleChat c h newID conn (inData env)
      else if inType env = MsgChatReaction then handleReaction c h conn (inData env)
      else if inType env = MsgPresenceHeartbeat then handleHeartbeat c conn
      else sendErrorToSelf h conn errCodeUnknownType (''unknown message type: '' @ inType env) [])"

definition OnDisconnect :: "string \<Rightarrow> string \<Rightarrow> 'l wt \<Rightarrow> unit \<times> 'l wt" where
  "OnDisconnect r u s = Forget u (snd (DriftReset r u s))"

end
