(* ===== verification/WT_Router.thy ===== *)
theory WT_Router
  imports WT_Inbound
begin

text \<open>
  What the router promises. \<open>acceptedFrame\<close> says, without any effect, which frame an inbound message
  deserves; \<open>announced\<close> says what it means that a frame was announced: it is in the buffer of everyone
  in its audience, and what it says is already stored. The contract of \<open>Dispatch\<close> is that it either
  announces the accepted frame or stays quiet: Redis is untouched but for the sender's own
  \<open>last_seen_at\<close>, and at most the sender hears of it.
\<close>

section \<open>Invariant and frames\<close>

definition wtOK :: "'l deps \<Rightarrow> 'l wt \<Rightarrow> bool" where
  "wtOK c s \<longleftrightarrow> hubOK s \<and> coherent s \<and> catalogOK c s"

lemma catalogOK_frame: "catalogCache s' = catalogCache s \<Longrightarrow> redisClock s' = redisClock s \<Longrightarrow> catalogOK c s' = catalogOK c s"
  by (simp add: catalogOK_def)

abbreviation sixParts :: "part list" where
  "sixParts \<equiv> [PRedis, PDrift, PLimiter, PCache, PCatalog, PHub]"

definition evolves :: "'l deps \<Rightarrow> 'l wt \<Rightarrow> 'l wt \<Rightarrow> bool" where
  "evolves c s s' \<longleftrightarrow> wtOK c s' \<and> redisClock s' = redisClock s \<and> changesOnly sixParts s s'"

lemma evolves_trans: "evolves c s s' \<Longrightarrow> evolves c s' s'' \<Longrightarrow> evolves c s s''"
  by (auto simp: evolves_def intro: changesOnly_trans)

lemma evolves_refl: "wtOK c s \<Longrightarrow> evolves c s s"
  by (simp add: evolves_def)

text \<open>Nothing that a client or another room can see has changed.\<close>

definition still :: "'l wt \<Rightarrow> 'l wt \<Rightarrow> bool" where
  "still s s' \<longleftrightarrow> live s' = live s \<and> samePart PHub s s'"

lemma still_refl [simp]: "still s s"
  by (simp add: still_def)

lemma still_trans: "still s s' \<Longrightarrow> still s' s'' \<Longrightarrow> still s s''"
  by (auto simp: still_def intro: samePart_trans)

text \<open>A step that changes neither Redis, nor the cache, nor the hub keeps the invariant.\<close>

lemma evolves_private:
  assumes "changesOnly ps s s'" and "set ps \<subseteq> {PDrift, PLimiter}" and "wtOK c s"
  shows "evolves c s s' \<and> still s s'"
proof -
  have out: "PRedis \<notin> set ps" "PCache \<notin> set ps" "PCatalog \<notin> set ps" "PHub \<notin> set ps"
    using assms(2) by auto
  note k = changesOnly_keeps [OF assms(1)]
  have keep: "redisClock s' = redisClock s" "catalogCache s' = catalogCache s" "conns s' = conns s"
    "nextConn s' = nextConn s" "roomConns s' = roomConns s"
    using k(1) [OF out(1)] k(7) [OF out(3)] k(8-10) [OF out(4)] by simp_all
  have parts: "samePart PRedis s s'" "samePart PCache s s'" "samePart PHub s s'"
    using changesOnlyD [OF assms(1)] out by simp_all
  have "changesOnly sixParts s s'" by (rule changesOnly_mono [OF assms(1)]) (use assms(2) in auto)
  then show ?thesis
    using assms(3) keep hubOK_frame [OF keep(3-5)] coherent_frame [OF parts(1,2)] catalogOK_frame [OF keep(2,1)]
      live_same [OF parts(1)] parts(3) by (simp add: evolves_def wtOK_def still_def)
qed

lemma evolves_catalog:
  assumes "wtOK c s"
  shows "evolves c s (snd (ValidateEpisode c sid pl ep tr w s)) \<and> still s (snd (ValidateEpisode c sid pl ep tr w s))"
proof -
  let ?s = "snd (ValidateEpisode c sid pl ep tr w s)"
  note only = catalog_frames(1) [of s c sid pl ep tr w]
  have ok: "catalogOK c ?s"
  proof -
    obtain answer s' where run: "ValidateEpisode c sid pl ep tr w s = (answer, s')" by force
    have "catalogOK c s'"
      using assms catalogRequest_OK(1) [of c s sid pl ep tr w answer s']
        catalogRequest_OK(1) [OF catalogOK_remove, of c s sid pl ep tr w "cacheKey sid pl ep tr w" answer s'] run
      by (auto simp: wtOK_def ValidateEpisode_def Let_def split: option.splits if_splits)
    then show ?thesis by (simp add: run)
  qed
  have keep: "redisClock ?s = redisClock s" "conns ?s = conns s"
    "nextConn ?s = nextConn s" "roomConns ?s = roomConns s"
    using changesOnly_keeps [OF only] by auto
  have parts: "samePart PRedis s ?s" "samePart PCache s ?s" "samePart PHub s ?s"
    using changesOnlyD [OF only] by auto
  have "changesOnly sixParts s ?s" by (rule changesOnly_mono [OF only]) auto
  then show ?thesis
    using assms ok keep hubOK_frame [OF keep(2-4)] coherent_frame [OF parts(1,2)]
      live_same [OF parts(1)] parts(3) by (simp add: evolves_def wtOK_def still_def)
qed

section \<open>Frames delivered\<close>

text \<open>The hub's part of a delivery.\<close>

definition fanned :: "(nat \<Rightarrow> bool) \<Rightarrow> envelope \<Rightarrow> 'l wt \<Rightarrow> 'l wt \<Rightarrow> bool" where
  "fanned A env s s' \<longleftrightarrow> nextConn s' = nextConn s \<and> roomConns s' = roomConns s \<and> roomSubs s' = roomSubs s
     \<and> conns s' = (\<lambda>i. if A i then map_option (enqueue env) (conns s i) else conns s i)"

lemma delivers_fanned: "delivers A env s s' \<Longrightarrow> fanned A env s s'"
  by (simp add: delivers_def fanned_def)

lemma hub_views:
  assumes "samePart PHub s s'"
  shows "tabs s' = tabs s" "audience s' = audience s" "roomList s' = roomList s" "userOf s' = userOf s"
  using assms by (simp_all add: samePart.simps tabs_def audience_def roomList_def userOf_def fun_eq_iff)

lemma fanned_after: "samePart PHub s s' \<Longrightarrow> fanned A env s' s'' \<Longrightarrow> fanned A env s s''"
  by (auto simp: fanned_def samePart.simps fun_eq_iff)

lemma fanned_then: "fanned A env s s' \<Longrightarrow> samePart PHub s' s'' \<Longrightarrow> fanned A env s s''"
  by (simp add: fanned_def samePart.simps)

lemma delivers_evolves:
  assumes "wtOK c s" and "delivers A env s s'"
  shows "evolves c s s' \<and> live s' = live s \<and> fanned A env s s'"
proof -
  have only: "changesOnly [PHub] s s'" using assms(2) by (simp add: delivers_def)
  have keep: "redisClock s' = redisClock s" "catalogCache s' = catalogCache s"
    using changesOnly_keeps [OF only] by auto
  have parts: "samePart PRedis s s'" "samePart PCache s s'"
    using changesOnlyD [OF only] by auto
  have "changesOnly sixParts s s'" by (rule changesOnly_mono [OF only]) auto
  then show ?thesis
    using assms(1) keep delivers_hubOK [OF assms(2)] coherent_frame [OF parts] catalogOK_frame [OF keep(2,1)]
      live_same [OF parts(1)] delivers_fanned [OF assms(2)] by (simp add: evolves_def wtOK_def)
qed

section \<open>The contract\<close>

text \<open>The sender alone is answered, or nobody.\<close>

definition answered :: "conn_ctx \<Rightarrow> 'l wt \<Rightarrow> 'l wt \<Rightarrow> bool" where
  "answered conn s s' \<longleftrightarrow> live s' = live s
     \<and> (samePart PHub s s' \<or> (\<exists>env. fanned (tabs s (ctxRoomID conn) (ctxUserID conn)) env s s'))"

text \<open>The sender's own member entry is stamped, and nothing else happens.\<close>

definition stamped :: "conn_ctx \<Rightarrow> 'l wt \<Rightarrow> 'l wt \<Rightarrow> bool" where
  "stamped conn s s' \<longleftrightarrow> samePart PHub s s' \<and> membersOK s' (ctxRoomID conn)
     \<and> (\<forall>k. k \<noteq> KeyRoomMembers (ctxRoomID conn) \<longrightarrow> live s' k = live s k)
     \<and> (\<exists>m. memberMap s (ctxRoomID conn) (ctxUserID conn) = Some m
          \<and> memberMap s' (ctxRoomID conn) = (memberMap s (ctxRoomID conn))
               (ctxUserID conn \<mapsto> m\<lparr>metaLastSeenAt := redisClock s div 1000\<rparr>))"

definition quiet :: "conn_ctx \<Rightarrow> 'l wt \<Rightarrow> 'l wt \<Rightarrow> bool" where
  "quiet conn s s' \<longleftrightarrow> answered conn s s' \<or> stamped conn s s'"

text \<open>What a frame says of the room.\<close>

fun applyFrame :: "int \<Rightarrow> envelope \<Rightarrow> room \<Rightarrow> room" where
  "applyFrame now (PlaybackEvent kind t by ts) rm =
     (let rm' = rm\<lparr>roomTime := t, roomUpdatedAtMs := ts\<rparr> in
      if kind = ''play'' then rm'\<lparr>roomState := StatePlaying\<rparr>
      else if kind = ''pause'' then rm'\<lparr>roomState := StatePaused\<rparr> else rm')"
| "applyFrame now (RoomStateChanged field val by) rm =
     (let rm' = rm\<lparr>roomTime := 0, roomState := StatePaused, roomUpdatedAtMs := now\<rparr> in
      if field = ''episode_id'' then rm'\<lparr>roomEpisodeID := val\<rparr>
      else if field = ''player'' then rm'\<lparr>roomPlayer := val, roomTranslationID := [], roomEpisodeID := ''1''\<rparr>
      else rm'\<lparr>roomTranslationID := val\<rparr>)"
| "applyFrame now _ rm = rm"

fun excludedBy :: "envelope \<Rightarrow> string" where
  "excludedBy (PlaybackEvent kind t by ts) = by"
| "excludedBy _ = []"

definition roomOrBlank :: "'l wt \<Rightarrow> string \<Rightarrow> room" where
  "roomOrBlank s r = (case storedRoom s r of Some rm \<Rightarrow> rm | None \<Rightarrow> blankRoom)"

text \<open>Redis holds what the frame says; \<open>hist\<close> is the chat so far.\<close>

fun storedFrame :: "string \<Rightarrow> chat_message list \<Rightarrow> envelope \<Rightarrow> 'l wt \<Rightarrow> 'l wt \<Rightarrow> bool" where
  "storedFrame r hist (ChatMessageOut m) s s' \<longleftrightarrow>
     chatLog s' r (hist @ [m]) \<and> (\<forall>k. k \<noteq> KeyRoomMessages r \<longrightarrow> live s' k = live s k)"
| "storedFrame r hist (ChatReactionOut u e) s s' \<longleftrightarrow> live s' = live s"
| "storedFrame r hist frame s s' \<longleftrightarrow>
     storedRoom s' r = Some (applyFrame (redisClock s) frame (roomOrBlank s r))
     \<and> (\<forall>k. k \<noteq> KeyRoom r \<longrightarrow> live s' k = live s k)"

definition announced :: "conn_ctx \<Rightarrow> chat_message list \<Rightarrow> envelope \<Rightarrow> 'l wt \<Rightarrow> 'l wt \<Rightarrow> bool" where
  "announced conn hist frame s s' \<longleftrightarrow>
     fanned (audience s (ctxRoomID conn) (excludedBy frame)) frame s s'
     \<and> storedFrame (ctxRoomID conn) hist frame s s'"

text \<open>Which frame a message deserves.\<close>

definition catalogAccepts :: "'l deps \<Rightarrow> 'l wt \<Rightarrow> string \<Rightarrow> string \<Rightarrow> string \<Rightarrow> string \<Rightarrow> bool" where
  "catalogAccepts c s sid pl ep tr =
     (case fst (ValidateEpisode c sid pl ep tr [] s) of None \<Rightarrow> False | Some res \<Rightarrow> resultValid res)"

definition acceptedPlayback :: "string \<Rightarrow> conn_ctx \<Rightarrow> json option \<Rightarrow> 'l wt \<Rightarrow> envelope option" where
  "acceptedPlayback kind conn dat s =
     map_option (\<lambda>t. PlaybackEvent kind t (ctxUserID conn) (redisClock s)) (decodeTime dat)"

definition acceptedChange ::
  "'l deps \<Rightarrow> string \<Rightarrow> (room \<Rightarrow> string \<Rightarrow> string \<times> string \<times> string) \<Rightarrow> conn_ctx \<Rightarrow> json option \<Rightarrow> 'l wt \<Rightarrow> envelope option" where
  "acceptedChange c field selection conn dat s =
     (case decodeText field dat of
        None \<Rightarrow> None
      | Some v \<Rightarrow>
          if v = [] then None
          else (case storedRoom s (ctxRoomID conn) of
             None \<Rightarrow> None
           | Some rm \<Rightarrow>
               (case selection rm v of (pl, ep, tr) \<Rightarrow>
                if catalogAccepts c s (roomAnimeID rm) pl ep tr
                then Some (RoomStateChanged field v (ctxUserID conn)) else None)))"

definition acceptedChat :: "'l deps \<Rightarrow> string \<Rightarrow> conn_ctx \<Rightarrow> json option \<Rightarrow> 'l wt \<Rightarrow> envelope option" where
  "acceptedChat c newID conn dat s =
     (case decodeText ''body'' dat of
        None \<Rightarrow> None
      | Some body \<Rightarrow>
          if length body \<le> 500 \<and> fst (AllowChat c (ctxUserID conn) s)
          then Some (ChatMessageOut \<lparr>msgID = newID, msgUserID = ctxUserID conn,
                 msgUsername = ctxUsername conn, msgBody = body, msgTS = redisClock s\<rparr>)
          else None)"

definition acceptedReaction :: "conn_ctx \<Rightarrow> json option \<Rightarrow> envelope option" where
  "acceptedReaction conn dat =
     (case decodeText ''emoji'' dat of
        None \<Rightarrow> None
      | Some e \<Rightarrow> if e \<in> set reactionWhitelist then Some (ChatReactionOut (ctxUserID conn) e) else None)"

definition acceptedFrame :: "'l deps \<Rightarrow> string \<Rightarrow> conn_ctx \<Rightarrow> inbound \<Rightarrow> 'l wt \<Rightarrow> envelope option" where
  "acceptedFrame c newID conn env s =
     (if inType env = MsgPlaybackPlay then acceptedPlayback ''play'' conn (inData env) s
      else if inType env = MsgPlaybackPause then acceptedPlayback ''pause'' conn (inData env) s
      else if inType env = MsgPlaybackSeek
      then (if fst (AllowSeek c (ctxUserID conn) s) then acceptedPlayback ''seek'' conn (inData env) s else None)
      else if inType env = MsgStateChangeEpisode
      then acceptedChange c ''episode_id'' (\<lambda>rm v. (roomPlayer rm, v, roomTranslationID rm)) conn (inData env) s
      else if inType env = MsgStateChangePlayer
      then acceptedChange c ''player'' (\<lambda>rm v. (v, [], [])) conn (inData env) s
      else if inType env = MsgStateChangeTrans
      then acceptedChange c ''translation_id'' (\<lambda>rm v. (roomPlayer rm, roomEpisodeID rm, v)) conn (inData env) s
      else if inType env = MsgChatMessage then acceptedChat c newID conn (inData env) s
      else if inType env = MsgChatReaction then acceptedReaction conn (inData env)
      else None)"

definition outcome ::
  "'l deps \<Rightarrow> conn_ctx \<Rightarrow> chat_message list \<Rightarrow> envelope option \<Rightarrow> 'l wt \<Rightarrow> 'l wt \<Rightarrow> bool" where
  "outcome c conn hist accepted s s' \<longleftrightarrow> evolves c s s' \<and>
     (quiet conn s s' \<or> (\<exists>frame. accepted = Some frame \<and> announced conn hist frame s s'))"

lemma answered_after: "still s s' \<Longrightarrow> answered conn s' s'' \<Longrightarrow> answered conn s s''"
  unfolding still_def answered_def using hub_views [of s s']
  by (auto intro: samePart_trans fanned_after)

lemma still_views:
  assumes "still s s'"
  shows "storedRoom s' = storedRoom s" "chatLog s' = chatLog s" "memberMap s' = memberMap s"
    "membersOK s' = membersOK s" "roomOrBlank s' = roomOrBlank s"
proof -
  have "live s' = live s" using assms by (simp add: still_def)
  then show "storedRoom s' = storedRoom s" "chatLog s' = chatLog s" "memberMap s' = memberMap s"
    "membersOK s' = membersOK s"
    by (simp_all add: fun_eq_iff storedRoom_def chatLog_def memberMap_def membersOK_def hashOf_def listOf_def)
  then show "roomOrBlank s' = roomOrBlank s" by (simp add: roomOrBlank_def fun_eq_iff)
qed

lemma announced_after:
  assumes "still s s'" and "redisClock s' = redisClock s" and "announced conn hist frame s' s''"
  shows "announced conn hist frame s s''"
proof -
  have "fanned (audience s (ctxRoomID conn) (excludedBy frame)) frame s s''"
    using assms(1,3) hub_views [of s s'] fanned_after by (auto simp: announced_def still_def)
  moreover have "storedFrame (ctxRoomID conn) hist frame s s''"
    using assms still_views [OF assms(1)] by (cases frame) (simp_all add: announced_def still_def)
  ultimately show ?thesis by (simp add: announced_def)
qed

lemma stamped_after: "still s s' \<Longrightarrow> redisClock s' = redisClock s \<Longrightarrow> stamped conn s' s'' \<Longrightarrow> stamped conn s s''"
  using still_views(3) [of s s'] by (auto simp: stamped_def still_def intro: samePart_trans)

lemma outcome_after:
  assumes "evolves c s s'" and "still s s'" and "outcome c conn hist acc s' s''"
  shows "outcome c conn hist acc s s''"
proof -
  have clock: "redisClock s' = redisClock s" using assms(1) by (simp add: evolves_def)
  show ?thesis
    using assms(3) evolves_trans [OF assms(1)] answered_after [OF assms(2)] stamped_after [OF assms(2) clock]
      announced_after [OF assms(2) clock]
    unfolding outcome_def quiet_def by blast
qed

lemma outcome_still: "evolves c s s' \<Longrightarrow> still s s' \<Longrightarrow> outcome c conn hist acc s s'"
  by (simp add: outcome_def quiet_def answered_def still_def)

lemma outcome_answered: "evolves c s s' \<Longrightarrow> answered conn s s' \<Longrightarrow> outcome c conn hist acc s s'"
  by (simp add: outcome_def quiet_def)

lemma outcome_refl: "wtOK c s \<Longrightarrow> outcome c conn hist acc s s"
  by (rule outcome_still) (simp_all add: evolves_refl)

section \<open>Writes\<close>

lemma evolves_redis:
  assumes "wtOK c s" and "changesOnly [PRedis] s s'" and "redisClock s' = redisClock s"
    and "\<And>r. plainID r \<Longrightarrow> live s' (KeyRoom r) = live s (KeyRoom r)"
  shows "evolves c s s' \<and> samePart PHub s s'"
proof -
  note k = changesOnly_keeps [OF assms(2)]
  have keep: "catalogCache s' = catalogCache s" "conns s' = conns s" "nextConn s' = nextConn s"
    "roomConns s' = roomConns s" "roomEntries s' = roomEntries s"
    using k by auto
  have "freshEntry s' r = freshEntry s r" for r
    by (simp add: freshEntry_def cacheLookup_def keep(5) assms(3) split: option.split)
  moreover have "storedRoom s' r = storedRoom s r" if "plainID r" for r
    using assms(4) [OF that] by (simp add: storedRoom_def hashOf_def)
  ultimately have "coherent s'" using assms(1) by (simp add: coherent_def wtOK_def)
  moreover have "changesOnly sixParts s s'" by (rule changesOnly_mono [OF assms(2)]) simp
  ultimately show ?thesis
    using assms(1,3) hubOK_frame [OF keep(2-4)] catalogOK_frame [OF keep(1) assms(3)] changesOnlyD [OF assms(2)]
    by (simp add: evolves_def wtOK_def)
qed

text \<open>A write of the room's state followed by the invalidation of its cache entry.\<close>

lemma evolves_write:
  assumes "wtOK c s" and "changesOnly [PRedis] s s'" and "redisClock s' = redisClock s"
    and "\<And>k. k \<noteq> KeyRoom r \<Longrightarrow> live s' k = live s k"
  shows "evolves c s (snd (Invalidate r s')) \<and> samePart PHub s (snd (Invalidate r s'))
     \<and> live (snd (Invalidate r s')) = live s' \<and> storedRoom (snd (Invalidate r s')) = storedRoom s'"
proof -
  let ?s = "snd (Invalidate r s')"
  note k = changesOnly_keeps [OF assms(2)]
  have inv: "changesOnly [PCache] s' ?s" by simp
  note ki = changesOnly_keeps [OF inv]
  have keep: "catalogCache ?s = catalogCache s" "conns ?s = conns s" "nextConn ?s = nextConn s"
    "roomConns ?s = roomConns s" "redisClock ?s = redisClock s"
    using k ki assms(3) by auto
  have ent: "roomEntries s' = roomEntries s" using k by auto
  have fresh: "freshEntry s' r' = freshEntry s r'" for r'
    by (simp add: freshEntry_def cacheLookup_def ent assms(3) split: option.split)
  have stored: "storedRoom s' r' = storedRoom s r'" if "r' \<noteq> r" for r'
    using assms(4) [of "KeyRoom r'"] that by (simp add: storedRoom_def hashOf_def)
  have "coherent ?s"
    unfolding coherent_def
  proof (intro allI impI)
    fix r' rm assume plain: "plainID r'" and e: "freshEntry ?s r' = Some rm"
    then have "r' \<noteq> r" "freshEntry s r' = Some rm" using fresh [of r'] by (auto split: if_splits)
    then have "storedRoom s r' \<in> {None, Some rm}"
      using assms(1) plain unfolding coherent_def wtOK_def by blast
    then show "storedRoom ?s r' \<in> {None, Some rm}" using stored [OF \<open>r' \<noteq> r\<close>] by simp
  qed
  moreover have "changesOnly sixParts s ?s" by (rule changesOnly_trans [OF assms(2) inv]) simp
  ultimately show ?thesis
    using assms(1) hubOK_frame [OF keep(2-4)] catalogOK_frame [OF keep(1,5)] keep(5) inv
      samePart_trans [OF changesOnlyD [OF assms(2), of PHub] changesOnlyD [OF inv, of PHub]]
      changesOnly_live(1) [OF inv]
    by (simp add: evolves_def wtOK_def)
qed

fun stateFrame :: "envelope \<Rightarrow> bool" where
  "stateFrame (PlaybackEvent kind t by ts) = True"
| "stateFrame (RoomStateChanged field val by) = True"
| "stateFrame _ = False"

lemma storedFrame_state: "stateFrame frame \<Longrightarrow> storedFrame r hist frame s s' \<longleftrightarrow>
     storedRoom s' r = Some (applyFrame (redisClock s) frame (roomOrBlank s r))
     \<and> (\<forall>k. k \<noteq> KeyRoom r \<longrightarrow> live s' k = live s k)"
  by (cases frame) simp_all

section \<open>The handlers\<close>

context hub_fanout begin

lemma sendErrorToSelf_outcome:
  assumes "wtOK c s"
  shows "wp (logged (fanSendTo h (ctxRoomID conn) (ctxUserID conn) env)) (\<lambda>_ s'. outcome c conn hist acc s s') E s"
proof -
  have ok: "hubOK s" using assms by (simp add: wtOK_def)
  show ?thesis
  proof (rule wp_logged, rule wp_mono [OF sendTo_law [OF ok]])
    fix n s'
    assume "ctxRoomID conn \<noteq> [] \<and> ctxUserID conn \<noteq> []
       \<and> delivers (tabs s (ctxRoomID conn) (ctxUserID conn)) env s s'"
    then have "delivers (tabs s (ctxRoomID conn) (ctxUserID conn)) env s s'" by simp
    from delivers_evolves [OF assms this] show "outcome c conn hist acc s s'"
      by (intro outcome_answered) (auto simp: answered_def)
  next
    fix e s'
    assume "(ctxRoomID conn = [] \<or> ctxUserID conn = []) \<and> changesOnly [] s s'"
    then have "changesOnly [] s s'" by simp
    from evolves_private [OF this _ assms] show "outcome c conn hist acc s s'"
      by (intro outcome_still) simp_all
  qed
qed

lemma broadcast_announces:
  assumes ok: "wtOK c s0" and ev: "evolves c s0 s" and hub: "samePart PHub s0 s"
    and r: "ctxRoomID conn \<noteq> []" and ex: "excludedBy frame = ex"
    and stored: "\<And>s'. live s' = live s \<Longrightarrow> storedFrame (ctxRoomID conn) hist frame s0 s'"
  shows "wp (fanBroadcast h (ctxRoomID conn) frame ex)
     (\<lambda>_ s'. evolves c s0 s' \<and> announced conn hist frame s0 s') (\<lambda>_ _. False) s"
proof -
  have ok': "wtOK c s" using ev by (simp add: evolves_def)
  then have h: "hubOK s" by (simp add: wtOK_def)
  show ?thesis
  proof (rule wp_mono [OF broadcast_law [OF h]])
    fix n s'
    assume "ctxRoomID conn \<noteq> [] \<and> delivers (audience s (ctxRoomID conn) ex) frame s s'"
    then have "delivers (audience s (ctxRoomID conn) ex) frame s s'" by simp
    note d = delivers_evolves [OF ok' this]
    have "fanned (audience s0 (ctxRoomID conn) ex) frame s0 s'"
      using d fanned_after [OF hub] hub_views [OF hub] by simp
    then have "announced conn hist frame s0 s'" using d stored ex by (simp add: announced_def)
    then show "evolves c s0 s' \<and> announced conn hist frame s0 s'"
      using evolves_trans [OF ev conjunct1 [OF d]] by simp
  qed (use r in simp)
qed

lemma broadcast_outcome:
  assumes "wtOK c s0" and "evolves c s0 s" and "samePart PHub s0 s"
    and "ctxRoomID conn \<noteq> []" and "excludedBy frame = ex"
    and "\<And>s'. live s' = live s \<Longrightarrow> storedFrame (ctxRoomID conn) hist frame s0 s'"
  shows "wp (logged (fanBroadcast h (ctxRoomID conn) frame ex)) (\<lambda>_ s'. outcome c conn hist (Some frame) s0 s') E s"
  by (rule wp_logged, rule wp_mono [OF broadcast_announces [OF assms]]) (simp_all add: outcome_def)

lemma twp_broadcast:
  assumes "wtOK c s0" and "evolves c s0 s" and "samePart PHub s0 s"
    and "ctxRoomID conn \<noteq> []" and "excludedBy frame = ex"
    and "\<And>s'. live s' = live s \<Longrightarrow> storedFrame (ctxRoomID conn) hist frame s0 s'"
  shows "twp (logged (fanBroadcast h (ctxRoomID conn) frame ex)) (\<lambda>_ s'. announced conn hist frame s0 s') s"
proof (rule twp_logged)
  have "hubOK s" using assms(2) by (simp add: evolves_def wtOK_def)
  from twp_from_wp [OF broadcast_announces [OF assms] broadcast_runs [OF this assms(4)]]
  show "twp (fanBroadcast h (ctxRoomID conn) frame ex) (\<lambda>_ s'. announced conn hist frame s0 s') s"
    by (rule twp_mono) simp_all
qed

lemma write_stored:
  assumes ok: "wtOK c s" and frame: "stateFrame frame"
    and s1: "storedRoom s1 r = Some (applyFrame (redisClock s) frame (roomOrBlank s r))"
      "redisClock s1 = redisClock s" "\<And>k. k \<noteq> KeyRoom r \<Longrightarrow> live s1 k = live s k" "changesOnly [PRedis] s s1"
  shows "evolves c s (snd (Invalidate r s1)) \<and> samePart PHub s (snd (Invalidate r s1))
     \<and> (\<forall>s'. live s' = live (snd (Invalidate r s1)) \<longrightarrow> storedFrame r hist frame s s')"
proof -
  note w = evolves_write [OF ok s1(4,2,3)]
  have "storedFrame r hist frame s s'" if "live s' = live (snd (Invalidate r s1))" for s'
  proof -
    have "live s' = live s1" using that w by simp
    then have "storedRoom s' = storedRoom s1" by (simp add: fun_eq_iff storedRoom_def hashOf_def)
    then show ?thesis using s1(1,3) \<open>live s' = live s1\<close> by (simp add: storedFrame_state [OF frame])
  qed
  then show ?thesis using w by blast
qed

lemma write_announce:
  assumes ok: "wtOK c s" and ttl: "0 < roomTTL c" and r: "ctxRoomID conn \<noteq> []"
    and frame: "stateFrame frame" "excludedBy frame = ex"
    and fields: "foldl setField (roomOrBlank s (ctxRoomID conn)) fs
       = applyFrame (redisClock s) frame (roomOrBlank s (ctxRoomID conn))"
  shows "wp (ifWritten (UpdateRoomState (roomTTL c) (ctxRoomID conn) fs)
            (bnd (memory (Invalidate (ctxRoomID conn))) (\<lambda>_.
             logged (fanBroadcast h (ctxRoomID conn) frame ex))))
         (\<lambda>_ s'. outcome c conn hist (Some frame) s s') E s"
  unfolding ifWritten_def
proof (rule wp_attempt, rule wp_mono [OF wp_repo [OF memoryKept_repo(4) UpdateRoomState_spec [OF ttl]]])
  let ?r = "ctxRoomID conn"
  fix a s1
  assume "(storedRoom s1 ?r = Some (foldl setField (case storedRoom s ?r of Some rm \<Rightarrow> rm | None \<Rightarrow> blankRoom) fs)
      \<and> redisClock s1 = redisClock s \<and> (\<forall>k. k \<noteq> KeyRoom ?r \<longrightarrow> live s1 k = live s k)) \<and> changesOnly [PRedis] s s1"
  then have s1: "storedRoom s1 ?r = Some (applyFrame (redisClock s) frame (roomOrBlank s ?r))"
      "redisClock s1 = redisClock s" "\<And>k. k \<noteq> KeyRoom ?r \<Longrightarrow> live s1 k = live s k" "changesOnly [PRedis] s s1"
    using fields by (auto simp: roomOrBlank_def split: option.splits)
  show "wp (case Inr a of Inl _ \<Rightarrow> ret () | Inr _ \<Rightarrow> bnd (memory (Invalidate ?r)) (\<lambda>_.
             logged (fanBroadcast h ?r frame ex))) (\<lambda>_ s'. outcome c conn hist (Some frame) s s') E s1"
    using write_stored [OF ok frame(1) s1] by (auto intro!: wp_bnd wp_memory broadcast_outcome [OF ok _ _ r frame(2)])
next
  fix e s1
  assume "((\<forall>k. live s1 k = live s k) \<and> redisClock s1 = redisClock s) \<and> changesOnly [PRedis] s s1"
  then have s1: "live s1 = live s" "redisClock s1 = redisClock s" "changesOnly [PRedis] s s1" by auto
  note w = evolves_redis [OF ok s1(3,2)]
  have "outcome c conn hist (Some frame) s s1"
    by (rule outcome_still) (use w s1(1) in \<open>simp_all add: still_def\<close>)
  then show "wp (case Inl e of Inl _ \<Rightarrow> ret () | Inr _ \<Rightarrow> bnd (memory (Invalidate (ctxRoomID conn))) (\<lambda>_.
             logged (fanBroadcast h (ctxRoomID conn) frame ex))) (\<lambda>_ s'. outcome c conn hist (Some frame) s s') E s1"
    by (auto intro: wp_ret)
qed

text \<open>When Redis answers, a write is announced, even one to a room that is gone.\<close>

lemma stored_hash: "storedRoom s r = Some rm \<Longrightarrow> hashOf s (KeyRoom r) \<noteq> None"
  by (auto simp: storedRoom_def split: option.splits)

lemma twp_write_announce:
  assumes ok: "wtOK c s" and ttl: "0 < roomTTL c" and r: "ctxRoomID conn \<noteq> []"
    and frame: "stateFrame frame" "excludedBy frame = ex"
    and fields: "\<And>rm. foldl setField rm fs = applyFrame (redisClock s) frame rm"
    and hash: "hashOf s (KeyRoom (ctxRoomID conn)) \<noteq> None"
    and allowed: "fs \<noteq> []" "set (map fst fs) \<subseteq> set allowedRoomFields"
  shows "twp (ifWritten (UpdateRoomState (roomTTL c) (ctxRoomID conn) fs)
            (bnd (memory (Invalidate (ctxRoomID conn))) (\<lambda>_.
             logged (fanBroadcast h (ctxRoomID conn) frame ex))))
         (\<lambda>_ s'. announced conn hist frame s s') s"
  unfolding ifWritten_def
proof (rule twp_attempt, rule twp_mono [OF twp_from_wp [OF wp_repo [OF memoryKept_repo(4)
      UpdateRoomState_spec [OF ttl]] succeeds_UpdateRoomState [OF r allowed hash]]])
  let ?r = "ctxRoomID conn"
  fix a s1
  assume a: "(storedRoom s1 ?r = Some (foldl setField (case storedRoom s ?r of Some rm \<Rightarrow> rm | None \<Rightarrow> blankRoom) fs)
      \<and> redisClock s1 = redisClock s \<and> (\<forall>k. k \<noteq> KeyRoom ?r \<longrightarrow> live s1 k = live s k)) \<and> changesOnly [PRedis] s s1"
  then have s1: "storedRoom s1 ?r = Some (applyFrame (redisClock s) frame (roomOrBlank s ?r))"
      "redisClock s1 = redisClock s" "\<And>k. k \<noteq> KeyRoom ?r \<Longrightarrow> live s1 k = live s k" "changesOnly [PRedis] s s1"
    using fields by (auto simp: roomOrBlank_def split: option.splits)
  show "twp (case Inr a of Inl _ \<Rightarrow> ret () | Inr _ \<Rightarrow> bnd (memory (Invalidate ?r)) (\<lambda>_.
             logged (fanBroadcast h ?r frame ex))) (\<lambda>_ s'. announced conn hist frame s s') s1"
    using write_stored [OF ok frame(1) s1]
    by (auto intro!: twp_bnd twp_memory twp_broadcast [OF ok _ _ r frame(2)])
qed

end

end
