(* ===== verification/WT_Grace.thy ===== *)
theory WT_Grace
  imports WT_Router
begin

text \<open>
  The grace manager (\<^verbatim>\<open>internal/service/grace.go\<close>): when the last connection of a room drops, a timer
  starts; a returning connection cancels it; if it elapses, its callback closes the room and deletes
  it. The runtime's timers are part of the state: \<open>timerDue\<close> is the runtime starting the callback of
  a timer whose deadline has passed, \<open>fire\<close> the callback itself, which runs at some later moment.
\<close>

section \<open>Operations\<close>

definition Start :: "'l deps \<Rightarrow> string \<Rightarrow> 'l wt \<Rightarrow> unit \<times> 'l wt" where
  "Start c r s =
     (if graceClosed s then ((), s)
      else
        let i = nextTimer s;
            timers = (graceTimers s)(i \<mapsto> (r, redisClock s + gracePeriod c));
            timers = (case graceEntries s r of None \<Rightarrow> timers | Some prev \<Rightarrow> timers(prev := None))
        in ((), s\<lparr>graceTimers := timers, nextTimer := Suc i, graceEntries := (graceEntries s)(r \<mapsto> i)\<rparr>))"

text \<open>The answer of \<^verbatim>\<open>Stop\<close> is whether the timer was still pending.\<close>

definition Cancel :: "string \<Rightarrow> 'l wt \<Rightarrow> bool \<times> 'l wt" where
  "Cancel r s =
     (case graceEntries s r of
        None \<Rightarrow> (False, s)
      | Some i \<Rightarrow>
          (graceTimers s i \<noteq> None,
           s\<lparr>graceEntries := (graceEntries s)(r := None), graceTimers := (graceTimers s)(i := None)\<rparr>))"

definition GraceActive :: "string \<Rightarrow> 'l wt \<Rightarrow> bool" where
  "GraceActive r s \<longleftrightarrow> graceEntries s r \<noteq> None"

definition GraceClose :: "'l wt \<Rightarrow> unit \<times> 'l wt" where
  "GraceClose s =
     ((), s\<lparr>graceClosed := True, graceEntries := Map.empty,
            graceTimers := (\<lambda>i. if i \<in> ran (graceEntries s) then None else graceTimers s i)\<rparr>)"

definition timerDue :: "nat \<Rightarrow> 'l wt \<Rightarrow> unit \<times> 'l wt" where
  "timerDue i s =
     (case graceTimers s i of
        None \<Rightarrow> ((), s)
      | Some (r, deadline) \<Rightarrow>
          if deadline \<le> redisClock s
          then ((), s\<lparr>graceTimers := (graceTimers s)(i := None), graceFiring := r # graceFiring s\<rparr>)
          else ((), s))"

text \<open>The telemetry of a teardown reads the length of the chat and ignores errors.\<close>

definition observeRoomTeardown :: "room \<Rightarrow> ('l, unit) wprog" where
  "observeRoomTeardown rm = logged (MessageCount (roomID rm))"

definition takeEntry :: "string \<Rightarrow> 'l wt \<Rightarrow> bool \<times> 'l wt" where
  "takeEntry r s =
     (graceEntries s r \<noteq> None,
      s\<lparr>graceFiring := remove1 r (graceFiring s), graceEntries := (graceEntries s)(r := None)\<rparr>)"

definition fire :: "'l fanout \<Rightarrow> string \<Rightarrow> ('l, unit) wprog" where
  "fire h r =
     bnd (memory (takeEntry r)) (\<lambda>present.
     if \<not> present then ret ()
     else
       bnd (logged (fanBroadcast h r RoomClosed [])) (\<lambda>_.
       bnd (attempt (GetRoom r) (\<lambda>res. case res of Inl _ \<Rightarrow> ret () | Inr rm \<Rightarrow> observeRoomTeardown rm)) (\<lambda>_.
       logged (DeleteRoom r))))"

section \<open>Frames\<close>

lemma grace_frames [simp]:
  "changesOnly [PGrace] s (snd (Start c r s))" "changesOnly [PGrace] s (snd (Cancel r s))"
  "changesOnly [PGrace] s (snd (GraceClose s))" "changesOnly [PGrace] s (snd (timerDue i s))"
  "changesOnly [PGrace] s (snd (takeEntry r s))"
  by (auto simp: Start_def Cancel_def GraceClose_def timerDue_def takeEntry_def Let_def changesOnly_def
      samePart.simps split: option.split)

lemma Cancel_entries [simp]:
  "graceEntries (snd (Cancel r s)) = (graceEntries s)(r := None)"
  "graceFiring (snd (Cancel r s)) = graceFiring s" "nextTimer (snd (Cancel r s)) = nextTimer s"
  "graceClosed (snd (Cancel r s)) = graceClosed s"
  by (auto simp: Cancel_def fun_eq_iff split: option.split)

lemma grace_clock [simp]:
  "redisClock (snd (Start c r s)) = redisClock s" "redisClock (snd (Cancel r s)) = redisClock s"
  "redisClock (snd (GraceClose s)) = redisClock s" "redisClock (snd (timerDue i s)) = redisClock s"
  "redisClock (snd (takeEntry r s)) = redisClock s"
  by (rule changesOnly_keeps(1), rule grace_frames, simp)+

lemma takeEntry_grace [simp]:
  "fst (takeEntry r s) \<longleftrightarrow> graceEntries s r \<noteq> None"
  "graceEntries (snd (takeEntry r s)) = (graceEntries s)(r := None)"
  by (simp_all add: takeEntry_def)


lemma GraceClose_entries [simp]: "graceEntries (snd (GraceClose s)) = Map.empty"
  by (simp add: GraceClose_def)

lemma timerDue_entries [simp]: "graceEntries (snd (timerDue i s)) = graceEntries s"
  by (simp add: timerDue_def split: option.split)

section \<open>Closing a room\<close>

lemma wp_DeleteRoom:
  fixes s :: "'l wt"
  shows "wp (DeleteRoom r)
     (\<lambda>_ s'. live s' = (\<lambda>k. if k \<in> keysOf r then None else live s k) \<and> redisClock s' = redisClock s
        \<and> (\<forall>k. k \<notin> keysOf r \<longrightarrow> redisKeys s' k = redisKeys s k) \<and> changesOnly [PRedis] s s')
     (\<lambda>_ s'. s' = s) s"
proof -
  let ?s = "drop_key (KeyRoomMessages r) (drop_key (KeyRoomMembers r) (drop_key (KeyRoom r) s))"
  have "live ?s = (\<lambda>k. if k \<in> keysOf r then None else live s k)"
    by (auto simp: fun_eq_iff keysOf_def)
  moreover have "\<forall>k. k \<notin> keysOf r \<longrightarrow> redisKeys ?s k = redisKeys s k"
    by (simp add: drop_key_def keysOf_def)
  moreover have "changesOnly [PRedis] s ?s" by (rule more_changesOnly) simp
  ultimately show ?thesis
    unfolding DeleteRoom_def by (intro wp_wrap wp_command) auto
qed

lemma coherent_shrink:
  assumes "coherent s"
    and "\<And>r. plainID r \<Longrightarrow> storedRoom s' r = None \<or> storedRoom s' r = storedRoom s r"
    and "\<And>r rm. freshEntry s' r = Some rm \<Longrightarrow> freshEntry s r = Some rm"
  shows "coherent s'"
  unfolding coherent_def
proof (intro allI impI)
  fix r rm
  assume "plainID r" "freshEntry s' r = Some rm"
  then have "storedRoom s r \<in> {None, Some rm}" "storedRoom s' r = None \<or> storedRoom s' r = storedRoom s r"
    using assms unfolding coherent_def by blast+
  then show "storedRoom s' r \<in> {None, Some rm}" by auto
qed

lemma storedRoom_gone: "live s (KeyRoom r) = None \<Longrightarrow> storedRoom s r = None"
  by (simp add: storedRoom_def hashOf_def)

lemma storedRoom_same_key: "live s' (KeyRoom r) = live s (KeyRoom r) \<Longrightarrow> storedRoom s' r = storedRoom s r"
  by (simp add: storedRoom_def hashOf_def)

definition removed :: "string \<Rightarrow> 'l wt \<Rightarrow> 'l wt \<Rightarrow> bool" where
  "removed r s s' \<longleftrightarrow> live s' = (\<lambda>k. if k \<in> keysOf r then None else live s k) \<and> redisClock s' = redisClock s
     \<and> (\<forall>k. k \<notin> keysOf r \<longrightarrow> redisKeys s' k = redisKeys s k)"

lemma removed_after:
  "live s1 = live s \<Longrightarrow> redisClock s1 = redisClock s \<Longrightarrow> redisKeys s1 = redisKeys s \<Longrightarrow>
   removed r s1 s' \<longleftrightarrow> removed r s s'"
  by (simp add: removed_def fun_eq_iff)

lemma wtOK_removed:
  assumes "wtOK c s" and "changesOnly [PRedis] s s'" and "removed r s s'"
  shows "evolves c s s' \<and> samePart PHub s s'"
proof -
  note k = changesOnly_keeps [OF assms(2)]
  have keep: "catalogCache s' = catalogCache s" "conns s' = conns s" "nextConn s' = nextConn s"
    "roomConns s' = roomConns s" "roomEntries s' = roomEntries s"
    using k by auto
  have clock: "redisClock s' = redisClock s" using assms(3) by (simp add: removed_def)
  have stored: "storedRoom s' r' = None \<or> storedRoom s' r' = storedRoom s r'" if "plainID r'" for r'
  proof (cases "KeyRoom r' \<in> keysOf r")
    case True
    then show ?thesis using assms(3) by (intro disjI1 storedRoom_gone) (simp add: removed_def)
  next
    case False
    then show ?thesis using assms(3) by (intro disjI2 storedRoom_same_key) (simp add: removed_def)
  qed
  have fresh: "freshEntry s' r' = freshEntry s r'" for r'
    by (simp add: freshEntry_def cacheLookup_def keep(5) clock split: option.split)
  have "coherent s'"
    by (rule coherent_shrink [of s]) (use assms(1) stored fresh in \<open>auto simp: wtOK_def\<close>)
  moreover have "changesOnly sixParts s s'" by (rule changesOnly_mono [OF assms(2)]) simp
  ultimately show ?thesis
    using assms(1) clock hubOK_frame [OF keep(2-4)] catalogOK_frame [OF keep(1) clock] changesOnlyD [OF assms(2)]
    by (simp add: evolves_def wtOK_def)
qed

text \<open>What a callback may do to the service: the room's entry goes, its members are told, its keys go.\<close>

abbreviation sevenParts :: "part list" where
  "sevenParts \<equiv> [PRedis, PDrift, PLimiter, PCache, PCatalog, PHub, PGrace]"

lemma wtOK_frame:
  assumes "changesOnly [PGrace] s s'"
  shows "wtOK c s' = wtOK c s"
proof -
  note k = changesOnly_keeps [OF assms]
  have keep: "redisClock s' = redisClock s" "catalogCache s' = catalogCache s" "conns s' = conns s"
    "nextConn s' = nextConn s" "roomConns s' = roomConns s"
    using k by auto
  have parts: "samePart PRedis s s'" "samePart PCache s s'"
    using changesOnlyD [OF assms] by auto
  show ?thesis
    using keep hubOK_frame [OF keep(3-5)] coherent_frame [OF parts] catalogOK_frame [OF keep(2,1)]
    by (simp add: wtOK_def)
qed

lemma grace_wtOK [simp]:
  "wtOK c (snd (Start c' r s)) = wtOK c s" "wtOK c (snd (Cancel r s)) = wtOK c s"
  "wtOK c (snd (GraceClose s)) = wtOK c s" "wtOK c (snd (timerDue i s)) = wtOK c s"
  "wtOK c (snd (takeEntry r s)) = wtOK c s"
  by (rule wtOK_frame, rule grace_frames)+

lemma wp_reads: "wp (logged (MessageCount r)) (\<lambda>_ s'. s' = s) E s"
  "wp (GetRoom r) (\<lambda>rm s'. s' = s) (\<lambda>_ s'. s' = s) s"
  by (auto simp: MessageCount_def intro!: wp_logged wp_wrap wp_readRedis wp_mono [OF GetRoom_spec])

definition told :: "string \<Rightarrow> envelope \<Rightarrow> 'l wt \<Rightarrow> 'l wt \<Rightarrow> bool" where
  "told r env s s' \<longleftrightarrow> r \<noteq> [] \<and> fanned (audience s r []) env s s' \<or> r = [] \<and> samePart PHub s s'"

lemma told_then: "told r env s s' \<Longrightarrow> samePart PHub s' s'' \<Longrightarrow> told r env s s''"
  using fanned_then samePart_trans unfolding told_def by blast

lemma told_after: "samePart PHub s s' \<Longrightarrow> told r env s' s'' \<Longrightarrow> told r env s s''"
  using hub_views [of s s'] fanned_after [of s s'] samePart_trans [of PHub s s'] unfolding told_def by auto

context hub_fanout begin

lemma wp_tell:
  assumes "wtOK c s"
  shows "wp (logged (fanBroadcast h r env [])) (\<lambda>_ s'. evolves c s s' \<and> live s' = live s
     \<and> redisKeys s' = redisKeys s \<and> changesOnly [PHub] s s' \<and> told r env s s') E s"
proof -
  have ok: "hubOK s" using assms by (simp add: wtOK_def)
  show ?thesis
  proof (rule wp_logged, rule wp_mono [OF broadcast_law [OF ok]])
    fix n s'
    assume a: "r \<noteq> [] \<and> delivers (audience s r []) env s s'"
    then have only: "changesOnly [PHub] s s'" by (simp add: delivers_def)
    show "evolves c s s' \<and> live s' = live s \<and> redisKeys s' = redisKeys s \<and> changesOnly [PHub] s s' \<and> told r env s s'"
      using a delivers_evolves [OF assms conjunct2 [OF a]] only changesOnly_keeps(2) [OF only]
      by (simp add: told_def)
  next
    fix e s'
    assume a: "r = [] \<and> changesOnly [] s s'"
    then have only: "changesOnly [] s s'" by simp
    show "evolves c s s' \<and> live s' = live s \<and> redisKeys s' = redisKeys s \<and> changesOnly [PHub] s s' \<and> told r env s s'"
      using a evolves_private [OF only _ assms] changesOnly_keeps(2) [OF only]
        changesOnly_mono [OF only, of "[PHub]"] changesOnlyD [OF only]
      by (simp add: still_def told_def)
  qed
qed

lemma wp_closeRoom:
  assumes "wtOK c s"
  shows "wp (bnd (logged (fanBroadcast h r RoomClosed [])) (\<lambda>_.
       bnd (attempt (GetRoom r) (\<lambda>res. case res of Inl _ \<Rightarrow> ret () | Inr rm \<Rightarrow> observeRoomTeardown rm)) (\<lambda>_.
       logged (DeleteRoom r))))
     (\<lambda>_ s'. evolves c s s' \<and> told r RoomClosed s s' \<and> (\<forall>k. k \<notin> keysOf r \<longrightarrow> redisKeys s' k = redisKeys s k)
        \<and> (live s' = live s \<or> removed r s s')) E s"
proof (rule wp_bnd, rule wp_mono [OF wp_tell [OF assms]])
  fix a s1
  assume t: "evolves c s s1 \<and> live s1 = live s \<and> redisKeys s1 = redisKeys s \<and> changesOnly [PHub] s s1
    \<and> told r RoomClosed s s1"
  then have ok1: "wtOK c s1" and clock: "redisClock s1 = redisClock s" by (simp_all add: evolves_def)
  let ?Q = "\<lambda>s'. evolves c s s' \<and> told r RoomClosed s s' \<and> (\<forall>k. k \<notin> keysOf r \<longrightarrow> redisKeys s' k = redisKeys s k)
        \<and> (live s' = live s \<or> removed r s s')"
  have del: "wp (logged (DeleteRoom r)) (\<lambda>_. ?Q) E s1"
  proof (rule wp_logged, rule wp_mono [OF wp_DeleteRoom])
    fix u s2
    assume d: "live s2 = (\<lambda>k. if k \<in> keysOf r then None else live s1 k) \<and> redisClock s2 = redisClock s1
        \<and> (\<forall>k. k \<notin> keysOf r \<longrightarrow> redisKeys s2 k = redisKeys s1 k) \<and> changesOnly [PRedis] s1 s2"
    then have rem: "removed r s1 s2" and only: "changesOnly [PRedis] s1 s2" by (simp_all add: removed_def)
    note e = wtOK_removed [OF ok1 only rem]
    have "told r RoomClosed s s2"
      using t e fanned_then samePart_trans unfolding told_def by blast
    moreover have "removed r s s2" using rem t clock removed_after [of s1 s r s2] by simp
    ultimately show "?Q s2" using t e evolves_trans [of c s s1 s2] d by simp
  qed (use t in simp)
  have obs: "wp (attempt (GetRoom r) (\<lambda>res. case res of Inl _ \<Rightarrow> ret () | Inr rm \<Rightarrow> observeRoomTeardown rm))
      (\<lambda>_ s'. s' = s1) E s1"
    unfolding observeRoomTeardown_def
    by (rule wp_attempt, rule wp_mono [OF wp_reads(2)]) (auto intro: wp_ret wp_reads)
  show "wp (bnd (attempt (GetRoom r) (\<lambda>res. case res of Inl _ \<Rightarrow> ret () | Inr rm \<Rightarrow> observeRoomTeardown rm)) (\<lambda>_.
       logged (DeleteRoom r))) (\<lambda>_. ?Q) E s1"
    by (rule wp_bnd, rule wp_mono [OF obs]) (use del in auto)
qed

text \<open>A callback without an entry does nothing that anyone can see.\<close>

lemma fire_wp:
  assumes "wtOK c s"
  shows "wp (fire h r) (\<lambda>_ s'. wtOK c s' \<and> redisClock s' = redisClock s
     \<and> graceEntries s' = (graceEntries s)(r := None)
     \<and> (\<forall>k. k \<notin> keysOf r \<longrightarrow> redisKeys s' k = redisKeys s k)
     \<and> (graceEntries s r = None \<longrightarrow> changesOnly [PGrace] s s')
     \<and> (graceEntries s r \<noteq> None \<longrightarrow> told r RoomClosed s s' \<and> (live s' = live s \<or> removed r s s'))) E s"
proof -
  let ?t = "snd (takeEntry r s)"
  have only: "changesOnly [PGrace] s ?t" by simp
  note keep = changesOnly_keeps [OF only]
  have same: "wtOK c ?t" "redisClock ?t = redisClock s" "redisKeys ?t = redisKeys s" "samePart PHub s ?t" "live ?t = live s"
    using assms keep changesOnlyD [OF only] changesOnly_live(1) [OF only] by simp_all
  show ?thesis
  proof (cases "graceEntries s r = None")
    case True
    then show ?thesis
      unfolding fire_def using same only by (intro wp_bnd wp_memory) (simp add: wp_ret)
  next
    case False
    have told: "told r RoomClosed s s'" if "told r RoomClosed ?t s'" for s'
      using that same(4) hub_views [OF same(4)] fanned_after [OF same(4)] samePart_trans [OF same(4)]
      unfolding told_def by auto
    have main: "wp (bnd (logged (fanBroadcast h r RoomClosed [])) (\<lambda>_.
       bnd (attempt (GetRoom r) (\<lambda>res. case res of Inl _ \<Rightarrow> ret () | Inr rm \<Rightarrow> observeRoomTeardown rm)) (\<lambda>_.
       logged (DeleteRoom r))))
      (\<lambda>_ s'. wtOK c s' \<and> redisClock s' = redisClock s
       \<and> graceEntries s' = (graceEntries s)(r := None)
       \<and> (\<forall>k. k \<notin> keysOf r \<longrightarrow> redisKeys s' k = redisKeys s k)
       \<and> (graceEntries s r = None \<longrightarrow> changesOnly [PGrace] s s')
       \<and> (graceEntries s r \<noteq> None \<longrightarrow> told r RoomClosed s s' \<and> (live s' = live s \<or> removed r s s'))) E ?t"
    proof (rule wp_mono [OF wp_closeRoom [OF same(1)]])
      fix a s'
      assume c: "evolves c ?t s' \<and> told r RoomClosed ?t s' \<and> (\<forall>k. k \<notin> keysOf r \<longrightarrow> redisKeys s' k = redisKeys ?t k)
        \<and> (live s' = live ?t \<or> removed r ?t s')"
      then have "changesOnly sixParts ?t s'" by (simp add: evolves_def)
      then have "graceEntries s' = graceEntries ?t" using changesOnly_keeps(12) by fastforce
      moreover have "live s' = live s \<or> removed r s s'" using c same removed_after [of ?t s r s'] by auto
      ultimately show "wtOK c s' \<and> redisClock s' = redisClock s
       \<and> graceEntries s' = (graceEntries s)(r := None)
       \<and> (\<forall>k. k \<notin> keysOf r \<longrightarrow> redisKeys s' k = redisKeys s k)
       \<and> (graceEntries s r = None \<longrightarrow> changesOnly [PGrace] s s')
       \<and> (graceEntries s r \<noteq> None \<longrightarrow> told r RoomClosed s s' \<and> (live s' = live s \<or> removed r s s'))"
        using c told same False by (auto simp: evolves_def)
    qed
    show ?thesis
      unfolding fire_def
      by (rule wp_bnd, rule wp_memory, rule wp_if) (use False main in simp, rule main)
  qed
qed

end

section \<open>Sequences of grace events\<close>



lemma freshEntry_later:
  assumes "redisClock s \<le> t" and "freshEntry (s\<lparr>redisClock := t\<rparr>) r = Some rm"
  shows "freshEntry s r = Some rm"
  using assms by (auto simp: freshEntry_def cacheLookup_def split: option.splits if_splits)

lemma storedRoom_later:
  assumes "redisClock s \<le> t"
  shows "storedRoom (s\<lparr>redisClock := t\<rparr>) r = None \<or> storedRoom (s\<lparr>redisClock := t\<rparr>) r = storedRoom s r"
proof -
  let ?s = "s\<lparr>redisClock := t\<rparr>"
  have "live ?s (KeyRoom r) = None \<or> live ?s (KeyRoom r) = live s (KeyRoom r)"
    using assms by (auto simp: live_def split: option.splits)
  then show ?thesis using storedRoom_gone [of ?s r] storedRoom_same_key [of ?s r s] by blast
qed

lemma wtOK_later:
  assumes "wtOK c s" and "redisClock s \<le> t"
  shows "wtOK c (s\<lparr>redisClock := t\<rparr>)"
proof -
  have "coherent (s\<lparr>redisClock := t\<rparr>)"
    by (rule coherent_shrink [of s]) (use assms storedRoom_later freshEntry_later in \<open>auto simp: wtOK_def\<close>)
  then show ?thesis
    using assms catalogOK_time [of c s t] hubOK_frame [of "s\<lparr>redisClock := t\<rparr>" s] by (simp add: wtOK_def)
qed

text \<open>The room as its members see it: its keys, and the buffers of its connections.\<close>

definition sameRoom :: "string \<Rightarrow> 'l wt \<Rightarrow> 'l wt \<Rightarrow> bool" where
  "sameRoom r s s' \<longleftrightarrow> (\<forall>k \<in> keysOf r. redisKeys s' k = redisKeys s k) \<and> roomList s' r = roomList s r
     \<and> (\<forall>i \<in> set (roomList s r). conns s' i = conns s i)"


lemma sameRoom_parts:
  "redisKeys s' = redisKeys s \<Longrightarrow> samePart PHub s s' \<Longrightarrow> sameRoom r s s'"
  by (simp add: sameRoom_def samePart.simps roomList_def)

lemma sameRoom_only: "changesOnly [PGrace] s s' \<Longrightarrow> sameRoom r s s'"
  by (rule sameRoom_parts) (use changesOnly_keeps(2) changesOnlyD in fastforce)+

lemma grace_sameRoom [simp]:
  "sameRoom r s (snd (Start c' r' s))" "sameRoom r s (snd (Cancel r' s))"
  "sameRoom r s (snd (GraceClose s))" "sameRoom r s (snd (timerDue i s))"
  by (rule sameRoom_only, rule grace_frames)+




lemma demo_wtOK [simp]: "wtOK demoDeps demoState"
  by (simp add: wtOK_def hubOK_def roomOK_def roomList_def coherent_def freshEntry_def cacheLookup_def catalogOK_def)

definition demoGrace :: "unit wt" where
  "demoGrace = snd (Start demoDeps ''r1'' demoState)"


section \<open>The end of the window\<close>

text \<open>A room whose keys hold what they should.\<close>

definition openRoom :: "string \<Rightarrow> 'l wt \<Rightarrow> bool" where
  "openRoom r s \<longleftrightarrow> r \<noteq> [] \<and> (\<exists>rm. storedRoom s r = Some rm \<and> roomID rm = r) \<and> (\<exists>hist. chatLog s r hist)"

lemma openRoom_frame: "changesOnly [PGrace] s s' \<Longrightarrow> openRoom r s' = openRoom r s"
  using changesOnly_live(4,7) [of "[PGrace]" s s'] by (simp add: openRoom_def)

lemma twp_observe: "chatLog s (roomID rm) hist \<Longrightarrow> Q () s \<Longrightarrow> twp (observeRoomTeardown rm) Q s"
  unfolding observeRoomTeardown_def MessageCount_def
  by (intro twp_logged twp_wrap twp_readRedis) (simp_all add: chatLog_def)

lemma twp_DeleteRoom:
  fixes s :: "'l wt"
  shows "twp (DeleteRoom r) (\<lambda>_ s'. removed r s s' \<and> changesOnly [PRedis] s s') s"
  by (rule twp_from_wp [OF wp_mono [OF wp_DeleteRoom] succeeds_simple(2)]) (auto simp: removed_def)

lemma twp_fire:
  assumes ok: "wtOK c s" and room: "openRoom r s" and entry: "graceEntries s r \<noteq> None"
  shows "twp (fire theHub r) (\<lambda>_ s'. told r RoomClosed s s' \<and> redisClock s' = redisClock s
     \<and> (\<forall>k \<in> keysOf r. live s' k = None) \<and> graceTimers s' = graceTimers s) s"
proof -
  let ?t = "snd (takeEntry r s)"
  have only: "changesOnly [PGrace] s ?t" by simp
  have okt: "wtOK c ?t" using ok by simp
  then have hub: "hubOK ?t" by (simp add: wtOK_def)
  have timers: "graceTimers ?t = graceTimers s" by (simp add: takeEntry_def)
  have clock: "redisClock ?t = redisClock s" using changesOnly_keeps(1) [OF only] by simp
  have same: "samePart PHub s ?t" using changesOnlyD [OF only] by simp
  have r: "r \<noteq> []" using room by (simp add: openRoom_def)
  have bc: "twp (logged (fanBroadcast theHub r RoomClosed [])) (\<lambda>_ s1. evolves c ?t s1 \<and> live s1 = live ?t
     \<and> redisKeys s1 = redisKeys ?t \<and> changesOnly [PHub] ?t s1 \<and> told r RoomClosed ?t s1) ?t"
    by (rule twp_from_wp [OF hub.wp_tell [OF okt]], rule twp_logged, rule hub.broadcast_runs [OF hub r])
  show ?thesis
    unfolding fire_def
  proof (rule twp_bnd, rule twp_memory)
    have "twp (bnd (logged (fanBroadcast theHub r RoomClosed [])) (\<lambda>_.
       bnd (attempt (GetRoom r) (\<lambda>res. case res of Inl _ \<Rightarrow> ret () | Inr rm \<Rightarrow> observeRoomTeardown rm)) (\<lambda>_.
       logged (DeleteRoom r)))) (\<lambda>_ s'. told r RoomClosed s s' \<and> redisClock s' = redisClock s
     \<and> (\<forall>k \<in> keysOf r. live s' k = None) \<and> graceTimers s' = graceTimers s) ?t"
    proof (rule twp_bnd, rule twp_mono [OF bc])
      fix a s1
      assume b: "evolves c ?t s1 \<and> live s1 = live ?t \<and> redisKeys s1 = redisKeys ?t \<and> changesOnly [PHub] ?t s1
        \<and> told r RoomClosed ?t s1"
      then have only1: "changesOnly [PHub] ?t s1" by simp
      have "openRoom r ?t" using room openRoom_frame [OF only, of r] by simp
      then have "openRoom r s1" using changesOnly_live(4,7) [OF only1] by (simp add: openRoom_def)
      then obtain rm hist where rm: "storedRoom s1 r = Some rm" "roomID rm = r" "chatLog s1 r hist"
        by (auto simp: openRoom_def)
      have told: "told r RoomClosed s s1"
        using b same hub_views [OF same] fanned_after [OF same] samePart_trans [OF same] by (auto simp: told_def)
      have "twp (logged (DeleteRoom r)) (\<lambda>_ s'. told r RoomClosed s s' \<and> redisClock s' = redisClock s
         \<and> (\<forall>k \<in> keysOf r. live s' k = None) \<and> graceTimers s' = graceTimers s) s1"
      proof (rule twp_logged, rule twp_mono [OF twp_DeleteRoom])
        fix u s'
        assume d: "removed r s1 s' \<and> changesOnly [PRedis] s1 s'"
        then have only2: "changesOnly [PRedis] s1 s'" by simp
        have "samePart PHub s1 s'" using changesOnlyD [OF only2] by simp
        then have "told r RoomClosed s s'" using told fanned_then samePart_trans unfolding told_def by blast
        then show "told r RoomClosed s s' \<and> redisClock s' = redisClock s
         \<and> (\<forall>k \<in> keysOf r. live s' k = None) \<and> graceTimers s' = graceTimers s"
          using d changesOnly_keeps(1,13) [OF only1] changesOnly_keeps(13) [OF only2] timers clock
          by (simp add: removed_def)
      qed
      then show "twp (bnd (attempt (GetRoom r) (\<lambda>res. case res of Inl _ \<Rightarrow> ret () | Inr rm \<Rightarrow> observeRoomTeardown rm)) (\<lambda>_.
       logged (DeleteRoom r))) (\<lambda>_ s'. told r RoomClosed s s' \<and> redisClock s' = redisClock s
         \<and> (\<forall>k \<in> keysOf r. live s' k = None) \<and> graceTimers s' = graceTimers s) s1"
        using rm by (intro twp_bnd twp_attempt twp_GetRoom [OF rm(1)]) (simp add: twp_observe)
    qed
    then show "twp (if \<not> fst (takeEntry r s) then ret () else
       bnd (logged (fanBroadcast theHub r RoomClosed [])) (\<lambda>_.
       bnd (attempt (GetRoom r) (\<lambda>res. case res of Inl _ \<Rightarrow> ret () | Inr rm \<Rightarrow> observeRoomTeardown rm)) (\<lambda>_.
       logged (DeleteRoom r)))) (\<lambda>_ s'. told r RoomClosed s s' \<and> redisClock s' = redisClock s
     \<and> (\<forall>k \<in> keysOf r. live s' k = None) \<and> graceTimers s' = graceTimers s) ?t"
      using entry by (intro twp_if) simp_all
  qed
qed

text \<open>
  C31. The grace window closes: when \<^verbatim>\<open>Start\<close> has been called for a room and nobody returns until \<open>t\<close>, and
  Redis answers and still holds the room, then the runtime starts the callback exactly when the
  grace period is over; it tells everyone still connected that the room closed and deletes the
  room's three keys. Before that the room and its entry are untouched.
\<close>

theorem grace_window:
  assumes "wtOK c s" and "\<not> graceClosed s" and "r \<notin> set (graceFiring s)" and "redisClock s \<le> t"
    and "openRoom r (s\<lparr>redisClock := t\<rparr>)" and "\<forall>i. graceEntries s r = Some i \<longrightarrow> i < nextTimer s"
  shows "twp (bnd (memory (Start c r)) (\<lambda>_.
              bnd (memory (\<lambda>s. ((), s\<lparr>redisClock := t\<rparr>))) (\<lambda>_.
              bnd (memory (timerDue (nextTimer s))) (\<lambda>_.
              bnd (memory (\<lambda>s. (r \<in> set (graceFiring s), s))) (\<lambda>due.
              bnd (if due then fire theHub r else ret ()) (\<lambda>_. ret due))))))
     (\<lambda>due s'. due = (redisClock s + gracePeriod c \<le> t)
        \<and> (if due then told r RoomClosed s s' \<and> (\<forall>k \<in> keysOf r. live s' k = None)
           else graceEntries s' r = Some (nextTimer s) \<and> sameRoom r s s')) s"
proof -
  let ?s1 = "snd (Start c r s)"
  let ?s2 = "?s1\<lparr>redisClock := t\<rparr>"
  let ?s3 = "snd (timerDue (nextTimer s) ?s2)"
  have ok2: "wtOK c ?s2" using assms(1,4) wtOK_later [of c ?s1 t] by simp
  have timer: "graceTimers ?s2 (nextTimer s) = Some (r, redisClock s + gracePeriod c)"
    "graceEntries ?s2 r = Some (nextTimer s)" "graceFiring ?s2 = graceFiring s"
    using assms(2,6) by (auto simp: Start_def Let_def split: option.split)
  have hub2: "samePart PHub s ?s2"
    using changesOnlyD [OF grace_frames(1) [of s c r], of PHub] by (simp add: samePart.simps)
  have hub3: "samePart PHub s ?s3"
    using samePart_trans [OF hub2 changesOnlyD [OF grace_frames(4) [of ?s2 "nextTimer s"]]] by simp
  have due: "r \<in> set (graceFiring ?s3) \<longleftrightarrow> redisClock s + gracePeriod c \<le> t"
    using timer assms(3) by (simp add: timerDue_def)
  have "live ?s2 = live (s\<lparr>redisClock := t\<rparr>)"
    using changesOnly_keeps(2) [OF grace_frames(1) [of s c r]] by (simp add: fun_eq_iff live_def split: option.split)
  then have "openRoom r ?s2"
    using assms(5) by (simp add: openRoom_def storedRoom_def hashOf_def chatLog_def listOf_def)
  then have open3: "openRoom r ?s3" using openRoom_frame [OF grace_frames(4)] by blast
  have keys3: "redisKeys ?s3 = redisKeys s"
    using changesOnly_keeps(2) [OF grace_frames(1) [of s c r]]
      changesOnly_keeps(2) [OF grace_frames(4) [of ?s2 "nextTimer s"]] by simp
  have fires: "twp (fire theHub r) (\<lambda>_ s'. told r RoomClosed s s' \<and> (\<forall>k \<in> keysOf r. live s' k = None)) ?s3"
    by (rule twp_mono [OF twp_fire [OF _ open3]]) (use ok2 timer told_after [OF hub3] in simp_all)
  have quiet: "graceEntries ?s3 r = Some (nextTimer s)" "sameRoom r s ?s3"
    using timer(2) sameRoom_parts [OF keys3 hub3] by simp_all
  show ?thesis
    by (intro twp_bnd twp_memory; simp only: fst_conv snd_conv; intro twp_if twp_bnd twp_memory)
      (use due quiet fires in \<open>auto intro!: twp_ret twp_if elim!: twp_mono\<close>)
qed

theorem grace_window_witness:
  "twp (bnd (memory (Start demoDeps ''r1'')) (\<lambda>_.
        bnd (memory (\<lambda>s. ((), s\<lparr>redisClock := 305000\<rparr>))) (\<lambda>_.
        bnd (memory (timerDue 0)) (\<lambda>_.
        bnd (memory (\<lambda>s. (''r1'' \<in> set (graceFiring s), s))) (\<lambda>due.
        bnd (if due then fire theHub ''r1'' else ret ()) (\<lambda>_. ret due))))))
     (\<lambda>due s'. due \<and> live s' (KeyRoom ''r1'') = None) (demoState :: unit wt)"
proof -
  let ?s = "(demoState :: unit wt)\<lparr>redisClock := 305000\<rparr>"
  have "live ?s = live (demoState :: unit wt)"
    by (simp add: fun_eq_iff live_def demoState_def withRoom_def split: option.split)
  then have views: "storedRoom ?s = storedRoom (demoState :: unit wt)" "chatLog ?s = chatLog (demoState :: unit wt)"
    by (simp_all add: fun_eq_iff storedRoom_def chatLog_def hashOf_def listOf_def)
  have "chatLog (demoState :: unit wt) ''r1'' []" by (simp add: chatLog_def listOf_def demoState_def withRoom_def live_def plainID_def)
  then have room: "openRoom ''r1'' ?s" by (auto simp: openRoom_def views)
  have "wtOK demoDeps (demoState :: unit wt)" by (rule demo_wtOK)
  from twp_mono [OF grace_window [OF this _ _ _ room _],
      of "\<lambda>due s'. due \<and> live s' (KeyRoom ''r1'') = None"]
  show ?thesis by (simp add: demoDeps_def keysOf_def)
qed

text \<open>
  A callback does not check which timer it belongs to. When a timer has elapsed and its callback
  is still on its way, a member returns (\<open>Cancel\<close> answers that nothing was recovered) and leaves
  again: the old callback then takes the entry of the new timer, and the room is closed and deleted
  at once, although its new grace period has just begun and its timer is still pending.
\<close>

theorem stale_callback_closes_room:
  assumes "wtOK c s" and "openRoom r s" and "\<not> graceClosed s"
    and "graceTimers s i = Some (r, deadline)" and "deadline \<le> redisClock s"
    and "graceEntries s r = Some i" and "i < nextTimer s"
  shows "twp (bnd (memory (timerDue i)) (\<lambda>_.
              bnd (memory (Cancel r)) (\<lambda>recovered.
              bnd (memory (Start c r)) (\<lambda>_.
              bnd (fire theHub r) (\<lambda>_. ret recovered)))))
     (\<lambda>recovered s'. \<not> recovered \<and> redisClock s' = redisClock s \<and> (\<forall>k \<in> keysOf r. live s' k = None)
        \<and> graceTimers s' (nextTimer s) = Some (r, redisClock s + gracePeriod c)) s"
proof -
  let ?s1 = "snd (timerDue i s)"
  let ?s2 = "snd (Cancel r ?s1)"
  let ?s3 = "snd (Start c r ?s2)"
  have timer: "graceTimers ?s1 i = None" using assms(4,5) by (simp add: timerDue_def)
  have misc: "graceClosed ?s1 = graceClosed s" "nextTimer ?s1 = nextTimer s"
    using assms(4,5) by (simp_all add: timerDue_def)
  have notback: "\<not> fst (Cancel r ?s1)" using assms(6) timer by (simp add: Cancel_def)
  have "changesOnly [PGrace] s ?s2" by (rule changesOnly_trans [OF grace_frames(4) grace_frames(2)]) simp
  then have only: "changesOnly [PGrace] s ?s3" by (rule changesOnly_trans [OF _ grace_frames(1)]) simp
  have open3: "openRoom r ?s3" using assms(2) openRoom_frame [OF only] by simp
  have clock: "redisClock ?s2 = redisClock s" "redisClock ?s3 = redisClock s"
    by simp_all
  have entry: "graceEntries ?s3 r = Some (nextTimer s)"
    "graceTimers ?s3 (nextTimer s) = Some (r, redisClock s + gracePeriod c)"
    using assms(3) misc clock(1) by (simp_all add: Start_def Let_def)
  show ?thesis
    by (intro twp_bnd twp_memory twp_mono [OF twp_fire [OF _ open3]] twp_ret)
      (use assms(1) entry notback clock(2) in auto)
qed

theorem stale_callback_closes_room_witness:
  "twp (bnd (memory (timerDue 0)) (\<lambda>_.
        bnd (memory (Cancel ''r1'')) (\<lambda>recovered.
        bnd (memory (Start demoDeps ''r1'')) (\<lambda>_.
        bnd (fire theHub ''r1'') (\<lambda>_. ret recovered)))))
     (\<lambda>recovered s'. \<not> recovered \<and> live s' (KeyRoom ''r1'') = None \<and> graceTimers s' 1 = Some (''r1'', 605000))
     (demoGrace\<lparr>redisClock := 305000\<rparr>)"
proof -
  let ?s = "demoGrace\<lparr>redisClock := 305000\<rparr>"
  have "wtOK demoDeps demoGrace" by (simp add: demoGrace_def)
  moreover have clock: "redisClock demoGrace = 5000"
    by (simp add: demoGrace_def)
  ultimately have ok: "wtOK demoDeps ?s" using wtOK_later [of demoDeps demoGrace 305000] by simp
  have "live ?s = live (demoState :: unit wt)"
    by (simp add: fun_eq_iff live_def demoGrace_def Start_def Let_def demoState_def withRoom_def split: option.split)
  then have views: "storedRoom ?s = storedRoom (demoState :: unit wt)" "chatLog ?s = chatLog (demoState :: unit wt)"
    by (simp_all add: fun_eq_iff storedRoom_def chatLog_def hashOf_def listOf_def)
  have "chatLog (demoState :: unit wt) ''r1'' []" by (simp add: chatLog_def listOf_def demoState_def withRoom_def live_def plainID_def)
  then have room: "openRoom ''r1'' ?s" by (auto simp: openRoom_def views)
  have "twp (bnd (memory (timerDue 0)) (\<lambda>_.
        bnd (memory (Cancel ''r1'')) (\<lambda>recovered.
        bnd (memory (Start demoDeps ''r1'')) (\<lambda>_.
        bnd (fire theHub ''r1'') (\<lambda>_. ret recovered)))))
     (\<lambda>recovered s'. \<not> recovered \<and> redisClock s' = redisClock ?s \<and> (\<forall>k \<in> keysOf ''r1''. live s' k = None)
        \<and> graceTimers s' (nextTimer ?s) = Some (''r1'', redisClock ?s + gracePeriod demoDeps)) ?s"
    by (rule stale_callback_closes_room [OF ok room, where deadline = 305000])
      (simp_all add: demoGrace_def Start_def Let_def demoDeps_def)
  then show ?thesis
    by (rule twp_mono) (simp add: keysOf_def demoDeps_def demoGrace_def Start_def Let_def)
qed

end
