(* ===== verification/Authz.thy ===== *)
theory Authz
  imports Prelude
begin

text \<open>
  Identities of \<^verbatim>\<open>libs/authz/jwt.go\<close>: the roles, the claims a validated token carries, and what a
  handler reads from the request context. \<open>None\<close> stands for a context without claims. Signing and
  parsing of tokens belong to the JWT library and are parameters where they are used.
\<close>

definition RoleUser :: string where "RoleUser = ''user''"
definition RoleAdmin :: string where "RoleAdmin = ''admin''"
definition RoleLibrarian :: string where "RoleLibrarian = ''librarian''"
definition RoleGuest :: string where "RoleGuest = ''guest''"

lemmas role_defs = RoleUser_def RoleAdmin_def RoleLibrarian_def RoleGuest_def

record claims =
  claimUserID :: string
  claimUsername :: string
  claimRole :: string

definition UserIDFromContext :: "claims option \<Rightarrow> string" where
  "UserIDFromContext cl = (case cl of None \<Rightarrow> [] | Some k \<Rightarrow> claimUserID k)"

definition RoleFromContext :: "claims option \<Rightarrow> string" where
  "RoleFromContext cl = (case cl of None \<Rightarrow> [] | Some k \<Rightarrow> claimRole k)"

definition IsAdmin :: "claims option \<Rightarrow> bool" where
  "IsAdmin cl \<longleftrightarrow> RoleFromContext cl = RoleAdmin"

end
