(* ===== verification/WT_Rooms.thy ===== *)
theory WT_Rooms
  imports WT_Grace Authz
begin

text \<open>
  The lifecycle of rooms: the room service (\<^verbatim>\<open>internal/service/rooms.go\<close>) and the REST handlers on
  it (\<^verbatim>\<open>internal/handler/rooms.go\<close>). The claims are those the authentication middleware put into the
  request, \<open>None\<close> when there are none; the request body is the parsed JSON value; the id of a new room
  is an argument. A reply is a constructor per status; an \<open>ErrorReply\<close> is what \<^verbatim>\<open>httputil.Error\<close>
  makes of an error.
\<close>

section \<open>The room service\<close>

definition allowedPlayers :: "string list" where
  "allowedPlayers = [PlayerKodik, PlayerAnimeLib, PlayerOurEnglish, PlayerHanime, PlayerAePlayer]"

definition snapshotMessageLimit :: int where "snapshotMessageLimit = 50"

record create_room_input =
  inAnimeID :: string
  inEpisodeID :: string
  inPlayer :: string
  inTranslationID :: string

definition invalidInput :: "string \<Rightarrow> err" where
  "invalidInput detail = InvalidRoom (''watch-together: invalid input: '' @ detail)"

definition validateRoom :: "'l deps \<Rightarrow> create_room_input \<Rightarrow> err option" where
  "validateRoom c inp =
     (if inAnimeID inp = [] then Some (invalidInput ''anime_id is required'')
      else if inEpisodeID inp = [] then Some (invalidInput ''episode_id is required'')
      else if inPlayer inp = [] then Some (invalidInput ''player is required'')
      else if inPlayer inp \<notin> set allowedPlayers
      then Some (invalidInput (''unknown player '' @ quoteText c (inPlayer inp)
                   @ '' (allowed: kodik|animelib|ourenglish|hanime|aeplayer)''))
      else if inTranslationID inp = [] \<and> inPlayer inp \<noteq> PlayerAePlayer
      then Some (invalidInput ''translation_id is required'')
      else None)"

definition newRoom :: "string \<Rightarrow> string \<Rightarrow> create_room_input \<Rightarrow> int \<Rightarrow> room" where
  "newRoom newID host inp now =
     \<lparr>roomID = newID, roomCreatedAt = now div 1000, roomAnimeID = inAnimeID inp,
      roomEpisodeID = inEpisodeID inp, roomPlayer = inPlayer inp,
      roomTranslationID = inTranslationID inp, roomState = StatePaused, roomTime = 0,
      roomUpdatedAtMs = now, roomHost = host\<rparr>"

definition RoomService_Create ::
  "'l deps \<Rightarrow> string \<Rightarrow> string \<Rightarrow> string \<Rightarrow> create_room_input \<Rightarrow> ('l, room) wprog" where
  "RoomService_Create c newID hostUserID hostUsername inp =
     (if hostUserID = [] then fail (invalidInput ''host user_id is required'')
      else case validateRoom c inp of
        Some e \<Rightarrow> fail e
      | None \<Rightarrow>
          bnd (memory (\<lambda>s. (redisClock s, s))) (\<lambda>now.
          let rm = newRoom newID hostUserID inp now in
          bnd (CreateRoom (roomTTL c) rm) (\<lambda>_.
          ret rm)))"

definition RoomService_Get :: "string \<Rightarrow> ('l, room_snapshot) wprog" where
  "RoomService_Get r =
     (if r = [] then fail (invalidInput ''room_id is required'')
      else
        bnd (GetRoom r) (\<lambda>rm.
        bnd (ListMembers r) (\<lambda>members.
        bnd (GetMessages r snapshotMessageLimit) (\<lambda>messages.
        ret \<lparr>snapRoom = rm, snapMembers = members, snapMessages = messages,
             snapProtocol = ProtocolVersion\<rparr>))))"

definition RoomService_Delete :: "string \<Rightarrow> string \<Rightarrow> ('l, unit) wprog" where
  "RoomService_Delete requester r =
     (if requester = [] then fail (invalidInput ''requester user_id is required'')
      else if r = [] then fail (invalidInput ''room_id is required'')
      else
        bnd (GetRoom r) (\<lambda>rm.
        if roomHost rm \<noteq> requester then fail NotHost
        else
          bnd (observeRoomTeardown rm) (\<lambda>_.
          DeleteRoom r)))"

section \<open>The REST handlers\<close>

record create_room_response =
  respRoomID :: string
  respInviteURL :: string
  respWSUrl :: string

datatype http_reply =
    Unauthorized
  | Forbidden
  | BadRequest string
  | Gone string
  | ErrorReply err
  | Created create_room_response
  | Snapshot room_snapshot
  | NoContent

definition inviteURL :: "string \<Rightarrow> string \<Rightarrow> string" where
  "inviteURL base r = base @ ''/watch/room/'' @ r"

definition hasPrefix :: "string \<Rightarrow> string \<Rightarrow> bool" where
  "hasPrefix s p \<longleftrightarrow> take (length p) s = p"

definition wsURLFromBase :: "string \<Rightarrow> string \<Rightarrow> string" where
  "wsURLFromBase base r =
     (if hasPrefix base ''https://'' then ''wss://'' @ drop 8 base
      else if hasPrefix base ''http://'' then ''ws://'' @ drop 7 base
      else ''ws://'' @ base) @ ''/api/watch-together/ws?room='' @ r"

text \<open>The four fields of the request body; a value of the wrong kind in any of them is an error.\<close>

definition bindCreate :: "json option \<Rightarrow> create_room_input option" where
  "bindCreate body =
     (case (decodeText ''anime_id'' body, decodeText ''episode_id'' body,
            decodeText ''player'' body, decodeText ''translation_id'' body) of
        (Some a, Some e, Some p, Some t) \<Rightarrow>
          Some \<lparr>inAnimeID = a, inEpisodeID = e, inPlayer = p, inTranslationID = t\<rparr>
      | _ \<Rightarrow> None)"

definition RoomHandler_Create ::
  "'l deps \<Rightarrow> string \<Rightarrow> claims option \<Rightarrow> json option \<Rightarrow> ('l, http_reply) wprog" where
  "RoomHandler_Create c newID cl body =
     (if UserIDFromContext cl = [] then ret Unauthorized
      else if RoleFromContext cl = RoleGuest then ret Forbidden
      else
        let username = (case cl of None \<Rightarrow> [] | Some k \<Rightarrow> claimUsername k) in
        case bindCreate body of
          None \<Rightarrow> ret (BadRequest ''invalid JSON body'')
        | Some inp \<Rightarrow>
            attempt (RoomService_Create c newID (UserIDFromContext cl) username inp) (\<lambda>res. case res of
              Inl (InvalidRoom text) \<Rightarrow> ret (BadRequest text)
            | Inl e \<Rightarrow> ret (ErrorReply e)
            | Inr rm \<Rightarrow>
                ret (Created \<lparr>respRoomID = roomID rm,
                       respInviteURL = inviteURL (publicBaseURL c) (roomID rm),
                       respWSUrl = wsURLFromBase (publicBaseURL c) (roomID rm)\<rparr>)))"

definition goneText :: string where "goneText = ''room expired or does not exist''"

definition RoomHandler_Get :: "claims option \<Rightarrow> string \<Rightarrow> ('l, http_reply) wprog" where
  "RoomHandler_Get cl r =
     (if UserIDFromContext cl = [] then ret Unauthorized
      else if r = [] then ret (BadRequest ''missing room id'')
      else
        attempt (RoomService_Get r) (\<lambda>res. case res of
          Inl RoomNotFound \<Rightarrow> ret (Gone goneText)
        | Inl (InvalidRoom text) \<Rightarrow> ret (BadRequest text)
        | Inl e \<Rightarrow> ret (ErrorReply e)
        | Inr snap \<Rightarrow> ret (Snapshot snap)))"

fun deleteReply :: "err + unit \<Rightarrow> http_reply" where
  "deleteReply (Inl RoomNotFound) = Gone goneText"
| "deleteReply (Inl NotHost) = Forbidden"
| "deleteReply (Inl (InvalidRoom text)) = BadRequest text"
| "deleteReply (Inl e) = ErrorReply e"
| "deleteReply (Inr _) = NoContent"

text \<open>Past the authorization of the handler: the grace timer goes, the members are told, the room goes.\<close>

definition closeAsHost :: "'l fanout \<Rightarrow> string \<Rightarrow> string \<Rightarrow> ('l, http_reply) wprog" where
  "closeAsHost h userID r =
     bnd (memory (Cancel r)) (\<lambda>_.
     bnd (logged (fanBroadcast h r RoomClosed [])) (\<lambda>_.
     attempt (RoomService_Delete userID r) (\<lambda>res. ret (deleteReply res))))"

definition RoomHandler_Delete :: "'l fanout \<Rightarrow> claims option \<Rightarrow> string \<Rightarrow> ('l, http_reply) wprog" where
  "RoomHandler_Delete h cl r =
     (let userID = UserIDFromContext cl in
      if userID = [] then ret Unauthorized
      else if r = [] then ret (BadRequest ''missing room id'')
      else
        attempt (RoomService_Get r) (\<lambda>res. case res of
          Inl RoomNotFound \<Rightarrow> ret (Gone goneText)
        | Inl (InvalidRoom text) \<Rightarrow> ret (BadRequest text)
        | Inl e \<Rightarrow> ret (ErrorReply e)
        | Inr snap \<Rightarrow>
            if roomHost (snapRoom snap) \<noteq> userID then ret Forbidden
            else closeAsHost h userID r))"

section \<open>Reading a room\<close>

lemma wp_listMembers: "wp (ListMembers r) (\<lambda>_ s'. s' = s) (\<lambda>_ s'. s' = s) s"
  unfolding ListMembers_def by (auto intro!: wp_bnd wp_wrap wp_readRedis wp_ret)

lemma wp_getMessages: "wp (GetMessages r n) (\<lambda>_ s'. s' = s) (\<lambda>_ s'. s' = s) s"
  unfolding GetMessages_def by (auto intro!: wp_if wp_bnd wp_wrap wp_readRedis wp_ret)

lemma RoomService_Get_wp:
  fixes s :: "'l wt"
  shows "wp (RoomService_Get r) (\<lambda>snap s'. s' = s \<and> storedRoom s r = Some (snapRoom snap)) (\<lambda>_ s'. s' = s) s"
  unfolding RoomService_Get_def
proof (intro wp_if wp_fail wp_bnd wp_mono [OF GetRoom_spec])
  fix rm and s' :: "'l wt"
  assume a: "s' = s \<and> storedRoom s r = Some rm"
  show "wp (ListMembers r) (\<lambda>members. wp (bnd (GetMessages r snapshotMessageLimit) (\<lambda>messages.
        ret \<lparr>snapRoom = rm, snapMembers = members, snapMessages = messages, snapProtocol = ProtocolVersion\<rparr>))
       (\<lambda>snap s'. s' = s \<and> storedRoom s r = Some (snapRoom snap)) (\<lambda>_ s'. s' = s)) (\<lambda>_ s'. s' = s) s'"
  proof (rule wp_mono [OF wp_listMembers])
    fix members s''
    assume "s'' = s'"
    then show "wp (bnd (GetMessages r snapshotMessageLimit) (\<lambda>messages.
        ret \<lparr>snapRoom = rm, snapMembers = members, snapMessages = messages, snapProtocol = ProtocolVersion\<rparr>))
       (\<lambda>snap s'. s' = s \<and> storedRoom s r = Some (snapRoom snap)) (\<lambda>_ s'. s' = s) s''"
      using a by (intro wp_bnd wp_mono [OF wp_getMessages] wp_ret) simp_all
  qed (use a in simp)
qed simp_all

section \<open>Only the host closes a room\<close>

lemma RoomService_Delete_wp:
  fixes s :: "'l wt"
  shows "wp (RoomService_Delete u r) (\<lambda>_ s'. removed r s s' \<and> changesOnly [PRedis] s s') (\<lambda>_ s'. s' = s) s"
  unfolding RoomService_Delete_def
proof (intro wp_if wp_fail wp_bnd wp_mono [OF GetRoom_spec])
  fix rm and s' :: "'l wt"
  assume "s' = s \<and> storedRoom s r = Some rm"
  then have s': "s' = s" by simp
  have "wp (observeRoomTeardown rm) (\<lambda>_ s'. s' = s) (\<lambda>_ s'. s' = s) s"
    unfolding observeRoomTeardown_def by (rule wp_reads)
  then show "wp (observeRoomTeardown rm) (\<lambda>_. wp (DeleteRoom r)
     (\<lambda>_ s'. removed r s s' \<and> changesOnly [PRedis] s s') (\<lambda>_ s'. s' = s)) (\<lambda>_ s'. s' = s) s'"
    unfolding s' by (rule wp_mono) (auto intro: wp_mono [OF wp_DeleteRoom] simp: removed_def)
qed simp_all

lemma wp_replies:
  assumes "\<And>reply. Q reply s"
  shows "wp (case e of RoomNotFound \<Rightarrow> ret (Gone t) | InvalidRoom text \<Rightarrow> ret (BadRequest text)
     | _ \<Rightarrow> ret (ErrorReply e)) Q E s"
  by (cases e) (simp_all add: assms wp_ret)

definition closedBy :: "claims option \<Rightarrow> string \<Rightarrow> 'l wt \<Rightarrow> 'l wt \<Rightarrow> http_reply \<Rightarrow> bool" where
  "closedBy cl r s s' reply \<longleftrightarrow>
     (\<exists>rm. storedRoom s r = Some rm \<and> roomHost rm = UserIDFromContext cl) \<and> UserIDFromContext cl \<noteq> []
     \<and> told r RoomClosed s s' \<and> graceEntries s' = (graceEntries s)(r := None)
     \<and> (\<forall>k. k \<notin> keysOf r \<longrightarrow> redisKeys s' k = redisKeys s k)
     \<and> (if reply = NoContent then removed r s s' else live s' = live s)"

lemma deleteReply_NoContent: "deleteReply res = NoContent \<longleftrightarrow> (\<exists>u. res = Inr u)"
  by (cases res rule: deleteReply.cases) simp_all

lemma closeAsHost_wp:
  assumes "wtOK c s" and host: "UserIDFromContext cl \<noteq> []" "storedRoom s r = Some rm" "roomHost rm = UserIDFromContext cl"
  shows "wp (closeAsHost theHub (UserIDFromContext cl) r) (\<lambda>reply s'. wtOK c s' \<and> closedBy cl r s s' reply) (\<lambda>_ _. False) s"
  unfolding closeAsHost_def
proof (rule wp_bnd, rule wp_memory, rule wp_bnd, rule wp_mono [OF hub.wp_tell])
  let ?u = "UserIDFromContext cl" and ?s1 = "snd (Cancel r s)"
  let ?Q = "\<lambda>reply s'. wtOK c s' \<and> closedBy cl r s s' reply"
  have only: "changesOnly [PGrace] s ?s1" by simp
  have one: "live ?s1 = live s" "redisKeys ?s1 = redisKeys s" "samePart PHub s ?s1"
    using changesOnly_live(1) [OF only] changesOnly_keeps(2) [OF only] changesOnlyD [OF only] by simp_all
  show "wtOK c ?s1" using assms by simp
  fix a s2
  assume t: "evolves c ?s1 s2 \<and> live s2 = live ?s1 \<and> redisKeys s2 = redisKeys ?s1 \<and> changesOnly [PHub] ?s1 s2
    \<and> told r RoomClosed ?s1 s2"
  then have only2: "changesOnly [PHub] ?s1 s2" by simp
  have two: "wtOK c s2" "redisClock s2 = redisClock s" "live s2 = live s" "redisKeys s2 = redisKeys s"
    "told r RoomClosed s s2" "graceEntries s2 = (graceEntries s)(r := None)"
    using t one told_after [OF one(3)] changesOnly_keeps(12) [OF only2] by (simp_all add: evolves_def)
  have kept: "?Q (deleteReply (Inl e)) s2" for e
    using two host deleteReply_NoContent [of "Inl e"] by (simp add: closedBy_def)
  have gone: "?Q NoContent s3" if d: "removed r s2 s3 \<and> changesOnly [PRedis] s2 s3" for s3
  proof -
    from d have only3: "changesOnly [PRedis] s2 s3" by simp
    note e = wtOK_removed [OF two(1) only3 conjunct1 [OF d]]
    have "removed r s s3" using d removed_after [of s2 s r s3] two by simp
    moreover have "graceEntries s3 = graceEntries s2" using changesOnly_keeps(12) [OF only3] by simp
    ultimately show ?thesis
      using host told_then [OF two(5)] e two(6) by (simp add: closedBy_def removed_def evolves_def)
  qed
  show "wp (attempt (RoomService_Delete ?u r) (\<lambda>res. ret (deleteReply res))) ?Q (\<lambda>_ _. False) s2"
    by (rule wp_attempt, rule wp_mono [OF RoomService_Delete_wp]; intro wp_ret; use gone kept in simp)
qed simp

text \<open>
  C28. Only the host closes a room: whatever the caller, the room and the failures of Redis, either
  nothing changes at all and the reply is not 204, or the caller is authenticated as the room's
  recorded host, everyone connected to the room got \<open>room:closed\<close>, its grace entry is gone, no other
  room is touched, and the reply is 204 exactly when the room's three keys are gone.
\<close>

theorem only_host_deletes:
  assumes "wtOK c s"
  shows "wp (RoomHandler_Delete theHub cl r)
     (\<lambda>reply s'. wtOK c s' \<and> (changesOnly [] s s' \<and> reply \<noteq> NoContent \<or> closedBy cl r s s' reply))
     (\<lambda>_ _. False) s"
proof -
  let ?u = "UserIDFromContext cl"
  let ?Q = "\<lambda>reply s'. wtOK c s' \<and> (changesOnly [] s s' \<and> reply \<noteq> NoContent \<or> closedBy cl r s s' reply)"
  have refuse: "reply \<noteq> NoContent \<Longrightarrow> wp (ret reply) ?Q (\<lambda>_ _. False) s" for reply
    using assms by (simp add: wp_ret)
  have close: "wp (closeAsHost theHub ?u r) ?Q (\<lambda>_ _. False) s"
    if "?u \<noteq> []" "storedRoom s r = Some rm" "roomHost rm = ?u" for rm
    by (rule wp_mono [OF closeAsHost_wp [OF assms that]]) simp_all
  show ?thesis
    unfolding RoomHandler_Delete_def Let_def
    by (intro wp_if refuse wp_attempt; (rule wp_mono [OF RoomService_Get_wp])?)
      (use close refuse in \<open>auto split: err.split\<close>)
qed

definition demoHost :: claims where
  "demoHost = \<lparr>claimUserID = ''u1'', claimUsername = ''Ann'', claimRole = ''user''\<rparr>"

theorem only_host_deletes_witness:
  "wp (RoomHandler_Delete theHub (Some \<lparr>claimUserID = ''u2'', claimUsername = ''Bob'', claimRole = ''admin''\<rparr>) ''r1'')
     (\<lambda>reply s'. storedRoom s' ''r1'' = Some demoRoom) (\<lambda>_ _. False) (demoState :: unit wt)"
proof (rule wp_mono [OF only_host_deletes [OF demo_wtOK]])
  fix reply and s' :: "unit wt"
  assume "wtOK demoDeps s' \<and> (changesOnly [] demoState s' \<and> reply \<noteq> NoContent
    \<or> closedBy (Some \<lparr>claimUserID = ''u2'', claimUsername = ''Bob'', claimRole = ''admin''\<rparr>) ''r1'' demoState s' reply)"
  then have "changesOnly [] demoState s'"
    by (simp add: closedBy_def UserIDFromContext_def)
  from changesOnly_live(4) [OF this] show "storedRoom s' ''r1'' = Some demoRoom" by simp
qed simp

section \<open>A created room is served\<close>

lemma twp_CreateRoom:
  fixes s :: "'l wt"
  assumes "0 < ttl" and "plainID (roomID rm)" and "roomID rm \<noteq> []" and "live s (KeyRoom (roomID rm)) = None"
  shows "twp (CreateRoom ttl rm) (\<lambda>_ s'. storedRoom s' (roomID rm) = Some rm
     \<and> (\<forall>k. k \<noteq> KeyRoom (roomID rm) \<longrightarrow> live s' k = live s k)) s"
  by (rule twp_mono [OF twp_from_wp [OF CreateRoom_spec [OF assms(1)] succeeds_CreateRoom [OF assms(3)]]])
    (simp_all add: hashOf_def assms(4))

lemma twp_RoomHandler_Create:
  assumes "0 < roomTTL c" and "plainID newID" and "newID \<noteq> []" and "\<forall>k \<in> keysOf newID. live s k = None"
    and "claimUserID me \<noteq> []" and "claimRole me \<noteq> RoleGuest"
    and "bindCreate body = Some inp" and "validateRoom c inp = None"
  shows "twp (RoomHandler_Create c newID (Some me) body)
     (\<lambda>reply s'. reply = Created \<lparr>respRoomID = newID, respInviteURL = inviteURL (publicBaseURL c) newID,
                    respWSUrl = wsURLFromBase (publicBaseURL c) newID\<rparr>
        \<and> storedRoom s' newID = Some (newRoom newID (claimUserID me) inp (redisClock s)) \<and> live s' (KeyRoomMembers newID) = None
        \<and> live s' (KeyRoomMessages newID) = None) s"
proof -
  let ?rm = "newRoom newID (claimUserID me) inp (redisClock s)"
  have id: "roomID ?rm = newID" by (simp add: newRoom_def)
  have "twp (CreateRoom (roomTTL c) ?rm) (\<lambda>_ s'. storedRoom s' newID = Some ?rm
      \<and> live s' (KeyRoomMembers newID) = None \<and> live s' (KeyRoomMessages newID) = None) s"
    by (rule twp_mono [OF twp_CreateRoom [OF assms(1)]])
      (use assms(2-4) in \<open>simp_all add: id keysOf_def\<close>)
  then have "twp (RoomService_Create c newID (claimUserID me) (claimUsername me) inp)
     (\<lambda>rm s'. rm = ?rm \<and> storedRoom s' newID = Some ?rm
      \<and> live s' (KeyRoomMembers newID) = None \<and> live s' (KeyRoomMessages newID) = None) s"
    unfolding RoomService_Create_def using assms(5,8)
    by (simp add: Let_def, intro twp_bnd twp_memory) (auto intro!: twp_bnd twp_ret elim!: twp_mono)
  then have "twp (attempt (RoomService_Create c newID (claimUserID me) (claimUsername me) inp) (\<lambda>res. case res of
            Inl (InvalidRoom text) \<Rightarrow> ret (BadRequest text)
          | Inl e \<Rightarrow> ret (ErrorReply e)
          | Inr rm \<Rightarrow>
              ret (Created \<lparr>respRoomID = roomID rm,
                     respInviteURL = inviteURL (publicBaseURL c) (roomID rm),
                     respWSUrl = wsURLFromBase (publicBaseURL c) (roomID rm)\<rparr>)))
     (\<lambda>reply s'. reply = Created \<lparr>respRoomID = newID, respInviteURL = inviteURL (publicBaseURL c) newID,
                  respWSUrl = wsURLFromBase (publicBaseURL c) newID\<rparr>
      \<and> storedRoom s' newID = Some ?rm \<and> live s' (KeyRoomMembers newID) = None
      \<and> live s' (KeyRoomMessages newID) = None) s"
    by (intro twp_attempt, elim twp_mono) (auto intro!: twp_ret simp: id)
  then show ?thesis
    using assms(5-7) by (simp add: RoomHandler_Create_def UserIDFromContext_def RoleFromContext_def)
qed

text \<open>
  A room that is created is served: for an authenticated caller who is not a guest and a valid
  request, when Redis answers, the reply to \<^verbatim>\<open>POST /rooms\<close> holds the new id with its two links, and
  any authenticated caller, guests included, who then asks for that id gets the snapshot of exactly the
  requested anime, episode, player and translation, paused at 0, with the caller as host, and with
  nobody in it and no messages.
\<close>

theorem created_room_is_served:
  assumes "0 < roomTTL c" and "plainID newID" and "newID \<noteq> []" and "\<forall>k \<in> keysOf newID. live s k = None"
    and "claimUserID me \<noteq> []" and "claimRole me \<noteq> RoleGuest"
    and "bindCreate body = Some inp" and "validateRoom c inp = None" and "claimUserID other \<noteq> []"
  shows "twp (bnd (RoomHandler_Create c newID (Some me) body) (\<lambda>created.
              bnd (RoomHandler_Get (Some other) newID) (\<lambda>got. ret (created, got))))
     (\<lambda>(created, got) _.
        created = Created \<lparr>respRoomID = newID, respInviteURL = inviteURL (publicBaseURL c) newID,
                    respWSUrl = wsURLFromBase (publicBaseURL c) newID\<rparr>
        \<and> got = Snapshot \<lparr>snapRoom = newRoom newID (claimUserID me) inp (redisClock s),
                    snapMembers = [], snapMessages = [], snapProtocol = ''1.0''\<rparr>) s"
proof -
  let ?rm = "newRoom newID (claimUserID me) inp (redisClock s)"
  have id: "roomID ?rm = newID" by (simp add: newRoom_def)
  note create = twp_RoomHandler_Create [OF assms(1-8)]
  show ?thesis
  proof (rule twp_bnd, rule twp_mono [OF create])
    fix created and s' :: "'a wt"
    assume a: "created = Created \<lparr>respRoomID = newID, respInviteURL = inviteURL (publicBaseURL c) newID,
                    respWSUrl = wsURLFromBase (publicBaseURL c) newID\<rparr>
        \<and> storedRoom s' newID = Some ?rm \<and> live s' (KeyRoomMembers newID) = None
        \<and> live s' (KeyRoomMessages newID) = None"
    have messages: "twp (GetMessages newID snapshotMessageLimit) (\<lambda>ms s''. s'' = s' \<and> ms = []) s'"
    proof -
      have "chatLog s' newID []" using a by (simp add: chatLog_def listOf_def)
      from twp_from_wp [OF GetMessages_spec [OF this] succeeds_reads(2)] a show ?thesis
        by (simp add: listOf_def)
    qed
    have "twp (RoomService_Get newID) (\<lambda>snap _. snap = \<lparr>snapRoom = ?rm, snapMembers = [], snapMessages = [],
        snapProtocol = ''1.0''\<rparr>) s'"
      unfolding RoomService_Get_def if_not_P [OF assms(3)]
      by (intro twp_bnd twp_GetRoom [OF conjunct1 [OF conjunct2 [OF a]]] twp_ListMembers [where h = "[]"]
          twp_mono [OF messages] twp_ret)
        (use a in \<open>simp_all add: hashOf_def ProtocolVersion_def List.map_filter_simps\<close>)
    then have "twp (RoomHandler_Get (Some other) newID) (\<lambda>got _. got = Snapshot \<lparr>snapRoom = ?rm,
        snapMembers = [], snapMessages = [], snapProtocol = ''1.0''\<rparr>) s'"
      unfolding RoomHandler_Get_def using assms(3,9)
      by (simp add: UserIDFromContext_def) (intro twp_attempt, elim twp_mono, simp add: twp_ret)
    then show "twp (bnd (RoomHandler_Get (Some other) newID) (\<lambda>got. ret (created, got)))
     (\<lambda>(created, got) _.
        created = Created \<lparr>respRoomID = newID, respInviteURL = inviteURL (publicBaseURL c) newID,
                    respWSUrl = wsURLFromBase (publicBaseURL c) newID\<rparr>
        \<and> got = Snapshot \<lparr>snapRoom = ?rm, snapMembers = [], snapMessages = [], snapProtocol = ''1.0''\<rparr>) s'"
      using a by (intro twp_bnd) (elim twp_mono, simp add: twp_ret)
  qed
qed

definition demoBody :: "json option" where
  "demoBody = Some (JObject [(''anime_id'', JString ''a1''), (''episode_id'', JString ''3''),
     (''player'', JString ''aeplayer''), (''translation_id'', JNull)])"

definition demoInput :: create_room_input where
  "demoInput = \<lparr>inAnimeID = ''a1'', inEpisodeID = ''3'', inPlayer = ''aeplayer'', inTranslationID = []\<rparr>"

lemma demoBody_create: "bindCreate demoBody = Some demoInput" "validateRoom c demoInput = None"
  by (simp_all add: bindCreate_def demoBody_def demoInput_def decodeText_def sameKey_def lower_def
      validateRoom_def allowedPlayers_def PlayerKodik_def PlayerAnimeLib_def PlayerOurEnglish_def
      PlayerHanime_def PlayerAePlayer_def)

theorem created_room_is_served_witness:
  "twp (bnd (RoomHandler_Create demoDeps ''r9'' (Some demoHost) demoBody) (\<lambda>created.
        bnd (RoomHandler_Get (Some demoHost) ''r9'') (\<lambda>got. ret (created, got))))
     (\<lambda>(created, got) _. respWSUrl (case created of Created resp \<Rightarrow> resp)
           = ''wss://animeenigma.ru/api/watch-together/ws?room=r9''
        \<and> roomEpisodeID (snapRoom (case got of Snapshot snap \<Rightarrow> snap)) = ''3'') (initWT 7000 :: unit wt)"
proof -
  let ?inp = demoInput
  have "twp (bnd (RoomHandler_Create demoDeps ''r9'' (Some demoHost) demoBody) (\<lambda>created.
        bnd (RoomHandler_Get (Some demoHost) ''r9'') (\<lambda>got. ret (created, got))))
     (\<lambda>(created, got) _.
        created = Created \<lparr>respRoomID = ''r9'', respInviteURL = inviteURL (publicBaseURL demoDeps) ''r9'',
                    respWSUrl = wsURLFromBase (publicBaseURL demoDeps) ''r9''\<rparr>
        \<and> got = Snapshot \<lparr>snapRoom = newRoom ''r9'' (claimUserID demoHost) ?inp (redisClock (initWT 7000 :: unit wt)),
                    snapMembers = [], snapMessages = [], snapProtocol = ''1.0''\<rparr>) (initWT 7000 :: unit wt)"
    by (rule created_room_is_served [OF _ _ _ _ _ _ demoBody_create])
      (simp_all add: demoDeps_def plainID_def live_def demoHost_def RoleGuest_def)
  then show ?thesis
    by (rule twp_mono) (auto simp: demoDeps_def wsURLFromBase_def hasPrefix_def newRoom_def demoInput_def)
qed

end
