(* ===== verification/WT_Dispatch.thy ===== *)
theory WT_Dispatch
  imports WT_Router
begin

text \<open>
  The contract of \<open>Dispatch\<close>, handler by handler, over any hub that keeps its promises, and its
  instance on the hub of the service.
\<close>

section \<open>The handlers\<close>

text \<open>The inbound data of one message in a state where the router's invariant holds.\<close>

definition ready :: "'l deps \<Rightarrow> conn_ctx \<Rightarrow> chat_message list \<Rightarrow> 'l wt \<Rightarrow> bool" where
  "ready c conn hist s \<longleftrightarrow> wtOK c s \<and> 0 < roomTTL c \<and> ctxRoomID conn \<noteq> []
     \<and> chatLog s (ctxRoomID conn) hist \<and> membersOK s (ctxRoomID conn)"

lemma ready_simps:
  "ready c conn hist s \<Longrightarrow> wtOK c s" "ready c conn hist s \<Longrightarrow> 0 < roomTTL c"
  "ready c conn hist s \<Longrightarrow> ctxRoomID conn \<noteq> []" "ready c conn hist s \<Longrightarrow> chatLog s (ctxRoomID conn) hist"
  "ready c conn hist s \<Longrightarrow> membersOK s (ctxRoomID conn)"
  by (simp_all add: ready_def)

lemma ready_after: "ready c conn hist s \<Longrightarrow> evolves c s s' \<Longrightarrow> still s s' \<Longrightarrow> ready c conn hist s'"
  using still_views(2,4) [of s s'] by (auto simp: ready_def evolves_def)

lemma wp_clock: "wp (f (redisClock s)) Q E s \<Longrightarrow> wp (bnd (memory (\<lambda>s. (redisClock s, s))) f) Q E s"
  by (intro wp_bnd wp_memory) simp

lemma evolves_cache:
  assumes "changesOnly [PDrift, PCache] s s'" and "coherent s'" and "wtOK c s"
  shows "evolves c s s' \<and> still s s'"
proof -
  note k = changesOnly_keeps [OF assms(1)]
  have keep: "redisClock s' = redisClock s" "catalogCache s' = catalogCache s" "conns s' = conns s"
    "nextConn s' = nextConn s" "roomConns s' = roomConns s"
    using k by auto
  have parts: "samePart PRedis s s'" "samePart PHub s s'"
    using changesOnlyD [OF assms(1)] by auto
  have "changesOnly sixParts s s'" by (rule changesOnly_mono [OF assms(1)]) auto
  then show ?thesis
    using assms(2,3) keep hubOK_frame [OF keep(3-5)] catalogOK_frame [OF keep(2,1)]
      live_same [OF parts(1)] parts(2) by (simp add: evolves_def wtOK_def still_def)
qed

context hub_fanout begin

lemma sendBadPayload_outcome:
  "wtOK c s \<Longrightarrow> wp (sendBadPayload h conn msgType e) (\<lambda>_ s'. outcome c conn hist acc s s') E s"
  "wtOK c s \<Longrightarrow> wp (sendErrorToSelf h conn code msg hint) (\<lambda>_ s'. outcome c conn hist acc s s') E s"
  unfolding sendBadPayload_def sendErrorToSelf_def by (simp_all add: sendErrorToSelf_outcome)

lemma handlePlaybackEvent_outcome:
  assumes "ready c conn hist s" and "kind = ''play'' \<and> st = StatePlaying \<or> kind = ''pause'' \<and> st = StatePaused"
  shows "wp (handlePlaybackEvent c h conn dat kind st)
     (\<lambda>_ s'. outcome c conn hist (acceptedPlayback kind conn dat s) s s') E s"
proof (cases "decodeTime dat")
  case None
  then show ?thesis
    unfolding handlePlaybackEvent_def
    using sendBadPayload_outcome ready_simps(1) [OF assms(1)] by simp
next
  case (Some t)
  let ?frame = "PlaybackEvent kind t (ctxUserID conn) (redisClock s)"
  have acc: "acceptedPlayback kind conn dat s = Some ?frame" by (simp add: acceptedPlayback_def Some)
  show ?thesis
    unfolding handlePlaybackEvent_def Some option.case acc
    by (intro wp_clock write_announce ready_simps [OF assms(1)])
      (use assms(2) in \<open>auto simp: textField_def floatField_def intField_def Let_def\<close>)
qed

lemma AllowSeek_still:
  assumes "ready c conn hist s" and "AllowSeek c u s = (ok, s1)"
  shows "evolves c s s1 \<and> still s s1 \<and> ready c conn hist s1 \<and> redisClock s1 = redisClock s"
proof -
  have only: "changesOnly [PLimiter] s s1" using limiter_frames(1) [of s c u] assms(2) by simp
  have "evolves c s s1 \<and> still s s1"
    by (rule evolves_private [OF only]) (use ready_simps(1) [OF assms(1)] in simp_all)
  then show ?thesis using ready_after [OF assms(1)] by (simp add: evolves_def)
qed

lemma AllowChat_still:
  assumes "ready c conn hist s" and "AllowChat c u s = (ok, s1)"
  shows "evolves c s s1 \<and> still s s1 \<and> ready c conn hist s1 \<and> redisClock s1 = redisClock s"
proof -
  have only: "changesOnly [PLimiter] s s1" using limiter_frames(2) [of s c u] assms(2) by simp
  have "evolves c s s1 \<and> still s s1"
    by (rule evolves_private [OF only]) (use ready_simps(1) [OF assms(1)] in simp_all)
  then show ?thesis using ready_after [OF assms(1)] by (simp add: evolves_def)
qed

text \<open>A prefix that nobody notices may be dropped from the outcome.\<close>

lemma after_still:
  assumes "evolves c s s1" and "still s s1"
    and "wp m (\<lambda>_ s'. outcome c conn hist acc s1 s') E s1"
  shows "wp m (\<lambda>_ s'. outcome c conn hist acc s s') E s1"
  by (rule wp_mono [OF assms(3)]) (use outcome_after [OF assms(1,2)] in simp_all)

lemma handleSeek_outcome:
  assumes "ready c conn hist s"
  shows "wp (handleSeek c h conn dat)
     (\<lambda>_ s'. outcome c conn hist
        (if fst (AllowSeek c (ctxUserID conn) s) then acceptedPlayback ''seek'' conn dat s else None) s s') E s"
proof -
  obtain ok s1 where ask: "AllowSeek c (ctxUserID conn) s = (ok, s1)" by force
  note a = AllowSeek_still [OF assms ask]
  have ok1: "wtOK c s1" using a ready_simps(1) by blast
  have body: "wp (case decodeTime dat of
          None \<Rightarrow> sendBadPayload h conn ''seek'' (decodeErrorText c dat)
        | Some t \<Rightarrow>
            bnd (memory (\<lambda>s. (redisClock s, s))) (\<lambda>nowMs.
            ifWritten
              (UpdateRoomState (roomTTL c) (ctxRoomID conn)
                 [(''playback_time'', FieldFloat t), (''playback_time_updated_at'', FieldInt nowMs)])
              (bnd (memory (Invalidate (ctxRoomID conn))) (\<lambda>_.
               logged (fanBroadcast h (ctxRoomID conn)
                 (PlaybackEvent ''seek'' t (ctxUserID conn) nowMs) (ctxUserID conn))))))
      (\<lambda>_ s'. outcome c conn hist (acceptedPlayback ''seek'' conn dat s) s1 s') E s1"
  proof (cases "decodeTime dat")
    case (Some t)
    then have acc: "acceptedPlayback ''seek'' conn dat s = Some (PlaybackEvent ''seek'' t (ctxUserID conn) (redisClock s1))"
      using a by (simp add: acceptedPlayback_def)
    show ?thesis
      unfolding Some option.case acc
      by (intro wp_clock write_announce ready_simps [OF conjunct1 [OF conjunct2 [OF conjunct2 [OF a]]]])
        (auto simp: floatField_def intField_def Let_def)
  qed (simp add: sendBadPayload_outcome ok1)
  show ?thesis
    unfolding handleSeek_def
    by (intro wp_bnd wp_memory wp_if; simp add: ask)
      (intro after_still [OF conjunct1 [OF a] conjunct1 [OF conjunct2 [OF a]]] body
        sendBadPayload_outcome ok1)+
qed

lemma handleReaction_outcome:
  assumes "ready c conn hist s"
  shows "wp (handleReaction c h conn dat) (\<lambda>_ s'. outcome c conn hist (acceptedReaction conn dat) s s') E s"
proof -
  note ok = ready_simps(1) [OF assms]
  have send: "wp (logged (fanBroadcast h (ctxRoomID conn) (ChatReactionOut (ctxUserID conn) e) []))
      (\<lambda>_ s'. outcome c conn hist (Some (ChatReactionOut (ctxUserID conn) e)) s s') E s" for e
    by (rule broadcast_outcome [OF ok evolves_refl [OF ok] samePart_refl ready_simps(3) [OF assms]]) simp_all
  show ?thesis
    unfolding handleReaction_def acceptedReaction_def
    by (cases "decodeText ''emoji'' dat")
      (simp_all add: sendBadPayload_outcome ok send wp_ret outcome_refl)
qed

lemma handleChat_outcome:
  assumes "ready c conn hist s"
  shows "wp (handleChat c h newID conn dat) (\<lambda>_ s'. outcome c conn hist (acceptedChat c newID conn dat s) s s') E s"
proof (cases "decodeText ''body'' dat")
  case None
  then show ?thesis
    unfolding handleChat_def using ready_simps(1) [OF assms] by (simp add: sendBadPayload_outcome)
next
  case (Some body)
  obtain ok s1 where ask: "AllowChat c (ctxUserID conn) s = (ok, s1)" by force
  note a = AllowChat_still [OF assms ask]
  have r1: "ready c conn hist s1" and ok1: "wtOK c s1" using a ready_simps(1) by blast+
  let ?msg = "\<lparr>msgID = newID, msgUserID = ctxUserID conn, msgUsername = ctxUsername conn,
                msgBody = body, msgTS = redisClock s1\<rparr>"
  have stores: "wp (ifWritten (AppendMessage (roomTTL c) (ctxRoomID conn) ?msg)
       (logged (fanBroadcast h (ctxRoomID conn) (ChatMessageOut ?msg) [])))
      (\<lambda>_ s'. outcome c conn hist (Some (ChatMessageOut ?msg)) s1 s') E s1"
    unfolding ifWritten_def
  proof (rule wp_attempt, rule wp_mono [OF wp_repo [OF memoryKept_repo(11)
        AppendMessage_spec [OF ready_simps(2) [OF r1] ready_simps(4) [OF r1]]]])
    let ?r = "ctxRoomID conn"
    fix u s2
    assume "(chatLog s2 ?r (hist @ [?msg]) \<and> (\<forall>k. k \<noteq> KeyRoomMessages ?r \<longrightarrow> live s2 k = live s1 k)
        \<and> redisClock s2 = redisClock s1) \<and> changesOnly [PRedis] s1 s2"
    then have s2: "chatLog s2 ?r (hist @ [?msg])" "\<And>k. k \<noteq> KeyRoomMessages ?r \<Longrightarrow> live s2 k = live s1 k"
      "redisClock s2 = redisClock s1" "changesOnly [PRedis] s1 s2" by auto
    note w = evolves_redis [OF ok1 s2(4,3)]
    have "storedFrame ?r hist (ChatMessageOut ?msg) s1 s'" if "live s' = live s2" for s'
      using s2(1,2) that by (simp add: chatLog_def listOf_def)
    then show "wp (case Inr u of Inl _ \<Rightarrow> ret () | Inr _ \<Rightarrow> logged (fanBroadcast h ?r (ChatMessageOut ?msg) []))
        (\<lambda>_ s'. outcome c conn hist (Some (ChatMessageOut ?msg)) s1 s') E s2"
      using w s2(2) by (auto intro!: broadcast_outcome [OF ok1 _ _ ready_simps(3) [OF r1]])
  next
    fix e s2
    assume "((\<forall>k. live s2 k = live s1 k) \<and> redisClock s2 = redisClock s1) \<and> changesOnly [PRedis] s1 s2"
    then have s2: "live s2 = live s1" "redisClock s2 = redisClock s1" "changesOnly [PRedis] s1 s2" by auto
    note w = evolves_redis [OF ok1 s2(3,2)]
    have "outcome c conn hist (Some (ChatMessageOut ?msg)) s1 s2"
      by (rule outcome_still) (use w s2(1) in \<open>simp_all add: still_def\<close>)
    then show "wp (case Inl e of Inl _ \<Rightarrow> ret () | Inr _ \<Rightarrow> logged (fanBroadcast h (ctxRoomID conn) (ChatMessageOut ?msg) []))
        (\<lambda>_ s'. outcome c conn hist (Some (ChatMessageOut ?msg)) s1 s') E s2"
      by (auto intro: wp_ret)
  qed
  have acc: "acceptedChat c newID conn dat s =
      (if length body \<le> 500 \<and> ok then Some (ChatMessageOut ?msg) else None)"
    using a by (simp add: acceptedChat_def Some ask)
  show ?thesis
  proof (cases "500 < length body")
    case True
    then show ?thesis
      unfolding handleChat_def Some option.case chatBodyCharLimit_def
      using ready_simps(1) [OF assms] by (simp add: sendBadPayload_outcome)
  next
    case False
    then have len: "length body \<le> 500" by simp
    have "wp (if \<not> ok then sendErrorToSelf h conn ErrCodeRateLimited ''chat rate limit exceeded (5/sec)'' []
            else bnd (memory (\<lambda>s. (redisClock s, s))) (\<lambda>nowMs.
              let msg = \<lparr>msgID = newID, msgUserID = ctxUserID conn, msgUsername = ctxUsername conn,
                         msgBody = body, msgTS = nowMs\<rparr> in
              ifWritten (AppendMessage (roomTTL c) (ctxRoomID conn) msg)
                (logged (fanBroadcast h (ctxRoomID conn) (ChatMessageOut msg) []))))
          (\<lambda>_ s'. outcome c conn hist (acceptedChat c newID conn dat s) s s') E s1"
      unfolding acc
      by (rule after_still [OF conjunct1 [OF a] conjunct1 [OF conjunct2 [OF a]]])
        (use stores len ok1 in \<open>auto intro!: wp_if wp_clock simp: sendBadPayload_outcome Let_def\<close>)
    then show ?thesis
      unfolding handleChat_def Some option.case chatBodyCharLimit_def
      using False by (auto intro!: wp_bnd wp_memory simp: ask)
  qed
qed

lemma handleTimeTick_outcome:
  assumes "ready c conn hist s"
  shows "wp (handleTimeTick c h conn dat) (\<lambda>_ s'. outcome c conn hist acc s s') E s"
proof -
  let ?r = "ctxRoomID conn" and ?u = "ctxUserID conn"
  note ok = ready_simps(1) [OF assms]
  have coh: "coherent s" using ok by (simp add: wtOK_def)
  let ?answer = "\<lambda>res. case res of
      Inl _ \<Rightarrow> ret ()
    | Inr None \<Rightarrow> ret ()
    | Inr (Some k) \<Rightarrow>
       (case corrSeverity k of
          DriftPersistent \<Rightarrow>
            bnd (logged (RoomCache_GetRoom GetRoom ?r)) (\<lambda>_.
            sendErrorToSelf h conn ErrCodePersistentDrift
              ''drift exceeds correction threshold for 5 consecutive ticks'' ''reload'')
        | DriftNone \<Rightarrow> ret ()
        | _ \<Rightarrow> logged (fanSendTo h ?r ?u (PlaybackCorrection (corrTime k) (corrTS k))))"
  have cached: "wp (RoomCache_GetRoom GetRoom ?r) (\<lambda>_ s2. evolves c s1 s2 \<and> still s1 s2)
     (\<lambda>_ s2. evolves c s1 s2 \<and> still s1 s2) s1" if "wtOK c s1" for s1
  proof -
    have "coherent s1" using that by (simp add: wtOK_def)
    moreover have "changesOnly [PDrift, PCache] s1 s2" if "changesOnly [PCache] s1 s2" for s2
      by (rule changesOnly_mono [OF that]) simp
    ultimately show ?thesis
      using that by (auto intro!: wp_mono [OF repo.cached_read] dest: evolves_cache)
  qed
  have persistent: "wp (bnd (logged (RoomCache_GetRoom GetRoom ?r)) (\<lambda>_.
            sendErrorToSelf h conn ErrCodePersistentDrift
              ''drift exceeds correction threshold for 5 consecutive ticks'' ''reload''))
      (\<lambda>_ s'. outcome c conn hist acc s1 s') E s1" if "wtOK c s1" for s1
  proof (rule wp_bnd, rule wp_logged)
    show "wp (RoomCache_GetRoom GetRoom ?r)
       (\<lambda>_. wp (sendErrorToSelf h conn ErrCodePersistentDrift
              ''drift exceeds correction threshold for 5 consecutive ticks'' ''reload'')
          (\<lambda>_ s'. outcome c conn hist acc s1 s') E)
       (\<lambda>_. wp (sendErrorToSelf h conn ErrCodePersistentDrift
              ''drift exceeds correction threshold for 5 consecutive ticks'' ''reload'')
          (\<lambda>_ s'. outcome c conn hist acc s1 s') E) s1"
      by (rule wp_mono [OF cached [OF that]])
        (auto intro!: after_still sendBadPayload_outcome simp: evolves_def)
  qed
  have answer: "wp (?answer res) (\<lambda>_ s'. outcome c conn hist acc s s') E s1"
    if "evolves c s s1 \<and> still s s1" for res s1
  proof -
    have ok1: "wtOK c s1" using that by (simp add: evolves_def)
    have "wp (?answer res) (\<lambda>_ s'. outcome c conn hist acc s1 s') E s1"
      by (auto split: sum.split option.split drift_severity.split intro!: wp_ret outcome_refl ok1
          persistent sendErrorToSelf_outcome)
    then show ?thesis using after_still that by blast
  qed
  have tick: "wp (OnTimeTick (rounding c) (RoomCache_GetRoom GetRoom) ?r ?u t now)
      (\<lambda>_ s1. evolves c s s1 \<and> still s s1) (\<lambda>_ s1. evolves c s s1 \<and> still s s1) s" for t now
  proof (cases "suspended (driftOf s (memberKey ?r ?u))")
    case True
    then show ?thesis
      using evolves_private [of "[PDrift]" s _ c] ok
      by (intro wp_mono [OF repo.cached.OnTimeTick_suspended [OF True, where E = "\<lambda>_ _. False"]]) simp_all
  next
    case False
    then show ?thesis
      by (intro wp_mono [OF repo.cached.OnTimeTick_refines [OF coh False]])
        (use evolves_cache [OF _ _ ok] in blast)+
  qed
  show ?thesis
  proof (cases "decodeTime dat")
    case (Some t)
    show ?thesis
      unfolding handleTimeTick_def Some option.case
      by (intro wp_clock wp_attempt wp_mono [OF tick] answer)
  qed (simp add: handleTimeTick_def sendBadPayload_outcome ok)
qed

text \<open>Handlers that change what is played: validate first, then write and announce.\<close>

lemma ifValid_outcome:
  assumes ok: "wtOK c s"
    and go: "\<And>s1. evolves c s s1 \<Longrightarrow> still s s1 \<Longrightarrow> catalogAccepts c s sid pl ep tr \<Longrightarrow>
       wp next (\<lambda>_ s'. outcome c conn hist acc s s') E s1"
  shows "wp (ifValid h conn (ValidateEpisode c sid pl ep tr []) code refusal next)
     (\<lambda>_ s'. outcome c conn hist acc s s') E s"
proof -
  obtain answer s1 where ask: "ValidateEpisode c sid pl ep tr [] s = (answer, s1)" by force
  have e: "evolves c s s1" "still s s1"
    using evolves_catalog [OF ok, of sid pl ep tr "[]"] by (simp_all add: ask)
  have ok1: "wtOK c s1" using e by (simp add: evolves_def)
  have self: "wp (sendErrorToSelf h conn code' msg []) (\<lambda>_ s'. outcome c conn hist acc s s') E s1" for code' msg
    by (rule after_still [OF e]) (rule sendBadPayload_outcome [OF ok1])
  show ?thesis
  proof (cases answer)
    case None
    then show ?thesis unfolding ifValid_def by (intro wp_bnd wp_memory) (simp add: ask self)
  next
    case (Some res)
    then have "resultValid res \<Longrightarrow> catalogAccepts c s sid pl ep tr" by (simp add: catalogAccepts_def ask)
    then show ?thesis
      unfolding ifValid_def using go [OF e] Some
      by (intro wp_bnd wp_memory) (simp add: ask self)
  qed
qed

lemma change_outcome:
  assumes "ready c conn hist s" and dec: "decodeText field dat = Some v" "v \<noteq> []"
    and sel: "\<And>rm. sel rm v = (pl rm, ep rm, tr rm)"
    and fields: "\<And>rm now by. foldl setField rm (delta @ [(''playback_time'', FieldFloat 0),
         (''playback_state'', FieldText StatePaused), (''playback_time_updated_at'', FieldInt now)])
       = applyFrame now (RoomStateChanged field v by) rm"
  shows "wp (attempt (GetRoom (ctxRoomID conn)) (\<lambda>res. case res of
              Inl _ \<Rightarrow> ret ()
            | Inr rm \<Rightarrow>
                ifValid h conn (ValidateEpisode c (roomAnimeID rm) (pl rm) (ep rm) (tr rm) []) code (refusal rm)
                  (applyStateChange c h conn delta field v)))
     (\<lambda>_ s'. outcome c conn hist (acceptedChange c field sel conn dat s) s s') E s"
proof -
  note ok = ready_simps(1) [OF assms(1)]
  let ?frame = "RoomStateChanged field v (ctxUserID conn)"
  have applied: "wp (applyStateChange c h conn delta field v) (\<lambda>_ s'. outcome c conn hist (Some ?frame) s s') E s1"
    if s1: "evolves c s s1" "still s s1" for s1
  proof (rule after_still [OF s1])
    note r1 = ready_after [OF assms(1) s1]
    show "wp (applyStateChange c h conn delta field v) (\<lambda>_ s'. outcome c conn hist (Some ?frame) s1 s') E s1"
      unfolding applyStateChange_def
      by (intro wp_clock write_announce ready_simps [OF r1] fields) simp_all
  qed
  have found: "wp (ifValid h conn (ValidateEpisode c (roomAnimeID rm) (pl rm) (ep rm) (tr rm) []) code (refusal rm)
                  (applyStateChange c h conn delta field v))
     (\<lambda>_ s'. outcome c conn hist (acceptedChange c field sel conn dat s) s s') E s"
    if rm: "storedRoom s (ctxRoomID conn) = Some rm" for rm
  proof (rule ifValid_outcome [OF ok])
    fix s1
    assume s1: "evolves c s s1" "still s s1" and "catalogAccepts c s (roomAnimeID rm) (pl rm) (ep rm) (tr rm)"
    then have "acceptedChange c field sel conn dat s = Some ?frame"
      by (simp add: acceptedChange_def dec rm sel)
    then show "wp (applyStateChange c h conn delta field v)
       (\<lambda>_ s'. outcome c conn hist (acceptedChange c field sel conn dat s) s s') E s1"
      using applied [OF s1] by simp
  qed
  show ?thesis
    by (rule wp_attempt, rule wp_mono [OF GetRoom_spec])
      (auto simp: found outcome_refl ok intro: wp_ret)
qed

lemma handleChange_outcome:
  assumes "ready c conn hist s"
  shows "wp (handleChangeEpisode c h conn dat) (\<lambda>_ s'. outcome c conn hist
      (acceptedChange c ''episode_id'' (\<lambda>rm v. (roomPlayer rm, v, roomTranslationID rm)) conn dat s) s s') E s"
    and "wp (handleChangePlayer c h conn dat) (\<lambda>_ s'. outcome c conn hist
      (acceptedChange c ''player'' (\<lambda>rm v. (v, [], [])) conn dat s) s s') E s"
    and "wp (handleChangeTranslation c h conn dat) (\<lambda>_ s'. outcome c conn hist
      (acceptedChange c ''translation_id'' (\<lambda>rm v. (roomPlayer rm, roomEpisodeID rm, v)) conn dat s) s s') E s"
proof -
  note bad = sendBadPayload_outcome [OF ready_simps(1) [OF assms]]
  show "wp (handleChangeEpisode c h conn dat) (\<lambda>_ s'. outcome c conn hist
      (acceptedChange c ''episode_id'' (\<lambda>rm v. (roomPlayer rm, v, roomTranslationID rm)) conn dat s) s s') E s"
  proof (cases "decodeText ''episode_id'' dat")
    case (Some v)
    show ?thesis
    proof (cases "v = []")
      case False
      show ?thesis
        unfolding handleChangeEpisode_def Some option.case if_not_P [OF False]
        by (rule change_outcome [OF assms Some False])
          (simp_all add: textField_def floatField_def intField_def Let_def)
    qed (simp add: handleChangeEpisode_def Some bad)
  qed (simp add: handleChangeEpisode_def bad)
  show "wp (handleChangePlayer c h conn dat) (\<lambda>_ s'. outcome c conn hist
      (acceptedChange c ''player'' (\<lambda>rm v. (v, [], [])) conn dat s) s s') E s"
  proof (cases "decodeText ''player'' dat")
    case (Some v)
    show ?thesis
    proof (cases "v = []")
      case False
      show ?thesis
        unfolding handleChangePlayer_def Some option.case if_not_P [OF False]
        by (rule change_outcome [OF assms Some False, where ep = "\<lambda>_. []" and tr = "\<lambda>_. []" and pl = "\<lambda>_. v"])
          (simp_all add: textField_def floatField_def intField_def Let_def)
    qed (simp add: handleChangePlayer_def Some bad)
  qed (simp add: handleChangePlayer_def bad)
  show "wp (handleChangeTranslation c h conn dat) (\<lambda>_ s'. outcome c conn hist
      (acceptedChange c ''translation_id'' (\<lambda>rm v. (roomPlayer rm, roomEpisodeID rm, v)) conn dat s) s s') E s"
  proof (cases "decodeText ''translation_id'' dat")
    case (Some v)
    show ?thesis
    proof (cases "v = []")
      case False
      show ?thesis
        unfolding handleChangeTranslation_def Some option.case if_not_P [OF False]
        by (rule change_outcome [OF assms Some False])
          (simp_all add: textField_def floatField_def intField_def Let_def)
    qed (simp add: handleChangeTranslation_def Some bad)
  qed (simp add: handleChangeTranslation_def bad)
qed

end

section \<open>Heartbeats\<close>

lemma handleHeartbeat_outcome:
  assumes "ready c conn hist s"
  shows "wp (handleHeartbeat c conn) (\<lambda>_ s'. outcome c conn hist acc s s') E s"
proof -
  let ?r = "ctxRoomID conn" and ?u = "ctxUserID conn"
  note ok = ready_simps(1) [OF assms]
  have stamp: "wp (logged (AddMember (roomTTL c) ?r ?u (m\<lparr>metaLastSeenAt := redisClock s div 1000\<rparr>)))
      (\<lambda>_ s'. outcome c conn hist acc s s') E s" if m: "memberMap s ?r ?u = Some m" for m
  proof (rule wp_logged, rule wp_mono [OF wp_repo [OF memoryKept_repo(6)
        AddMember_spec [OF ready_simps(2) [OF assms] ready_simps(5) [OF assms]]]])
    fix a s'
    assume "(memberMap s' ?r = (memberMap s ?r)(?u \<mapsto> m\<lparr>metaLastSeenAt := redisClock s div 1000\<rparr>)
        \<and> membersOK s' ?r \<and> (\<forall>k. k \<noteq> KeyRoomMembers ?r \<longrightarrow> live s' k = live s k)
        \<and> redisClock s' = redisClock s) \<and> changesOnly [PRedis] s s'"
    then have s': "memberMap s' ?r = (memberMap s ?r)(?u \<mapsto> m\<lparr>metaLastSeenAt := redisClock s div 1000\<rparr>)"
        "\<And>k. k \<noteq> KeyRoomMembers ?r \<Longrightarrow> live s' k = live s k"
        "redisClock s' = redisClock s" "changesOnly [PRedis] s s'" "membersOK s' ?r" by auto
    note w = evolves_redis [OF ok s'(4,3)]
    have "evolves c s s' \<and> samePart PHub s s'" by (rule w) (rule s'(2), simp)
    then show "outcome c conn hist acc s s'"
      using s'(1,2,5) m by (auto simp: outcome_def quiet_def stamped_def)
  next
    fix e s'
    assume "((\<forall>k. live s' k = live s k) \<and> redisClock s' = redisClock s) \<and> changesOnly [PRedis] s s'"
    then have s': "live s' = live s" "redisClock s' = redisClock s" "changesOnly [PRedis] s s'" by auto
    have "evolves c s s' \<and> samePart PHub s s'" by (rule evolves_redis [OF ok s'(3,2)]) (simp add: s'(1))
    then show "outcome c conn hist acc s s'"
      using s'(1) by (intro outcome_still) (simp_all add: still_def)
  qed
  have body: "wp (case find (\<lambda>m. memberUserID m = ?u) members of
            None \<Rightarrow> ret ()
          | Some m \<Rightarrow>
              bnd (memory (\<lambda>s. (redisClock s, s))) (\<lambda>nowMs.
              logged (AddMember (roomTTL c) ?r ?u ((memberMeta m)\<lparr>metaLastSeenAt := nowMs div 1000\<rparr>))))
       (\<lambda>_ s'. outcome c conn hist acc s s') E s"
    if members: "\<And>u meta. \<lparr>memberUserID = u, memberMeta = meta\<rparr> \<in> set members \<Longrightarrow> memberMap s ?r u = Some meta"
    for members
  proof (cases "find (\<lambda>m. memberUserID m = ?u) members")
    case (Some m)
    then have "m \<in> set members" "memberUserID m = ?u" using find_SomeD by fastforce+
    moreover have "m = \<lparr>memberUserID = memberUserID m, memberMeta = memberMeta m\<rparr>" by simp
    ultimately have "memberMap s ?r ?u = Some (memberMeta m)" using members by metis
    from stamp [OF this] show ?thesis unfolding Some option.case by (intro wp_clock)
  qed (simp add: wp_ret outcome_refl ok)
  show ?thesis
    unfolding handleHeartbeat_def
    by (rule wp_attempt, rule wp_mono [OF ListMembers_spec [OF ready_simps(5) [OF assms]]])
      (auto simp: outcome_refl ok intro!: wp_ret body)
qed

context hub_fanout begin

lemma Dispatch_outcome:
  assumes "ready c conn hist s"
  shows "wp (Dispatch c h newID conn env) (\<lambda>_ s'. outcome c conn hist (acceptedFrame c newID conn env s) s s') E s"
proof -
  note cases = handlePlaybackEvent_outcome [OF assms, of "''play''" StatePlaying]
    handlePlaybackEvent_outcome [OF assms, of "''pause''" StatePaused]
    handleSeek_outcome [OF assms] handleTimeTick_outcome [OF assms] handleChange_outcome [OF assms]
    handleChat_outcome [OF assms] handleReaction_outcome [OF assms] handleHeartbeat_outcome [OF assms]
    sendBadPayload_outcome(2) [OF ready_simps(1) [OF assms]]
  show ?thesis
    unfolding Dispatch_def acceptedFrame_def
    by (intro wp_if; simp add: cases msg_defs)
qed

end

text \<open>
  C2. The router's contract, for every message of every type and any failure of Redis or of the
  catalog: the handler returns; the invariant of hub, room cache and catalog cache holds after it;
  and either the one frame that the message deserves is in the buffers of its whole audience and
  what it says is stored in Redis, or Redis is unchanged but for the sender's own \<open>last_seen_at\<close> and
  only the sender's connections may have got an answer. Nothing is announced that is not stored, and
  nothing is stored that is not announced.
\<close>

theorem router_contract:
  assumes "ready c conn hist s"
  shows "wp (Dispatch c theHub newID conn env)
     (\<lambda>_ s'. outcome c conn hist (acceptedFrame c newID conn env s) s s') (\<lambda>_ _. False) s"
  by (rule hub.Dispatch_outcome [OF assms])

section \<open>Accepted messages get through\<close>

lemma twp_clock: "twp (f (redisClock s)) Q s \<Longrightarrow> twp (bnd (memory (\<lambda>s. (redisClock s, s))) f) Q s"
  by (intro twp_bnd twp_memory) simp

lemma twp_after_still:
  assumes "evolves c s s1" and "still s s1" and "twp m (\<lambda>_ s'. announced conn hist frame s1 s') s1"
  shows "twp m (\<lambda>_ s'. announced conn hist frame s s') s1"
  by (rule twp_mono [OF assms(3)])
    (use announced_after [OF assms(2)] assms(1) in \<open>simp add: evolves_def\<close>)

definition writable :: "(string \<times> field_value) list \<Rightarrow> bool" where
  "writable fs \<longleftrightarrow> fs \<noteq> [] \<and> set (map fst fs) \<subseteq> set allowedRoomFields"

context hub_fanout begin

lemma twp_playback:
  assumes "ready c conn hist s" and "hashOf s (KeyRoom (ctxRoomID conn)) \<noteq> None"
    and "kind = ''play'' \<and> st = StatePlaying \<or> kind = ''pause'' \<and> st = StatePaused"
    and "acceptedPlayback kind conn dat s = Some frame"
  shows "twp (handlePlaybackEvent c h conn dat kind st) (\<lambda>_ s'. announced conn hist frame s s') s"
proof -
  obtain t where t: "decodeTime dat = Some t" "frame = PlaybackEvent kind t (ctxUserID conn) (redisClock s)"
    using assms(4) by (auto simp: acceptedPlayback_def)
  show ?thesis
    unfolding handlePlaybackEvent_def t option.case
    by (intro twp_clock twp_write_announce [OF ready_simps(1-3) [OF assms(1)] _ _ _ assms(2)])
      (use assms(3) in \<open>auto simp: textField_def floatField_def intField_def Let_def allowedRoomFields_def\<close>)
qed

lemma twp_seek:
  assumes "ready c conn hist s" and "storedRoom s (ctxRoomID conn) = Some rm"
    and "fst (AllowSeek c (ctxUserID conn) s)" and "acceptedPlayback ''seek'' conn dat s = Some frame"
  shows "twp (handleSeek c h conn dat) (\<lambda>_ s'. announced conn hist frame s s') s"
proof -
  obtain s1 where ask: "AllowSeek c (ctxUserID conn) s = (True, s1)"
    using assms(3) by (cases "AllowSeek c (ctxUserID conn) s") auto
  note a = AllowSeek_still [OF assms(1) ask]
  have r1: "ready c conn hist s1" and e: "evolves c s s1" and st: "still s s1" using a by blast+
  have room: "storedRoom s1 (ctxRoomID conn) = Some rm" using still_views(1) [OF st] assms(2) by simp
  obtain t where t: "decodeTime dat = Some t" "frame = PlaybackEvent ''seek'' t (ctxUserID conn) (redisClock s1)"
    using assms(4) a by (auto simp: acceptedPlayback_def)
  have "twp (bnd (memory (\<lambda>s. (redisClock s, s))) (\<lambda>nowMs.
            ifWritten
              (UpdateRoomState (roomTTL c) (ctxRoomID conn)
                 [(''playback_time'', FieldFloat t), (''playback_time_updated_at'', FieldInt nowMs)])
              (bnd (memory (Invalidate (ctxRoomID conn))) (\<lambda>_.
               logged (fanBroadcast h (ctxRoomID conn)
                 (PlaybackEvent ''seek'' t (ctxUserID conn) nowMs) (ctxUserID conn))))))
        (\<lambda>_ s'. announced conn hist frame s s') s1"
    unfolding t
    by (rule twp_after_still [OF e st],
        intro twp_clock twp_write_announce [OF ready_simps(1-3) [OF r1] _ _ _ stored_hash [OF room]])
      (auto simp: floatField_def intField_def Let_def allowedRoomFields_def)
  then show ?thesis
    unfolding handleSeek_def by (intro twp_bnd [of "memory (AllowSeek c (ctxUserID conn))"] twp_memory)
      (simp add: ask t)
qed

lemma twp_reaction:
  assumes "ready c conn hist s" and "acceptedReaction conn dat = Some frame"
  shows "twp (handleReaction c h conn dat) (\<lambda>_ s'. announced conn hist frame s s') s"
proof -
  note ok = ready_simps(1) [OF assms(1)]
  obtain e where e: "decodeText ''emoji'' dat = Some e" "e \<in> set reactionWhitelist"
    "frame = ChatReactionOut (ctxUserID conn) e"
    using assms(2) by (auto simp: acceptedReaction_def split: option.splits if_splits)
  have "twp (logged (fanBroadcast h (ctxRoomID conn) frame [])) (\<lambda>_ s'. announced conn hist frame s s') s"
    by (rule twp_broadcast [OF ok evolves_refl [OF ok] samePart_refl ready_simps(3) [OF assms(1)]])
      (simp_all add: e)
  then show ?thesis using e by (simp add: handleReaction_def)
qed

lemma twp_chat:
  assumes "ready c conn hist s" and "acceptedChat c newID conn dat s = Some frame"
  shows "twp (handleChat c h newID conn dat) (\<lambda>_ s'. announced conn hist frame s s') s"
proof -
  let ?r = "ctxRoomID conn"
  obtain body s1 where body: "decodeText ''body'' dat = Some body" "length body \<le> 500"
    and ask: "AllowChat c (ctxUserID conn) s = (True, s1)"
    using assms(2) by (cases "AllowChat c (ctxUserID conn) s")
      (auto simp: acceptedChat_def split: option.splits if_splits)
  note a = AllowChat_still [OF assms(1) ask]
  have r1: "ready c conn hist s1" and e: "evolves c s s1" and st: "still s s1" using a by blast+
  note ok1 = ready_simps(1) [OF r1]
  let ?msg = "\<lparr>msgID = newID, msgUserID = ctxUserID conn, msgUsername = ctxUsername conn,
                msgBody = body, msgTS = redisClock s1\<rparr>"
  have frame: "frame = ChatMessageOut ?msg"
    using assms(2) body ask a by (simp add: acceptedChat_def)
  have list: "listOf s1 (KeyRoomMessages ?r) \<noteq> None"
    using ready_simps(4) [OF r1] by (simp add: chatLog_def)
  have "twp (ifWritten (AppendMessage (roomTTL c) ?r ?msg) (logged (fanBroadcast h ?r frame [])))
      (\<lambda>_ s'. announced conn hist frame s1 s') s1"
    unfolding ifWritten_def
  proof (rule twp_attempt, rule twp_mono [OF twp_from_wp [OF wp_repo [OF memoryKept_repo(11)
        AppendMessage_spec [OF ready_simps(2) [OF r1] ready_simps(4) [OF r1]]]
        succeeds_AppendMessage [OF ready_simps(3) [OF r1] list]]])
    fix u s2
    assume "(chatLog s2 ?r (hist @ [?msg]) \<and> (\<forall>k. k \<noteq> KeyRoomMessages ?r \<longrightarrow> live s2 k = live s1 k)
        \<and> redisClock s2 = redisClock s1) \<and> changesOnly [PRedis] s1 s2"
    then have s2: "chatLog s2 ?r (hist @ [?msg])" "\<And>k. k \<noteq> KeyRoomMessages ?r \<Longrightarrow> live s2 k = live s1 k"
      "redisClock s2 = redisClock s1" "changesOnly [PRedis] s1 s2" by auto
    have ev: "evolves c s1 s2 \<and> samePart PHub s1 s2"
      by (rule evolves_redis [OF ok1 s2(4,3)]) (rule s2(2), simp)
    have "storedFrame ?r hist frame s1 s'" if "live s' = live s2" for s'
      using s2(1,2) that by (simp add: frame chatLog_def listOf_def)
    then show "twp (case Inr u of Inl _ \<Rightarrow> ret () | Inr _ \<Rightarrow> logged (fanBroadcast h ?r frame []))
        (\<lambda>_ s'. announced conn hist frame s1 s') s2"
      using ev by (auto intro!: twp_broadcast [OF ok1 _ _ ready_simps(3) [OF r1]] simp: frame)
  qed
  from twp_after_still [OF e st this] show ?thesis
    unfolding handleChat_def body(1) option.case
    using body(2) by (intro twp_if twp_bnd [of "memory (AllowChat c (ctxUserID conn))"] twp_memory)
      (auto simp: ask chatBodyCharLimit_def frame Let_def intro!: twp_clock)
qed

lemma twp_change:
  assumes "ready c conn hist s" and room: "storedRoom s (ctxRoomID conn) = Some rm"
    and dec: "decodeText field dat = Some v" "v \<noteq> []"
    and sel: "sel rm v = (pl rm, ep rm, tr rm)"
    and acc: "acceptedChange c field sel conn dat s = Some frame"
    and delta: "set (map fst delta) \<subseteq> set allowedRoomFields"
    and fields: "\<And>rm now by. foldl setField rm (delta @ [(''playback_time'', FieldFloat 0),
         (''playback_state'', FieldText StatePaused), (''playback_time_updated_at'', FieldInt now)])
       = applyFrame now (RoomStateChanged field v by) rm"
  shows "twp (attempt (GetRoom (ctxRoomID conn)) (\<lambda>res. case res of
              Inl _ \<Rightarrow> ret ()
            | Inr rm \<Rightarrow>
                ifValid h conn (ValidateEpisode c (roomAnimeID rm) (pl rm) (ep rm) (tr rm) []) code (refusal rm)
                  (applyStateChange c h conn delta field v)))
     (\<lambda>_ s'. announced conn hist frame s s') s"
proof -
  note ok = ready_simps(1) [OF assms(1)]
  have acc': "catalogAccepts c s (roomAnimeID rm) (pl rm) (ep rm) (tr rm)"
    and frame: "frame = RoomStateChanged field v (ctxUserID conn)"
    using acc by (auto simp: acceptedChange_def dec room sel split: if_splits)
  obtain answer s1 where ask: "ValidateEpisode c (roomAnimeID rm) (pl rm) (ep rm) (tr rm) [] s = (answer, s1)"
    by force
  then obtain res where res: "answer = Some res" "resultValid res"
    using acc' by (auto simp: catalogAccepts_def split: option.splits)
  have e: "evolves c s s1" "still s s1"
    using evolves_catalog [OF ok, of "roomAnimeID rm" "pl rm" "ep rm" "tr rm" "[]"] by (simp_all add: ask)
  note r1 = ready_after [OF assms(1) e]
  have room1: "storedRoom s1 (ctxRoomID conn) = Some rm" using still_views(1) [OF e(2)] room by simp
  have "twp (applyStateChange c h conn delta field v) (\<lambda>_ s'. announced conn hist frame s s') s1"
    unfolding applyStateChange_def frame
    by (rule twp_after_still [OF e],
        intro twp_clock twp_write_announce [OF ready_simps(1-3) [OF r1] _ _ _ stored_hash [OF room1]] fields)
      (use delta in \<open>auto simp: allowedRoomFields_def\<close>)
  then show ?thesis
    by (intro twp_attempt twp_GetRoom [OF room])
      (simp add: ifValid_def, intro twp_bnd twp_memory, simp add: ask res)
qed

lemma Dispatch_accepted:
  assumes ready: "ready c conn hist s" and room: "storedRoom s (ctxRoomID conn) = Some rm"
    and acc: "acceptedFrame c newID conn env s = Some frame"
  shows "twp (Dispatch c h newID conn env) (\<lambda>_ s'. announced conn hist frame s s') s"
proof -
  have changes:
    "acceptedChange c ''episode_id'' (\<lambda>rm v. (roomPlayer rm, v, roomTranslationID rm)) conn dat s = Some frame \<Longrightarrow>
       twp (handleChangeEpisode c h conn dat) (\<lambda>_ s'. announced conn hist frame s s') s"
    "acceptedChange c ''player'' (\<lambda>rm v. (v, [], [])) conn dat s = Some frame \<Longrightarrow>
       twp (handleChangePlayer c h conn dat) (\<lambda>_ s'. announced conn hist frame s s') s"
    "acceptedChange c ''translation_id'' (\<lambda>rm v. (roomPlayer rm, roomEpisodeID rm, v)) conn dat s = Some frame \<Longrightarrow>
       twp (handleChangeTranslation c h conn dat) (\<lambda>_ s'. announced conn hist frame s s') s" for dat
  proof -
    have dec: "\<exists>v. decodeText field dat = Some v \<and> v \<noteq> []"
      if "acceptedChange c field sel conn dat s = Some frame" for field sel
      using that by (auto simp: acceptedChange_def split: option.splits if_splits)
    note simps = textField_def floatField_def intField_def Let_def allowedRoomFields_def
    show "twp (handleChangeEpisode c h conn dat) (\<lambda>_ s'. announced conn hist frame s s') s"
      if a: "acceptedChange c ''episode_id'' (\<lambda>rm v. (roomPlayer rm, v, roomTranslationID rm)) conn dat s = Some frame"
    proof -
      obtain v where v: "decodeText ''episode_id'' dat = Some v" "v \<noteq> []" using dec [OF a] by blast
      show ?thesis
        unfolding handleChangeEpisode_def v(1) option.case if_not_P [OF v(2)]
        by (rule twp_change [OF ready room v _ a]) (simp_all add: simps)
    qed
    show "twp (handleChangePlayer c h conn dat) (\<lambda>_ s'. announced conn hist frame s s') s"
      if a: "acceptedChange c ''player'' (\<lambda>rm v. (v, [], [])) conn dat s = Some frame"
    proof -
      obtain v where v: "decodeText ''player'' dat = Some v" "v \<noteq> []" using dec [OF a] by blast
      show ?thesis
        unfolding handleChangePlayer_def v(1) option.case if_not_P [OF v(2)]
        by (rule twp_change [OF ready room v _ a, where ep = "\<lambda>_. []" and tr = "\<lambda>_. []" and pl = "\<lambda>_. v"])
          (simp_all add: simps)
    qed
    show "twp (handleChangeTranslation c h conn dat) (\<lambda>_ s'. announced conn hist frame s s') s"
      if a: "acceptedChange c ''translation_id'' (\<lambda>rm v. (roomPlayer rm, roomEpisodeID rm, v)) conn dat s = Some frame"
    proof -
      obtain v where v: "decodeText ''translation_id'' dat = Some v" "v \<noteq> []" using dec [OF a] by blast
      show ?thesis
        unfolding handleChangeTranslation_def v(1) option.case if_not_P [OF v(2)]
        by (rule twp_change [OF ready room v _ a]) (simp_all add: simps)
    qed
  qed
  note branches = twp_playback [OF ready stored_hash [OF room], of "''play''" StatePlaying]
    twp_playback [OF ready stored_hash [OF room], of "''pause''" StatePaused] twp_seek [OF ready room] changes
    twp_chat [OF ready] twp_reaction [OF ready]
  show ?thesis
    using acc unfolding Dispatch_def acceptedFrame_def
    by (intro twp_if; simp add: branches msg_defs split: if_splits)
qed

end

text \<open>
  C29. Accepted messages get through: when Redis answers and the room exists, a message that deserves
  a frame (well formed, within the rate limit, of an accepted episode, player or translation, a chat
  message of at most 500 bytes, a reaction of the list) has it announced: the frame is buffered for
  everyone in the room (but the sender, for playback) who keeps up, and Redis holds what it says.
\<close>

theorem accepted_is_announced:
  assumes "ready c conn hist s" and "storedRoom s (ctxRoomID conn) = Some rm"
    and "acceptedFrame c newID conn env s = Some frame"
  shows "twp (Dispatch c theHub newID conn env) (\<lambda>_ s'. announced conn hist frame s s') s"
  by (rule hub.Dispatch_accepted [OF assms])

section \<open>A concrete run\<close>

definition demoConn :: conn_ctx where
  "demoConn = \<lparr>ctxRoomID = ''r1'', ctxUserID = ''u1'', ctxUsername = ''Ann''\<rparr>"

definition demoPause :: inbound where
  "demoPause = \<lparr>inType = ''playback:pause'', inData = Some (JObject [(''time'', JNumber 42)])\<rparr>"

lemma demo_live [simp]:
  "live demoState (KeyRoomMessages ''r1'') = None" "live demoState (KeyRoomMembers ''r1'') = None"
proof -
  have "plainID ''r1''" by (simp add: plainID_def)
  then show "live demoState (KeyRoomMessages ''r1'') = None" "live demoState (KeyRoomMembers ''r1'') = None"
    by (simp_all add: demoState_def withRoom_def live_def)
qed

lemma demo_ready: "ready demoDeps demoConn [] demoState"
proof -
  have "hubOK demoState" "coherent demoState" "catalogOK demoDeps demoState"
    by (simp_all add: hubOK_def roomOK_def roomList_def coherent_def freshEntry_def cacheLookup_def catalogOK_def)
  then show ?thesis
    by (simp add: ready_def wtOK_def demoDeps_def demoConn_def chatLog_def membersOK_def listOf_def hashOf_def)
qed

lemma demoPause_frame:
  "acceptedFrame demoDeps newID demoConn demoPause demoState = Some (PlaybackEvent ''pause'' 42 ''u1'' 5000)"
  by (simp add: acceptedFrame_def acceptedPlayback_def demoPause_def demoConn_def msg_defs decodeTime_def
      sameKey_def lower_def)

theorem router_contract_witness:
  "wp (Dispatch demoDeps theHub ''m1'' demoConn demoPause)
     (\<lambda>_ s'. hubOK s' \<and> redisClock s' = 5000) (\<lambda>_ _. False) demoState"
  by (rule wp_mono [OF router_contract [OF demo_ready]]) (simp_all add: outcome_def evolves_def wtOK_def)

theorem accepted_is_announced_witness:
  "twp (Dispatch demoDeps theHub ''m1'' demoConn demoPause)
     (\<lambda>_ s'. storedRoom s' ''r1'' = Some (demoRoom\<lparr>roomTime := 42, roomState := StatePaused\<rparr>)) demoState"
proof -
  have room: "storedRoom demoState (ctxRoomID demoConn) = Some demoRoom" by (simp add: demoConn_def)
  have "demoRoom\<lparr>roomTime := 42, roomUpdatedAtMs := 5000, roomState := StatePaused\<rparr>
      = demoRoom\<lparr>roomTime := 42, roomState := StatePaused\<rparr>"
    by (simp add: demoRoom_def)
  then show ?thesis
    by (intro twp_mono [OF accepted_is_announced [OF demo_ready room demoPause_frame]])
      (simp add: announced_def demoConn_def roomOrBlank_def Let_def)
qed

section \<open>A message to a room that is gone\<close>

text \<open>
  A message that arrives after the room was deleted or has expired brings it back as a stub: a
  play event is stored into a room with an empty id, no anime and no host, which every client that
  asks for the room then gets, and which no user can delete.
\<close>

theorem late_message_resurrects_room:
  assumes "ready c conn hist s" and "live s (KeyRoom (ctxRoomID conn)) = None"
    and "inType env = MsgPlaybackPlay" and "decodeTime (inData env) = Some t"
  shows "twp (bnd (Dispatch c theHub newID conn env) (\<lambda>_. GetRoom (ctxRoomID conn)))
     (\<lambda>rm _. rm = blankRoom\<lparr>roomState := StatePlaying, roomTime := t, roomUpdatedAtMs := redisClock s\<rparr>
        \<and> roomID rm = [] \<and> roomAnimeID rm = [] \<and> roomHost rm = []) s"
proof -
  let ?r = "ctxRoomID conn"
  have gone: "storedRoom s ?r = None" "hashOf s (KeyRoom ?r) \<noteq> None"
    using assms(2) by (simp_all add: storedRoom_def hashOf_def)
  have blank: "roomID blankRoom = []" "roomAnimeID blankRoom = []" "roomHost blankRoom = []"
    by (simp_all add: blankRoom_def fieldsToRoom_def textField_def)
  have run: "Dispatch c theHub newID conn env = handlePlaybackEvent c theHub conn (inData env) ''play'' StatePlaying"
    by (simp add: Dispatch_def assms(3))
  show ?thesis
    unfolding run
  proof (rule twp_bnd, rule twp_mono [OF hub.twp_playback [OF assms(1) gone(2)]])
    show "acceptedPlayback ''play'' conn (inData env) s = Some (PlaybackEvent ''play'' t (ctxUserID conn) (redisClock s))"
      by (simp add: acceptedPlayback_def assms(4))
    fix a :: unit and s'
    assume "announced conn hist (PlaybackEvent ''play'' t (ctxUserID conn) (redisClock s)) s s'"
    then have "storedRoom s' ?r =
        Some (blankRoom\<lparr>roomTime := t, roomUpdatedAtMs := redisClock s, roomState := StatePlaying\<rparr>)"
      by (simp add: announced_def roomOrBlank_def gone(1) Let_def)
    then show "twp (GetRoom ?r)
       (\<lambda>rm _. rm = blankRoom\<lparr>roomState := StatePlaying, roomTime := t, roomUpdatedAtMs := redisClock s\<rparr>
        \<and> roomID rm = [] \<and> roomAnimeID rm = [] \<and> roomHost rm = []) s'"
      by (rule twp_GetRoom) (simp add: blank)
  qed simp
qed

theorem late_message_resurrects_room_witness:
  "twp (bnd (Dispatch demoDeps theHub ''m1'' \<lparr>ctxRoomID = ''gone'', ctxUserID = ''u1'', ctxUsername = ''Ann''\<rparr>
              \<lparr>inType = ''playback:play'', inData = Some (JObject [(''time'', JNumber 42)])\<rparr>) (\<lambda>_. GetRoom ''gone''))
     (\<lambda>rm _. roomTime rm = 42 \<and> roomHost rm = []) (initWT 0)"
proof -
  let ?conn = "\<lparr>ctxRoomID = ''gone'', ctxUserID = ''u1'', ctxUsername = ''Ann''\<rparr>"
  let ?env = "\<lparr>inType = ''playback:play'', inData = Some (JObject [(''time'', JNumber 42)])\<rparr>"
  have "hubOK (initWT 0)" "coherent (initWT 0)" "catalogOK demoDeps (initWT 0)"
    by (simp_all add: hubOK_def roomOK_def roomList_def coherent_def freshEntry_def cacheLookup_def catalogOK_def)
  then have "ready demoDeps ?conn [] (initWT 0)"
    by (simp add: ready_def wtOK_def demoDeps_def chatLog_def membersOK_def listOf_def hashOf_def live_def)
  then have "twp (bnd (Dispatch demoDeps theHub ''m1'' ?conn ?env) (\<lambda>_. GetRoom (ctxRoomID ?conn)))
     (\<lambda>rm _. rm = blankRoom\<lparr>roomState := StatePlaying, roomTime := 42, roomUpdatedAtMs := redisClock (initWT 0 :: unit wt)\<rparr>
        \<and> roomID rm = [] \<and> roomAnimeID rm = [] \<and> roomHost rm = []) (initWT 0)"
    by (rule late_message_resurrects_room)
      (simp_all add: live_def msg_defs decodeTime_def sameKey_def lower_def)
  then show ?thesis by (auto elim!: twp_mono)
qed

end
