(* ===== verification/WT_Session.thy ===== *)
theory WT_Session
  imports WT_Rooms WT_Dispatch WT_Repo
begin

text \<open>
  WebSocket sessions (\<^verbatim>\<open>internal/handler/websocket.go\<close>): the upgrade of a request to a connection, in
  the three stretches that other requests can interleave with (\<open>admit\<close>: everything up to the
  snapshot; \<open>register\<close>: the registration with the hub, which starts the pumps; \<open>installHooks\<close>: the
  callbacks and the \<open>member:joined\<close> broadcast), and the teardown hook. The verdict on the token is an
  argument (\<open>None\<close>: missing or invalid), and so is whether the \<^verbatim>\<open>Upgrader\<close> accepts the request.
\<close>

section \<open>Teardown\<close>

definition makeOnClose :: "'l deps \<Rightarrow> 'l fanout \<Rightarrow> string \<Rightarrow> string \<Rightarrow> ('l, unit) wprog" where
  "makeOnClose c h r u =
     bnd (memory (\<lambda>s. (u \<in> set (MemberUserIDs r s), s))) (\<lambda>stillPresent.
     if stillPresent then ret ()
     else
       bnd (memory (OnDisconnect r u)) (\<lambda>_.
       bnd (logged (RemoveMember (roomTTL c) r u)) (\<lambda>_.
       bnd (logged (fanBroadcast h r (MemberLeft u) [])) (\<lambda>_.
       bnd (memory (\<lambda>s. (MemberCount r s = 0, s))) (\<lambda>empty.
       if empty then memory (Start c r) else ret ())))))"

definition disconnect :: "'l deps \<Rightarrow> nat \<Rightarrow> ('l, unit) wprog" where
  "disconnect c i = Unregister (makeOnClose c theHub) i"

section \<open>The upgrade\<close>

datatype upgrade_reply =
    WSUnauthorized
  | WSBadRequest string
  | WSError err
  | WSNotFound
  | WSRefused
  | WSCapacity
  | WSDropped

record admission =
  admRoom :: string
  admUser :: string
  admName :: string
  admMeta :: member_meta
  admSnapshot :: room_snapshot

definition capacityFull :: "'l deps \<Rightarrow> string \<Rightarrow> 'l wt \<Rightarrow> bool" where
  "capacityFull c r s \<longleftrightarrow> 0 < maxMembers c \<and> maxMembers c \<le> MemberCount r s"

definition newMeta :: "string \<Rightarrow> int \<Rightarrow> member_meta" where
  "newMeta name now = \<lparr>metaUsername = name, metaAvatarURL = [], metaJoinedAt = now div 1000,
     metaLastSeenAt = now div 1000\<rparr>"

definition buildSnapshotPayload :: "string \<Rightarrow> ('l, room_snapshot) wprog" where
  "buildSnapshotPayload r = RoomService_Get r"

definition admit ::
  "'l deps \<Rightarrow> claims option \<Rightarrow> string \<Rightarrow> bool \<Rightarrow> ('l, upgrade_reply + admission) wprog" where
  "admit c token r upgraded =
     (case token of
        None \<Rightarrow> ret (Inl WSUnauthorized)
      | Some cl \<Rightarrow>
          let u = claimUserID cl; name = claimUsername cl in
          if r = [] then ret (Inl (WSBadRequest ''room query param is required''))
          else
            attempt (Exists r) (\<lambda>res. case res of
              Inl e \<Rightarrow> ret (Inl (WSError e))
            | Inr present \<Rightarrow>
                if \<not> present then ret (Inl WSNotFound)
                else if \<not> upgraded then ret (Inl WSRefused)
                else
                  bnd (memory (\<lambda>s. (capacityFull c r s, s))) (\<lambda>full.
                  if full then ret (Inl WSCapacity)
                  else
                    bnd (memory (Cancel r)) (\<lambda>_.
                    bnd (memory (\<lambda>s. (redisClock s, s))) (\<lambda>now.
                    let meta = newMeta name now in
                    attempt (AddMember (roomTTL c) r u meta) (\<lambda>res. case res of
                      Inl _ \<Rightarrow> ret (Inl WSDropped)
                    | Inr _ \<Rightarrow>
                        attempt (buildSnapshotPayload r) (\<lambda>res. case res of
                          Inl _ \<Rightarrow>
                            bnd (logged (RemoveMember (roomTTL c) r u)) (\<lambda>_. ret (Inl WSDropped))
                        | Inr snap \<Rightarrow>
                            ret (Inr \<lparr>admRoom = r, admUser = u, admName = name, admMeta = meta,
                                      admSnapshot = snap\<rparr>))))))))"

definition register :: "'l deps \<Rightarrow> admission \<Rightarrow> ('l, nat option) wprog" where
  "register c a =
     attempt (RegisterWithFirstFrame (admRoom a) (admUser a) (admName a) (Some (RoomSnapshotEnv (admSnapshot a))))
       (\<lambda>res. case res of
          Inl _ \<Rightarrow> bnd (logged (RemoveMember (roomTTL c) (admRoom a) (admUser a))) (\<lambda>_. ret None)
        | Inr i \<Rightarrow> ret (Some i))"

definition hookConn :: "nat \<Rightarrow> 'l wt \<Rightarrow> unit \<times> 'l wt" where
  "hookConn i s = ((), s\<lparr>conns := (conns s)(i := map_option (\<lambda>cn. cn\<lparr>connHooks := True\<rparr>) (conns s i))\<rparr>)"

definition broadcastMemberJoined :: "'l fanout \<Rightarrow> string \<Rightarrow> string \<Rightarrow> member_meta \<Rightarrow> ('l, unit) wprog" where
  "broadcastMemberJoined h r u meta =
     bnd (logged (fanBroadcast h r (MemberJoined u meta) u)) (\<lambda>_.
     logged (CountMembers r))"

definition installHooks :: "'l fanout \<Rightarrow> admission \<Rightarrow> nat \<Rightarrow> ('l, unit) wprog" where
  "installHooks h a i =
     bnd (memory (hookConn i)) (\<lambda>_.
     broadcastMemberJoined h (admRoom a) (admUser a) (admMeta a))"

text \<open>The whole upgrade when nothing comes between.\<close>

definition Upgrade :: "'l deps \<Rightarrow> claims option \<Rightarrow> string \<Rightarrow> bool \<Rightarrow> ('l, upgrade_reply + nat) wprog" where
  "Upgrade c token r upgraded =
     bnd (admit c token r upgraded) (\<lambda>res. case res of
       Inl reply \<Rightarrow> ret (Inl reply)
     | Inr a \<Rightarrow>
         bnd (register c a) (\<lambda>i. case i of
           None \<Rightarrow> ret (Inl WSDropped)
         | Some i \<Rightarrow> bnd (installHooks theHub a i) (\<lambda>_. ret (Inr i))))"

text \<open>An inbound message of a connection; one that arrives before the hooks is dropped.\<close>

definition ctxOf :: "connection \<Rightarrow> conn_ctx" where
  "ctxOf cn = \<lparr>ctxRoomID = connRoomID cn, ctxUserID = connUserID cn, ctxUsername = connUsername cn\<rparr>"

definition receive :: "'l deps \<Rightarrow> string \<Rightarrow> nat \<Rightarrow> inbound \<Rightarrow> ('l, unit) wprog" where
  "receive c newID i env =
     bnd (memory (\<lambda>s. (conns s i, s))) (\<lambda>found. case found of
       None \<Rightarrow> ret ()
     | Some cn \<Rightarrow> if connHooks cn then Dispatch c theHub newID (ctxOf cn) env else ret ())"

text \<open>The registration of a checked admission succeeds and is one step in memory.\<close>

abbreviation registered :: "admission \<Rightarrow> 'l wt \<Rightarrow> 'l wt" where
  "registered a s \<equiv> snd (registerConn (admRoom a) (admUser a) (admName a) (Some (RoomSnapshotEnv (admSnapshot a))) s)"

lemma twp_register:
  assumes "admRoom a \<noteq> []" and "admUser a \<noteq> []" and "Q (Some (nextConn s)) (registered a s)"
  shows "twp (register c a) Q s"
proof -
  have "twp (RegisterWithFirstFrame (admRoom a) (admUser a) (admName a) (Some (RoomSnapshotEnv (admSnapshot a))))
     (\<lambda>i s'. Q (Some i) s') s"
    unfolding RegisterWithFirstFrame_def using assms
    by (auto intro!: twp_if twp_memory simp: registerConn_fst)
  then show ?thesis
    unfolding register_def by (intro twp_attempt) (elim twp_mono, simp add: twp_ret)
qed

section \<open>A connection that dies early\<close>

text \<open>
  The pumps start before the teardown hook is installed. A connection that drops in between is
  unregistered without it: its user stays in the room's member list in Redis, nobody is told that it
  left, and no grace timer starts, so that an empty room is kept until its keys expire.
\<close>

theorem early_disconnect_leaves_member:
  assumes "hubOK s" and "admRoom a \<noteq> []" and "admUser a \<noteq> []"
  shows "twp (bnd (register c a) (\<lambda>i. bnd (disconnect c (the i)) (\<lambda>_. ret i)))
     (\<lambda>i s'. i \<noteq> None \<and> the i \<notin> set (roomList s' (admRoom a)) \<and> changesOnly [PHub] s s'
        \<and> memberMap s' = memberMap s
        \<and> (\<forall>j. j \<noteq> the i \<longrightarrow> conns s' j = conns s j)) s"
proof -
  let ?f = "Some (RoomSnapshotEnv (admSnapshot a))"
  let ?i = "nextConn s"
  let ?s1 = "snd (registerConn (admRoom a) (admUser a) (admName a) ?f s)"
  let ?s2 = "snd (removeConn ?i ?s1)"
  let ?s3 = "snd (CloseConn ?i ?s2)"
  let ?cn = "(newConnection (admRoom a) (admUser a) (admName a))\<lparr>connQueue := [RoomSnapshotEnv (admSnapshot a)]\<rparr>"
  have cn: "conns ?s1 ?i = Some ?cn" "connRoomID ?cn = admRoom a" "\<not> connHooks ?cn"
    "connRoomID (newConnection (admRoom a) (admUser a) (admName a)) = admRoom a"
    by (simp_all add: registerConn_hub newConnection_def)
  have "changesOnly [PHub] s ?s2" by (rule changesOnly_trans [OF registerConn_hub(4) removeConn_hub(3)]) simp
  then have only3: "changesOnly [PHub] s ?s3" by (rule changesOnly_trans [OF _ CloseConn_hub(4)]) simp
  have list: "?i \<notin> set (roomList ?s3 (admRoom a))"
    using removeConn_rooms [OF cn(1), of "admRoom a"] cn(2)
    by (simp add: roomList_def CloseConn_hub)
  have others: "j \<noteq> ?i \<longrightarrow> conns ?s3 j = conns s j" for j
    by (simp add: CloseConn_hub removeConn_hub registerConn_hub)
  have fin: "?i \<notin> set (roomList s' (admRoom a)) \<and> changesOnly [PHub] s s' \<and> memberMap s' = memberMap s
      \<and> (\<forall>j. j \<noteq> ?i \<longrightarrow> conns s' j = conns s j)"
    if "s' = ?s3 \<or> s' = stopRoomSubscriber (admRoom a) ?s3" for s'
  proof -
    have "changesOnly [PHub] s (stopRoomSubscriber (admRoom a) ?s3)"
      by (rule changesOnly_trans [OF only3 stopRoomSubscriber_hub(4)]) simp
    then show ?thesis
      using that only3 list others changesOnly_live(5) [of "[PHub]" s s']
      by (auto simp: stopRoomSubscriber_hub roomList_def)
  qed
  have "twp (disconnect c ?i) (\<lambda>_ s'. ?i \<notin> set (roomList s' (admRoom a)) \<and> changesOnly [PHub] s s'
      \<and> memberMap s' = memberMap s \<and> (\<forall>j. j \<noteq> ?i \<longrightarrow> conns s' j = conns s j)) ?s1"
    unfolding disconnect_def Unregister_def
    by (intro twp_bnd twp_memory; simp add: cn; intro twp_bnd twp_memory twp_ret twp_if fin; simp add: cn)
  then show ?thesis
    by (intro twp_bnd twp_register assms(2,3)) (simp only: option.sel, elim twp_mono, intro twp_ret, simp)
qed

definition demoAdmission :: admission where
  "demoAdmission = \<lparr>admRoom = ''r1'', admUser = ''u2'', admName = ''Bob'',
     admMeta = newMeta ''Bob'' 5000,
     admSnapshot = \<lparr>snapRoom = demoRoom, snapMembers = [], snapMessages = [], snapProtocol = ''1.0''\<rparr>\<rparr>"

lemma demoAdmission_simps [simp]:
  "admRoom demoAdmission = ''r1''" "admUser demoAdmission = ''u2''" "admName demoAdmission = ''Bob''"
  by (simp_all add: demoAdmission_def)

theorem early_disconnect_leaves_member_witness:
  "twp (bnd (register demoDeps demoAdmission) (\<lambda>i. bnd (disconnect demoDeps (the i)) (\<lambda>_. ret i)))
     (\<lambda>_ s'. graceEntries s' ''r1'' = None \<and> memberMap s' = memberMap (demoState :: unit wt)) (demoState :: unit wt)"
proof -
  have "hubOK (demoState :: unit wt)" using demo_wtOK by (simp add: wtOK_def)
  from early_disconnect_leaves_member [OF this, of demoAdmission demoDeps] show ?thesis
    by (simp, elim twp_mono) (use changesOnly_keeps(12) in fastforce)
qed

section \<open>Two upgrades at once\<close>

lemma twp_RoomService_Get:
  fixes s :: "'l wt"
  assumes "storedRoom s r = Some rm" and "membersOK s r" and "chatLog s r hist" and "r \<noteq> []"
  shows "twp (RoomService_Get r) (\<lambda>snap s'. s' = s \<and> snapRoom snap = rm) s"
proof -
  obtain h where h: "hashOf s (KeyRoomMembers r) = Some h" using assms(2) by (auto simp: membersOK_def)
  show ?thesis
    unfolding RoomService_Get_def if_not_P [OF assms(4)]
    by (intro twp_bnd twp_GetRoom [OF assms(1)] twp_ListMembers [OF h] twp_mono [OF twp_GetMessages [OF assms(3)]] twp_ret)
      simp
qed

text \<open>A successful admission: the member is listed in Redis, but not yet registered with the hub.\<close>

definition admitted :: "string \<Rightarrow> string \<Rightarrow> admission \<Rightarrow> 'l wt \<Rightarrow> 'l wt \<Rightarrow> bool" where
  "admitted r u a s s' \<longleftrightarrow> admRoom a = r \<and> admUser a = u \<and> storedRoom s' r = Some (snapRoom (admSnapshot a))
     \<and> memberMap s' r = (memberMap s r)(u \<mapsto> admMeta a) \<and> membersOK s' r
     \<and> (\<forall>k. k \<noteq> KeyRoomMembers r \<longrightarrow> live s' k = live s k) \<and> changesOnly [PRedis, PGrace] s s'"

lemma twp_AddMember:
  fixes s :: "'l wt"
  assumes "0 < ttl" and "membersOK s r" and "r \<noteq> []" and "u \<noteq> []"
  shows "twp (AddMember ttl r u meta)
     (\<lambda>_ s'. memberMap s' r = (memberMap s r)(u \<mapsto> meta) \<and> membersOK s' r
        \<and> (\<forall>k. k \<noteq> KeyRoomMembers r \<longrightarrow> live s' k = live s k) \<and> changesOnly [PRedis] s s') s"
proof -
  have h: "hashOf s (KeyRoomMembers r) \<noteq> None" using assms(2) by (auto simp: membersOK_def)
  from twp_from_wp [OF wp_repo [OF memoryKept_repo(6) AddMember_spec [OF assms(1,2)]] succeeds_members(1) [OF assms(3,4) h]]
  show ?thesis by (rule twp_mono) simp
qed

lemma twp_admit:
  fixes s :: "'l wt"
  assumes "0 < roomTTL c" and "plainID r" and "r \<noteq> []" and "claimUserID cl \<noteq> []" and "\<not> capacityFull c r s"
    and room: "storedRoom s r = Some rm" and "membersOK s r" and "chatLog s r hist"
  shows "twp (admit c (Some cl) r True) (\<lambda>res s'. \<exists>a. res = Inr a \<and> admitted r (claimUserID cl) a s s') s"
proof -
  let ?u = "claimUserID cl" and ?s1 = "snd (Cancel r s)"
  let ?Q = "\<lambda>res s'. \<exists>a. res = Inr a \<and> admitted r ?u a s s'"
  have only: "changesOnly [PGrace] s ?s1" by simp
  note views = changesOnly_live [OF only, simplified]
  have there: "live s (KeyRoom r) \<noteq> None" using room storedRoom_gone by fastforce
  have exists: "twp (Exists r) (\<lambda>b s'. s' = s \<and> b) s"
    unfolding Exists_def by (intro twp_wrap twp_query) (use there in simp)
  define meta where "meta = newMeta (claimUsername cl) (redisClock s)"
  have snap: "twp (attempt (buildSnapshotPayload r) (\<lambda>res. case res of
        Inl _ \<Rightarrow> bnd (logged (RemoveMember (roomTTL c) r ?u)) (\<lambda>_. ret (Inl WSDropped))
      | Inr snap \<Rightarrow> ret (Inr \<lparr>admRoom = r, admUser = ?u, admName = claimUsername cl, admMeta = meta,
            admSnapshot = snap\<rparr>))) ?Q s2"
    if a: "memberMap s2 r = (memberMap ?s1 r)(?u \<mapsto> meta) \<and> membersOK s2 r
        \<and> (\<forall>k. k \<noteq> KeyRoomMembers r \<longrightarrow> live s2 k = live ?s1 k) \<and> changesOnly [PRedis] ?s1 s2" for s2
  proof -
    have stored: "storedRoom s2 r = Some rm"
      using storedRoom_same_key [of s2 r s] a views room assms(2) by simp
    have chat: "chatLog s2 r hist" using a views assms(8) by (simp add: chatLog_def listOf_def)
    have "changesOnly [PRedis, PGrace] s s2" by (rule changesOnly_trans [OF only]) (use a in auto)
    then have adm: "admitted r ?u \<lparr>admRoom = r, admUser = ?u, admName = claimUsername cl, admMeta = meta,
            admSnapshot = snap\<rparr> s s2" if "snapRoom snap = rm" for snap
      using a views stored that by (simp add: admitted_def)
    show ?thesis
      unfolding buildSnapshotPayload_def
      by (rule twp_attempt, rule twp_mono [OF twp_RoomService_Get [OF stored _ chat assms(3)]])
        (use a adm in \<open>auto intro!: twp_ret\<close>)
  qed
  have add: "twp (AddMember (roomTTL c) r ?u meta) (\<lambda>_ s'. memberMap s' r = (memberMap ?s1 r)(?u \<mapsto> meta)
      \<and> membersOK s' r \<and> (\<forall>k. k \<noteq> KeyRoomMembers r \<longrightarrow> live s' k = live ?s1 k) \<and> changesOnly [PRedis] ?s1 s') ?s1"
    by (rule twp_AddMember) (use assms views in simp_all)
  have rest: "twp (AddMember (roomTTL c) r ?u meta) (\<lambda>_. twp (attempt (buildSnapshotPayload r) (\<lambda>res. case res of
        Inl _ \<Rightarrow> bnd (logged (RemoveMember (roomTTL c) r ?u)) (\<lambda>_. ret (Inl WSDropped))
      | Inr snap \<Rightarrow> ret (Inr \<lparr>admRoom = r, admUser = ?u, admName = claimUsername cl, admMeta = meta,
            admSnapshot = snap\<rparr>))) ?Q) ?s1"
    by (rule twp_mono [OF add]) (rule snap)
  have body: "twp (bnd (memory (\<lambda>s. (capacityFull c r s, s))) (\<lambda>full.
      if full then ret (Inl WSCapacity)
      else
        bnd (memory (Cancel r)) (\<lambda>_.
        bnd (memory (\<lambda>s. (redisClock s, s))) (\<lambda>now.
        let meta = newMeta (claimUsername cl) now in
        attempt (AddMember (roomTTL c) r ?u meta) (\<lambda>res. case res of
          Inl _ \<Rightarrow> ret (Inl WSDropped)
        | Inr _ \<Rightarrow>
            attempt (buildSnapshotPayload r) (\<lambda>res. case res of
              Inl _ \<Rightarrow> bnd (logged (RemoveMember (roomTTL c) r ?u)) (\<lambda>_. ret (Inl WSDropped))
            | Inr snap \<Rightarrow> ret (Inr \<lparr>admRoom = r, admUser = ?u, admName = claimUsername cl, admMeta = meta,
                  admSnapshot = snap\<rparr>))))))) ?Q s"
    unfolding Let_def
    by (intro twp_bnd twp_memory; simp add: assms(5); intro twp_bnd twp_memory; simp;
        intro twp_attempt; simp add: rest [unfolded meta_def])
  show ?thesis
    unfolding admit_def option.case Let_def if_not_P [OF assms(3)]
    by (rule twp_attempt, rule twp_mono [OF exists]) (use body [unfolded Let_def] in simp)
qed

lemma admitted_then:
  assumes "admitted r u a s s'" and "plainID r"
  shows "storedRoom s' r = storedRoom s r" and "chatLog s' r = chatLog s r" and "membersOK s' r"
    and "capacityFull c r s' = capacityFull c r s" and "roomConns s' = roomConns s"
proof -
  have only: "changesOnly [PRedis, PGrace] s s'" and ok: "membersOK s' r"
    and same: "live s' (KeyRoom r) = live s (KeyRoom r)" "live s' (KeyRoomMessages r) = live s (KeyRoomMessages r)"
    using assms by (simp_all add: admitted_def)
  show "storedRoom s' r = storedRoom s r" by (rule storedRoom_same_key [OF same(1)])
  show "chatLog s' r = chatLog s r" using same(2) by (simp add: fun_eq_iff chatLog_def listOf_def)
  show "membersOK s' r" by (rule ok)
  show conns: "roomConns s' = roomConns s" using changesOnly_keeps(10) [OF only] by simp
  then show "capacityFull c r s' = capacityFull c r s"
    by (simp add: capacityFull_def MemberCount_def roomList_def)
qed

text \<open>
  The capacity of a room is checked before the registration, and nothing holds between the two:
  of two upgrades that run at once, both pass the check with one place left, and the room ends with
  one connection more than the limit.
\<close>

theorem capacity_race:
  assumes "0 < roomTTL c" and "plainID r" and "r \<noteq> []" and "claimUserID me \<noteq> []" and "claimUserID you \<noteq> []"
    and "storedRoom s r = Some rm" and "membersOK s r" and "chatLog s r hist"
    and "MemberCount r s + 1 = maxMembers c"
  shows "twp (bnd (admit c (Some me) r True) (\<lambda>a.
              bnd (admit c (Some you) r True) (\<lambda>b.
              bnd (register c (projr a)) (\<lambda>i.
              bnd (register c (projr b)) (\<lambda>j. ret (i, j))))))
     (\<lambda>(i, j) s'. i \<noteq> None \<and> j \<noteq> None \<and> MemberCount r s' = maxMembers c + 1) s"
proof -
  have open1: "\<not> capacityFull c r s" using assms(9) by (simp add: capacityFull_def)
  note one = twp_admit [OF assms(1-4) open1 assms(6-8)]
  show ?thesis
  proof (rule twp_bnd, rule twp_mono [OF one], elim exE conjE)
    fix res s1 a
    assume res: "res = Inr a" and a: "admitted r (claimUserID me) a s s1"
    note v = admitted_then [OF a assms(2)]
    have two: "twp (admit c (Some you) r True) (\<lambda>res s'. \<exists>b. res = Inr b \<and> admitted r (claimUserID you) b s1 s') s1"
      by (rule twp_admit [OF assms(1-3,5)]) (use v open1 assms(6-8) in simp_all)
    show "twp (bnd (admit c (Some you) r True) (\<lambda>b.
              bnd (register c (projr res)) (\<lambda>i.
              bnd (register c (projr b)) (\<lambda>j. ret (i, j)))))
     (\<lambda>(i, j) s'. i \<noteq> None \<and> j \<noteq> None \<and> MemberCount r s' = maxMembers c + 1) s1"
    proof (rule twp_bnd, rule twp_mono [OF two], elim exE conjE)
      fix res' s2 b
      assume res': "res' = Inr b" and b: "admitted r (claimUserID you) b s1 s2"
      note w = admitted_then [OF b assms(2)]
      have ids: "admRoom a = r" "admUser a = claimUserID me" "admRoom b = r" "admUser b = claimUserID you"
        using a b by (simp_all add: admitted_def)
      have "roomList s2 r = roomList s r" using v(5) w(5) by (simp add: roomList_def)
      then have "MemberCount r (registered b (registered a s2)) = maxMembers c + 1"
        using ids assms(9) by (simp add: MemberCount_def registerConn_rooms)
      then show "twp (bnd (register c (projr res)) (\<lambda>i. bnd (register c (projr res')) (\<lambda>j. ret (i, j))))
     (\<lambda>(i, j) s'. i \<noteq> None \<and> j \<noteq> None \<and> MemberCount r s' = maxMembers c + 1) s2"
        unfolding res res' sum.sel
        by (intro twp_bnd twp_register twp_ret) (use ids assms(3-5) in simp_all)
    qed
  qed
qed

theorem capacity_race_witness:
  "twp (bnd (admit (demoDeps\<lparr>maxMembers := 1\<rparr>) (Some demoHost) ''r1'' True) (\<lambda>a.
        bnd (admit (demoDeps\<lparr>maxMembers := 1\<rparr>) (Some (demoHost\<lparr>claimUserID := ''u2''\<rparr>)) ''r1'' True) (\<lambda>b.
        bnd (register (demoDeps\<lparr>maxMembers := 1\<rparr>) (projr a)) (\<lambda>i.
        bnd (register (demoDeps\<lparr>maxMembers := 1\<rparr>) (projr b)) (\<lambda>j. ret (i, j))))))
     (\<lambda>_ s'. MemberCount ''r1'' s' = 2) (demoState :: unit wt)"
proof -
  have stored: "chatLog (demoState :: unit wt) ''r1'' []" "membersOK (demoState :: unit wt) ''r1''"
    by (simp_all add: chatLog_def membersOK_def listOf_def hashOf_def)
  show ?thesis
    by (rule twp_mono [OF capacity_race [OF _ _ _ _ _ demoState_stored stored(2,1)]])
      (auto simp: demoDeps_def demoHost_def plainID_def MemberCount_def roomList_def)
qed

end
