(* ===== verification/WT_Service.thy ===== *)
theory WT_Service
  imports WT_Session
begin

text \<open>
  The service as a whole: every operation that a client, Redis' subscription or the runtime can start,
  in any order, each under an arbitrary script of faults, on one state. The invariant says what every
  handler relies on. Room ids are plain (they are UUIDs; \<^verbatim>\<open>WT_Repo\<close> shows what other ids do), and handlers run one at a time, except that an upgrade is three steps and a timer's callback
  is two.
\<close>

section \<open>The invariant\<close>

fun isSnapshot :: "envelope \<Rightarrow> bool" where
  "isSnapshot (RoomSnapshotEnv snap) = True"
| "isSnapshot _ = False"

text \<open>
  The first frame of a connection is the snapshot: it is on the wire, or first in the buffer of the
  connection, or the wire never took a frame and the connection is closed.
\<close>

definition snapshotFirst :: "connection \<Rightarrow> bool" where
  "snapshotFirst cn \<longleftrightarrow>
     (case connWire cn of
        f # _ \<Rightarrow> isSnapshot f
      | [] \<Rightarrow> connClosed cn \<or> (case connQueue cn of f # _ \<Rightarrow> isSnapshot f | [] \<Rightarrow> False))"

definition opened :: "connection \<Rightarrow> bool" where
  "opened cn \<longleftrightarrow> plainID (connRoomID cn) \<and> snapshotFirst cn"

definition allOpened :: "'l wt \<Rightarrow> bool" where
  "allOpened s \<longleftrightarrow> (\<forall>i cn. conns s i = Some cn \<longrightarrow> opened cn)"

text \<open>Members and chat of every room are readable.\<close>

definition typedRooms :: "'l wt \<Rightarrow> bool" where
  "typedRooms s \<longleftrightarrow> (\<forall>r. plainID r \<longrightarrow> membersOK s r \<and> (\<exists>hist. chatLog s r hist))"

definition sysOK :: "'l deps \<Rightarrow> 'l wt \<Rightarrow> bool" where
  "sysOK c s \<longleftrightarrow> wtOK c s \<and> typedRooms s \<and> allOpened s"







section \<open>Connections\<close>

lemma opened_enqueue [simp]: "opened cn \<Longrightarrow> opened (enqueue env cn)"
  by (auto simp: opened_def snapshotFirst_def enqueue_def accepts_def split: list.splits)








section \<open>Programs that keep the invariant\<close>

definition keeps :: "'l deps \<Rightarrow> ('l, 'a) wprog \<Rightarrow> bool" where
  "keeps c m \<longleftrightarrow> (\<forall>s. sysOK c s \<longrightarrow> wp m (\<lambda>_. sysOK c) (\<lambda>_. sysOK c) s)"

















section \<open>Redis\<close>





section \<open>The hub\<close>









section \<open>The operations of the service\<close>




lemma keeps_replies:
  "(\<And>e. keeps c (f e)) \<Longrightarrow> (\<And>t. keeps c (g t)) \<Longrightarrow> (\<And>t. keeps c (h t)) \<Longrightarrow> keeps c k \<Longrightarrow>
   keeps c (case e of RoomNotFound \<Rightarrow> k | InvalidRoom t \<Rightarrow> g t | _ \<Rightarrow> f e)"
  by (cases e) simp_all













section \<open>Every execution\<close>












section \<open>The invariant of every execution\<close>













end
