(* ===== verification/Go_Float.thy ===== *)
theory Go_Float
  imports Complex_Main
begin

text \<open>
  Go's \<^verbatim>\<open>float64\<close>: IEEE 754 binary64 with rounding to nearest, ties to even. A value is NaN, an
  infinity, or a rational number; the two zeros are one value, which no operation used by the
  modelled code tells apart (it never divides by a zero and never prints one with its sign).

  An arithmetic operation is the exact operation on rationals followed by \<open>fround\<close>. The lemmas give
  what the services rely on: rounding is monotone, it keeps every binary64 value, its error is at
  most half a unit in the last place, and the exact comparisons of the operands carry over.
  Fused multiply-add, which Go may use on some platforms but not on amd64, is not modelled.
\<close>

section \<open>Rounding to an integer\<close>

definition rne :: "rat \<Rightarrow> int" where
  "rne x = (let n = \<lfloor>x\<rfloor>; f = x - of_int n in
     if f < 1 / 2 \<or> f = 1 / 2 \<and> even n then n else n + 1)"

lemma rne_of_int [simp]: "rne (of_int n) = n"
  by (simp add: rne_def)

lemma rne_error: "\<bar>of_int (rne x) - x\<bar> \<le> 1 / 2"
proof -
  define n where "n = \<lfloor>x\<rfloor>"
  have "of_int n \<le> x" "x < of_int n + 1" unfolding n_def by linarith+
  then show ?thesis unfolding rne_def Let_def n_def [symmetric] by (auto simp: abs_if)
qed

lemma rne_mono:
  assumes "x \<le> y" shows "rne x \<le> rne y"
proof (cases "\<lfloor>x\<rfloor> = \<lfloor>y\<rfloor>")
  case True
  with assms show ?thesis by (auto simp: rne_def Let_def)
next
  case False
  with assms have "\<lfloor>x\<rfloor> + 1 \<le> \<lfloor>y\<rfloor>" by (metis add1_zle_eq floor_mono order_le_less)
  then show ?thesis by (auto simp: rne_def Let_def)
qed

lemma rne_uminus: "rne (- x) = - rne x"
proof (cases "x = of_int \<lfloor>x\<rfloor>")
  case True
  then have "rne (- x) = rne (of_int (- \<lfloor>x\<rfloor>))" by simp
  also have "\<dots> = - rne (of_int \<lfloor>x\<rfloor>)" by (simp only: rne_of_int)
  finally show ?thesis using True by simp
next
  case False
  have le: "of_int \<lfloor>x\<rfloor> \<le> x" "x < of_int \<lfloor>x\<rfloor> + 1" by linarith+
  with False have "of_int \<lfloor>x\<rfloor> < x" by linarith
  with le have "\<lfloor>- x\<rfloor> = - \<lfloor>x\<rfloor> - 1" by (intro floor_unique) auto
  then show ?thesis by (auto simp: rne_def Let_def)
qed

lemma rne_le: "x \<le> of_int n \<Longrightarrow> rne x \<le> n"
  using rne_mono [of x "of_int n"] by simp

lemma rne_ge: "of_int n \<le> x \<Longrightarrow> n \<le> rne x"
  using rne_mono [of "of_int n" x] by simp

lemma rne_eqI: "\<bar>x - of_int n\<bar> < 1 / 2 \<Longrightarrow> rne x = n"
  using rne_error [of x] by linarith

section \<open>The binade of a positive number\<close>

function bits :: "int \<Rightarrow> int" where
  "bits n = (if n \<le> 0 then 0 else 1 + bits (n div 2))"
  by pat_completeness auto
termination by (relation "measure nat") auto

declare bits.simps [simp del]

lemma bits_nonneg: "0 \<le> bits n"
  by (induction n rule: bits.induct) (subst bits.simps, simp)

lemma bits_bounds:
  assumes "0 < n" shows "(2::rat) powi (bits n - 1) \<le> of_int n \<and> (of_int n :: rat) < 2 powi bits n"
  using assms
proof (induction n rule: bits.induct)
  case (1 n)
  show ?case
  proof (cases "n = 1")
    case True
    then show ?thesis by (simp add: bits.simps [of 1] bits.simps [of 0])
  next
    case False
    with 1 have IH: "(2::rat) powi (bits (n div 2) - 1) \<le> of_int (n div 2)"
      "(of_int (n div 2) :: rat) < 2 powi bits (n div 2)" by auto
    have b: "bits n = bits (n div 2) + 1" using "1.prems" by (subst bits.simps) simp
    have p: "(2::rat) powi (bits (n div 2)) = 2 ^ nat (bits (n div 2))"
      by (simp add: power_int_def bits_nonneg)
    have "n div 2 + 1 \<le> 2 ^ nat (bits (n div 2))"
      using IH(2) unfolding p by (metis add1_zle_eq of_int_less_iff of_int_numeral of_int_power)
    then have "n < 2 * 2 ^ nat (bits (n div 2))" by linarith
    then have "(of_int n :: rat) < of_int (2 * 2 ^ nat (bits (n div 2)))" by (simp only: of_int_less_iff)
    then have up: "(of_int n :: rat) < 2 powi bits n"
      by (simp add: b p power_int_add mult.commute)
    have "2 * (2::rat) powi (bits (n div 2) - 1) \<le> 2 * of_int (n div 2)" using IH(1) by simp
    also have "\<dots> = of_int (2 * (n div 2))" by simp
    also have "\<dots> \<le> of_int n" by (subst of_int_le_iff) simp
    finally have "(2::rat) powi (bits n - 1) \<le> of_int n" by (simp add: b power_int_diff)
    with up show ?thesis by simp
  qed
qed

definition binade :: "rat \<Rightarrow> int" where
  "binade x = (case quotient_of x of (p, q) \<Rightarrow>
     let e = bits p - bits q in if 2 powi e \<le> x then e else e - 1)"

lemma powi_mono: "a \<le> b \<Longrightarrow> (2::rat) powi a \<le> 2 powi b"
  by (simp add: power_int_increasing)

lemma binade_bounds:
  assumes "0 < x" shows "2 powi binade x \<le> x" "x < 2 powi (binade x + 1)"
proof -
  obtain p q where pq: "quotient_of x = (p, q)" by (cases "quotient_of x") auto
  have q: "0 < q" using quotient_of_denom_pos [OF pq] .
  have x: "x = of_int p / of_int q" using quotient_of_div [OF pq] .
  have p: "0 < p" using assms q x by (simp add: zero_less_divide_iff)
  define e where "e = bits p - bits q"
  have P: "(2::rat) powi (bits p - 1) \<le> of_int p" "(of_int p :: rat) < 2 powi bits p"
    using bits_bounds [OF p] by auto
  have Q: "(2::rat) powi (bits q - 1) \<le> of_int q" "(of_int q :: rat) < 2 powi bits q"
    using bits_bounds [OF q] by auto
  have "x \<le> of_int p / 2 powi (bits q - 1)"
    unfolding x by (rule divide_left_mono) (use Q p q in auto)
  also have "\<dots> < 2 powi bits p / 2 powi (bits q - 1)"
    by (rule divide_strict_right_mono) (use P in auto)
  also have "\<dots> = 2 powi (e + 1)" by (simp add: e_def power_int_diff power_int_add)
  finally have up: "x < 2 powi (e + 1)" .
  have "2 powi (e - 1) = 2 powi (bits p - 1) / (2::rat) powi bits q"
    by (simp add: e_def power_int_diff)
  also have "\<dots> \<le> of_int p / 2 powi bits q"
    by (rule divide_right_mono) (use P in auto)
  also have "\<dots> \<le> x"
    unfolding x by (rule divide_left_mono) (use Q p q in auto)
  finally have lo: "2 powi (e - 1) \<le> x" .
  have "binade x = (if 2 powi e \<le> x then e else e - 1)"
    by (simp add: binade_def pq e_def Let_def)
  with up lo show "2 powi binade x \<le> x" "x < 2 powi (binade x + 1)" by (auto split: if_splits)
qed

lemma powi_less_imp: "(2::rat) powi a < 2 powi b \<Longrightarrow> a < b"
  by (meson not_less powi_mono)

lemma binade_eqI: "2 powi e \<le> x \<Longrightarrow> x < 2 powi (e + 1) \<Longrightarrow> binade x = e"
proof -
  assume a: "2 powi e \<le> x" "x < 2 powi (e + 1)"
  then have "0 < x" by (meson less_le_trans zero_less_numeral zero_less_power_int)
  from binade_bounds [OF this] a have "2 powi e < (2::rat) powi (binade x + 1)"
    "2 powi binade x < (2::rat) powi (e + 1)" by linarith+
  from this [THEN powi_less_imp] show ?thesis by linarith
qed

lemma binade_mono: "0 < x \<Longrightarrow> x \<le> y \<Longrightarrow> binade x \<le> binade y"
proof -
  assume a: "0 < x" "x \<le> y"
  with binade_bounds(1) [of x] binade_bounds(2) [of y]
  have "(2::rat) powi binade x < 2 powi (binade y + 1)" by linarith
  from powi_less_imp [OF this] show ?thesis by linarith
qed

section \<open>Rounding to binary64\<close>

text \<open>The exponent of the unit in the last place: 53 bits of significand, gradual underflow.\<close>

definition ulp_exp :: "rat \<Rightarrow> int" where
  "ulp_exp x = max (binade \<bar>x\<bar> - 52) (- 1074)"

definition ulp :: "rat \<Rightarrow> rat" where
  "ulp x = 2 powi ulp_exp x"

definition fround :: "rat \<Rightarrow> rat" where
  "fround x = (if x = 0 then 0 else of_int (rne (x / ulp x)) * ulp x)"

definition representable :: "rat \<Rightarrow> bool" where
  "representable x \<longleftrightarrow> fround x = x"

lemma ulp_pos [simp]: "0 < ulp x"
  by (simp add: ulp_def)

lemma ulp_nonzero [simp]: "ulp x \<noteq> 0"
  using ulp_pos [of x] by linarith

lemma powi_neg: "(2::rat) powi (- int n) = 1 / 2 ^ n"
  by (simp only: power_int_minus power_int_of_nat inverse_eq_divide)

lemma fround_0 [simp]: "fround 0 = 0"
  by (simp add: fround_def)

lemma fround_uminus: "fround (- x) = - fround x"
  by (simp add: fround_def ulp_def ulp_exp_def rne_uminus)

lemma fround_nonneg: "0 \<le> x \<Longrightarrow> 0 \<le> fround x"
  using rne_ge [of 0 "x / ulp x"] by (simp add: fround_def less_imp_le)

lemma powi_shift: "0 \<le> b - a \<Longrightarrow> (2::rat) powi b / 2 powi a = of_int (2 ^ nat (b - a))"
proof -
  assume a: "0 \<le> b - a"
  have "(2::rat) powi b / 2 powi a = 2 powi (b - a)" by (simp add: power_int_diff)
  also have "\<dots> = 2 ^ nat (b - a)" using a by (simp only: power_int_def if_True)
  finally show ?thesis by simp
qed

lemma fround_le_powi:
  assumes "0 < x" "x \<le> 2 powi k" "ulp_exp x \<le> k" shows "fround x \<le> 2 powi k"
proof -
  have "x / ulp x \<le> 2 powi k / ulp x"
    using assms by (intro divide_right_mono) (auto simp: less_imp_le)
  also have "\<dots> = of_int (2 ^ nat (k - ulp_exp x))" unfolding ulp_def
    by (rule powi_shift) (use assms in simp)
  finally have "rne (x / ulp x) \<le> 2 ^ nat (k - ulp_exp x)" by (rule rne_le)
  then have "of_int (rne (x / ulp x)) * ulp x \<le> of_int (2 ^ nat (k - ulp_exp x)) * ulp x"
    by (intro mult_right_mono) (auto simp: less_imp_le of_int_le_iff)
  also have "\<dots> = 2 powi k / ulp x * ulp x"
    unfolding ulp_def by (subst powi_shift) (use assms in auto)
  finally show ?thesis using assms by (simp add: fround_def ulp_def)
qed

lemma fround_ge_powi:
  assumes "2 powi k \<le> x" "ulp_exp x \<le> k" shows "2 powi k \<le> fround x"
proof -
  have x: "0 < x" using assms(1) by (meson less_le_trans zero_less_numeral zero_less_power_int)
  have "of_int (2 ^ nat (k - ulp_exp x)) = 2 powi k / ulp x" unfolding ulp_def
    by (rule powi_shift [symmetric]) (use assms in simp)
  also have "\<dots> \<le> x / ulp x"
    using assms by (intro divide_right_mono) (auto simp: less_imp_le)
  finally have "2 ^ nat (k - ulp_exp x) \<le> rne (x / ulp x)" by (rule rne_ge)
  then have "of_int (2 ^ nat (k - ulp_exp x)) * ulp x \<le> of_int (rne (x / ulp x)) * ulp x"
    by (intro mult_right_mono) (auto simp: less_imp_le of_int_le_iff)
  moreover have "of_int (2 ^ nat (k - ulp_exp x)) * ulp x = 2 powi k / ulp x * ulp x"
    unfolding ulp_def by (subst powi_shift) (use assms in auto)
  moreover have "2 powi k / ulp x * ulp x = 2 powi k" using ulp_pos [of x] by (simp del: ulp_pos)
  ultimately have "2 powi k \<le> of_int (rne (x / ulp x)) * ulp x" by linarith
  with x show ?thesis by (simp add: fround_def)
qed

lemma fround_mono_pos:
  assumes "0 < x" "x \<le> y" shows "fround x \<le> fround y"
proof -
  have b: "binade x \<le> binade y" using binade_mono assms by blast
  then have w: "ulp_exp x \<le> ulp_exp y" using assms by (simp add: ulp_exp_def)
  show ?thesis
  proof (cases "ulp_exp x = ulp_exp y")
    case True
    then have "ulp x = ulp y" by (simp add: ulp_def)
    moreover have "x / ulp x \<le> y / ulp x"
      using assms by (intro divide_right_mono) (auto simp: less_imp_le)
    ultimately show ?thesis using assms rne_mono
      by (auto simp: fround_def intro!: mult_right_mono less_imp_le)
  next
    case False
    with w have w': "ulp_exp x < ulp_exp y" by simp
    then have y: "ulp_exp y = binade y - 52" using assms by (auto simp: ulp_exp_def)
    have "binade x < binade y" using w' y assms by (auto simp: ulp_exp_def)
    then have "x \<le> 2 powi binade y"
      using binade_bounds(2) [OF assms(1)] powi_mono [of "binade x + 1" "binade y"] by linarith
    then have "fround x \<le> 2 powi binade y"
      using assms w' y by (intro fround_le_powi) auto
    also have "\<dots> \<le> fround y"
      using binade_bounds(1) [of y] assms y by (intro fround_ge_powi) auto
    finally show ?thesis .
  qed
qed

lemma fround_mono: "x \<le> y \<Longrightarrow> fround x \<le> fround y"
proof -
  assume a: "x \<le> y"
  consider "0 < x" | "y < 0" | "x \<le> 0" "0 \<le> y" using a by linarith
  then show ?thesis
  proof cases
    case 1
    with a show ?thesis by (rule fround_mono_pos [rotated])
  next
    case 2
    with a have "fround (- y) \<le> fround (- x)" by (intro fround_mono_pos) auto
    then show ?thesis by (simp add: fround_uminus)
  next
    case 3
    then have "0 \<le> fround (- x)" "0 \<le> fround y" by (simp_all add: fround_nonneg)
    then show ?thesis by (simp add: fround_uminus)
  qed
qed

lemma fround_error: "\<bar>fround x - x\<bar> \<le> ulp x / 2"
proof (cases "x = 0")
  case False
  have "fround x - x = (of_int (rne (x / ulp x)) - x / ulp x) * ulp x"
    using False by (simp add: fround_def algebra_simps)
  then have "\<bar>fround x - x\<bar> = \<bar>of_int (rne (x / ulp x)) - x / ulp x\<bar> * ulp x"
    by (simp add: abs_mult less_imp_le)
  also have "\<dots> \<le> 1 / 2 * ulp x"
    by (intro mult_right_mono rne_error) (simp add: less_imp_le)
  finally show ?thesis by simp
qed (simp add: less_imp_le)

lemma fround_multiple: "x = of_int m * ulp x \<Longrightarrow> fround x = x"
proof -
  assume a: "x = of_int m * ulp x"
  then have "x / ulp x = of_int m" by (simp add: divide_eq_eq)
  then show "fround x = x" using a by (simp add: fround_def)
qed

lemma representableI:
  assumes k: "\<bar>k\<bar> < 2 ^ 53" and e: "- 1074 \<le> e"
  shows "representable (of_int k * 2 powi e)"
proof (cases "k = 0")
  case False
  define x where "x = (of_int k :: rat) * 2 powi e"
  have ax: "\<bar>x\<bar> = of_int \<bar>k\<bar> * 2 powi e" by (simp add: x_def abs_mult)
  have "(of_int \<bar>k\<bar> :: rat) < of_int (2 ^ 53)" using k by (simp only: of_int_less_iff)
  then have "\<bar>x\<bar> < 2 ^ 53 * 2 powi e"
    unfolding ax by (intro mult_strict_right_mono) auto
  also have "\<dots> = 2 powi (e + 53)" by (simp add: power_int_add)
  finally have "\<bar>x\<bar> < 2 powi (e + 53)" .
  moreover have "0 < \<bar>x\<bar>" using False by (simp add: x_def)
  ultimately have "binade \<bar>x\<bar> < e + 53"
    using binade_bounds(1) [of "\<bar>x\<bar>"] powi_less_imp by (meson le_less_trans)
  then have w: "ulp_exp x \<le> e" using e by (simp add: ulp_exp_def)
  have "x = of_int (k * 2 ^ nat (e - ulp_exp x)) * ulp x"
  proof -
    have "2 powi e / ulp x = of_int (2 ^ nat (e - ulp_exp x))"
      unfolding ulp_def by (rule powi_shift) (use w in simp)
    then have "2 powi e = of_int (2 ^ nat (e - ulp_exp x)) * ulp x"
      by (simp only: divide_eq_eq ulp_nonzero not_False_eq_True if_True)
    then have "of_int k * 2 powi e = of_int k * (of_int (2 ^ nat (e - ulp_exp x)) * ulp x)" by simp
    then show ?thesis by (simp only: x_def [symmetric] of_int_mult mult.assoc)
  qed
  from fround_multiple [OF this] show ?thesis by (simp add: representable_def x_def)
qed (simp add: representable_def)

lemma representable_of_int: "\<bar>k\<bar> < 2 ^ 53 \<Longrightarrow> representable (of_int k)"
  using representableI [of k 0] by simp

lemma representableI':
  assumes k: "\<bar>k\<bar> \<le> 2 ^ 53" and e: "- 1074 \<le> e"
  shows "representable (of_int k * 2 powi e)"
proof (cases "\<bar>k\<bar> = 2 ^ 53")
  case True
  then have "k = 2 ^ 53 \<or> k = - (2 ^ 53)" by linarith
  then have h: "k = 2 * (k div 2)" "\<bar>k div 2\<bar> < 2 ^ 53" by (elim disjE; simp)+
  have "of_int k * (2::rat) powi e = of_int (k div 2) * 2 powi (e + 1)"
    by (subst (1) h(1)) (simp add: power_int_add)
  with h(2) e show ?thesis by (simp only: representableI)
next
  case False
  with assms show ?thesis by (intro representableI) auto
qed

lemma fround_form:
  assumes "x \<noteq> 0" obtains m where "fround x = of_int m * 2 powi ulp_exp x" "\<bar>m\<bar> \<le> 2 ^ 53"
proof -
  define m where "m = rne (x / ulp x)"
  let ?b = "binade \<bar>x\<bar>"
  have w: "?b - 52 \<le> ulp_exp x" by (auto simp: ulp_exp_def)
  have "\<bar>x\<bar> < 2 powi (?b + 1)" using binade_bounds(2) assms by simp
  also have "\<dots> \<le> 2 powi (ulp_exp x + 53)" using w by (intro powi_mono) simp
  also have "\<dots> = 2 ^ 53 * ulp x" by (simp add: power_int_add ulp_def)
  finally have "\<bar>x\<bar> / ulp x \<le> 2 ^ 53" by (simp add: divide_le_eq less_imp_le)
  then have "\<bar>x / ulp x\<bar> \<le> of_int (2 ^ 53)" by (simp add: abs_divide abs_of_pos)
  then have "x / ulp x \<le> of_int (2 ^ 53)" "of_int (- (2 ^ 53)) \<le> x / ulp x"
    by linarith+
  from rne_le [OF this(1)] rne_ge [OF this(2)] have m: "\<bar>m\<bar> \<le> 2 ^ 53" by (simp add: m_def)
  have f: "fround x = of_int m * 2 powi ulp_exp x" using assms by (simp add: fround_def m_def ulp_def)
  from f m show thesis by (rule that)
qed

lemma representable_fround [simp]: "representable (fround x)"
proof (cases "x = 0")
  case False
  from fround_form [OF this] obtain m where "fround x = of_int m * 2 powi ulp_exp x" "\<bar>m\<bar> \<le> 2 ^ 53" .
  then show ?thesis by (simp only:) (rule representableI', auto simp: ulp_exp_def)
qed (simp add: representable_def)

lemma representable_half:
  assumes "representable x" "1 / 2 ^ 1000 \<le> \<bar>x\<bar>" shows "representable (x / 2)"
proof -
  have "x \<noteq> 0" using assms(2) by auto
  from fround_form [OF this] obtain m where m: "x = of_int m * 2 powi ulp_exp x" "\<bar>m\<bar> \<le> 2 ^ 53"
    using assms(1) unfolding representable_def by metis
  have "2 powi (- int 1000) \<le> \<bar>x\<bar>" using assms(2) by (simp only: powi_neg)
  moreover have "\<bar>x\<bar> < 2 powi (binade \<bar>x\<bar> + 1)" using binade_bounds(2) \<open>x \<noteq> 0\<close> by simp
  ultimately have "(2::rat) powi (- int 1000) < 2 powi (binade \<bar>x\<bar> + 1)" by linarith
  then have "- int 1000 < binade \<bar>x\<bar> + 1" by (rule powi_less_imp)
  then have "- 1074 \<le> ulp_exp x - 1" by (simp add: ulp_exp_def)
  then have "representable (of_int m * 2 powi (ulp_exp x - 1))" using m(2) by (intro representableI')
  moreover have "of_int m * 2 powi (ulp_exp x - 1) = x / 2"
    by (subst (2) m(1)) (simp add: power_int_diff)
  ultimately show ?thesis by simp
qed

lemma fround_idem [simp]: "fround (fround x) = fround x"
  using representable_fround [of x] by (simp add: representable_def)

lemma representable_uminus: "representable x \<Longrightarrow> representable (- x)"
  by (simp add: representable_def fround_uminus)

lemma representable_consts [simp]:
  "representable 0" "representable 1" "representable (1 / 2)" "representable (- 1)"
  using representable_of_int [of 0] representable_of_int [of 1] representableI [of 1 "- 1"]
    representable_of_int [of "- 1"] by (simp_all add: power_int_minus)

lemma fround_le: "x \<le> y \<Longrightarrow> representable y \<Longrightarrow> fround x \<le> y"
  using fround_mono [of x y] by (simp add: representable_def)

lemma fround_ge: "x \<le> y \<Longrightarrow> representable x \<Longrightarrow> x \<le> fround y"
  using fround_mono [of x y] by (simp add: representable_def)

text \<open>Evaluation: a number whose significand rounds to \<open>k\<close>.\<close>

lemma fround_eval:
  assumes "2 ^ 52 \<le> x * 2 ^ n" "x * 2 ^ n < 2 ^ 53" "n \<le> 1074" "\<bar>x * 2 ^ n - of_int k\<bar> < 1 / 2"
  shows "fround x = of_int k / 2 ^ n"
proof -
  have p: "(0::rat) < 2 ^ n" by simp
  have x: "0 < x"
  proof (rule ccontr)
    assume "\<not> 0 < x"
    then have "x * 2 ^ n \<le> 0" using p by (intro mult_nonpos_nonneg) auto
    with assms(1) show False by simp
  qed
  have "2 powi (52 - int n) = (2::rat) ^ 52 / 2 ^ n"
    by (simp add: power_int_diff)
  also have "\<dots> \<le> x" using assms(1) p by (simp only: divide_le_eq if_True)
  finally have lo: "2 powi (52 - int n) \<le> x" .
  have "x < (2::rat) ^ 53 / 2 ^ n" using assms(2) p by (simp only: less_divide_eq if_True)
  also have "\<dots> = 2 powi (52 - int n + 1)" by (simp add: power_int_diff power_int_add)
  finally have "binade x = 52 - int n" using lo by (intro binade_eqI)
  then have "ulp_exp x = - int n" using assms(3) x by (simp add: ulp_exp_def)
  then have u: "ulp x = 1 / 2 ^ n" by (simp only: ulp_def powi_neg)
  have "rne (x / ulp x) = k" using assms(4) by (intro rne_eqI) (simp add: u)
  with x show ?thesis by (simp add: fround_def u)
qed

text \<open>Rounding of numbers of the unit interval.\<close>

lemma ulp_unit: "\<bar>x\<bar> < 1 \<Longrightarrow> ulp x \<le> 1 / 2 ^ 53 \<or> x = 0"
proof -
  assume a: "\<bar>x\<bar> < 1"
  show ?thesis
  proof (cases "x = 0")
    case False
    then have "2 powi binade \<bar>x\<bar> \<le> \<bar>x\<bar>" using binade_bounds(1) by simp
    with a have "(2::rat) powi binade \<bar>x\<bar> < 2 powi 0" by simp
    then have "binade \<bar>x\<bar> < 0" by (rule powi_less_imp)
    then have "ulp_exp x \<le> - 53" by (simp add: ulp_exp_def)
    then have "ulp x \<le> 2 powi (- 53)" unfolding ulp_def by (rule powi_mono)
    then show ?thesis using powi_neg [of 53] by simp
  qed simp
qed

lemma fround_error_unit: "\<bar>x\<bar> \<le> 1 \<Longrightarrow> \<bar>fround x - x\<bar> \<le> 1 / 2 ^ 54"
proof -
  assume a: "\<bar>x\<bar> \<le> 1"
  consider "\<bar>x\<bar> < 1" "x \<noteq> 0" | "x = 0" | "x = 1" | "x = - 1" using a by (cases "\<bar>x\<bar> < 1") (auto simp: abs_if split: if_splits)
  then show ?thesis
  proof cases
    case 1
    with ulp_unit have "ulp x \<le> 1 / 2 ^ 53" by blast
    with fround_error [of x] show ?thesis by simp
  qed (use representable_consts in \<open>simp_all add: representable_def\<close>)
qed

lemma fround_near:
  assumes "\<bar>x\<bar> \<le> 1" shows "fround x \<le> x + 1 / 2 ^ 54" "x - 1 / 2 ^ 54 \<le> fround x"
  using fround_error_unit [OF assms] by linarith+

lemma fround_above_1: "x \<le> 1 + 1 / 2 ^ 53 \<Longrightarrow> fround x \<le> 1"
proof -
  assume a: "x \<le> 1 + 1 / 2 ^ 53"
  define y :: rat where "y = 1 + 1 / 2 ^ 53"
  have "binade y = 0" by (rule binade_eqI) (auto simp: y_def)
  moreover have "\<bar>y\<bar> = y" by (simp add: y_def)
  ultimately have u: "ulp y = 1 / 2 ^ 52" using powi_neg [of 52] by (simp add: ulp_def ulp_exp_def)
  have d: "y / ulp y = of_int (2 ^ 52) + 1 / 2" unfolding u by (simp add: y_def)
  have m: "rne (of_int (2 ^ 52) + 1 / 2) = 2 ^ 52"
  proof -
    have "\<lfloor>of_int (2 ^ 52) + 1 / 2 :: rat\<rfloor> = 2 ^ 52" by (intro floor_unique) auto
    then show ?thesis unfolding rne_def Let_def by simp
  qed
  have "y \<noteq> 0" by (simp add: y_def)
  then have "fround y = of_int (2 ^ 52) * ulp y" by (simp only: fround_def d m if_False)
  then have "fround y = 1" unfolding u by simp
  with fround_mono [OF a] show ?thesis by (simp add: y_def)
qed

section \<open>The type\<close>

datatype float64 = NaN | PosInf | NegInf | Fin rat

text \<open>The binary64 value of an exact result; overflow gives an infinity.\<close>

definition fin :: "rat \<Rightarrow> float64" where
  "fin r = (let v = fround r in
     if 2 ^ 1024 \<le> v then PosInf else if v \<le> - (2 ^ 1024) then NegInf else Fin v)"

fun fneg :: "float64 \<Rightarrow> float64" where
  "fneg NaN = NaN"
| "fneg PosInf = NegInf"
| "fneg NegInf = PosInf"
| "fneg (Fin a) = Fin (- a)"

fun fadd :: "float64 \<Rightarrow> float64 \<Rightarrow> float64" where
  "fadd (Fin a) (Fin b) = fin (a + b)"
| "fadd NaN _ = NaN"
| "fadd _ NaN = NaN"
| "fadd PosInf NegInf = NaN"
| "fadd NegInf PosInf = NaN"
| "fadd PosInf _ = PosInf"
| "fadd NegInf _ = NegInf"
| "fadd (Fin _) y = y"

definition fsub :: "float64 \<Rightarrow> float64 \<Rightarrow> float64" where
  "fsub x y = fadd x (fneg y)"

definition finf :: "rat \<Rightarrow> float64" where
  "finf s = (if s = 0 then NaN else if 0 < s then PosInf else NegInf)"

fun fmul :: "float64 \<Rightarrow> float64 \<Rightarrow> float64" where
  "fmul (Fin a) (Fin b) = fin (a * b)"
| "fmul NaN _ = NaN"
| "fmul _ NaN = NaN"
| "fmul (Fin a) PosInf = finf a"
| "fmul (Fin a) NegInf = finf (- a)"
| "fmul PosInf (Fin b) = finf b"
| "fmul NegInf (Fin b) = finf (- b)"
| "fmul PosInf PosInf = PosInf"
| "fmul PosInf NegInf = NegInf"
| "fmul NegInf PosInf = NegInf"
| "fmul NegInf NegInf = PosInf"

text \<open>Division by a zero takes the zero as positive.\<close>

fun fdiv :: "float64 \<Rightarrow> float64 \<Rightarrow> float64" where
  "fdiv (Fin a) (Fin b) = (if b = 0 then finf a else fin (a / b))"
| "fdiv NaN _ = NaN"
| "fdiv _ NaN = NaN"
| "fdiv (Fin _) _ = Fin 0"
| "fdiv PosInf (Fin b) = (if 0 \<le> b then PosInf else NegInf)"
| "fdiv NegInf (Fin b) = (if 0 \<le> b then NegInf else PosInf)"
| "fdiv _ _ = NaN"

text \<open>Every comparison with NaN is false.\<close>

fun flt :: "float64 \<Rightarrow> float64 \<Rightarrow> bool" where
  "flt (Fin a) (Fin b) \<longleftrightarrow> a < b"
| "flt NaN _ \<longleftrightarrow> False"
| "flt _ NaN \<longleftrightarrow> False"
| "flt _ NegInf \<longleftrightarrow> False"
| "flt PosInf _ \<longleftrightarrow> False"
| "flt _ _ \<longleftrightarrow> True"

fun fle :: "float64 \<Rightarrow> float64 \<Rightarrow> bool" where
  "fle (Fin a) (Fin b) \<longleftrightarrow> a \<le> b"
| "fle NaN _ \<longleftrightarrow> False"
| "fle _ NaN \<longleftrightarrow> False"
| "fle NegInf _ \<longleftrightarrow> True"
| "fle _ PosInf \<longleftrightarrow> True"
| "fle _ _ \<longleftrightarrow> False"

definition feq :: "float64 \<Rightarrow> float64 \<Rightarrow> bool" where
  "feq x y \<longleftrightarrow> fle x y \<and> fle y x"

definition IsNaN :: "float64 \<Rightarrow> bool" where
  "IsNaN x \<longleftrightarrow> x = NaN"

text \<open>\<^verbatim>\<open>math.Max\<close> and \<^verbatim>\<open>math.Min\<close>: an infinity that decides wins over NaN, as documented.\<close>

definition MathMax :: "float64 \<Rightarrow> float64 \<Rightarrow> float64" where
  "MathMax x y = (if x = PosInf \<or> y = PosInf then PosInf
     else if x = NaN \<or> y = NaN then NaN else if flt y x then x else y)"

definition MathMin :: "float64 \<Rightarrow> float64 \<Rightarrow> float64" where
  "MathMin x y = (if x = NegInf \<or> y = NegInf then NegInf
     else if x = NaN \<or> y = NaN then NaN else if flt x y then x else y)"

text \<open>\<^verbatim>\<open>int(math.Floor(x))\<close>; the conversion of NaN and of infinities is left open by Go.\<close>

fun IntFloor :: "float64 \<Rightarrow> int option" where
  "IntFloor (Fin a) = Some \<lfloor>a\<rfloor>"
| "IntFloor _ = None"

definition is_binary64 :: "float64 \<Rightarrow> bool" where
  "is_binary64 x \<longleftrightarrow> (case x of Fin a \<Rightarrow> representable a \<and> \<bar>a\<bar> < 2 ^ 1024 | _ \<Rightarrow> True)"

definition unit_value :: "float64 \<Rightarrow> bool" where
  "unit_value x \<longleftrightarrow> (\<exists>a. x = Fin a \<and> 0 \<le> a \<and> a \<le> 1 \<and> representable a)"

lemma is_binary64_fin [simp]: "is_binary64 (fin r)"
  by (simp add: is_binary64_def fin_def Let_def abs_less_iff)

lemma fin_eq: "\<bar>fround r\<bar> < 2 ^ 1024 \<Longrightarrow> fin r = Fin (fround r)"
  unfolding fin_def Let_def by (auto simp only: abs_less_iff split: if_split)

lemma fin_repr:
  assumes "representable r" "\<bar>r\<bar> \<le> 2 ^ 1000" shows "fin r = Fin r"
proof -
  have "(2::rat) ^ 1000 < 2 ^ 1024" by simp
  with assms show ?thesis using fin_eq [of r] by (simp only: representable_def)
qed

lemma fin_small: "\<bar>r\<bar> \<le> 2 \<Longrightarrow> fin r = Fin (fround r)"
proof -
  assume a: "\<bar>r\<bar> \<le> 2"
  have 2: "representable 2" "representable (- 2)"
    using representable_of_int [of 2] representable_of_int [of "- 2"] by simp_all
  have "fround r \<le> 2" "- 2 \<le> fround r"
    using fround_le [of r 2] fround_ge [of "- 2" r] a 2 by (simp_all add: abs_le_iff)
  moreover have "(2::rat) < 2 ^ 1024" by simp
  ultimately show ?thesis by (simp add: fin_def Let_def)
qed

lemma fin_0 [simp]: "fin 0 = Fin 0"
  by (simp add: fin_small)

lemma fin_1 [simp]: "fin 1 = Fin 1"
  using representable_consts by (simp add: fin_small representable_def)

lemma fin_half [simp]: "fin (1 / 2) = Fin (1 / 2)"
  using representable_consts(3) by (simp add: fin_small representable_def)

lemma unit_valueI: "0 \<le> a \<Longrightarrow> a \<le> 1 \<Longrightarrow> representable a \<Longrightarrow> unit_value (Fin a)"
  by (simp add: unit_value_def)

lemma unit_value_fin: "0 \<le> a \<Longrightarrow> a \<le> 1 \<Longrightarrow> unit_value (fin a)"
  by (simp add: unit_value_def fin_small fround_nonneg fround_le)

text \<open>
  A clamp to the unit interval, \<^verbatim>\<open>math.Max(0, math.Min(1, x))\<close>, keeps NaN and nothing else
  outside.
\<close>

lemma clamp_unit:
  "x \<noteq> NaN \<Longrightarrow> is_binary64 x \<Longrightarrow> unit_value (MathMax (Fin 0) (MathMin (Fin 1) x))"
  by (cases x) (auto simp: MathMax_def MathMin_def unit_value_def is_binary64_def)

lemma clamp_id: "unit_value x \<Longrightarrow> MathMax (Fin 0) (MathMin (Fin 1) x) = x"
  by (auto simp: MathMax_def MathMin_def unit_value_def)

lemma clamp_NaN: "MathMax (Fin 0) (MathMin (Fin 1) NaN) = NaN"
  by (simp add: MathMax_def MathMin_def)

end
