(* ===== verification/Go_Strconv.thy ===== *)
theory Go_Strconv
  imports Go_Float Prelude
begin

text \<open>
  The functions of Go's \<^verbatim>\<open>strconv\<close> that the degradation pipeline uses: \<^verbatim>\<open>Itoa\<close>,
  \<^verbatim>\<open>Atoi\<close> with its range check, \<^verbatim>\<open>FormatFloat(x, 'f', 2, 64)\<close>, \<^verbatim>\<open>ParseFloat\<close> on decimal
  notation (hexadecimal floats, which no caller writes, are refused). The lemmas are the round trips
  of integers and of scores.
\<close>

section \<open>Digits\<close>

definition code_of :: "char \<Rightarrow> nat" where
  "code_of c = of_char c"

definition is_digit :: "char \<Rightarrow> bool" where
  "is_digit c \<longleftrightarrow> 48 \<le> code_of c \<and> code_of c \<le> 57"

definition digit_char :: "nat \<Rightarrow> char" where
  "digit_char d = char_of (48 + d)"

definition digits_val :: "string \<Rightarrow> int" where
  "digits_val s = foldl (\<lambda>a c. 10 * a + (int (code_of c) - 48)) 0 s"

fun nat_digits :: "nat \<Rightarrow> string" where
  "nat_digits n = (if n < 10 then [digit_char n] else nat_digits (n div 10) @ [digit_char (n mod 10)])"

declare nat_digits.simps [simp del]

lemma code_of_digit [simp]: "d < 10 \<Longrightarrow> code_of (digit_char d) = 48 + d"
  by (simp add: code_of_def digit_char_def)

lemma is_digit_digit_char [simp]: "d < 10 \<Longrightarrow> is_digit (digit_char d)"
  by (simp add: is_digit_def)

lemma digits_val_snoc [simp]: "digits_val (s @ [c]) = 10 * digits_val s + (int (code_of c) - 48)"
  by (simp add: digits_val_def)

lemma digits_val_Nil [simp]: "digits_val [] = 0"
  by (simp add: digits_val_def)

lemma nat_digits_val [simp]: "digits_val (nat_digits n) = int n"
proof (induction n rule: nat_digits.induct)
  case (1 n)
  show ?case
  proof (cases "n < 10")
    case True
    have "nat_digits n = [] @ [digit_char n]" using True by (subst nat_digits.simps) simp
    then have "digits_val (nat_digits n) = digits_val ([] @ [digit_char n])" by simp
    then show ?thesis using True by (simp only: digits_val_snoc digits_val_Nil code_of_digit)
  next
    case False
    with 1 have "digits_val (nat_digits (n div 10)) = int (n div 10)" by blast
    with False show ?thesis by (subst nat_digits.simps) (simp add: zdiv_int zmod_int)
  qed
qed

lemma nat_digits_digits: "\<forall>c\<in>set (nat_digits n). is_digit c"
  by (induction n rule: nat_digits.induct) (subst nat_digits.simps, auto)

lemma nat_digits_Nil [simp]: "nat_digits n \<noteq> []"
  by (subst nat_digits.simps) simp

section \<open>Integers\<close>

definition Itoa :: "int \<Rightarrow> string" where
  "Itoa n = (if n < 0 then CHR ''-'' # nat_digits (nat (- n)) else nat_digits (nat n))"

text \<open>An optional sign, and the rest.\<close>

definition split_sign :: "string \<Rightarrow> bool \<times> string" where
  "split_sign s = (if s \<noteq> [] \<and> hd s = CHR ''-'' then (True, tl s)
     else if s \<noteq> [] \<and> hd s = CHR ''+'' then (False, tl s) else (False, s))"

definition Atoi :: "string \<Rightarrow> int option" where
  "Atoi s = (case split_sign s of (neg, r) \<Rightarrow>
     if r \<noteq> [] \<and> list_all is_digit r
     then let v = (if neg then - digits_val r else digits_val r) in
          if fits64 v then Some v else None
     else None)"

lemma not_digit_sign [simp]: "\<not> is_digit (CHR ''-'')" "\<not> is_digit (CHR ''+'')" "\<not> is_digit (CHR ''.'')"
  by (simp_all add: is_digit_def code_of_def)

lemma split_sign_digits: "\<forall>c\<in>set s. is_digit c \<Longrightarrow> split_sign (s @ r) = (if s = [] then split_sign r else (False, s @ r))"
  by (cases s) (auto simp: split_sign_def)

lemma split_sign_nat_digits: "split_sign (nat_digits n @ r) = (False, nat_digits n @ r)"
  using split_sign_digits [OF nat_digits_digits] by simp

theorem Atoi_Itoa: "fits64 n \<Longrightarrow> Atoi (Itoa n) = Some n"
proof -
  assume "fits64 n"
  moreover have "split_sign (Itoa n) = (n < 0, nat_digits (nat \<bar>n\<bar>))"
    using split_sign_nat_digits [of "nat n" "[]"]
    by (cases "n < 0") (simp_all add: Itoa_def, simp add: split_sign_def)
  ultimately show ?thesis
    using nat_digits_digits [of "nat \<bar>n\<bar>"] by (simp add: Atoi_def list_all_iff)
qed

section \<open>Floats\<close>

definition to_lower :: "char \<Rightarrow> char" where
  "to_lower c = (if 65 \<le> code_of c \<and> code_of c \<le> 90 then char_of (code_of c + 32) else c)"

text \<open>The exponent part of a decimal number, or nothing.\<close>

definition parse_exponent :: "string \<Rightarrow> int option" where
  "parse_exponent s = (if s = [] then Some 0
     else if to_lower (hd s) = CHR ''e'' then
       (case split_sign (tl s) of (neg, r) \<Rightarrow>
          if r \<noteq> [] \<and> list_all is_digit r then Some (if neg then - digits_val r else digits_val r)
          else None)
     else None)"

definition is_finite :: "float64 \<Rightarrow> bool" where
  "is_finite x \<longleftrightarrow> (case x of Fin _ \<Rightarrow> True | _ \<Rightarrow> False)"

definition ParseFloat :: "string \<Rightarrow> float64 option" where
  "ParseFloat s = (case split_sign s of (neg, r) \<Rightarrow>
     if map to_lower r = ''inf'' \<or> map to_lower r = ''infinity'' then
       Some (if neg then NegInf else PosInf)
     else if map to_lower s = ''nan'' then Some NaN
     else
       let ip = takeWhile is_digit r; r1 = dropWhile is_digit r;
           dot = (r1 \<noteq> [] \<and> hd r1 = CHR ''.'');
           fp = (if dot then takeWhile is_digit (tl r1) else []);
           r2 = (if dot then dropWhile is_digit (tl r1) else r1)
       in if ip @ fp = [] then None
          else (case parse_exponent r2 of None \<Rightarrow> None
            | Some e \<Rightarrow>
                let v = of_int (digits_val (ip @ fp)) * 10 powi (e - int (length fp));
                    x = fin (if neg then - v else v)
                in if is_finite x then Some x else None))"

text \<open>Two decimals, correctly rounded, ties to even.\<close>

definition decimal2 :: "nat \<Rightarrow> string" where
  "decimal2 n = nat_digits (n div 100) @ CHR ''.'' # [digit_char (n div 10 mod 10), digit_char (n mod 10)]"

fun FormatFloat2 :: "float64 \<Rightarrow> string" where
  "FormatFloat2 NaN = ''NaN''"
| "FormatFloat2 PosInf = ''+Inf''"
| "FormatFloat2 NegInf = ''-Inf''"
| "FormatFloat2 (Fin a) =
     (if a < 0 then CHR ''-'' # decimal2 (nat (rne (- a * 100))) else decimal2 (nat (rne (a * 100))))"

lemma digit_not_special:
  assumes "is_digit c"
  shows "to_lower c \<noteq> CHR ''i''" "to_lower c \<noteq> CHR ''n''"
  using assms by (auto simp: to_lower_def is_digit_def code_of_def)

lemma ParseFloat_fixed:
  assumes ip: "\<forall>c\<in>set ip. is_digit c" "ip \<noteq> []" and fp: "\<forall>c\<in>set fp. is_digit c"
  shows "ParseFloat (ip @ CHR ''.'' # fp) =
    (let x = fin (of_int (digits_val (ip @ fp)) * 10 powi (- int (length fp)))
     in if is_finite x then Some x else None)"
proof -
  define s where "s = ip @ CHR ''.'' # fp"
  obtain c cs where c: "ip = c # cs" using ip(2) by (cases ip) auto
  have special: "map to_lower s \<noteq> ''inf''" "map to_lower s \<noteq> ''infinity''" "map to_lower s \<noteq> ''nan''"
    using digit_not_special [of c] ip(1) by (auto simp: s_def c)
  have sign: "split_sign s = (False, s)" unfolding s_def using split_sign_digits [OF ip(1)] ip(2) by simp
  have tw: "takeWhile is_digit s = ip" "dropWhile is_digit s = CHR ''.'' # fp"
    using ip(1) by (simp_all add: s_def takeWhile_append2 dropWhile_append2)
  have tf: "takeWhile is_digit fp = fp" "dropWhile is_digit fp = []"
    using fp by (simp_all add: takeWhile_eq_all_conv dropWhile_eq_Nil_conv)
  have "ParseFloat s = (let x = fin (of_int (digits_val (ip @ fp)) * 10 powi (- int (length fp)))
     in if is_finite x then Some x else None)"
    unfolding ParseFloat_def sign prod.case Let_def tw
    using special ip(2) by (simp add: tf parse_exponent_def)
  then show ?thesis by (simp only: s_def)
qed

lemma is_finite_small: "0 \<le> r \<Longrightarrow> r \<le> 100 \<Longrightarrow> is_finite (fin r)"
proof -
  assume a: "0 \<le> r" "r \<le> 100"
  then have "fround r \<le> 100" "0 \<le> fround r"
    using fround_le [of r 100] representable_of_int [of 100] by (simp_all add: fround_nonneg)
  moreover have "(100::rat) < 2 ^ 1024" by simp
  ultimately have "\<bar>fround r\<bar> < 2 ^ 1024" by linarith
  then show ?thesis by (simp add: fin_eq is_finite_def)
qed

lemma ParseFloat_decimal2:
  assumes "n \<le> 10000" shows "ParseFloat (decimal2 n) = Some (fin (of_nat n / 100))"
proof -
  let ?i = "nat_digits (n div 100)" and ?d = "digit_char (n div 10 mod 10)" and ?e = "digit_char (n mod 10)"
  have "digits_val ((?i @ [?d]) @ [?e]) = 10 * (10 * int (n div 100) + int (n div 10 mod 10)) + int (n mod 10)"
    unfolding digits_val_snoc by simp
  also have "\<dots> = int (10 * (10 * (n div 100) + n div 10 mod 10) + n mod 10)" by (simp only: of_nat_add of_nat_mult of_nat_numeral)
  also have "10 * (10 * (n div 100) + n div 10 mod 10) + n mod 10 = n"
    using div_mult2_eq [of n 10 10] by simp
  finally have "digits_val ((?i @ [?d]) @ [?e]) = int n" .
  then have v: "digits_val (?i @ [?d, ?e]) = int n" by simp
  have p: "(10::rat) powi (- int (length [?d, ?e])) = 1 / 100"
    by (simp only: power_int_minus power_int_of_nat) simp
  have f: "is_finite (fin (of_nat n / 100))"
    by (rule is_finite_small) (use assms in simp_all)
  have "ParseFloat (?i @ CHR ''.'' # [?d, ?e]) =
    (let x = fin (of_int (digits_val (?i @ [?d, ?e])) * 10 powi (- int (length [?d, ?e])))
     in if is_finite x then Some x else None)"
    by (rule ParseFloat_fixed) (use nat_digits_digits [of "n div 100"] in auto)
  also have "of_int (digits_val (?i @ [?d, ?e])) * 10 powi (- int (length [?d, ?e])) = (of_nat n / 100 :: rat)"
    unfolding v p by simp
  finally show ?thesis using f by (simp only: decimal2_def Let_def if_True)
qed

text \<open>A score of the unit interval comes back as the nearest binary64 value of its two decimals.\<close>

theorem ParseFloat_FormatFloat2:
  assumes "0 \<le> a" "a \<le> 1"
  shows "ParseFloat (FormatFloat2 (Fin a)) = Some (fin (of_int (rne (a * 100)) / 100))"
proof -
  have r: "0 \<le> rne (a * 100)" "rne (a * 100) \<le> 100"
    using assms by (auto intro: rne_ge [of 0, simplified] rne_le)
  then have "ParseFloat (decimal2 (nat (rne (a * 100)))) = Some (fin (of_nat (nat (rne (a * 100))) / 100))"
    by (intro ParseFloat_decimal2) simp
  with assms r show ?thesis by simp
qed

end
