(* ===== verification/Gov_Levels.thy ===== *)
theory Gov_Levels
  imports Go_Strconv
begin

text \<open>
  The two pure machines of the degradation governor (\<^verbatim>\<open>services/governor/internal/service\<close>): the
  asymmetric smoother of the raw pressure score (\<^verbatim>\<open>smoother.go\<close>) and the quantizer that turns the
  smoothed score into a level with a Schmitt trigger per boundary (\<^verbatim>\<open>quantizer.go\<close>). Scores are
  binary64 values, so the lemmas hold for the rounded arithmetic the service runs.
\<close>

section \<open>Levels\<close>

type_synonym level = int

definition LevelNormal :: level where "LevelNormal = 0"
definition LevelElevated :: level where "LevelElevated = 1"
definition LevelCritical :: level where "LevelCritical = 2"

lemmas level_defs = LevelNormal_def LevelElevated_def LevelCritical_def

definition valid_level :: "level \<Rightarrow> bool" where
  "valid_level l \<longleftrightarrow> l \<in> {LevelNormal, LevelElevated, LevelCritical}"

lemma valid_levels [simp]:
  "valid_level LevelNormal" "valid_level LevelElevated" "valid_level LevelCritical"
  by (simp_all add: valid_level_def)

lemma valid_level_cases:
  assumes "valid_level l"
  obtains "l = LevelNormal" | "l = LevelElevated" | "l = LevelCritical"
  using assms by (auto simp: valid_level_def)

section \<open>Smoother\<close>

record smoother =
  alphaUp :: float64
  alphaDown :: float64
  smValue :: float64

definition NewSmoother :: "float64 \<Rightarrow> float64 \<Rightarrow> smoother" where
  "NewSmoother up down = \<lparr>
     alphaUp = (if fle up (Fin 0) \<or> flt (Fin 1) up then fin (1 / 2) else up),
     alphaDown = (if fle down (Fin 0) \<or> flt (Fin 1) down then fin (5 / 100) else down),
     smValue = Fin 0\<rparr>"

definition clampRaw :: "float64 \<Rightarrow> float64" where
  "clampRaw raw = MathMax (Fin 0) (MathMin (Fin 1) (if IsNaN raw then Fin 0 else raw))"

definition SmootherTick :: "float64 \<Rightarrow> smoother \<Rightarrow> float64 \<times> smoother" where
  "SmootherTick raw0 s =
    (let raw = clampRaw raw0;
         a = (if flt (smValue s) raw then alphaUp s else alphaDown s);
         v = fadd (smValue s) (fmul a (fsub raw (smValue s)));
         v' = (if feq raw (Fin 0) \<and> flt v (fin (5 / 1000)) then Fin 0 else v)
     in (v', s\<lparr>smValue := v'\<rparr>))"

definition SmootherReset :: "smoother \<Rightarrow> smoother" where
  "SmootherReset s = s\<lparr>smValue := Fin 0\<rparr>"

definition good_alpha :: "float64 \<Rightarrow> bool" where
  "good_alpha a \<longleftrightarrow> unit_value a \<and> a \<noteq> Fin 0"

definition smoother_ok :: "smoother \<Rightarrow> bool" where
  "smoother_ok s \<longleftrightarrow> good_alpha (alphaUp s) \<and> good_alpha (alphaDown s) \<and> unit_value (smValue s)"

lemma good_alphaE:
  assumes "good_alpha x" obtains a where "x = Fin a" "0 < a" "a \<le> 1" "representable a"
proof -
  from assms obtain a where "x = Fin a" "0 \<le> a" "a \<le> 1" "representable a" "a \<noteq> 0"
    by (auto simp: good_alpha_def unit_value_def)
  with that [of a] show ?thesis by simp
qed

lemma unit_valueE:
  assumes "unit_value x" obtains a where "x = Fin a" "0 \<le> a" "a \<le> 1" "representable a"
  using assms by (auto simp: unit_value_def)

lemma unit_value_0 [simp]: "unit_value (Fin 0)" and unit_value_1 [simp]: "unit_value (Fin 1)"
  by (simp_all add: unit_value_def)

text \<open>Any configuration of alphas but NaN gives a sound smoother.\<close>

lemma fround_pos_normal: "1 / 1000 \<le> r \<Longrightarrow> r \<le> 1 \<Longrightarrow> 0 < fround r"
proof -
  assume a: "1 / 1000 \<le> r" "r \<le> 1"
  then have "r - 1 / 2 ^ 54 \<le> fround r" by (intro fround_near) simp
  moreover have "1 / 2 ^ 54 < (1 / 1000 :: rat)" by simp
  ultimately show ?thesis using a by linarith
qed

lemma good_alpha_const [simp]: "good_alpha (fin (5 / 100))"
  using unit_value_fin [of "5 / 100"] fround_pos_normal [of "5 / 100"]
  by (simp add: good_alpha_def fin_small)

lemma NewSmoother_ok:
  assumes "up \<noteq> NaN" "down \<noteq> NaN" "is_binary64 up" "is_binary64 down"
  shows "smoother_ok (NewSmoother up down)"
proof -
  have a: "good_alpha (if fle x (Fin 0) \<or> flt (Fin 1) x then fin c else x)"
    if "x \<noteq> NaN" "is_binary64 x" "good_alpha (fin c)" for x c
    using that by (cases x) (auto simp: good_alpha_def unit_value_def is_binary64_def)
  have half: "good_alpha (fin (1 / 2))"
    using unit_value_fin [of "1 / 2"] by (simp add: good_alpha_def)
  show ?thesis
    using a [OF assms(1,3) half] a [OF assms(2,4) good_alpha_const]
    by (simp only: smoother_ok_def NewSmoother_def smoother.simps unit_value_0 simp_thms)
qed

text \<open>One step of the average towards a point of the unit interval, in rounded arithmetic.\<close>

definition ewma :: "rat \<Rightarrow> rat \<Rightarrow> rat \<Rightarrow> rat" where
  "ewma a v raw = fround (v + fround (a * fround (raw - v)))"

lemma ewma_up:
  assumes "0 \<le> a" "a \<le> 1" "0 \<le> v" "v \<le> raw" "raw \<le> 1" "representable v"
  shows "v \<le> ewma a v raw" "ewma a v raw \<le> 1"
proof -
  let ?d = "fround (raw - v)"
  have d: "0 \<le> ?d" using assms by (simp add: fround_nonneg)
  have p: "0 \<le> fround (a * ?d)" using assms d by (simp add: fround_nonneg)
  then show "v \<le> ewma a v raw" unfolding ewma_def using assms by (intro fround_ge) auto
  have "a * ?d \<le> 1 * ?d" by (rule mult_right_mono) (use assms d in auto)
  then have "fround (a * ?d) \<le> ?d" by (intro fround_le) auto
  also have "?d \<le> raw - v + 1 / 2 ^ 54"
    using assms by (intro fround_near) simp
  finally have "v + fround (a * ?d) \<le> 1 + 1 / 2 ^ 53" using assms by simp
  then show "ewma a v raw \<le> 1" unfolding ewma_def by (rule fround_above_1)
qed

lemma ewma_down:
  assumes "0 \<le> a" "a \<le> 1" "v \<le> 1" "raw \<le> v" "0 \<le> raw" "representable v"
  shows "0 \<le> ewma a v raw" "ewma a v raw \<le> v"
proof -
  let ?d = "fround (raw - v)"
  have r: "representable (- v)" using assms by (simp add: representable_uminus)
  have d: "?d \<le> 0" "- v \<le> ?d"
    using fround_mono [of "raw - v" 0] fround_ge [of "- v" "raw - v"] r assms by simp_all
  have "a * ?d \<le> 0" using assms d by (simp add: mult_nonneg_nonpos)
  then have "fround (a * ?d) \<le> 0" using fround_mono [of "a * ?d" 0] by simp
  then show "ewma a v raw \<le> v" unfolding ewma_def using assms by (intro fround_le) auto
  have "1 * ?d \<le> a * ?d" by (rule mult_right_mono_neg) (use assms d in auto)
  then have "?d \<le> fround (a * ?d)" by (intro fround_ge) auto
  with d have "0 \<le> v + fround (a * ?d)" by simp
  then show "0 \<le> ewma a v raw" unfolding ewma_def by (rule fround_nonneg)
qed

lemma ewma_fadd:
  assumes "0 \<le> a" "a \<le> 1" "0 \<le> v" "v \<le> 1" "0 \<le> raw" "raw \<le> 1" "representable v"
  shows "fadd (Fin v) (fmul (Fin a) (fsub (Fin raw) (Fin v))) = Fin (ewma a v raw)"
proof -
  have d: "\<bar>raw - v\<bar> \<le> 1" using assms by (simp add: abs_le_iff)
  then have D: "\<bar>fround (raw - v)\<bar> \<le> 1"
    using fround_le [of "raw - v" 1] fround_ge [of "- 1" "raw - v"] by (simp add: abs_le_iff)
  then have p: "\<bar>a * fround (raw - v)\<bar> \<le> 1"
    using assms mult_mono [of "\<bar>a\<bar>" 1 "\<bar>fround (raw - v)\<bar>" 1] by (simp add: abs_mult)
  then have "\<bar>fround (a * fround (raw - v))\<bar> \<le> 1"
    using fround_le [of "a * fround (raw - v)" 1] fround_ge [of "- 1" "a * fround (raw - v)"]
    by (simp add: abs_le_iff)
  then have "\<bar>v + fround (a * fround (raw - v))\<bar> \<le> 2" using assms by (simp add: abs_le_iff)
  with d p show ?thesis by (simp add: fsub_def fin_small ewma_def)
qed

lemma clampRaw_unit: "is_binary64 raw \<Longrightarrow> unit_value (clampRaw raw)"
  using clamp_unit [of raw] clamp_id [of "Fin 0"] by (auto simp: clampRaw_def IsNaN_def)

lemma clampRaw_id: "unit_value x \<Longrightarrow> clampRaw x = x"
  using clamp_id [of x] by (auto simp: clampRaw_def IsNaN_def unit_value_def)

lemma clampRaw_NaN [simp]: "clampRaw NaN = Fin 0"
  using clamp_id [of "Fin 0"] by (simp add: clampRaw_def IsNaN_def)

text \<open>The step of a sound smoother, over rationals.\<close>

definition smooth :: "rat \<Rightarrow> rat \<Rightarrow> rat \<Rightarrow> rat \<Rightarrow> rat" where
  "smooth up down v r =
    (let w = ewma (if v < r then up else down) v r
     in if r = 0 \<and> w < fround (5 / 1000) then 0 else w)"

lemma SmootherTick_smooth:
  assumes ok: "smoother_ok s" and raw: "clampRaw raw = Fin r" "is_binary64 raw"
    and s: "alphaUp s = Fin up" "alphaDown s = Fin down" "smValue s = Fin v"
  shows "SmootherTick raw s = (Fin (smooth up down v r), s\<lparr>smValue := Fin (smooth up down v r)\<rparr>)"
proof -
  have u: "0 \<le> up" "up \<le> 1" "0 \<le> down" "down \<le> 1" "0 \<le> v" "v \<le> 1" "representable v"
    using ok s by (auto simp: smoother_ok_def good_alpha_def unit_value_def)
  have r: "0 \<le> r" "r \<le> 1" using clampRaw_unit [OF raw(2)] raw(1) by (auto simp: unit_value_def)
  show ?thesis
    using ewma_fadd [of "if v < r then up else down" v r] u r
    by (simp add: SmootherTick_def raw s smooth_def Let_def feq_def fin_small if_distrib [of Fin] cong: if_cong)
qed

lemma smooth_bounds:
  assumes "0 < up" "up \<le> 1" "0 < down" "down \<le> 1" "0 \<le> v" "v \<le> 1" "representable v" "0 \<le> r" "r \<le> 1"
  shows "0 \<le> smooth up down v r" "smooth up down v r \<le> 1" "representable (smooth up down v r)"
    "v \<le> r \<Longrightarrow> 0 < r \<Longrightarrow> v \<le> smooth up down v r" "r \<le> v \<Longrightarrow> smooth up down v r \<le> v"
proof -
  define a where "a = (if v < r then up else down)"
  have a: "0 \<le> a" "a \<le> 1" using assms by (auto simp: a_def)
  have w: "0 \<le> ewma a v r" "ewma a v r \<le> 1" "representable (ewma a v r)"
    "v \<le> r \<Longrightarrow> v \<le> ewma a v r" "r \<le> v \<Longrightarrow> ewma a v r \<le> v"
    using ewma_up [OF a, of v r] ewma_down [OF a, of v r] assms
    by (cases "v \<le> r"; force simp: ewma_def)+
  have s: "smooth up down v r = (if r = 0 \<and> ewma a v r < fround (5 / 1000) then 0 else ewma a v r)"
    unfolding smooth_def Let_def a_def [symmetric] ..
  from w show "0 \<le> smooth up down v r" "smooth up down v r \<le> 1" "representable (smooth up down v r)"
    "v \<le> r \<Longrightarrow> 0 < r \<Longrightarrow> v \<le> smooth up down v r" "r \<le> v \<Longrightarrow> smooth up down v r \<le> v"
    using assms by (auto simp: s)
qed

lemma SmootherTick_ok:
  assumes "smoother_ok s" "is_binary64 raw"
  shows "smoother_ok (snd (SmootherTick raw s))" "unit_value (fst (SmootherTick raw s))"
    "smValue (snd (SmootherTick raw s)) = fst (SmootherTick raw s)"
    "alphaUp (snd (SmootherTick raw s)) = alphaUp s"
    "alphaDown (snd (SmootherTick raw s)) = alphaDown s"
proof -
  obtain up where up: "alphaUp s = Fin up" "0 < up" "up \<le> 1" "representable up"
    using assms(1) by (auto simp: smoother_ok_def elim: good_alphaE)
  obtain down where down: "alphaDown s = Fin down" "0 < down" "down \<le> 1" "representable down"
    using assms(1) by (auto simp: smoother_ok_def elim: good_alphaE)
  obtain v where v: "smValue s = Fin v" "0 \<le> v" "v \<le> 1" "representable v"
    using assms(1) by (auto simp: smoother_ok_def elim: unit_valueE)
  obtain r where r: "clampRaw raw = Fin r" "0 \<le> r" "r \<le> 1"
    using clampRaw_unit [OF assms(2)] by (auto elim: unit_valueE)
  note b = smooth_bounds [OF up(2,3) down(2,3) v(2,3,4) r(2,3)]
  show "smoother_ok (snd (SmootherTick raw s))" "unit_value (fst (SmootherTick raw s))"
    "smValue (snd (SmootherTick raw s)) = fst (SmootherTick raw s)"
    "alphaUp (snd (SmootherTick raw s)) = alphaUp s"
    "alphaDown (snd (SmootherTick raw s)) = alphaDown s"
    using assms(1) b
    by (auto simp: SmootherTick_smooth [OF assms(1) r(1) assms(2) up(1) down(1) v(1)]
        smoother_ok_def unit_valueI)
qed

lemma SmootherReset_ok: "smoother_ok s \<Longrightarrow> smoother_ok (SmootherReset s)"
  by (simp add: smoother_ok_def SmootherReset_def)

text \<open>Recovery: under zero samples the score decays geometrically, and then snaps to zero.\<close>

definition decay_bound :: "rat \<Rightarrow> nat \<Rightarrow> rat" where
  "decay_bound a k = (1 - a) ^ k + of_nat k / 2 ^ 53"

lemma smooth_zero_step:
  assumes "0 < down" "down \<le> 1" "0 \<le> v" "v \<le> 1" "representable v"
  shows "smooth up down v 0 \<le> (1 - down) * v + 1 / 2 ^ 53"
    and "smooth up down v 0 = 0 \<or> fround (5 / 1000) \<le> smooth up down v 0"
proof -
  let ?p = "fround (down * v)"
  have "fround (0 - v) = - v" using assms by (simp add: fround_uminus representable_def)
  then have w: "ewma down v 0 = fround (v - ?p)"
    by (simp add: ewma_def fround_uminus)
  have dv: "0 \<le> down * v" "down * v \<le> v" using assms by (simp_all add: mult_left_le_one_le)
  have "down * v - 1 / 2 ^ 54 \<le> ?p" using dv assms by (intro fround_near) simp
  moreover have "0 \<le> ?p" "?p \<le> v" using dv assms by (simp_all add: fround_nonneg fround_le)
  then have "fround (v - ?p) \<le> v - ?p + 1 / 2 ^ 54" using assms by (intro fround_near) simp
  ultimately have b: "ewma down v 0 \<le> (1 - down) * v + 1 / 2 ^ 53"
    by (simp add: w algebra_simps)
  moreover have "0 \<le> (1 - down) * v + 1 / 2 ^ 53" using assms by simp
  ultimately show "smooth up down v 0 \<le> (1 - down) * v + 1 / 2 ^ 53"
    using assms by (auto simp: smooth_def Let_def)
  show "smooth up down v 0 = 0 \<or> fround (5 / 1000) \<le> smooth up down v 0"
    using assms by (auto simp: smooth_def Let_def)
qed

lemma decay_step:
  assumes "0 \<le> a" "a \<le> 1" "v \<le> decay_bound a k"
  shows "(1 - a) * v + 1 / 2 ^ 53 \<le> decay_bound a (Suc k)"
proof -
  have "(1 - a) * v \<le> (1 - a) * decay_bound a k" by (rule mult_left_mono) (use assms in auto)
  also have "\<dots> = (1 - a) ^ Suc k + (1 - a) * (of_nat k / 2 ^ 53)"
    by (simp add: decay_bound_def algebra_simps)
  also have "\<dots> \<le> (1 - a) ^ Suc k + 1 * (of_nat k / 2 ^ 53)"
    by (intro add_left_mono mult_right_mono) (use assms in auto)
  finally show ?thesis by (simp add: decay_bound_def add_divide_distrib)
qed

section \<open>Quantizer\<close>

record quantizer =
  enterElevated :: float64
  exitElevated :: float64
  enterCritical :: float64
  exitCritical :: float64
  qLevel :: level

definition inRange :: "float64 \<Rightarrow> bool" where
  "inRange v \<longleftrightarrow> flt (Fin 0) v \<and> flt v (Fin 1)"

definition validThresholds :: "quantizer \<Rightarrow> bool" where
  "validThresholds q \<longleftrightarrow>
     inRange (exitElevated q) \<and> inRange (enterElevated q) \<and>
     inRange (exitCritical q) \<and> inRange (enterCritical q) \<and>
     flt (exitElevated q) (enterElevated q) \<and>
     flt (exitCritical q) (enterCritical q) \<and>
     flt (enterElevated q) (enterCritical q) \<and>
     flt (exitElevated q) (exitCritical q)"

definition NewQuantizer :: "float64 \<Rightarrow> float64 \<Rightarrow> float64 \<Rightarrow> float64 \<Rightarrow> quantizer" where
  "NewQuantizer eE xE eC xC =
    (let q = \<lparr>enterElevated = eE, exitElevated = xE, enterCritical = eC, exitCritical = xC,
              qLevel = LevelNormal\<rparr>
     in if validThresholds q then q
        else q\<lparr>enterElevated := fin (45 / 100), exitElevated := fin (20 / 100),
               enterCritical := fin (90 / 100), exitCritical := fin (55 / 100)\<rparr>)"

definition QuantizerTick :: "float64 \<Rightarrow> quantizer \<Rightarrow> level \<times> quantizer" where
  "QuantizerTick score q =
    (let l =
       (if qLevel q = LevelNormal then
          (if fle (enterCritical q) score then LevelCritical
           else if fle (enterElevated q) score then LevelElevated else LevelNormal)
        else if qLevel q = LevelElevated then
          (if fle (enterCritical q) score then LevelCritical
           else if fle score (exitElevated q) then LevelNormal else LevelElevated)
        else if qLevel q = LevelCritical then
          (if fle score (exitElevated q) then LevelNormal
           else if fle score (exitCritical q) then LevelElevated else LevelCritical)
        else qLevel q)
     in (l, q\<lparr>qLevel := l\<rparr>))"

definition QuantizerReset :: "quantizer \<Rightarrow> quantizer" where
  "QuantizerReset q = q\<lparr>qLevel := LevelNormal\<rparr>"

definition quantizer_ok :: "quantizer \<Rightarrow> bool" where
  "quantizer_ok q \<longleftrightarrow> validThresholds q \<and> valid_level (qLevel q)"

text \<open>The production thresholds in binary64, and their order.\<close>

lemma default_thresholds:
  "fin (9 / 20) = Fin (8106479329266893 / 2 ^ 54)" "fin (1 / 5) = Fin (7205759403792794 / 2 ^ 55)"
  "fin (9 / 10) = Fin (8106479329266893 / 2 ^ 53)" "fin (11 / 20) = Fin (4953959590107546 / 2 ^ 53)"
  using fround_eval [of "45 / 100" 54 8106479329266893] fround_eval [of "20 / 100" 55 7205759403792794]
    fround_eval [of "90 / 100" 53 8106479329266893] fround_eval [of "55 / 100" 53 4953959590107546]
  by (simp_all add: fin_small)

lemma NewQuantizer_ok: "quantizer_ok (NewQuantizer eE xE eC xC)"
  by (simp add: NewQuantizer_def Let_def quantizer_ok_def)
    (simp add: validThresholds_def inRange_def default_thresholds)

lemma QuantizerTick_ok:
  "quantizer_ok q \<Longrightarrow> quantizer_ok (snd (QuantizerTick score q))"
  "quantizer_ok q \<Longrightarrow> valid_level (fst (QuantizerTick score q))"
  "qLevel (snd (QuantizerTick score q)) = fst (QuantizerTick score q)"
  by (auto simp: quantizer_ok_def QuantizerTick_def Let_def validThresholds_def)

lemma QuantizerReset_ok: "quantizer_ok q \<Longrightarrow> quantizer_ok (QuantizerReset q)"
  by (simp add: quantizer_ok_def QuantizerReset_def validThresholds_def)

text \<open>The abstract trigger: a level agrees with a score when the score lies in the level's band.\<close>

definition in_band :: "quantizer \<Rightarrow> level \<Rightarrow> float64 \<Rightarrow> bool" where
  "in_band q l score \<longleftrightarrow>
     (l = LevelNormal \<longrightarrow> flt score (enterElevated q)) \<and>
     (l = LevelElevated \<longrightarrow> flt (exitElevated q) score \<and> flt score (enterCritical q)) \<and>
     (l = LevelCritical \<longrightarrow> flt (exitCritical q) score)"

definition same_thresholds :: "quantizer \<Rightarrow> quantizer \<Rightarrow> bool" where
  "same_thresholds q q' \<longleftrightarrow> enterElevated q = enterElevated q' \<and> exitElevated q = exitElevated q' \<and>
     enterCritical q = enterCritical q' \<and> exitCritical q = exitCritical q'"

lemma flt_Fin_unit: "unit_value x \<Longrightarrow> \<exists>a. x = Fin a \<and> 0 \<le> a \<and> a \<le> 1"
  by (auto simp: unit_value_def)

lemma inRangeE:
  assumes "inRange v" obtains a where "v = Fin a" "0 < a" "a < 1"
  using assms by (cases v) (auto simp: inRange_def)

lemma QuantizerTick_agrees:
  assumes "quantizer_ok q" "unit_value score"
  shows "in_band q (fst (QuantizerTick score q)) score"
proof -
  obtain x where x: "score = Fin x" using assms(2) by (auto elim: unit_valueE)
  from assms(1) have v: "validThresholds q" "valid_level (qLevel q)" by (simp_all add: quantizer_ok_def)
  obtain a b c d where t: "exitElevated q = Fin a" "enterElevated q = Fin b" "exitCritical q = Fin c"
    "enterCritical q = Fin d" "a < b" "c < d" "b < d" "a < c"
    using v(1) unfolding validThresholds_def by (auto elim!: inRangeE)
  from v(2) show ?thesis
    by (cases rule: valid_level_cases)
      (use t in \<open>auto simp: QuantizerTick_def Let_def in_band_def x level_defs\<close>)
qed

text \<open>
  The trigger moves only when it must: between two scores that both agree with the current level
  nothing changes, so a score inside the gap of a boundary never makes the level flap.
\<close>

lemma QuantizerTick_holds:
  assumes "quantizer_ok q" "unit_value score" "in_band q (qLevel q) score"
  shows "fst (QuantizerTick score q) = qLevel q"
proof -
  obtain x where x: "score = Fin x" using assms(2) by (auto elim: unit_valueE)
  from assms(1) have v: "validThresholds q" "valid_level (qLevel q)" by (simp_all add: quantizer_ok_def)
  obtain a b c d where t: "exitElevated q = Fin a" "enterElevated q = Fin b" "exitCritical q = Fin c"
    "enterCritical q = Fin d" "a < b" "c < d" "b < d" "a < c"
    using v(1) unfolding validThresholds_def by (auto elim!: inRangeE)
  from v(2) show ?thesis
    by (cases rule: valid_level_cases)
      (use t assms(3) in \<open>auto simp: QuantizerTick_def Let_def in_band_def x level_defs\<close>)
qed

text \<open>A move up reaches the entry threshold of the new level, a move down an exit threshold.\<close>

lemma QuantizerTick_moves:
  assumes "quantizer_ok q" and "l = fst (QuantizerTick score q)"
  shows "qLevel q < l \<Longrightarrow> fle (if l = LevelCritical then enterCritical q else enterElevated q) score"
    and "l < qLevel q \<Longrightarrow> fle score (if l = LevelNormal then exitElevated q else exitCritical q)"
proof -
  have v: "valid_level (qLevel q)" using assms(1) by (simp add: quantizer_ok_def)
  show "qLevel q < l \<Longrightarrow> fle (if l = LevelCritical then enterCritical q else enterElevated q) score"
    using v by (cases rule: valid_level_cases)
      (auto simp: assms(2) QuantizerTick_def Let_def level_defs split: if_splits)
  show "l < qLevel q \<Longrightarrow> fle score (if l = LevelNormal then exitElevated q else exitCritical q)"
    using v by (cases rule: valid_level_cases)
      (auto simp: assms(2) QuantizerTick_def Let_def level_defs split: if_splits)
qed

lemma QuantizerTick_zero:
  assumes "quantizer_ok q" shows "fst (QuantizerTick (Fin 0) q) = LevelNormal"
proof -
  from assms have v: "validThresholds q" "valid_level (qLevel q)" by (simp_all add: quantizer_ok_def)
  obtain a b c d where t: "exitElevated q = Fin a" "enterElevated q = Fin b" "exitCritical q = Fin c"
    "enterCritical q = Fin d" "0 < a" "a < b" "c < d" "b < d" "a < c"
    using v(1) unfolding validThresholds_def by (auto elim!: inRangeE)
  from v(2) show ?thesis
    by (cases rule: valid_level_cases) (use t in \<open>auto simp: QuantizerTick_def Let_def level_defs\<close>)
qed

end
