(* ===== verification/Gov_Prom.thy ===== *)
theory Gov_Prom
  imports Gov_Levels
begin

text \<open>
  The Prometheus client of the governor (\<^verbatim>\<open>internal/promquery/client.go\<close>) and the verdict it
  folds (\<^verbatim>\<open>internal/domain/degradation.go\<close>). The HTTP exchange is an argument: each query ends in
  no answer, in a status other than 200, in a body that does not decode, or in a decoded body.
\<close>

section \<open>Domain\<close>

definition SeverityElevated :: string where "SeverityElevated = ''elevated''"
definition SeverityCritical :: string where "SeverityCritical = ''critical''"
definition SeverityInfo :: string where "SeverityInfo = ''info''"

definition ReasonManualOverride :: string where "ReasonManualOverride = ''manual_override''"
definition ReasonPrometheusUnreachable :: string where
  "ReasonPrometheusUnreachable = ''prometheus_unreachable''"
definition ReasonHeldByHysteresis :: string where "ReasonHeldByHysteresis = ''held_by_hysteresis''"
definition ReasonSignalStale :: string where "ReasonSignalStale = ''signal_stale''"
definition EgressUplinkSignal :: string where "EgressUplinkSignal = ''egress_uplink''"

definition BreachSignals :: "string list" where
  "BreachSignals = [''psi_cpu_some'', ''psi_io_full'', ''psi_mem_full'', ''mem_available'', EgressUplinkSignal]"

definition InfoReasons :: "string list" where
  "InfoReasons = [ReasonManualOverride, ReasonPrometheusUnreachable, ReasonHeldByHysteresis, ReasonSignalStale]"

lemmas severity_defs = SeverityElevated_def SeverityCritical_def SeverityInfo_def

record reason =
  rSignal :: string
  rSeverity :: string

record verdict =
  vTarget :: level
  vReasons :: "reason list"
  vSignals :: "string \<rightharpoonup> float64"
  vScore :: float64
  vSampleAge :: float64
  vEgress :: float64

text \<open>The zero value of the struct.\<close>

definition emptyVerdict :: verdict where
  "emptyVerdict = \<lparr>vTarget = LevelNormal, vReasons = [], vSignals = Map.empty, vScore = Fin 0,
     vSampleAge = Fin 0, vEgress = Fin 0\<rparr>"

section \<open>Answers of Prometheus\<close>

text \<open>A raw JSON value of a sample: a string, or something \<^verbatim>\<open>json.Unmarshal\<close> does not put in one.\<close>

datatype raw_json = RawString string | RawOther

record sample =
  sMetric :: "string \<rightharpoonup> string"
  sPair :: "raw_json list"

record vector_response =
  vrStatus :: string
  vrResult :: "sample list"

record scalar_response =
  srStatus :: string
  srResult :: "raw_json list"

datatype 'a http = NoAnswer | BadStatus int | BadBody | Body 'a

definition doQuery :: "'a http \<Rightarrow> 'a option" where
  "doQuery r = (case r of Body b \<Rightarrow> Some b | _ \<Rightarrow> None)"

definition queryVector :: "vector_response http \<Rightarrow> vector_response option" where
  "queryVector r = (case doQuery r of None \<Rightarrow> None
     | Some qr \<Rightarrow> if vrStatus qr \<noteq> ''success'' then None else Some qr)"

definition sampleValue :: "raw_json list \<Rightarrow> float64 option" where
  "sampleValue pair = (if length pair \<noteq> 2 then None
     else case pair ! 1 of RawOther \<Rightarrow> None | RawString s \<Rightarrow> ParseFloat s)"

definition queryScalar :: "scalar_response http \<Rightarrow> float64 option" where
  "queryScalar r = (case doQuery r of None \<Rightarrow> None
     | Some sr \<Rightarrow> if srStatus sr \<noteq> ''success'' then None else sampleValue (srResult sr))"

section \<open>Client\<close>

record prom_client =
  uplinkBytesPerSec :: float64
  egressElevatedFrac :: float64
  egressCriticalFrac :: float64

definition NewClient :: "float64 \<Rightarrow> float64 \<Rightarrow> float64 \<Rightarrow> prom_client" where
  "NewClient uplinkMbps elev crit = \<lparr>
     uplinkBytesPerSec = (if flt (Fin 0) uplinkMbps then fmul uplinkMbps (Fin 125000) else Fin 0),
     egressElevatedFrac = elev, egressCriticalFrac = crit\<rparr>"

definition clamp01 :: "float64 \<Rightarrow> float64" where
  "clamp01 x = MathMax (Fin 0) (MathMin (Fin 1) x)"

definition egressScore :: "float64 \<Rightarrow> float64 \<Rightarrow> float64 \<Rightarrow> float64" where
  "egressScore fr elev crit =
    (if fle elev (Fin 0) \<or> fle crit elev then Fin 0
     else
       let half = fdiv elev (Fin 2);
           lo = fmul (fin (1 / 2)) (clamp01 (fdiv (fsub fr half) half));
           hi = fmul (fin (1 / 2)) (clamp01 (fdiv (fsub fr elev) (fsub crit elev)))
       in clamp01 (fadd lo hi))"

definition egressSignalName :: string where
  "egressSignalName = ''ae:host_egress:bytes_per_second''"

text \<open>The breach maps and the verdict during the fold over the samples.\<close>

record folding =
  fVerdict :: verdict
  fCritical :: "string list"
  fElevated :: "string list"

definition foldEgress :: "prom_client \<Rightarrow> folding \<Rightarrow> folding" where
  "foldEgress c st =
    (if fle (uplinkBytesPerSec c) (Fin 0) then st
     else
       let egressBps = (case vSignals (fVerdict st) egressSignalName of None \<Rightarrow> Fin 0 | Some x \<Rightarrow> x)
       in if fle egressBps (Fin 0) then st
          else
            let fr = fdiv egressBps (uplinkBytesPerSec c);
                v = (fVerdict st)\<lparr>vEgress := fr\<rparr>;
                st1 = (if fle (egressCriticalFrac c) fr
                       then st\<lparr>fCritical := List.insert EgressUplinkSignal (fCritical st)\<rparr>
                       else if fle (egressElevatedFrac c) fr
                       then st\<lparr>fElevated := List.insert EgressUplinkSignal (fElevated st)\<rparr>
                       else st);
                s = egressScore fr (egressElevatedFrac c) (egressCriticalFrac c)
            in st1\<lparr>fVerdict := (if flt (vScore v) s then v\<lparr>vScore := s\<rparr> else v)\<rparr>)"

definition labelOf :: "sample \<Rightarrow> string \<Rightarrow> string" where
  "labelOf s l = (case sMetric s l of None \<Rightarrow> [] | Some x \<Rightarrow> x)"

definition foldSample :: "sample \<Rightarrow> folding \<Rightarrow> folding" where
  "foldSample s st =
    (case sampleValue (sPair s) of None \<Rightarrow> st
     | Some val \<Rightarrow>
       let name = labelOf s ''__name__''; v = fVerdict st in
       if name = ''ae:pressure_breach:critical'' then
         (if fle (Fin 1) val then st\<lparr>fCritical := List.insert (labelOf s ''signal'') (fCritical st)\<rparr> else st)
       else if name = ''ae:pressure_breach:elevated'' then
         (if fle (Fin 1) val then st\<lparr>fElevated := List.insert (labelOf s ''signal'') (fElevated st)\<rparr> else st)
       else if name = ''ae:pressure_score:preview'' then st\<lparr>fVerdict := v\<lparr>vScore := val\<rparr>\<rparr>
       else if take 8 name = ''ae:host_'' then
         (case vSignals v name of
            Some cur \<Rightarrow> if flt cur val then st\<lparr>fVerdict := v\<lparr>vSignals := (vSignals v)(name \<mapsto> val)\<rparr>\<rparr> else st
          | None \<Rightarrow> st\<lparr>fVerdict := v\<lparr>vSignals := (vSignals v)(name \<mapsto> val)\<rparr>\<rparr>)
       else st)"

definition breachReasons :: "string list \<Rightarrow> string list \<Rightarrow> reason list" where
  "breachReasons critical elevated = List.map_filter (\<lambda>sig.
     if sig \<in> set critical then Some \<lparr>rSignal = sig, rSeverity = SeverityCritical\<rparr>
     else if sig \<in> set elevated then Some \<lparr>rSignal = sig, rSeverity = SeverityElevated\<rparr>
     else None) BreachSignals"

definition foldSamples :: "prom_client \<Rightarrow> sample list \<Rightarrow> folding" where
  "foldSamples c ss = foldEgress c (fold foldSample ss
     \<lparr>fVerdict = emptyVerdict\<lparr>vSampleAge := Fin (- 1)\<rparr>, fCritical = [], fElevated = []\<rparr>)"

definition verdictOf :: "folding \<Rightarrow> verdict" where
  "verdictOf st = (fVerdict st)\<lparr>
     vReasons := breachReasons (fCritical st) (fElevated st),
     vTarget := (if fCritical st \<noteq> [] then LevelCritical
                 else if fElevated st \<noteq> [] then LevelElevated else LevelNormal)\<rparr>"

definition FetchVerdict ::
  "prom_client \<Rightarrow> vector_response http \<Rightarrow> scalar_response http \<Rightarrow> verdict option" where
  "FetchVerdict c vec scal = (case queryVector vec of None \<Rightarrow> None
     | Some qr \<Rightarrow>
       let v = verdictOf (foldSamples c (vrResult qr)) in
       Some (case queryScalar scal of
            Some age \<Rightarrow> if fle (Fin 0) age then v\<lparr>vSampleAge := age\<rparr> else v
          | None \<Rightarrow> v))"

section \<open>Facts\<close>

lemma clamp01_unit: "x \<noteq> NaN \<Longrightarrow> is_binary64 x \<Longrightarrow> unit_value (clamp01 x)"
  unfolding clamp01_def by (rule clamp_unit)

lemma is_binary64_Fin: "is_binary64 (Fin a) \<longleftrightarrow> representable a \<and> \<bar>a\<bar> < 2 ^ 1024"
  by (simp add: is_binary64_def)

lemma ParseFloat_binary64: "ParseFloat s = Some x \<Longrightarrow> is_binary64 x"
  by (auto simp: ParseFloat_def Let_def is_binary64_def [of PosInf] is_binary64_def [of NegInf]
      is_binary64_def [of NaN] split: prod.splits if_splits option.splits)

lemma sampleValue_binary64: "sampleValue p = Some x \<Longrightarrow> is_binary64 x"
  by (auto simp: sampleValue_def ParseFloat_binary64 split: if_splits raw_json.splits)

lemma egressScore_binary64: "is_binary64 (egressScore fr elev crit)"
proof -
  have "is_binary64 (fadd (fmul (fin (1 / 2)) x) (fmul (fin (1 / 2)) y))" for x y
    by (cases "fmul (fin (1 / 2)) x"; cases "fmul (fin (1 / 2)) y")
      (auto simp: is_binary64_def [of PosInf] is_binary64_def [of NegInf] is_binary64_def [of NaN])
  moreover have "is_binary64 (clamp01 x)" if "is_binary64 x" for x
    using clamp01_unit [OF _ that] clamp_NaN
    by (cases "x = NaN") (auto simp: clamp01_def unit_value_def is_binary64_def)
  ultimately show ?thesis by (auto simp: egressScore_def Let_def is_binary64_def [of "Fin 0"])
qed

text \<open>The raw score is a binary64 value, whatever Prometheus answers.\<close>

lemma foldSample_score: "is_binary64 (vScore (fVerdict st)) \<Longrightarrow> is_binary64 (vScore (fVerdict (foldSample s st)))"
  by (auto simp: foldSample_def Let_def sampleValue_binary64 split: option.splits)

lemma fold_foldSample_score:
  "is_binary64 (vScore (fVerdict st)) \<Longrightarrow> is_binary64 (vScore (fVerdict (fold foldSample ss st)))"
  by (induction ss arbitrary: st) (simp_all add: foldSample_score)

lemma foldEgress_score: "is_binary64 (vScore (fVerdict st)) \<Longrightarrow> is_binary64 (vScore (fVerdict (foldEgress c st)))"
  by (auto simp: foldEgress_def Let_def egressScore_binary64)

lemma foldSamples_score: "is_binary64 (vScore (fVerdict (foldSamples c ss)))"
  unfolding foldSamples_def
  by (intro foldEgress_score fold_foldSample_score) (simp add: emptyVerdict_def is_binary64_def)

lemma FetchVerdict_cases:
  assumes "FetchVerdict c vec scal = Some v"
  obtains qr age where "queryVector vec = Some qr"
    "v = (verdictOf (foldSamples c (vrResult qr)))\<lparr>vSampleAge := age\<rparr>"
proof (cases "queryVector vec")
  case None
  with assms show thesis by (simp add: FetchVerdict_def)
next
  case (Some qr)
  let ?w = "verdictOf (foldSamples c (vrResult qr))"
  define age where "age = (case queryScalar scal of
    Some x \<Rightarrow> if fle (Fin 0) x then x else vSampleAge ?w | None \<Rightarrow> vSampleAge ?w)"
  have "Some v = Some (case queryScalar scal of
    Some x \<Rightarrow> if fle (Fin 0) x then ?w\<lparr>vSampleAge := x\<rparr> else ?w | None \<Rightarrow> ?w)"
    using assms Some by (simp add: FetchVerdict_def Let_def)
  also have "\<dots> = Some (?w\<lparr>vSampleAge := age\<rparr>)"
    by (simp add: age_def split: option.split)
  finally have "v = ?w\<lparr>vSampleAge := age\<rparr>" by simp
  with Some show thesis by (rule that)
qed

lemma FetchVerdict_score: "FetchVerdict c vec scal = Some v \<Longrightarrow> is_binary64 (vScore v)"
  by (erule FetchVerdict_cases) (simp add: verdictOf_def foldSamples_score)

lemma breachReasons_signals:
  "map rSignal (breachReasons cs es) = filter (\<lambda>sig. sig \<in> set cs \<or> sig \<in> set es) BreachSignals"
proof -
  have "map rSignal (List.map_filter (\<lambda>sig.
       if sig \<in> set cs then Some \<lparr>rSignal = sig, rSeverity = SeverityCritical\<rparr>
       else if sig \<in> set es then Some \<lparr>rSignal = sig, rSeverity = SeverityElevated\<rparr>
       else None) sigs) = filter (\<lambda>sig. sig \<in> set cs \<or> sig \<in> set es) sigs" for sigs
    by (induction sigs) (simp_all add: List.map_filter_def)
  then show ?thesis unfolding breachReasons_def .
qed

lemma distinct_BreachSignals: "distinct BreachSignals"
  by (simp add: BreachSignals_def EgressUplinkSignal_def)

lemma breachReasons_distinct: "distinct (map rSignal (breachReasons cs es))"
  unfolding breachReasons_signals by (rule distinct_filter) (rule distinct_BreachSignals)

lemma breachReasons_iff:
  "r \<in> set (breachReasons cs es) \<longleftrightarrow> rSignal r \<in> set BreachSignals \<and>
     (rSignal r \<in> set cs \<and> r = \<lparr>rSignal = rSignal r, rSeverity = SeverityCritical\<rparr> \<or>
      rSignal r \<notin> set cs \<and> rSignal r \<in> set es \<and> r = \<lparr>rSignal = rSignal r, rSeverity = SeverityElevated\<rparr>)"
  by (auto simp: breachReasons_def List.map_filter_def)

section \<open>Calibration of the egress score\<close>

text \<open>The clamp after a rounded division, also when the quotient overflows.\<close>

definition clampq :: "rat \<Rightarrow> rat" where
  "clampq q = max 0 (min 1 (fround q))"

lemma clamp01_fin: "clamp01 (fin q) = Fin (clampq q)"
proof -
  have "(0::rat) < 2 ^ 1024" "(1::rat) < 2 ^ 1024" by simp_all
  then show ?thesis
    by (auto simp: clamp01_def clampq_def fin_def Let_def MathMax_def MathMin_def)
qed

lemma clampq_mono: "q \<le> q' \<Longrightarrow> clampq q \<le> clampq q'"
  using fround_mono [of q q'] by (auto simp: clampq_def)

lemma clampq_bounds: "0 \<le> clampq q" "clampq q \<le> 1"
  by (auto simp: clampq_def)

lemma clampq_eqs: "q \<le> 0 \<Longrightarrow> clampq q = 0" "1 \<le> q \<Longrightarrow> clampq q = 1"
  using fround_mono [of q 0] fround_ge [of 1 q] by (auto simp: clampq_def)

definition egress_band :: "rat \<Rightarrow> rat \<Rightarrow> rat \<Rightarrow> rat" where
  "egress_band e k f = clampq (
     fround (1 / 2 * clampq (fround (f - e / 2) / (e / 2))) +
     fround (1 / 2 * clampq (fround (f - e) / fround (k - e))))"

locale egress_config =
  fixes e k :: rat
  assumes e: "1 / 1000 \<le> e" and gap: "e + 1 / 1000 \<le> k" and k: "k \<le> 1000"
    and repr: "representable e" "representable k"
begin

lemma gap_pos: "0 < fround (k - e)"
proof -
  have "(1::rat) / 1024 \<le> k - e" using gap by linarith
  moreover have "representable (1 / 1024)" using representableI [of 1 "- 10"] powi_neg [of 10] by simp
  ultimately have "1 / 1024 \<le> fround (k - e)" by (rule fround_ge)
  then show ?thesis by (rule less_le_trans [rotated]) simp
qed

lemma half: "representable (e / 2)"
proof (rule representable_half)
  have "1 / 2 ^ 1000 \<le> (1 / 2 ^ 10 :: rat)" by (rule divide_left_mono) (simp_all add: power_increasing)
  also have "\<dots> \<le> e" using e by simp
  finally show "1 / 2 ^ 1000 \<le> \<bar>e\<bar>" by simp
qed (rule repr)

lemma fin_sub: "0 \<le> f \<Longrightarrow> is_binary64 (Fin f) \<Longrightarrow> 0 \<le> c \<Longrightarrow> c \<le> 1000 \<Longrightarrow> fin (f - c) = Fin (fround (f - c))"
proof -
  assume a: "0 \<le> f" "is_binary64 (Fin f)" "0 \<le> c" "c \<le> 1000"
  have "representable (- 1000)" using representable_of_int [of "- 1000"] by simp
  then have "- 1000 \<le> fround (f - c)" using a by (intro fround_ge) auto
  moreover have "fround (f - c) \<le> f" using a by (intro fround_le) (auto simp: is_binary64_def)
  moreover have "(1000::rat) < 2 ^ 1024" "f < 2 ^ 1024" using a by (auto simp: is_binary64_def)
  ultimately have "\<bar>fround (f - c)\<bar> < 2 ^ 1024" by linarith
  then show ?thesis by (rule fin_eq)
qed

lemma egressScore_band:
  assumes f: "0 \<le> f" "is_binary64 (Fin f)"
  shows "egressScore (Fin f) (Fin e) (Fin k) = Fin (egress_band e k f)"
proof -
  have half': "fin (e / 2) = Fin (e / 2)"
  proof (rule fin_repr [OF half])
    have "\<bar>e / 2\<bar> \<le> 1000" using e k gap by simp
    also have "\<dots> \<le> (2::rat) ^ 1000" by simp
    finally show "\<bar>e / 2\<bar> \<le> 2 ^ 1000" .
  qed
  have d: "fdiv (Fin e) (Fin 2) = Fin (e / 2)" by (simp add: half')
  have s1: "fsub (Fin f) (Fin (e / 2)) = Fin (fround (f - e / 2))"
    using fin_sub [OF f, of "e / 2"] e k gap by (simp add: fsub_def)
  have s2: "fsub (Fin f) (Fin e) = Fin (fround (f - e))"
    using fin_sub [OF f, of e] e k gap by (simp add: fsub_def)
  have s3: "fsub (Fin k) (Fin e) = Fin (fround (k - e))"
    using fin_sub [of k e] e k gap repr by (simp add: fsub_def is_binary64_def abs_of_pos)
  have m: "fin (clampq q / 2) = Fin (fround (clampq q / 2))" for q
    using clampq_bounds [of q] by (simp add: fin_small)
  have "\<not> e \<le> 0" "\<not> k \<le> e" using e gap by auto
  then show ?thesis
    unfolding egressScore_def Let_def d s1 s2 s3
    using e gap_pos by (simp add: clamp01_fin m egress_band_def)
qed

lemma egress_band_mono: "f \<le> f' \<Longrightarrow> egress_band e k f \<le> egress_band e k f'"
  unfolding egress_band_def
  using e gap_pos
  by (intro clampq_mono add_mono fround_mono mult_left_mono divide_right_mono) auto

lemma egress_band_points:
  "f \<le> e / 2 \<Longrightarrow> egress_band e k f = 0" "egress_band e k e = 1 / 2" "k \<le> f \<Longrightarrow> egress_band e k f = 1"
proof -
  have half_r: "fround (1 / 2) = 1 / 2" using representable_consts(3) by (simp add: representable_def)
  have e0: "0 < e" using e by linarith
  have h: "fround (e / 2) = e / 2" using half by (simp add: representable_def)
  show "egress_band e k e = 1 / 2"
    using e0 h half_r clampq_eqs by (simp add: egress_band_def clampq_def)
  show "egress_band e k f = 0" if "f \<le> e / 2"
  proof -
    have "fround (f - e / 2) \<le> 0" "fround (f - e) \<le> 0"
      using fround_mono [of "f - e / 2" 0] fround_mono [of "f - e" 0] that e0 by simp_all
    then have "fround (f - e / 2) / (e / 2) \<le> 0" "fround (f - e) / fround (k - e) \<le> 0"
      using e0 gap_pos by (auto intro: divide_nonpos_pos)
    then show ?thesis by (simp add: egress_band_def clampq_eqs)
  qed
  show "egress_band e k f = 1" if "k \<le> f"
  proof -
    have "e / 2 \<le> fround (f - e / 2)" using half gap that by (intro fround_ge) auto
    then have "1 \<le> fround (f - e / 2) / (e / 2)" using e0 by (simp add: le_divide_eq)
    moreover have "fround (k - e) \<le> fround (f - e)" using that by (intro fround_mono) simp
    then have "1 \<le> fround (f - e) / fround (k - e)" using gap_pos by (simp add: le_divide_eq)
    ultimately show ?thesis by (simp add: egress_band_def clampq_eqs half_r)
  qed
qed

end

text \<open>The defaults of the service, GOVERNOR_EGRESS_ELEVATED_FRAC and GOVERNOR_EGRESS_CRITICAL_FRAC.\<close>

lemma default_fracs:
  "fround (75 / 100) = 3 / 4" "fround (90 / 100) = 8106479329266893 / 2 ^ 53"
  using fround_eval [of "3 / 4" 53 6755399441055744] fround_eval [of "9 / 10" 53 8106479329266893]
  by simp_all

interpretation egress_default: egress_config "fround (75 / 100)" "fround (90 / 100)"
proof
  show "1 / 1000 \<le> fround (75 / 100)" "fround (75 / 100) + 1 / 1000 \<le> fround (90 / 100)"
    "fround (90 / 100) \<le> 1000"
    unfolding default_fracs by simp_all
qed simp_all

end
