(* ===== verification/Gov_Tick.thy ===== *)
theory Gov_Tick
  imports Gov_Prom Fallible_Store
begin

text \<open>
  The evaluation loop of the governor (\<^verbatim>\<open>internal/service/governor.go\<close>), its Redis store
  (\<^verbatim>\<open>internal/repo/redis_store.go\<close>) and the transitions it reports.

  One tick is a program over a state that holds the governor's memory, the keys of Redis, the
  gauges and the transitions handed to the sink. Each Redis command may fail. The verdict of
  Prometheus and the clock of the tick are arguments. Counters, the two observability gauges and
  the log are left out; the JSON blob of the reasons is kept as the list it encodes.
\<close>

section \<open>State\<close>

record snapshot =
  snLevel :: level
  snScore :: float64
  snReasons :: "reason list"
  snSignals :: "string \<rightharpoonup> float64"
  snOverride :: "level option"
  snTarget :: level
  snUpdatedAt :: instant
  snPromHealthy :: bool
  snSampleAge :: float64
  snEgress :: float64

record transition =
  trTS :: instant
  trFrom :: level
  trTo :: level
  trReasons :: "string list"
  trSignals :: "string \<rightharpoonup> float64"

record tuning =
  levelTTL :: duration
  promFailTicks :: int
  tAlphaUp :: float64
  tAlphaDown :: float64
  tEnterElevated :: float64
  tExitElevated :: float64
  tEnterCritical :: float64
  tExitCritical :: float64
  stalenessMax :: duration

text \<open>A Redis key: its value, and the instant it expires at, if any.\<close>

type_synonym 'a rkey = "('a \<times> instant option) option"

record governor =
  gSmoother :: smoother
  gQuantizer :: quantizer
  gSnapshot :: snapshot
  gFailCount :: int
  gPublished :: level
  levelKey :: "string rkey"
  scoreKey :: "string rkey"
  reasonsKey :: "reason list rkey"
  overrideKey :: "string option"
  gaugeLevel :: level
  gaugeScore :: float64
  gaugeReason :: "string \<times> string \<Rightarrow> bool"
  gReported :: "transition list"

definition emptySnapshot :: snapshot where
  "emptySnapshot = \<lparr>snLevel = LevelNormal, snScore = Fin 0, snReasons = [], snSignals = Map.empty,
     snOverride = None, snTarget = LevelNormal, snUpdatedAt = 0, snPromHealthy = True,
     snSampleAge = Fin 0, snEgress = Fin 0\<rparr>"

definition NewGovernor :: "tuning \<Rightarrow> governor" where
  "NewGovernor t = \<lparr>
     gSmoother = NewSmoother (tAlphaUp t) (tAlphaDown t),
     gQuantizer = NewQuantizer (tEnterElevated t) (tExitElevated t) (tEnterCritical t) (tExitCritical t),
     gSnapshot = emptySnapshot, gFailCount = 0, gPublished = LevelNormal,
     levelKey = None, scoreKey = None, reasonsKey = None, overrideKey = None,
     gaugeLevel = 0, gaugeScore = Fin 0, gaugeReason = (\<lambda>_. False), gReported = []\<rparr>"

section \<open>Redis store\<close>

text \<open>\<^verbatim>\<open>SET key value\<close> with an expiration: none when the duration is not positive.\<close>

definition expiry :: "instant \<Rightarrow> duration \<Rightarrow> instant option" where
  "expiry now ttl = (if 0 < ttl then Some (now + ttl) else None)"

definition PublishLevel ::
  "instant \<Rightarrow> level \<Rightarrow> float64 \<Rightarrow> reason list \<Rightarrow> duration \<Rightarrow> (governor, unit) prog" where
  "PublishLevel now l score reasons ttl =
     bnd (command (\<lambda>w. (Inr (), w\<lparr>levelKey := Some (Itoa l, expiry now ttl)\<rparr>))) (\<lambda>_.
     bnd (command (\<lambda>w. (Inr (), w\<lparr>scoreKey := Some (FormatFloat2 score, expiry now ttl)\<rparr>))) (\<lambda>_.
     command (\<lambda>w. (Inr (), w\<lparr>reasonsKey := Some (reasons, expiry now ttl)\<rparr>))))"

definition parseOverride :: "string option \<Rightarrow> level option" where
  "parseOverride raw = (case raw of None \<Rightarrow> None
     | Some s \<Rightarrow> (case Atoi s of None \<Rightarrow> None
         | Some n \<Rightarrow> if n < 0 \<or> n > 2 then None else Some n))"

definition Override :: "(governor, level option) prog" where
  "Override = query (\<lambda>w. parseOverride (overrideKey w))"

section \<open>Tick\<close>

definition overrideScore :: "level \<Rightarrow> float64" where
  "overrideScore l = (if l = LevelCritical then Fin 1 else if l = LevelElevated then fin (1 / 2) else Fin 0)"

definition flattenReasons :: "reason list \<Rightarrow> string list" where
  "flattenReasons rs = map (\<lambda>r. if rSeverity r = SeverityInfo then rSignal r
     else rSignal r @ '':'' @ rSeverity r) rs"

text \<open>The labels the gauge of reasons writes on every publication.\<close>

definition gaugeLabels :: "(string \<times> string) list" where
  "gaugeLabels = List.product BreachSignals [SeverityElevated, SeverityCritical] @
     map (\<lambda>r. (r, SeverityInfo)) InfoReasons"

definition setGauges :: "level \<Rightarrow> float64 \<Rightarrow> reason list \<Rightarrow> governor \<Rightarrow> governor" where
  "setGauges l score reasons w = w\<lparr>gaugeLevel := l, gaugeScore := score,
     gaugeReason := (\<lambda>k. if k \<in> set gaugeLabels
       then k \<in> set (map (\<lambda>r. (rSignal r, rSeverity r)) reasons) else gaugeReason w k)\<rparr>"

definition publish ::
  "tuning \<Rightarrow> instant \<Rightarrow> level \<Rightarrow> float64 \<Rightarrow> reason list \<Rightarrow> (governor, unit) prog" where
  "publish t now l score reasons =
     bnd (logged (PublishLevel now l score reasons (levelTTL t))) (\<lambda>_.
     memory (\<lambda>w. ((), setGauges l score reasons w)))"

definition Seconds :: "duration \<Rightarrow> float64" where
  "Seconds d = fadd (fin (of_int (go_quot d Second)))
     (fdiv (fin (of_int (d - go_quot d Second * Second))) (Fin 1000000000))"

definition isStale :: "tuning \<Rightarrow> verdict \<Rightarrow> bool" where
  "isStale t v \<longleftrightarrow> 0 < stalenessMax t \<and> flt (Seconds (stalenessMax t)) (vSampleAge v)"

text \<open>Advance the two machines: the level, the score, and whether the sample was stale.\<close>

definition evaluate :: "tuning \<Rightarrow> verdict \<Rightarrow> bool \<Rightarrow> governor \<Rightarrow> (level \<times> float64 \<times> bool) \<times> governor" where
  "evaluate t v healthy w =
    (if \<not> healthy then ((LevelNormal, Fin 0, False), w)
     else if isStale t v then ((qLevel (gQuantizer w), smValue (gSmoother w), True), w)
     else (case SmootherTick (vScore v) (gSmoother w) of (score, sm) \<Rightarrow>
            (case QuantizerTick score (gQuantizer w) of (l, q) \<Rightarrow>
               ((l, score, False), w\<lparr>gSmoother := sm, gQuantizer := q\<rparr>))))"

definition info :: "string \<Rightarrow> reason" where
  "info s = \<lparr>rSignal = s, rSeverity = SeverityInfo\<rparr>"

definition baseReasons :: "verdict \<Rightarrow> bool \<Rightarrow> bool \<Rightarrow> level \<Rightarrow> reason list" where
  "baseReasons v healthy stale computed =
    (if \<not> healthy then [info ReasonPrometheusUnreachable]
     else if stale then [info ReasonSignalStale]
     else if computed > LevelNormal \<and> vReasons v = [] then [info ReasonHeldByHysteresis]
     else vReasons v)"

definition decide ::
  "verdict \<Rightarrow> bool \<Rightarrow> level option \<Rightarrow> level \<times> float64 \<times> bool \<Rightarrow> level \<times> float64 \<times> reason list" where
  "decide v healthy override cs = (case cs of (computed, score, stale) \<Rightarrow>
     let reasons = baseReasons v healthy stale computed in
     (case override of None \<Rightarrow> (computed, score, reasons)
      | Some l \<Rightarrow> (l, overrideScore l, info ReasonManualOverride # reasons)))"

definition record_tick ::
  "instant \<Rightarrow> verdict \<Rightarrow> bool \<Rightarrow> level option \<Rightarrow> level \<times> float64 \<times> reason list \<Rightarrow> governor \<Rightarrow> governor" where
  "record_tick now v healthy override d w = (case d of (l, score, reasons) \<Rightarrow>
     let w' = w\<lparr>gPublished := l, gSnapshot := \<lparr>snLevel = l, snScore = score, snReasons = reasons,
           snSignals = vSignals v, snOverride = override, snTarget = vTarget v, snUpdatedAt = now,
           snPromHealthy = healthy, snSampleAge = vSampleAge v, snEgress = vEgress v\<rparr>\<rparr>
     in if gPublished w \<noteq> l
        then w'\<lparr>gReported := gReported w @ [\<lparr>trTS = now, trFrom = gPublished w, trTo = l,
               trReasons = flattenReasons reasons, trSignals = vSignals v\<rparr>]\<rparr>
        else w')"

definition complete :: "tuning \<Rightarrow> instant \<Rightarrow> verdict \<Rightarrow> bool \<Rightarrow> (governor, unit) prog" where
  "complete t now v healthy =
     bnd (memory (evaluate t v healthy)) (\<lambda>cs.
     attempt Override (\<lambda>r.
       let override = (case r of Inl _ \<Rightarrow> None | Inr o' \<Rightarrow> o'); d = decide v healthy override cs in
       bnd (publish t now (fst d) (fst (snd d)) (snd (snd d))) (\<lambda>_.
       memory (\<lambda>w. ((), record_tick now v healthy override d w)))))"

definition RunTick :: "tuning \<Rightarrow> instant \<Rightarrow> verdict option \<Rightarrow> (governor, unit) prog" where
  "RunTick t now fetched = (case fetched of
     None \<Rightarrow>
       bnd (memory (\<lambda>w. (gFailCount w + 1, w\<lparr>gFailCount := gFailCount w + 1\<rparr>))) (\<lambda>fails.
       if fails < promFailTicks t then
         bnd (memory (\<lambda>w. (gPublished w, w))) (\<lambda>l.
         bnd (memory (\<lambda>w. case SmootherTick (Fin 0) (gSmoother w) of (v, sm) \<Rightarrow> (v, w\<lparr>gSmoother := sm\<rparr>))) (\<lambda>score.
         bnd (memory (\<lambda>w. (snReasons (gSnapshot w), w))) (\<lambda>reasons.
         publish t now l score reasons)))
       else
         bnd (memory (\<lambda>w. ((), w\<lparr>gSmoother := SmootherReset (gSmoother w),
           gQuantizer := QuantizerReset (gQuantizer w)\<rparr>))) (\<lambda>_.
         complete t now emptyVerdict False))
   | Some v \<Rightarrow>
       bnd (memory (\<lambda>w. ((), w\<lparr>gFailCount := 0\<rparr>))) (\<lambda>_. complete t now v True))"

section \<open>What a tick does, for every pattern of Redis faults\<close>

text \<open>The first \<open>k\<close> of the three keys of a publication.\<close>

definition writeKeys ::
  "nat \<Rightarrow> instant \<Rightarrow> level \<Rightarrow> float64 \<Rightarrow> reason list \<Rightarrow> duration \<Rightarrow> governor \<Rightarrow> governor" where
  "writeKeys k now l score reasons ttl w = w\<lparr>
     levelKey := (if 1 \<le> k then Some (Itoa l, expiry now ttl) else levelKey w),
     scoreKey := (if 2 \<le> k then Some (FormatFloat2 score, expiry now ttl) else scoreKey w),
     reasonsKey := (if 3 \<le> k then Some (reasons, expiry now ttl) else reasonsKey w)\<rparr>"

lemma wp_PublishLevel:
  assumes "\<And>k. k \<le> 3 \<Longrightarrow> Q (writeKeys k now l score reasons ttl w)"
  shows "wp (PublishLevel now l score reasons ttl) (\<lambda>_. Q) (\<lambda>_. Q) w"
proof -
  have "Q w" "Q (w\<lparr>levelKey := Some (Itoa l, expiry now ttl)\<rparr>)"
    "Q (w\<lparr>levelKey := Some (Itoa l, expiry now ttl), scoreKey := Some (FormatFloat2 score, expiry now ttl)\<rparr>)"
    "Q (w\<lparr>levelKey := Some (Itoa l, expiry now ttl), scoreKey := Some (FormatFloat2 score, expiry now ttl),
        reasonsKey := Some (reasons, expiry now ttl)\<rparr>)"
    using assms [of 0] assms [of 1] assms [of 2] assms [of 3] by (simp_all add: writeKeys_def)
  then show ?thesis unfolding PublishLevel_def by (auto intro!: wp_rules)
qed

lemma wp_publish:
  assumes "\<And>k. k \<le> 3 \<Longrightarrow> Q () (setGauges l score reasons (writeKeys k now l score reasons (levelTTL t) w))"
  shows "wp (publish t now l score reasons) Q E w"
  unfolding publish_def
  by (rule wp_bnd, rule wp_logged, rule wp_PublishLevel, rule wp_memory) (simp add: assms)

definition finish ::
  "tuning \<Rightarrow> instant \<Rightarrow> verdict \<Rightarrow> bool \<Rightarrow> level option \<Rightarrow> nat \<Rightarrow> governor \<Rightarrow> governor" where
  "finish t now v healthy override k w = (case evaluate t v healthy w of (cs, w1) \<Rightarrow>
     (case decide v healthy override cs of (l, score, reasons) \<Rightarrow>
        record_tick now v healthy override (l, score, reasons)
          (setGauges l score reasons (writeKeys k now l score reasons (levelTTL t) w1))))"

lemma evaluate_override: "overrideKey (snd (evaluate t v healthy w)) = overrideKey w"
  by (simp add: evaluate_def split: prod.split)

lemma wp_complete:
  assumes "\<And>override k. override = parseOverride (overrideKey w) \<or> override = None \<Longrightarrow> k \<le> 3 \<Longrightarrow>
    Q () (finish t now v healthy override k w)"
  shows "wp (complete t now v healthy) Q E w"
proof -
  obtain cs w1 where e: "evaluate t v healthy w = (cs, w1)" by (cases "evaluate t v healthy w")
  then have o1: "overrideKey w1 = overrideKey w" using evaluate_override [of t v healthy w] by simp
  have fin: "Q () (record_tick now v healthy ov (decide v healthy ov cs)
      (setGauges (fst (decide v healthy ov cs)) (fst (snd (decide v healthy ov cs))) (snd (snd (decide v healthy ov cs)))
        (writeKeys k now (fst (decide v healthy ov cs)) (fst (snd (decide v healthy ov cs)))
          (snd (snd (decide v healthy ov cs))) (levelTTL t) w1)))"
    if "ov = parseOverride (overrideKey w) \<or> ov = None" "k \<le> 3" for ov k
    using assms [OF that] unfolding finish_def e by (simp add: split_beta)
  have body: "wp (let d = decide v healthy ov cs in
      bnd (publish t now (fst d) (fst (snd d)) (snd (snd d))) (\<lambda>_.
      memory (\<lambda>w. ((), record_tick now v healthy ov d w)))) Q E w1"
    if "ov = parseOverride (overrideKey w) \<or> ov = None" for ov
    unfolding Let_def
    by (rule wp_bnd, rule wp_publish, rule wp_memory) (use fin [OF that] in simp)
  have "wp (attempt Override (\<lambda>r. let override = (case r of Inl _ \<Rightarrow> None | Inr o' \<Rightarrow> o');
        d = decide v healthy override cs in
      bnd (publish t now (fst d) (fst (snd d)) (snd (snd d))) (\<lambda>_.
      memory (\<lambda>w. ((), record_tick now v healthy override d w))))) Q E w1"
    unfolding Override_def
    by (rule wp_attempt, rule wp_query) (use body [of None] body [of "parseOverride (overrideKey w)"] in
        \<open>simp_all add: o1 Let_def\<close>)
  then show ?thesis
    unfolding complete_def by (intro wp_bnd wp_memory) (simp add: e)
qed

text \<open>The grace window: the published level stays, the score decays, nothing else is decided.\<close>

definition graceTick :: "tuning \<Rightarrow> instant \<Rightarrow> nat \<Rightarrow> governor \<Rightarrow> governor" where
  "graceTick t now k w = (case SmootherTick (Fin 0) (gSmoother w) of (v, sm) \<Rightarrow>
     setGauges (gPublished w) v (snReasons (gSnapshot w))
       (writeKeys k now (gPublished w) v (snReasons (gSnapshot w)) (levelTTL t)
         (w\<lparr>gFailCount := gFailCount w + 1, gSmoother := sm\<rparr>)))"

definition resetMachines :: "governor \<Rightarrow> governor" where
  "resetMachines w = w\<lparr>gFailCount := gFailCount w + 1, gSmoother := SmootherReset (gSmoother w),
     gQuantizer := QuantizerReset (gQuantizer w)\<rparr>"

definition tick_outcome :: "tuning \<Rightarrow> instant \<Rightarrow> verdict option \<Rightarrow> governor \<Rightarrow> governor \<Rightarrow> bool" where
  "tick_outcome t now fetched w w' \<longleftrightarrow> (\<exists>k\<le>3. \<exists>ov.
     (ov = parseOverride (overrideKey w) \<or> ov = None) \<and>
     (case fetched of
        Some v \<Rightarrow> w' = finish t now v True ov k (w\<lparr>gFailCount := 0\<rparr>)
      | None \<Rightarrow> if gFailCount w + 1 < promFailTicks t then w' = graceTick t now k w
          else w' = finish t now emptyVerdict False ov k (resetMachines w)))"

theorem wp_RunTick:
  "wp (RunTick t now fetched) (\<lambda>_. tick_outcome t now fetched w) E w"
proof (cases fetched)
  case None
  show ?thesis
  proof (cases "gFailCount w + 1 < promFailTicks t")
    case True
    obtain v sm where sm: "SmootherTick (Fin 0) (gSmoother w) = (v, sm)"
      by (cases "SmootherTick (Fin 0) (gSmoother w)")
    have "tick_outcome t now None w (graceTick t now k w)" if "k \<le> 3" for k
      using that True by (auto simp: tick_outcome_def)
    then have out: "tick_outcome t now None w (setGauges (gPublished w) v (snReasons (gSnapshot w))
      (writeKeys k now (gPublished w) v (snReasons (gSnapshot w)) (levelTTL t)
        (w\<lparr>gFailCount := gFailCount w + 1, gSmoother := sm\<rparr>)))" if "k \<le> 3" for k
      using that unfolding graceTick_def sm by simp
    show ?thesis
      unfolding RunTick_def None option.case
      by (rule wp_bnd, rule wp_memory, simp add: True, rule wp_bnd, rule wp_memory, simp,
          rule wp_bnd, rule wp_memory, simp add: sm, rule wp_bnd, rule wp_memory, simp, rule wp_publish, rule out)
  next
    case False
    have "tick_outcome t now None w (finish t now emptyVerdict False ov k (resetMachines w))"
      if "ov = parseOverride (overrideKey (resetMachines w)) \<or> ov = None" "k \<le> 3" for ov k
      using that False by (auto simp: tick_outcome_def resetMachines_def)
    then have "wp (complete t now emptyVerdict False) (\<lambda>_. tick_outcome t now None w) E (resetMachines w)"
      by (rule wp_complete)
    then show ?thesis
      unfolding RunTick_def None option.case
      by (intro wp_bnd wp_memory) (simp add: False wp_bnd wp_memory resetMachines_def)
  qed
next
  case (Some v)
  have "tick_outcome t now (Some v) w (finish t now v True ov k (w\<lparr>gFailCount := 0\<rparr>))"
    if "ov = parseOverride (overrideKey (w\<lparr>gFailCount := 0\<rparr>)) \<or> ov = None" "k \<le> 3" for ov k
    using that by (auto simp: tick_outcome_def)
  then have "wp (complete t now v True) (\<lambda>_. tick_outcome t now (Some v) w) E (w\<lparr>gFailCount := 0\<rparr>)"
    by (rule wp_complete)
  then show ?thesis unfolding RunTick_def Some option.case by (intro wp_bnd wp_memory) simp
qed

lemma RunTick_outcome: "tick_outcome t now fetched (data s) (data (snd (RunTick t now fetched s)))"
  using wpD [OF wp_RunTick [of t now fetched "data s" "\<lambda>_ _. False"]]
  by (simp add: ends_def split: sum.splits)

end
