(* ===== verification/Gov_Loop.thy ===== *)
theory Gov_Loop
  imports Gov_Tick
begin

text \<open>
  The governor over time: the loop of ticks with an arbitrary Prometheus, an arbitrary Redis, an
  owner who pins levels, expiring keys and restarts of the process, which lose the memory and keep
  the keys. The invariant holds in every reachable state; the theorems on recovery, on the loss of
  Prometheus and on stale samples are about every run of ticks from such a state.
\<close>

section \<open>Reachable states\<close>

text \<open>One tick of the loop: poll Prometheus, then run the tick with some pattern of faults.\<close>

definition governorTick ::
  "tuning \<Rightarrow> prom_client \<Rightarrow> instant \<Rightarrow> vector_response http \<Rightarrow> scalar_response http \<Rightarrow> bool list \<Rightarrow>
   governor \<Rightarrow> governor" where
  "governorTick t c now vec scal script w =
     data (snd (RunTick t now (FetchVerdict c vec scal) \<lparr>data = w, faults = script\<rparr>))"

lemma governorTick_outcome: "tick_outcome t now (FetchVerdict c vec scal) w (governorTick t c now vec scal script w)"
  using RunTick_outcome [of t now "FetchVerdict c vec scal" "\<lparr>data = w, faults = script\<rparr>"]
  by (simp add: governorTick_def)

definition expireKey :: "instant \<Rightarrow> 'a rkey \<Rightarrow> 'a rkey" where
  "expireKey now k = (case k of Some (v, Some e) \<Rightarrow> if e \<le> now then None else k | _ \<Rightarrow> k)"

definition expireKeys :: "instant \<Rightarrow> governor \<Rightarrow> governor" where
  "expireKeys now w = w\<lparr>levelKey := expireKey now (levelKey w), scoreKey := expireKey now (scoreKey w),
     reasonsKey := expireKey now (reasonsKey w)\<rparr>"

definition restart :: "tuning \<Rightarrow> governor \<Rightarrow> governor" where
  "restart t w = (NewGovernor t)\<lparr>levelKey := levelKey w, scoreKey := scoreKey w,
     reasonsKey := reasonsKey w, overrideKey := overrideKey w\<rparr>"

inductive reachable_governor :: "tuning \<Rightarrow> prom_client \<Rightarrow> governor \<Rightarrow> bool" for t c where
  boot: "reachable_governor t c (NewGovernor t)"
| tick: "reachable_governor t c w \<Longrightarrow> reachable_governor t c (governorTick t c now vec scal script w)"
| pin: "reachable_governor t c w \<Longrightarrow> reachable_governor t c (w\<lparr>overrideKey := v\<rparr>)"
| pass: "reachable_governor t c w \<Longrightarrow> reachable_governor t c (expireKeys now w)"
| crash: "reachable_governor t c w \<Longrightarrow> reachable_governor t c (restart t w)"

text \<open>The alphas of the configuration are numbers; thresholds may be anything.\<close>

definition tuning_ok :: "tuning \<Rightarrow> bool" where
  "tuning_ok t \<longleftrightarrow> tAlphaUp t \<noteq> NaN \<and> tAlphaDown t \<noteq> NaN \<and>
     is_binary64 (tAlphaUp t) \<and> is_binary64 (tAlphaDown t)"

section \<open>Invariant\<close>

fun transition_chain :: "level \<Rightarrow> transition list \<Rightarrow> level \<Rightarrow> bool" where
  "transition_chain l [] l' \<longleftrightarrow> l = l'"
| "transition_chain l (x # xs) l' \<longleftrightarrow> trFrom x = l \<and> trTo x \<noteq> l \<and> transition_chain (trTo x) xs l'"

lemma transition_chain_snoc:
  "transition_chain l (xs @ [x]) l' \<longleftrightarrow> transition_chain l xs (trFrom x) \<and> trTo x \<noteq> trFrom x \<and> trTo x = l'"
  by (induction xs arbitrary: l) auto

definition machines_ok :: "tuning \<Rightarrow> governor \<Rightarrow> bool" where
  "machines_ok t w \<longleftrightarrow> smoother_ok (gSmoother w) \<and> quantizer_ok (gQuantizer w) \<and>
     same_thresholds (gQuantizer w) (gQuantizer (NewGovernor t)) \<and>
     alphaDown (gSmoother w) = alphaDown (gSmoother (NewGovernor t)) \<and>
     alphaUp (gSmoother w) = alphaUp (gSmoother (NewGovernor t))"

definition keys_ok :: "governor \<Rightarrow> bool" where
  "keys_ok w \<longleftrightarrow>
     (\<forall>v e. levelKey w = Some (v, e) \<longrightarrow> v \<in> {''0'', ''1'', ''2''}) \<and>
     (\<forall>v e. scoreKey w = Some (v, e) \<longrightarrow> (\<exists>x. unit_value x \<and> v = FormatFloat2 x))"

definition published_ok :: "governor \<Rightarrow> bool" where
  "published_ok w \<longleftrightarrow> valid_level (gPublished w) \<and> snLevel (gSnapshot w) = gPublished w \<and>
     unit_value (snScore (gSnapshot w)) \<and> valid_level (gaugeLevel w) \<and> unit_value (gaugeScore w) \<and>
     transition_chain LevelNormal (gReported w) (gPublished w) \<and> 0 \<le> gFailCount w"

definition governor_ok :: "tuning \<Rightarrow> governor \<Rightarrow> bool" where
  "governor_ok t w \<longleftrightarrow> machines_ok t w \<and> keys_ok w \<and> published_ok w"

lemma Itoa_levels: "Itoa 0 = ''0''" "Itoa 1 = ''1''" "Itoa 2 = ''2''"
  by code_simp+

lemma Itoa_level: "valid_level l \<Longrightarrow> Itoa l \<in> {''0'', ''1'', ''2''}"
  by (erule valid_level_cases) (simp_all add: level_defs Itoa_levels)

lemma parseOverride_valid: "parseOverride raw = Some l \<Longrightarrow> valid_level l"
  by (auto simp: parseOverride_def valid_level_def level_defs split: option.splits if_splits)

lemma overrideScore_unit [simp]: "unit_value (overrideScore l)"
  using unit_valueI [of "1 / 2"] by (simp add: overrideScore_def)

lemma keys_ok_writeKeys:
  "keys_ok w \<Longrightarrow> valid_level l \<Longrightarrow> unit_value score \<Longrightarrow> keys_ok (writeKeys k now l score reasons ttl w)"
  using Itoa_level [of l] by (auto simp: keys_ok_def writeKeys_def)

lemma machines_ok_cong:
  "gSmoother w = gSmoother w' \<Longrightarrow> gQuantizer w = gQuantizer w' \<Longrightarrow> machines_ok t w = machines_ok t w'"
  by (simp add: machines_ok_def)

lemma keys_ok_cong: "levelKey w = levelKey w' \<Longrightarrow> scoreKey w = scoreKey w' \<Longrightarrow> keys_ok w = keys_ok w'"
  by (simp add: keys_ok_def)

lemma evaluate_ok:
  assumes "machines_ok t w" "is_binary64 (vScore v)"
  shows "case evaluate t v healthy w of ((l, score, stale), w1) \<Rightarrow>
     machines_ok t w1 \<and> valid_level l \<and> unit_value score \<and>
     w1 = w\<lparr>gSmoother := gSmoother w1, gQuantizer := gQuantizer w1\<rparr>"
proof -
  have sm: "smoother_ok (gSmoother w)" and q: "quantizer_ok (gQuantizer w)"
    using assms(1) by (simp_all add: machines_ok_def)
  show ?thesis
    using assms(1) sm q SmootherTick_ok [OF sm assms(2)] QuantizerTick_ok [where q = "gQuantizer w"]
    by (auto simp: evaluate_def machines_ok_def quantizer_ok_def smoother_ok_def same_thresholds_def
        QuantizerTick_def Let_def split: prod.splits)
qed

lemma decide_ok:
  assumes "valid_level l" "unit_value score" "ov = parseOverride raw \<or> ov = None"
  shows "case decide v healthy ov (l, score, stale) of (l', score', reasons) \<Rightarrow> valid_level l' \<and> unit_value score'"
  using assms parseOverride_valid [of raw] by (auto simp: decide_def Let_def split: option.splits)

lemma finish_ok:
  assumes ok: "governor_ok t w" and v: "is_binary64 (vScore v)"
    and ov: "ov = parseOverride raw \<or> ov = None"
  shows "governor_ok t (finish t now v healthy ov k w)"
proof -
  obtain l score stale w1 where e: "evaluate t v healthy w = ((l, score, stale), w1)"
    by (cases "evaluate t v healthy w") auto
  obtain l' score' rs where d: "decide v healthy ov (l, score, stale) = (l', score', rs)"
    by (cases "decide v healthy ov (l, score, stale)")
  have m: "machines_ok t w1" "valid_level l" "unit_value score"
    and w1: "w1 = w\<lparr>gSmoother := gSmoother w1, gQuantizer := gQuantizer w1\<rparr>"
    using evaluate_ok [of t w v healthy] ok v by (simp_all add: e governor_ok_def)
  have l': "valid_level l'" "unit_value score'"
    using decide_ok [OF m(2,3) ov, of v healthy stale] by (simp_all add: d)
  have pub: "published_ok w" "keys_ok w" using ok by (simp_all add: governor_ok_def)
  have "published_ok w1" by (subst w1) (use pub in \<open>simp add: published_ok_def\<close>)
  moreover have "keys_ok w1" by (subst w1) (use pub in \<open>simp add: keys_ok_def\<close>)
  ultimately show ?thesis
    using m(1) l' keys_ok_writeKeys [of w1 l' score' k now rs "levelTTL t"]
    by (auto simp: finish_def e d record_tick_def Let_def setGauges_def governor_ok_def published_ok_def
        machines_ok_def keys_ok_def writeKeys_def transition_chain_snoc)
qed

lemma graceTick_ok:
  assumes ok: "governor_ok t w" shows "governor_ok t (graceTick t now k w)"
proof -
  have sm: "smoother_ok (gSmoother w)" using ok by (simp add: governor_ok_def machines_ok_def)
  have "is_binary64 (Fin 0)" by (simp add: is_binary64_def)
  note S = SmootherTick_ok [OF sm this]
  have p: "valid_level (gPublished w)" using ok by (simp add: governor_ok_def published_ok_def)
  obtain v sm' where e: "SmootherTick (Fin 0) (gSmoother w) = (v, sm')"
    by (cases "SmootherTick (Fin 0) (gSmoother w)")
  show ?thesis
    using ok S p keys_ok_writeKeys [of w "gPublished w" v k now "snReasons (gSnapshot w)" "levelTTL t"]
    by (auto simp: e graceTick_def setGauges_def governor_ok_def published_ok_def machines_ok_def
        keys_ok_def writeKeys_def)
qed

lemma resetMachines_ok: "governor_ok t w \<Longrightarrow> governor_ok t (resetMachines w)"
  by (auto simp: resetMachines_def governor_ok_def machines_ok_def published_ok_def keys_ok_def
      SmootherReset_ok QuantizerReset_ok)
    (auto simp: SmootherReset_def QuantizerReset_def same_thresholds_def)

lemma failCount_ok [simp]: "governor_ok t w \<Longrightarrow> governor_ok t (w\<lparr>gFailCount := 0\<rparr>)"
  by (simp add: governor_ok_def machines_ok_def published_ok_def keys_ok_def)

lemma tick_outcomeE:
  assumes "tick_outcome t now fetched w w'"
  obtains (verdict) v ov k where "fetched = Some v" "ov = parseOverride (overrideKey w) \<or> ov = None" "k \<le> 3"
      "w' = finish t now v True ov k (w\<lparr>gFailCount := 0\<rparr>)"
    | (grace) k where "fetched = None" "gFailCount w + 1 < promFailTicks t" "k \<le> 3" "w' = graceTick t now k w"
    | (failopen) ov k where "fetched = None" "\<not> gFailCount w + 1 < promFailTicks t"
      "ov = parseOverride (overrideKey w) \<or> ov = None" "k \<le> 3"
      "w' = finish t now emptyVerdict False ov k (resetMachines w)"
  using assms unfolding tick_outcome_def
  by (cases fetched; cases "gFailCount w + 1 < promFailTicks t") auto

lemma emptyVerdict_score [simp]: "is_binary64 (vScore emptyVerdict)"
  by (simp add: emptyVerdict_def is_binary64_def)

lemma governorTick_ok:
  assumes "governor_ok t w" shows "governor_ok t (governorTick t c now vec scal script w)"
  using governorTick_outcome [of t now c vec scal w script]
proof (cases rule: tick_outcomeE)
  case (verdict v ov k)
  then show ?thesis using finish_ok [of t "w\<lparr>gFailCount := 0\<rparr>" v ov] assms FetchVerdict_score by simp
next
  case (grace k)
  then show ?thesis using graceTick_ok [OF assms] by simp
next
  case (failopen ov k)
  then show ?thesis using finish_ok [OF resetMachines_ok [OF assms] emptyVerdict_score] by simp
qed

lemma NewGovernor_ok: "tuning_ok t \<Longrightarrow> governor_ok t (NewGovernor t)"
  by (auto simp: tuning_ok_def governor_ok_def machines_ok_def keys_ok_def published_ok_def NewGovernor_def
      emptySnapshot_def NewSmoother_ok NewQuantizer_ok same_thresholds_def valid_level_def level_defs)

lemma expireKey_Some: "expireKey now k = Some x \<Longrightarrow> k = Some x"
  by (auto simp: expireKey_def split: option.splits if_splits)

theorem reachable_governor_ok:
  assumes "reachable_governor t c w" "tuning_ok t" shows "governor_ok t w"
  using assms
proof (induction rule: reachable_governor.induct)
  case (pass w now)
  then show ?case
    by (auto simp: governor_ok_def machines_ok_def published_ok_def keys_ok_def expireKeys_def
        dest: expireKey_Some)
next
  case (crash w)
  then show ?case using NewGovernor_ok [of t]
    by (auto simp: governor_ok_def machines_ok_def published_ok_def keys_ok_def restart_def)
qed (auto simp: NewGovernor_ok governorTick_ok,
     auto simp: governor_ok_def machines_ok_def published_ok_def keys_ok_def)

section \<open>What a run of ticks does\<close>

text \<open>One poll of the loop: its instant, the two answers of Prometheus, and the Redis faults.\<close>

type_synonym poll = "instant \<times> vector_response http \<times> scalar_response http \<times> bool list"

definition runPolls :: "tuning \<Rightarrow> prom_client \<Rightarrow> poll list \<Rightarrow> governor \<Rightarrow> governor" where
  "runPolls t c polls w =
     fold (\<lambda>(now, vec, scal, script) w. governorTick t c now vec scal script w) polls w"

lemma runPolls_simps [simp]:
  "runPolls t c [] w = w"
  "runPolls t c ((now, vec, scal, script) # ps) w = runPolls t c ps (governorTick t c now vec scal script w)"
  by (simp_all add: runPolls_def)

definition fetched :: "prom_client \<Rightarrow> poll \<Rightarrow> verdict option" where
  "fetched c p = (case p of (now, vec, scal, script) \<Rightarrow> FetchVerdict c vec scal)"

lemma runPolls_reachable: "reachable_governor t c w \<Longrightarrow> reachable_governor t c (runPolls t c ps w)"
proof (induction ps arbitrary: w)
  case (Cons p ps)
  obtain now vec scal script where p: "p = (now, vec, scal, script)" by (cases p)
  show ?case unfolding p runPolls_simps by (rule Cons.IH) (rule reachable_governor.tick, rule Cons.prems)
qed simp

lemma finish_overrideKey [simp]: "overrideKey (finish t now v healthy ov k w) = overrideKey w"
  using evaluate_override [of t v healthy w]
  by (auto simp: finish_def record_tick_def Let_def setGauges_def writeKeys_def split: prod.split)

lemma tick_overrideKey: "overrideKey (governorTick t c now vec scal script w) = overrideKey w"
  using governorTick_outcome [of t now c vec scal w script]
  by (cases rule: tick_outcomeE)
    (auto simp: graceTick_def resetMachines_def setGauges_def writeKeys_def split: prod.split)

subsection \<open>A fresh verdict\<close>

lemma finish_fresh:
  assumes "\<not> isStale t v"
  shows "gSmoother (finish t now v True None k w) = snd (SmootherTick (vScore v) (gSmoother w))"
    "gQuantizer (finish t now v True None k w) =
       snd (QuantizerTick (fst (SmootherTick (vScore v) (gSmoother w))) (gQuantizer w))"
    "gPublished (finish t now v True None k w) =
       fst (QuantizerTick (fst (SmootherTick (vScore v) (gSmoother w))) (gQuantizer w))"
    "snScore (gSnapshot (finish t now v True None k w)) = fst (SmootherTick (vScore v) (gSmoother w))"
    "gaugeLevel (finish t now v True None k w) =
       fst (QuantizerTick (fst (SmootherTick (vScore v) (gSmoother w))) (gQuantizer w))"
    "gaugeScore (finish t now v True None k w) = fst (SmootherTick (vScore v) (gSmoother w))"
  using assms
  by (auto simp: finish_def evaluate_def decide_def record_tick_def Let_def setGauges_def writeKeys_def
      split: prod.split)

text \<open>A tick without a pin: whether the read of the override fails or not, there is none.\<close>

lemma unpinned_tick:
  assumes "overrideKey w = None" "FetchVerdict c vec scal = Some v"
  obtains k where "k \<le> 3" "governorTick t c now vec scal script w = finish t now v True None k (w\<lparr>gFailCount := 0\<rparr>)"
  using governorTick_outcome [of t now c vec scal w script]
  by (cases rule: tick_outcomeE) (use assms in \<open>auto simp: parseOverride_def\<close>)

lemma unpinned_failed_tick:
  assumes "overrideKey w = None" "FetchVerdict c vec scal = None"
  obtains (grace) k where "k \<le> 3" "gFailCount w + 1 < promFailTicks t"
      "governorTick t c now vec scal script w = graceTick t now k w"
    | (failopen) k where "k \<le> 3" "promFailTicks t \<le> gFailCount w + 1"
      "governorTick t c now vec scal script w = finish t now emptyVerdict False None k (resetMachines w)"
  using governorTick_outcome [of t now c vec scal w script]
  by (cases rule: tick_outcomeE) (use assms in \<open>auto simp: parseOverride_def\<close>)

subsection \<open>Recovery\<close>

definition calm :: "tuning \<Rightarrow> prom_client \<Rightarrow> poll \<Rightarrow> bool" where
  "calm t c p \<longleftrightarrow> (case fetched c p of None \<Rightarrow> False
     | Some v \<Rightarrow> clampRaw (vScore v) = Fin 0 \<and> \<not> isStale t v)"

text \<open>The state after \<open>k\<close> calm ticks: the score is below the decay bound.\<close>

definition recovering :: "tuning \<Rightarrow> rat \<Rightarrow> nat \<Rightarrow> governor \<Rightarrow> bool" where
  "recovering t a k w \<longleftrightarrow> governor_ok t w \<and> overrideKey w = None \<and> alphaDown (gSmoother w) = Fin a \<and>
     (\<exists>x. smValue (gSmoother w) = Fin x \<and> x \<le> decay_bound a k)"

lemma calm_tick:
  assumes rec: "recovering t a k w" and calm: "calm t c (now, vec, scal, script)"
  defines "w' \<equiv> governorTick t c now vec scal script w"
  shows "recovering t a (Suc k) w'"
    and "decay_bound a (Suc k) < fround (5 / 1000) \<Longrightarrow>
      gPublished w' = LevelNormal \<and> smValue (gSmoother w') = Fin 0 \<and> gaugeScore w' = Fin 0"
proof -
  have ok: "governor_ok t w" and none: "overrideKey w = None" and a: "alphaDown (gSmoother w) = Fin a"
    using rec by (simp_all add: recovering_def)
  obtain x where x: "smValue (gSmoother w) = Fin x" "x \<le> decay_bound a k"
    using rec by (auto simp: recovering_def)
  obtain v where v: "FetchVerdict c vec scal = Some v" "clampRaw (vScore v) = Fin 0" "\<not> isStale t v"
    using calm by (auto simp: calm_def fetched_def split: option.splits)
  obtain j where w': "w' = finish t now v True None j (w\<lparr>gFailCount := 0\<rparr>)"
    using unpinned_tick [OF none v(1), of t now script] unfolding w'_def by metis
  have sm: "smoother_ok (gSmoother w)" and q: "quantizer_ok (gQuantizer w)"
    using ok by (simp_all add: governor_ok_def machines_ok_def)
  have u: "0 < a" "a \<le> 1" "0 \<le> x" "x \<le> 1" "representable x"
    using sm a x(1) by (auto simp: smoother_ok_def good_alpha_def unit_value_def)
  obtain up where up: "alphaUp (gSmoother w) = Fin up"
    using sm by (auto simp: smoother_ok_def elim: good_alphaE)
  have S: "SmootherTick (vScore v) (gSmoother w) =
      (Fin (smooth up a x 0), (gSmoother w)\<lparr>smValue := Fin (smooth up a x 0)\<rparr>)"
    by (rule SmootherTick_smooth [OF sm v(2) FetchVerdict_score [OF v(1)] up a x(1)])
  note F = finish_fresh [OF v(3), of now j "w\<lparr>gFailCount := 0\<rparr>", folded w', simplified]
  have ok': "governor_ok t w'" unfolding w'_def by (rule governorTick_ok [OF ok])
  have "smooth up a x 0 \<le> decay_bound a (Suc k)"
    using smooth_zero_step(1) [OF u, of up] decay_step [of a x k] u x(2) by linarith
  then show "recovering t a (Suc k) w'"
    using ok' a none F(1) S w' by (simp add: recovering_def)
  assume "decay_bound a (Suc k) < fround (5 / 1000)"
  with smooth_zero_step(2) [OF u, of up] \<open>smooth up a x 0 \<le> decay_bound a (Suc k)\<close>
  have z: "smooth up a x 0 = 0" by linarith
  show "gPublished w' = LevelNormal \<and> smValue (gSmoother w') = Fin 0 \<and> gaugeScore w' = Fin 0"
    using F(1,3,6) S z QuantizerTick_zero [OF q] by simp
qed

lemma calm_run:
  assumes "recovering t a k w" "\<forall>p\<in>set ps. calm t c p"
  shows "recovering t a (k + length ps) (runPolls t c ps w)"
  using assms
proof (induction ps arbitrary: k w)
  case (Cons p ps)
  obtain now vec scal script where p: "p = (now, vec, scal, script)" by (cases p)
  have "recovering t a (Suc k) (governorTick t c now vec scal script w)"
    using calm_tick(1) [OF Cons.prems(1)] Cons.prems(2) p by simp
  from Cons.IH [OF this] Cons.prems(2) show ?case unfolding p by simp
qed simp

lemma runPolls_snoc:
  "runPolls t c (ps @ [(now, vec, scal, script)]) w = governorTick t c now vec scal script (runPolls t c ps w)"
  by (simp add: runPolls_def)

lemma recovering_start:
  assumes "governor_ok t w" "overrideKey w = None" "alphaDown (gSmoother w) = Fin a"
  shows "recovering t a 0 w"
proof -
  have "unit_value (smValue (gSmoother w))"
    using assms(1) by (simp add: governor_ok_def machines_ok_def smoother_ok_def)
  with assms show ?thesis by (auto simp: recovering_def decay_bound_def unit_value_def)
qed

theorem calm_run_recovers:
  assumes w: "governor_ok t w" "overrideKey w = None" "alphaDown (gSmoother w) = Fin a"
    and ps: "\<forall>p\<in>set ps. calm t c p" "ps \<noteq> []" and n: "decay_bound a (length ps) < fround (5 / 1000)"
  shows "gPublished (runPolls t c ps w) = LevelNormal" "smValue (gSmoother (runPolls t c ps w)) = Fin 0"
    "gaugeScore (runPolls t c ps w) = Fin 0"
proof -
  obtain qs p where qs: "ps = qs @ [p]" using ps(2) by (cases ps rule: rev_exhaust) auto
  obtain now vec scal script where p: "p = (now, vec, scal, script)" by (cases p)
  have "recovering t a (length qs) (runPolls t c qs w)"
    using calm_run [OF recovering_start [OF w]] ps(1) qs by simp
  from calm_tick(2) [OF this, of c now vec scal script] ps(1) n
  show "gPublished (runPolls t c ps w) = LevelNormal" "smValue (gSmoother (runPolls t c ps w)) = Fin 0"
    "gaugeScore (runPolls t c ps w) = Fin 0"
    by (simp_all add: qs p runPolls_snoc)
qed

subsection \<open>Loss of Prometheus\<close>

lemma finish_failopen:
  "gPublished (finish t now v False None k w) = LevelNormal"
  "gaugeLevel (finish t now v False None k w) = LevelNormal"
  "gaugeScore (finish t now v False None k w) = Fin 0"
  "gFailCount (finish t now v False None k w) = gFailCount w"
  "gSmoother (finish t now v False None k w) = gSmoother w"
  "gQuantizer (finish t now v False None k w) = gQuantizer w"
  by (auto simp: finish_def evaluate_def decide_def record_tick_def Let_def setGauges_def writeKeys_def)

lemma graceTick_simps:
  "gFailCount (graceTick t now k w) = gFailCount w + 1"
  "gPublished (graceTick t now k w) = gPublished w"
  "gaugeLevel (graceTick t now k w) = gPublished w"
  "gQuantizer (graceTick t now k w) = gQuantizer w"
  "gaugeScore (graceTick t now k w) = fst (SmootherTick (Fin 0) (gSmoother w))"
  by (simp_all add: graceTick_def setGauges_def writeKeys_def split: prod.split)

lemma failed_run:
  assumes "overrideKey w = None" "\<forall>p\<in>set ps. fetched c p = None"
  shows "gFailCount (runPolls t c ps w) = gFailCount w + int (length ps) \<and>
    overrideKey (runPolls t c ps w) = None \<and>
    (ps \<noteq> [] \<and> promFailTicks t \<le> gFailCount w + int (length ps) \<longrightarrow>
       gPublished (runPolls t c ps w) = LevelNormal \<and> gaugeLevel (runPolls t c ps w) = LevelNormal \<and>
       gaugeScore (runPolls t c ps w) = Fin 0 \<and> smValue (gSmoother (runPolls t c ps w)) = Fin 0 \<and>
       qLevel (gQuantizer (runPolls t c ps w)) = LevelNormal)"
  using assms
proof (induction ps rule: rev_induct)
  case (snoc p ps)
  obtain now vec scal script where p: "p = (now, vec, scal, script)" by (cases p)
  define u where "u = runPolls t c ps w"
  have IH: "gFailCount u = gFailCount w + int (length ps)" "overrideKey u = None"
    using snoc by (simp_all add: u_def)
  have f: "FetchVerdict c vec scal = None" using snoc.prems(2) by (simp add: p fetched_def)
  have e: "runPolls t c (ps @ [p]) w = governorTick t c now vec scal script u"
    by (simp add: p runPolls_snoc u_def)
  from IH(2) f show ?case unfolding e
    by (cases rule: unpinned_failed_tick [where t = t and now = now and script = script])
      (use IH tick_overrideKey [of t c now vec scal script u] in
        \<open>auto simp: graceTick_simps finish_failopen resetMachines_def SmootherReset_def QuantizerReset_def\<close>)
qed simp

lemma grace_holds_level:
  assumes "overrideKey w = None" "\<forall>p\<in>set ps. fetched c p = None"
    "gFailCount w + int (length ps) < promFailTicks t"
  shows "gPublished (runPolls t c ps w) = gPublished w"
  using assms
proof (induction ps rule: rev_induct)
  case (snoc p ps)
  obtain now vec scal script where p: "p = (now, vec, scal, script)" by (cases p)
  define u where "u = runPolls t c ps w"
  have u: "gFailCount u = gFailCount w + int (length ps)" "overrideKey u = None" "gPublished u = gPublished w"
    using snoc failed_run [of w ps c t] by (simp_all add: u_def)
  have f: "FetchVerdict c vec scal = None" using snoc.prems(2) by (simp add: p fetched_def)
  have e: "runPolls t c (ps @ [p]) w = governorTick t c now vec scal script u"
    by (simp add: p runPolls_snoc u_def)
  from u(2) f show ?case unfolding e
    by (cases rule: unpinned_failed_tick [where t = t and now = now and script = script])
      (use u snoc.prems(3) in \<open>auto simp: graceTick_simps\<close>)
qed simp

lemma finish_gauge_level: "gaugeLevel (finish t now v healthy ov k w) = gPublished (finish t now v healthy ov k w)"
  by (auto simp: finish_def record_tick_def Let_def setGauges_def writeKeys_def split: prod.split)

lemma tick_gauge_level: "gaugeLevel (governorTick t c now vec scal script w) = gPublished (governorTick t c now vec scal script w)"
  using governorTick_outcome [of t now c vec scal w script]
  by (cases rule: tick_outcomeE) (simp_all add: finish_gauge_level graceTick_simps)

end
