(* ===== verification/Gov_Faults.thy ===== *)
theory Gov_Faults
  imports Gov_Loop
begin

text \<open>
  Two behaviours the code's comments rule out. A NaN alpha of the configuration passes the clamp of
  \<^verbatim>\<open>NewSmoother\<close>, and a governor with such an alpha never raises its level. In the grace window the
  score decays while the level stays, so the two published values part, most visibly under a pin.
\<close>

section \<open>A NaN alpha\<close>

definition stuck :: "governor \<Rightarrow> bool" where
  "stuck w \<longleftrightarrow> alphaUp (gSmoother w) = NaN \<and> good_alpha (alphaDown (gSmoother w)) \<and>
     smValue (gSmoother w) \<in> {Fin 0, NaN} \<and> quantizer_ok (gQuantizer w) \<and>
     qLevel (gQuantizer w) = LevelNormal"

lemma NewSmoother_NaN: "alphaUp (NewSmoother NaN down) = NaN"
  by (simp add: NewSmoother_def)

lemma stuck_smoother:
  assumes "alphaUp s = NaN" "good_alpha (alphaDown s)" "smValue s \<in> {Fin 0, NaN}" "is_binary64 raw"
  shows "fst (SmootherTick raw s) \<in> {Fin 0, NaN}"
proof -
  obtain a where a: "alphaDown s = Fin a" using assms(2) by (rule good_alphaE)
  obtain r where r: "clampRaw raw = Fin r" "0 \<le> r"
    using clampRaw_unit [OF assms(4)] by (auto elim: unit_valueE)
  show ?thesis
    using assms(1,3) a r by (cases "r = 0") (auto simp: SmootherTick_def Let_def fsub_def feq_def)
qed

lemma stuck_quantizer:
  assumes "quantizer_ok q" "qLevel q = LevelNormal" "score \<in> {Fin 0, NaN}"
  shows "fst (QuantizerTick score q) = LevelNormal"
proof (cases "score = NaN")
  case True
  have "fle x NaN = False" for x by (cases x) simp_all
  with True assms(2) show ?thesis by (simp add: QuantizerTick_def Let_def)
next
  case False
  with assms show ?thesis using QuantizerTick_zero by auto
qed

lemma SmootherTick_frame:
  "alphaUp (snd (SmootherTick raw s)) = alphaUp s" "alphaDown (snd (SmootherTick raw s)) = alphaDown s"
  "smValue (snd (SmootherTick raw s)) = fst (SmootherTick raw s)"
  by (simp_all add: SmootherTick_def Let_def)

lemma finish_stuck:
  assumes "stuck w" "is_binary64 (vScore v)" shows "stuck (finish t now v healthy ov k w)"
proof -
  obtain l score stale w1 where e: "evaluate t v healthy w = ((l, score, stale), w1)"
    by (cases "evaluate t v healthy w") auto
  have q: "quantizer_ok (gQuantizer w)" "qLevel (gQuantizer w) = LevelNormal" using assms(1) by (simp_all add: stuck_def)
  have s: "fst (SmootherTick (vScore v) (gSmoother w)) \<in> {Fin 0, NaN}"
    using assms by (intro stuck_smoother) (auto simp: stuck_def)
  note Q = stuck_quantizer [OF q s] QuantizerTick_ok [where q = "gQuantizer w" and score = "fst (SmootherTick (vScore v) (gSmoother w))"]
  have "stuck w1"
    using e assms(1) Q s q SmootherTick_frame [of "vScore v" "gSmoother w"]
    by (auto simp: evaluate_def stuck_def split: if_splits prod.splits)
  then show ?thesis
    unfolding finish_def e prod.case
    by (auto simp: stuck_def record_tick_def Let_def setGauges_def writeKeys_def split: prod.split)
qed

theorem reachable_stuck:
  assumes "reachable_governor t c w" "tAlphaUp t = NaN" "is_binary64 (tAlphaDown t)" "tAlphaDown t \<noteq> NaN"
  shows "stuck w"
proof -
  have down: "good_alpha (alphaDown (NewSmoother up (tAlphaDown t)))" for up
    using assms(3,4) good_alpha_const
    by (cases "tAlphaDown t") (auto simp: NewSmoother_def good_alpha_def unit_value_def is_binary64_def)
  have new: "stuck (NewGovernor t)"
    using down NewQuantizer_ok assms(2)
    by (auto simp: stuck_def NewGovernor_def NewSmoother_NaN)
      (auto simp: NewSmoother_def NewQuantizer_def Let_def)
  have z: "is_binary64 (Fin 0)" by (simp add: is_binary64_def)
  from assms(1) show ?thesis
  proof (induction rule: reachable_governor.induct)
    case (tick w now vec scal script)
    have u: "stuck (w\<lparr>gFailCount := 0\<rparr>)" "stuck (resetMachines w)"
      using tick.IH
      by (auto simp: stuck_def resetMachines_def SmootherReset_def QuantizerReset_def quantizer_ok_def validThresholds_def)
    have g: "stuck (graceTick t now k w)" for k
      using tick.IH stuck_smoother [OF _ _ _ z, of "gSmoother w"] SmootherTick_frame [of "Fin 0" "gSmoother w"]
      by (auto simp: stuck_def graceTick_def setGauges_def writeKeys_def split: prod.split)
    from governorTick_outcome [of t now c vec scal w script] show ?case
      by (cases rule: tick_outcomeE) (use u g finish_stuck FetchVerdict_score in auto)
  qed (use new in \<open>auto simp: stuck_def expireKeys_def restart_def\<close>)
qed

section \<open>The grace window\<close>

text \<open>A tick all of whose Redis commands succeed.\<close>

lemma tick_no_faults:
  "FetchVerdict c vec scal = Some v \<Longrightarrow> governorTick t c now vec scal [] w =
     finish t now v True (parseOverride (overrideKey w)) 3 (w\<lparr>gFailCount := 0\<rparr>)"
  "FetchVerdict c vec scal = None \<Longrightarrow> gFailCount w + 1 < promFailTicks t \<Longrightarrow>
     governorTick t c now vec scal [] w = graceTick t now 3 w"
  by (auto simp: governorTick_def RunTick_def bnd_def memory_def complete_def attempt_def Override_def
      query_def command_def publish_def logged_def PublishLevel_def ret_def Let_def finish_def graceTick_def
      writeKeys_def evaluate_def split: prod.split)

lemma SmootherTick_zero:
  assumes "smoother_ok s" "smValue s = Fin 0" "clampRaw raw = Fin 0" "is_binary64 raw"
  shows "SmootherTick raw s = (Fin 0, s)"
proof -
  obtain up where up: "alphaUp s = Fin up" using assms(1) by (auto simp: smoother_ok_def elim: good_alphaE)
  obtain down where down: "alphaDown s = Fin down" using assms(1) by (auto simp: smoother_ok_def elim: good_alphaE)
  have "smooth up down 0 0 = 0" by (simp add: smooth_def ewma_def Let_def)
  then show ?thesis using SmootherTick_smooth [OF assms(1,3,4) up down assms(2)] assms(2) by simp
qed

theorem pin_then_failed_poll:
  fixes now1 now2 :: instant
  assumes ok: "governor_ok t w" and pin: "overrideKey w = Some ''2''" and rest: "smValue (gSmoother w) = Fin 0"
    and v: "FetchVerdict c vec1 scal1 = Some v" "clampRaw (vScore v) = Fin 0"
    and lost: "FetchVerdict c vec2 scal2 = None" and grace: "1 < promFailTicks t"
  defines "w' \<equiv> runPolls t c [(now1, vec1, scal1, []), (now2, vec2, scal2, [])] w"
  shows "gaugeLevel w' = LevelCritical" "gaugeScore w' = Fin 0"
    "levelKey w' = Some (''2'', expiry now2 (levelTTL t))" "scoreKey w' = Some (''0.00'', expiry now2 (levelTTL t))"
proof -
  define u where "u = finish t now1 v True (parseOverride (Some ''2'')) 3 (w\<lparr>gFailCount := 0\<rparr>)"
  have sm: "smoother_ok (gSmoother w)" using ok by (simp add: governor_ok_def machines_ok_def)
  have z: "is_binary64 (Fin 0)" by (simp add: is_binary64_def)
  have p: "parseOverride (Some ''2'') = Some 2" by code_simp
  have f: "FormatFloat2 (Fin 0) = ''0.00''" by code_simp
  note S = SmootherTick_zero [OF sm rest v(2) FetchVerdict_score [OF v(1)]]
  have u: "gSmoother u = gSmoother w" "gPublished u = LevelCritical" "gFailCount u = 0"
    using S by (auto simp: u_def p finish_def evaluate_def decide_def record_tick_def Let_def setGauges_def
        writeKeys_def level_defs split: prod.split)
  have "w' = graceTick t now2 3 u"
    using tick_no_faults(1) [OF v(1), of t now1 w] tick_no_faults(2) [OF lost, of u t now2] grace u
    by (simp add: w'_def u_def pin)
  then show "gaugeLevel w' = LevelCritical" "gaugeScore w' = Fin 0"
    "levelKey w' = Some (''2'', expiry now2 (levelTTL t))" "scoreKey w' = Some (''0.00'', expiry now2 (levelTTL t))"
    using SmootherTick_zero [OF sm rest _ z] u Itoa_levels f
    by (simp_all add: graceTick_def setGauges_def writeKeys_def level_defs clampRaw_id)
qed

end
