(* ===== verification/Degradation_Watcher.thy ===== *)
theory Degradation_Watcher
  imports Gov_Loop
begin

text \<open>
  The consumer side of the degradation signal (\<^verbatim>\<open>libs/cache/degradation.go\<close>): a poll of the two
  Redis keys into a level and a score, failing open on a missing key, on garbage and on errors. The
  last section reads what the governor published.
\<close>

section \<open>Watcher\<close>

text \<open>The reply to a \<^verbatim>\<open>GET\<close>: a transport error, no key, or a value.\<close>

datatype reply = RedisErr | RedisNil | RedisVal string

record watcher =
  wLevel :: int
  wScore :: float64

definition NewDegradationWatcher :: watcher where
  "NewDegradationWatcher = \<lparr>wLevel = 0, wScore = Fin 0\<rparr>"

text \<open>A nil watcher reads as no degradation.\<close>

definition WatcherLevel :: "watcher option \<Rightarrow> int" where
  "WatcherLevel w = (case w of None \<Rightarrow> 0 | Some x \<Rightarrow> wLevel x)"

definition WatcherScore :: "watcher option \<Rightarrow> float64" where
  "WatcherScore w = (case w of None \<Rightarrow> Fin 0 | Some x \<Rightarrow> wScore x)"

definition ShouldShed :: "int \<Rightarrow> watcher option \<Rightarrow> bool" where
  "ShouldShed m w \<longleftrightarrow> WatcherLevel w \<ge> m"

definition refresh :: "reply \<Rightarrow> reply \<Rightarrow> watcher \<Rightarrow> watcher" where
  "refresh lv sc w = (case lv of
     RedisVal raw \<Rightarrow>
       (case Atoi raw of
          None \<Rightarrow> w\<lparr>wLevel := 0, wScore := Fin 0\<rparr>
        | Some n \<Rightarrow>
            if n < 0 \<or> n > 2 then w\<lparr>wLevel := 0, wScore := Fin 0\<rparr>
            else
              let w = w\<lparr>wLevel := n\<rparr> in
              (case sc of
                 RedisVal sraw \<Rightarrow>
                   (case ParseFloat sraw of
                      None \<Rightarrow> w\<lparr>wScore := Fin 0\<rparr>
                    | Some f \<Rightarrow> if IsNaN f then w\<lparr>wScore := Fin 0\<rparr>
                        else w\<lparr>wScore := MathMax (Fin 0) (MathMin (Fin 1) f)\<rparr>)
               | _ \<Rightarrow> w\<lparr>wScore := Fin 0\<rparr>))
   | _ \<Rightarrow> w\<lparr>wLevel := 0, wScore := Fin 0\<rparr>)"

definition watcher_ok :: "watcher \<Rightarrow> bool" where
  "watcher_ok w \<longleftrightarrow> valid_level (wLevel w) \<and> unit_value (wScore w)"

lemma ParseFloat_is_binary64: "ParseFloat s = Some x \<Longrightarrow> is_binary64 x"
  by (rule ParseFloat_binary64)

text \<open>Whatever the keys hold, what the watcher reports is a level and a score.\<close>

lemma refresh_ok: "watcher_ok (refresh lv sc w)"
  by (auto simp: refresh_def watcher_ok_def valid_level_def level_defs Let_def IsNaN_def
      dest!: ParseFloat_is_binary64 intro!: clamp_unit split: reply.split option.split)

lemma NewDegradationWatcher_ok: "watcher_ok NewDegradationWatcher"
  by (simp add: watcher_ok_def NewDegradationWatcher_def valid_level_def level_defs)

section \<open>Reading the governor\<close>

definition getKey :: "instant \<Rightarrow> string rkey \<Rightarrow> reply" where
  "getKey now k = (case expireKey now k of None \<Rightarrow> RedisNil | Some (v, _) \<Rightarrow> RedisVal v)"

definition watch :: "instant \<Rightarrow> governor \<Rightarrow> watcher \<Rightarrow> watcher" where
  "watch now w = refresh (getKey now (levelKey w)) (getKey now (scoreKey w))"

text \<open>The two decimals of the score key, as a binary64 value.\<close>

definition two_decimals :: "float64 \<Rightarrow> float64" where
  "two_decimals x = (case x of Fin a \<Rightarrow> fin (of_int (rne (a * 100)) / 100) | _ \<Rightarrow> Fin 0)"

lemma two_decimals_unit: "unit_value x \<Longrightarrow> unit_value (two_decimals x)"
proof -
  assume "unit_value x"
  then obtain a where a: "x = Fin a" "0 \<le> a" "a \<le> 1" by (auto elim: unit_valueE)
  then have "0 \<le> rne (a * 100)" "rne (a * 100) \<le> 100"
    by (auto intro: rne_ge [of 0, simplified] rne_le)
  then show ?thesis by (simp add: two_decimals_def a unit_value_fin divide_le_eq)
qed

lemma two_decimals_near:
  assumes "0 \<le> a" "a \<le> 1"
  obtains b where "two_decimals (Fin a) = Fin b" "\<bar>b - a\<bar> \<le> 1 / 200 + 1 / 2 ^ 54"
proof -
  let ?q = "of_int (rne (a * 100)) / 100 :: rat"
  have r: "0 \<le> rne (a * 100)" "rne (a * 100) \<le> 100"
    using assms by (auto intro: rne_ge [of 0, simplified] rne_le)
  have "\<bar>of_int (rne (a * 100)) - a * 100\<bar> \<le> 1 / 2" by (rule rne_error)
  then have q: "\<bar>?q - a\<bar> \<le> 1 / 200" by (simp add: abs_le_iff field_simps)
  have q1: "\<bar>?q\<bar> \<le> 1" using r by (simp add: abs_le_iff divide_le_eq le_divide_eq)
  from fround_near [OF q1] q have "\<bar>fround ?q - a\<bar> \<le> 1 / 200 + 1 / 2 ^ 54" by linarith
  moreover have "two_decimals (Fin a) = Fin (fround ?q)" using q1 by (simp add: two_decimals_def fin_small)
  ultimately show thesis by (rule that [rotated])
qed

lemma Atoi_level: "valid_level l \<Longrightarrow> Atoi (Itoa l) = Some l"
  by (rule Atoi_Itoa) (auto simp: valid_level_def level_defs fits64_def)

lemma refresh_published:
  assumes "valid_level l" "unit_value x"
  shows "refresh (RedisVal (Itoa l)) (RedisVal (FormatFloat2 x)) w = \<lparr>wLevel = l, wScore = two_decimals x\<rparr>"
proof -
  obtain a where a: "x = Fin a" "0 \<le> a" "a \<le> 1" using assms(2) by (auto elim: unit_valueE)
  have u: "unit_value (two_decimals x)" using assms(2) by (rule two_decimals_unit)
  have p: "ParseFloat (FormatFloat2 x) = Some (two_decimals x)"
    using ParseFloat_FormatFloat2 [OF a(2,3)] a(1) by (simp add: two_decimals_def)
  have r: "\<not> (l < 0 \<or> l > 2)" using assms(1) by (auto simp: valid_level_def level_defs)
  show ?thesis
    using u p r clamp_id [OF u]
    by (auto simp: refresh_def Atoi_level [OF assms(1)] Let_def IsNaN_def unit_value_def simp del: FormatFloat2.simps)
qed

lemma getKey_live:
  "(\<And>e. k = Some (v, Some e) \<Longrightarrow> now < e) \<Longrightarrow> k = Some (v, x) \<Longrightarrow> getKey now k = RedisVal v"
  by (auto simp: getKey_def expireKey_def split: option.splits)

lemma getKey_dead: "k = Some (v, Some e) \<Longrightarrow> e \<le> now \<Longrightarrow> getKey now k = RedisNil"
  by (simp add: getKey_def expireKey_def)

text \<open>A tick whose Redis commands all succeed publishes what the gauges show.\<close>

lemma tick_publishes:
  defines "w' \<equiv> \<lambda>t c now vec scal w. governorTick t c now vec scal [] w"
  shows "levelKey (w' t c now vec scal w) = Some (Itoa (gaugeLevel (w' t c now vec scal w)), expiry now (levelTTL t))"
    "scoreKey (w' t c now vec scal w) = Some (FormatFloat2 (gaugeScore (w' t c now vec scal w)), expiry now (levelTTL t))"
  by (auto simp: w'_def governorTick_def RunTick_def bnd_def memory_def complete_def attempt_def Override_def
      query_def command_def publish_def logged_def PublishLevel_def ret_def Let_def record_tick_def
      setGauges_def evaluate_def simp del: FormatFloat2.simps split: prod.split option.split)

theorem watcher_reads_tick:
  fixes now now' :: instant and c :: prom_client and vec :: "vector_response http" and scal :: "scalar_response http"
  assumes ok: "governor_ok t w" and fresh: "levelTTL t \<le> 0 \<or> now' < now + levelTTL t"
  defines "w' \<equiv> governorTick t c now vec scal [] w"
  shows "watch now' w' x = \<lparr>wLevel = gaugeLevel w', wScore = two_decimals (gaugeScore w')\<rparr>"
proof -
  have ok': "governor_ok t w'" unfolding w'_def by (rule governorTick_ok [OF ok])
  then have v: "valid_level (gaugeLevel w')" "unit_value (gaugeScore w')"
    by (simp_all add: governor_ok_def published_ok_def)
  have "getKey now' (levelKey w') = RedisVal (Itoa (gaugeLevel w'))"
    "getKey now' (scoreKey w') = RedisVal (FormatFloat2 (gaugeScore w'))"
    using tick_publishes [of t c now vec scal w] fresh
    by (auto simp: w'_def expiry_def intro!: getKey_live split: if_splits)
  then show ?thesis unfolding watch_def using refresh_published [OF v] by simp
qed

text \<open>A governor that stops leaves keys that expire, whatever writes failed.\<close>

definition expires_by :: "instant \<Rightarrow> governor \<Rightarrow> bool" where
  "expires_by T w \<longleftrightarrow> (\<forall>v e. levelKey w = Some (v, e) \<longrightarrow> (\<exists>x. e = Some x \<and> x \<le> T))"

lemma finish_levelKey:
  "levelKey (finish t now v healthy ov k w) = levelKey w \<or>
   (\<exists>s. levelKey (finish t now v healthy ov k w) = Some (s, expiry now (levelTTL t)))"
  by (auto simp: finish_def evaluate_def record_tick_def Let_def setGauges_def writeKeys_def split: prod.split)

lemma tick_levelKey:
  "levelKey (governorTick t c now vec scal script w) = levelKey w \<or>
   (\<exists>s. levelKey (governorTick t c now vec scal script w) = Some (s, expiry now (levelTTL t)))"
  using governorTick_outcome [of t now c vec scal w script]
proof (cases rule: tick_outcomeE)
  case (verdict v ov k)
  then show ?thesis using finish_levelKey [of t now v True ov k "w\<lparr>gFailCount := 0\<rparr>"] by auto
next
  case (grace k)
  then show ?thesis by (auto simp: graceTick_def setGauges_def writeKeys_def split: prod.split)
next
  case (failopen ov k)
  then show ?thesis using finish_levelKey [of t now emptyVerdict False ov k "resetMachines w"]
    by (auto simp: resetMachines_def)
qed

lemma runPolls_expires:
  assumes "expires_by (T + levelTTL t) w" "0 < levelTTL t" "\<forall>p\<in>set ps. fst p \<le> T"
  shows "expires_by (T + levelTTL t) (runPolls t c ps w)"
  using assms
proof (induction ps arbitrary: w)
  case (Cons p ps)
  obtain now vec scal script where p: "p = (now, vec, scal, script)" by (cases p)
  have "expires_by (T + levelTTL t) (governorTick t c now vec scal script w)"
    using tick_levelKey [of t c now vec scal script w] Cons.prems
    by (auto simp: expires_by_def p expiry_def)
  from Cons.IH [OF this] Cons.prems show ?case by (simp add: p)
qed simp

theorem dead_governor_reads_normal:
  assumes "expires_by T w" "T \<le> now" shows "watch now w x = \<lparr>wLevel = 0, wScore = Fin 0\<rparr>"
proof -
  have "getKey now (levelKey w) = RedisNil"
    using assms by (force simp: getKey_def expireKey_def expires_by_def split: option.split)
  then show ?thesis by (simp add: watch_def refresh_def)
qed

end
