(* ===== verification/Gov_Safety.thy ===== *)
theory Gov_Safety
  imports Gov_Faults Degradation_Watcher
begin

text \<open>
  The properties of the governor and of its consumers, with witnesses at the configuration the
  service has when no environment variable is set (\<^verbatim>\<open>internal/config/config.go\<close>).
\<close>

section \<open>The default configuration\<close>

definition defaultTuning :: tuning where
  "defaultTuning = \<lparr>levelTTL = 60 * Second, promFailTicks = 3,
     tAlphaUp = fin (5 / 10), tAlphaDown = fin (5 / 100),
     tEnterElevated = fin (45 / 100), tExitElevated = fin (20 / 100),
     tEnterCritical = fin (90 / 100), tExitCritical = fin (55 / 100), stalenessMax = 45 * Second\<rparr>"

definition defaultClient :: prom_client where
  "defaultClient = NewClient (Fin 0) (fin (75 / 100)) (fin (90 / 100))"

text \<open>An answer without samples, and one that carries a preview score.\<close>

definition emptyAnswer :: "vector_response http" where
  "emptyAnswer = Body \<lparr>vrStatus = ''success'', vrResult = []\<rparr>"

definition scoreAnswer :: "string \<Rightarrow> vector_response http" where
  "scoreAnswer s = Body \<lparr>vrStatus = ''success'', vrResult =
     [\<lparr>sMetric = [''__name__'' \<mapsto> ''ae:pressure_score:preview''], sPair = [RawOther, RawString s]\<rparr>]\<rparr>"

lemma default_alphaDown: "fin (1 / 20) = Fin (7205759403792794 / 2 ^ 57)"
  using fround_eval [of "1 / 20" 57 7205759403792794] by (simp add: fin_small)

lemma defaultTuning_ok: "tuning_ok defaultTuning"
  using is_binary64_fin [of "1 / 20"] is_binary64_fin [of "1 / 2"]
  by (simp add: tuning_ok_def defaultTuning_def default_alphaDown)

text \<open>Without samples the verdict is calm, and its age says that it is unknown.\<close>

lemma emptyAnswer_verdict:
  "FetchVerdict defaultClient emptyAnswer NoAnswer =
     Some (emptyVerdict\<lparr>vReasons := [], vTarget := LevelNormal, vSampleAge := Fin (- 1)\<rparr>)"
  by (simp add: FetchVerdict_def queryVector_def queryScalar_def doQuery_def emptyAnswer_def foldSamples_def
      foldEgress_def defaultClient_def NewClient_def verdictOf_def breachReasons_def List.map_filter_def
      emptyVerdict_def BreachSignals_def Let_def)

lemma default_staleness: "Seconds (stalenessMax defaultTuning) = Fin 45"
  using fin_repr [of 45] representable_of_int [of 45]
  by (simp add: Seconds_def defaultTuning_def Second_def)

lemma emptyAnswer_calm: "calm defaultTuning defaultClient (now, emptyAnswer, NoAnswer, script)"
  by (simp add: calm_def fetched_def emptyAnswer_verdict isStale_def default_staleness)
    (simp add: clampRaw_id emptyVerdict_def unit_value_def)

lemma NoAnswer_lost: "FetchVerdict c NoAnswer scal = None"
  by (simp add: FetchVerdict_def queryVector_def doQuery_def)

text \<open>The boot state after one poll with the highest score.\<close>

definition loaded :: governor where
  "loaded = governorTick defaultTuning defaultClient 0 (scoreAnswer ''1'') NoAnswer [] (NewGovernor defaultTuning)"

lemma loaded_reachable: "reachable_governor defaultTuning defaultClient loaded"
  unfolding loaded_def by (intro reachable_governor.intros)

lemma loaded_unpinned: "overrideKey loaded = None"
  unfolding loaded_def tick_overrideKey by (simp add: NewGovernor_def)

section \<open>Soundness\<close>

text \<open>
  C9. In every state that ticks with any answers of Prometheus and any Redis faults, pins by the
  owner, expiring keys and restarts can produce, the published level is one of the three levels and
  is the one of the snapshot and the target of the reported transitions, which form a chain from
  normal without idle steps; the scores lie in [0, 1]; and the two Redis keys hold a level number
  and a score of the unit interval in two decimals.
\<close>

theorem governor_sound:
  assumes "reachable_governor t c w" "tuning_ok t"
  shows "valid_level (gPublished w) \<and> snLevel (gSnapshot w) = gPublished w \<and>
    valid_level (gaugeLevel w) \<and> valid_level (qLevel (gQuantizer w)) \<and>
    unit_value (snScore (gSnapshot w)) \<and> unit_value (gaugeScore w) \<and> unit_value (smValue (gSmoother w)) \<and>
    transition_chain LevelNormal (gReported w) (gPublished w) \<and>
    (\<forall>v e. levelKey w = Some (v, e) \<longrightarrow> v \<in> {''0'', ''1'', ''2''}) \<and>
    (\<forall>v e. scoreKey w = Some (v, e) \<longrightarrow> (\<exists>x. unit_value x \<and> v = FormatFloat2 x))"
  using reachable_governor_ok [OF assms]
  by (simp add: governor_ok_def published_ok_def keys_ok_def machines_ok_def quantizer_ok_def smoother_ok_def)

theorem governor_sound_witness:
  "valid_level (gPublished loaded) \<and> transition_chain LevelNormal (gReported loaded) (gPublished loaded)"
  using governor_sound [OF loaded_reachable defaultTuning_ok] by blast

section \<open>The level is a quantization of the score\<close>

text \<open>
  C15. A tick with a fresh verdict and no pin publishes the level the hysteresis quantizer gives the
  smoothed score: the published level and gauge score always agree (the score is in the band of the
  level, with the lower exit thresholds), the level moves only when the new score leaves the band of
  the old one, and it changes towards the score: up only when the score rose to the threshold of
  entry, down only when it fell to a threshold of exit.
\<close>

theorem fresh_tick_quantizes:
  fixes now :: instant and script :: "bool list"
  assumes w: "reachable_governor t c w" "tuning_ok t" "overrideKey w = None"
    and v: "FetchVerdict c vec scal = Some v" "\<not> isStale t v"
  defines "w' \<equiv> governorTick t c now vec scal script w"
  shows "gaugeLevel w' = gPublished w' \<and> snScore (gSnapshot w') = gaugeScore w' \<and>
    in_band (gQuantizer w) (gPublished w') (gaugeScore w') \<and>
    (in_band (gQuantizer w) (qLevel (gQuantizer w)) (gaugeScore w') \<longrightarrow> gPublished w' = qLevel (gQuantizer w)) \<and>
    (gPublished w' > qLevel (gQuantizer w) \<longrightarrow>
       fle (if gPublished w' = LevelCritical then enterCritical (gQuantizer w) else enterElevated (gQuantizer w))
         (gaugeScore w')) \<and>
    (gPublished w' < qLevel (gQuantizer w) \<longrightarrow>
       fle (gaugeScore w') (if gPublished w' = LevelNormal then exitElevated (gQuantizer w) else exitCritical (gQuantizer w)))"
proof -
  obtain k where e: "w' = finish t now v True None k (w\<lparr>gFailCount := 0\<rparr>)"
    using unpinned_tick [OF w(3) v(1), of t now script] unfolding w'_def by metis
  note F = finish_fresh [OF v(2), of now k "w\<lparr>gFailCount := 0\<rparr>", folded e, simplified]
  have ok: "smoother_ok (gSmoother w)" "quantizer_ok (gQuantizer w)"
    using reachable_governor_ok [OF w(1,2)] by (simp_all add: governor_ok_def machines_ok_def)
  have u: "unit_value (gaugeScore w')"
    unfolding F(6) by (rule SmootherTick_ok(2) [OF ok(1) FetchVerdict_score [OF v(1)]])
  show ?thesis
    using F QuantizerTick_agrees [OF ok(2) u] QuantizerTick_holds [OF ok(2) u] QuantizerTick_moves [OF ok(2)]
    by simp
qed

theorem fresh_tick_quantizes_witness:
  "in_band (gQuantizer loaded) (gPublished (governorTick defaultTuning defaultClient 15 emptyAnswer NoAnswer [] loaded))
     (gaugeScore (governorTick defaultTuning defaultClient 15 emptyAnswer NoAnswer [] loaded))"
  using fresh_tick_quantizes [OF loaded_reachable defaultTuning_ok loaded_unpinned emptyAnswer_verdict, of 15 "[]"]
  by (simp add: isStale_def default_staleness)

section \<open>Recovery\<close>

text \<open>
  C14. The system always comes back: from any reachable state without a pin, when the pressure is
  gone (fresh verdicts whose score is zero), the level is normal and the score exactly zero after
  every number \<open>n\<close> of ticks for which \<open>(1 - a) ^ n + n / 2 ^ 53\<close> is below the snap threshold 0.005,
  whatever Redis does. \<open>a\<close> is the alpha of the decay; the second summand is the accumulated rounding
  of the binary64 arithmetic. With the default alpha 0.05 this holds for 105 ticks.
\<close>

theorem governor_recovers:
  assumes w: "reachable_governor t c w" "tuning_ok t" "overrideKey w = None"
    and a: "alphaDown (gSmoother (NewGovernor t)) = Fin a"
    and ps: "\<forall>p\<in>set ps. calm t c p" and n: "decay_bound a (length ps) < fround (5 / 1000)"
  shows "gPublished (runPolls t c ps w) = LevelNormal \<and> gaugeScore (runPolls t c ps w) = Fin 0 \<and>
    smValue (gSmoother (runPolls t c ps w)) = Fin 0"
proof -
  have ok: "governor_ok t w" by (rule reachable_governor_ok [OF w(1,2)])
  then have d: "alphaDown (gSmoother w) = Fin a" using a by (simp add: governor_ok_def machines_ok_def)
  have "fround (5 / 1000) \<le> 1" by (intro fround_le) auto
  with n have "ps \<noteq> []" by (auto simp: decay_bound_def)
  from calm_run_recovers [OF ok w(3) d ps this n] show ?thesis by simp
qed

lemma default_alphaDown_governor:
  "alphaDown (gSmoother (NewGovernor defaultTuning)) = Fin (7205759403792794 / 2 ^ 57)"
  by (simp add: NewGovernor_def NewSmoother_def defaultTuning_def default_alphaDown)

lemma default_decay: "decay_bound (7205759403792794 / 2 ^ 57) 105 < fround (5 / 1000)"
proof -
  have "(1 - 7205759403792794 / 2 ^ 57 :: rat) ^ 15 \<le> (95001 / 100000) ^ 15"
    by (rule power_mono) simp_all
  also have "\<dots> \<le> 464 / 1000" by (simp add: power_divide)
  finally have "((1 - 7205759403792794 / 2 ^ 57 :: rat) ^ 15) ^ 7 \<le> (464 / 1000) ^ 7"
    by (rule power_mono) simp
  also have "\<dots> \<le> 464 / 100000" by (simp add: power_divide)
  finally have "(1 - 7205759403792794 / 2 ^ 57 :: rat) ^ 105 \<le> 464 / 100000"
    unfolding power_mult [symmetric] by simp
  then have "decay_bound (7205759403792794 / 2 ^ 57) 105 < 47 / 10000"
    by (simp add: decay_bound_def)
  moreover have "5 / 1000 - 1 / 2 ^ 54 \<le> fround (5 / 1000)" by (rule fround_near) simp_all
  ultimately show ?thesis by simp
qed

theorem governor_recovers_witness:
  "gPublished (runPolls defaultTuning defaultClient (replicate 105 (15, emptyAnswer, NoAnswer, [True, False])) loaded)
     = LevelNormal"
  using governor_recovers [OF loaded_reachable defaultTuning_ok loaded_unpinned default_alphaDown_governor,
      of "replicate 105 (15, emptyAnswer, NoAnswer, [True, False])"] emptyAnswer_calm default_decay
  by simp

section \<open>Loss of Prometheus\<close>

text \<open>
  C19. When Prometheus stays unreachable, the level without a pin is held for exactly the grace
  window, and from the \<open>promFailTicks\<close>-th failed poll on the governor publishes normal with score
  zero and both machines reset, whatever Redis does.
\<close>

theorem prometheus_loss_fails_open:
  assumes w: "reachable_governor t c w" "tuning_ok t" "overrideKey w = None"
    and ps: "\<forall>p\<in>set ps. fetched c p = None"
  shows "(gFailCount w + int (length ps) < promFailTicks t \<longrightarrow> gPublished (runPolls t c ps w) = gPublished w) \<and>
    (ps \<noteq> [] \<and> promFailTicks t \<le> gFailCount w + int (length ps) \<longrightarrow>
       gPublished (runPolls t c ps w) = LevelNormal \<and> gaugeLevel (runPolls t c ps w) = LevelNormal \<and>
       gaugeScore (runPolls t c ps w) = Fin 0 \<and> smValue (gSmoother (runPolls t c ps w)) = Fin 0 \<and>
       qLevel (gQuantizer (runPolls t c ps w)) = LevelNormal) \<and> 0 \<le> gFailCount w"
  using failed_run [OF w(3) ps, of t] grace_holds_level [OF w(3) ps] reachable_governor_ok [OF w(1,2)]
  by (simp add: governor_ok_def published_ok_def)

theorem prometheus_loss_fails_open_witness:
  "gPublished (runPolls defaultTuning defaultClient (replicate 3 (15, NoAnswer, NoAnswer, [])) loaded) = LevelNormal"
  using prometheus_loss_fails_open [OF loaded_reachable defaultTuning_ok loaded_unpinned,
      of "replicate 3 (15, NoAnswer, NoAnswer, [])"]
  by (auto simp: fetched_def NoAnswer_lost defaultTuning_def)

section \<open>The egress score\<close>

text \<open>
  The egress score with the default fractions is calibrated like the pressure score, in the
  rounded arithmetic the service runs: for every share of the uplink it is a number of the unit
  interval, monotone in the share, zero up to half of the elevated fraction, exactly one half at the
  elevated fraction, and one from the critical fraction on.
\<close>

theorem egress_score_calibrated:
  assumes "0 \<le> f" "f \<le> g" "is_binary64 (Fin f)" "is_binary64 (Fin g)"
  shows "\<exists>x y. egressScore (Fin f) (fin (75 / 100)) (fin (90 / 100)) = Fin x \<and>
    egressScore (Fin g) (fin (75 / 100)) (fin (90 / 100)) = Fin y \<and> 0 \<le> x \<and> x \<le> y \<and> y \<le> 1 \<and>
    (f \<le> 375 / 1000 \<longrightarrow> x = 0) \<and> (f = 75 / 100 \<longrightarrow> x = 1 / 2) \<and> (90 / 100 \<le> f \<longrightarrow> x = 1)"
proof -
  have e: "fin (75 / 100) = Fin (fround (75 / 100))" "fin (90 / 100) = Fin (fround (90 / 100))"
    by (rule fin_small; simp)+
  have c: "fround (90 / 100) \<le> f" if "90 / 100 \<le> f"
    using that assms(3) by (intro fround_le) (simp_all add: is_binary64_def)
  have "f \<le> fround (75 / 100) / 2 \<longleftrightarrow> f \<le> 375 / 1000" "f = fround (75 / 100) \<longleftrightarrow> f = 75 / 100"
    unfolding default_fracs by auto
  then show ?thesis
    unfolding e using assms c egress_default.egress_band_mono [OF assms(2)]
      egress_default.egress_band_points(1) [of f] egress_default.egress_band_points(3) [of f] egress_default.egressScore_band [of f]
      egress_default.egressScore_band [of g] clampq_bounds egress_default.egress_band_points(2)
    by (auto simp: egress_band_def)
qed

theorem egress_score_calibrated_witness:
  "\<exists>x y. egressScore (Fin (1 / 4)) (fin (75 / 100)) (fin (90 / 100)) = Fin x \<and>
    egressScore (Fin 1) (fin (75 / 100)) (fin (90 / 100)) = Fin y \<and> x = 0 \<and> x \<le> y \<and> y \<le> 1"
proof -
  have "representable (1 / 4)" using representableI [of 1 "- 2"] powi_neg [of 2] by simp
  then have "is_binary64 (Fin (1 / 4))" "is_binary64 (Fin 1)"
    using power_increasing [of 1 1024 "2 :: rat"] by (simp_all add: is_binary64_def)
  from egress_score_calibrated [OF _ _ this] show ?thesis by auto
qed

section \<open>Consumers\<close>

text \<open>
  C20. Round trip through Redis: after a tick whose Redis commands succeed, and until the keys
  expire, every watcher reads exactly the level the governor published, and its score rounded to two
  decimals, which is off by at most 0.005 and the rounding of one binary64 operation.
\<close>

theorem watcher_follows_governor:
  fixes now now' :: instant and vec :: "vector_response http" and scal :: "scalar_response http"
  assumes w: "reachable_governor t c w" "tuning_ok t"
    and fresh: "levelTTL t \<le> 0 \<or> now' < now + levelTTL t"
  defines "w' \<equiv> governorTick t c now vec scal [] w"
  shows "wLevel (watch now' w' x) = gPublished w' \<and>
    (\<exists>a b. gaugeScore w' = Fin a \<and> wScore (watch now' w' x) = Fin b \<and> \<bar>b - a\<bar> \<le> 1 / 200 + 1 / 2 ^ 54)"
proof -
  have ok: "governor_ok t w" by (rule reachable_governor_ok [OF w])
  have r: "watch now' w' x = \<lparr>wLevel = gaugeLevel w', wScore = two_decimals (gaugeScore w')\<rparr>"
    unfolding w'_def by (rule watcher_reads_tick [OF ok fresh])
  have "governor_ok t w'" unfolding w'_def by (rule governorTick_ok [OF ok])
  then obtain a where a: "gaugeScore w' = Fin a" "0 \<le> a" "a \<le> 1"
    by (auto simp: governor_ok_def published_ok_def elim: unit_valueE)
  obtain b where "two_decimals (Fin a) = Fin b" "\<bar>b - a\<bar> \<le> 1 / 200 + 1 / 2 ^ 54"
    by (rule two_decimals_near [OF a(2,3)])
  moreover have "gaugeLevel w' = gPublished w'" unfolding w'_def by (rule tick_gauge_level)
  ultimately show ?thesis using r a(1) by simp
qed

theorem watcher_follows_governor_witness:
  "wLevel (watch 59 (governorTick defaultTuning defaultClient 0 (scoreAnswer ''0.95'') NoAnswer [] loaded) NewDegradationWatcher) =
   gPublished (governorTick defaultTuning defaultClient 0 (scoreAnswer ''0.95'') NoAnswer [] loaded)"
  using watcher_follows_governor [OF loaded_reachable defaultTuning_ok, of 59 0]
  by (simp add: defaultTuning_def Second_def)

text \<open>
  The consumer fails open and never reads anything but a level: whatever the two keys hold, the
  poll leaves a level of the protocol and a score of the unit interval, and load is shed at
  threshold \<open>m\<close> exactly when the level key holds a number of the range that reaches it. A missing
  key, an unreachable Redis, garbage and numbers out of range shed nothing.
\<close>

theorem watcher_fails_open:
  "valid_level (WatcherLevel (Some (refresh lv sc w))) \<and> unit_value (WatcherScore (Some (refresh lv sc w))) \<and>
   (ShouldShed m (Some (refresh lv sc w)) \<longleftrightarrow>
      m \<le> 0 \<or> (\<exists>raw n. lv = RedisVal raw \<and> Atoi raw = Some n \<and> m \<le> n \<and> 0 \<le> n \<and> n \<le> 2))"
  using refresh_ok [of lv sc w]
  by (auto simp: watcher_ok_def WatcherLevel_def WatcherScore_def ShouldShed_def refresh_def Let_def
      split: reply.splits option.splits if_splits)

theorem watcher_fails_open_witness:
  "\<not> ShouldShed 1 (Some (refresh (RedisVal ''3'') RedisNil NewDegradationWatcher))"
proof -
  have "Atoi ''3'' = Some 3" by code_simp
  then show ?thesis
    using watcher_fails_open [of "RedisVal ''3''" RedisNil NewDegradationWatcher 1] by simp
qed

text \<open>
  A governor that stops degrades to no degradation: after any run of ticks from the boot state,
  whatever Prometheus and Redis did, the level key expires no later than one TTL after the last
  tick, and from then on every watcher reads normal with score zero.
\<close>

theorem dead_governor_is_forgotten:
  assumes "0 < levelTTL t" "\<forall>p\<in>set ps. fst p \<le> T" "T + levelTTL t \<le> now"
  shows "watch now (runPolls t c ps (NewGovernor t)) x = \<lparr>wLevel = 0, wScore = Fin 0\<rparr>"
proof -
  have "expires_by (T + levelTTL t) (NewGovernor t)" by (simp add: expires_by_def NewGovernor_def)
  from runPolls_expires [OF this assms(1,2)] assms(3) show ?thesis by (rule dead_governor_reads_normal)
qed

theorem dead_governor_is_forgotten_witness:
  "wLevel (watch (60 * Second)
     (runPolls defaultTuning defaultClient [(0, scoreAnswer ''1'', NoAnswer, [])] (NewGovernor defaultTuning))
     NewDegradationWatcher) = 0"
  using dead_governor_is_forgotten [of defaultTuning "[(0, scoreAnswer ''1'', NoAnswer, [])]" 0 "60 * Second"]
  by (simp add: defaultTuning_def Second_def)

section \<open>Behaviours the comments rule out\<close>

text \<open>
  A NaN alpha passes the check of the configuration (both comparisons with NaN are false), and
  such a governor never leaves normal by itself: in every reachable state the quantizer is at normal
  and the smoothed score is zero or NaN, whatever pressure Prometheus reports.
\<close>

theorem nan_alpha_never_sheds:
  assumes "reachable_governor t c w" "tAlphaUp t = NaN" "is_binary64 (tAlphaDown t)" "tAlphaDown t \<noteq> NaN"
  shows "qLevel (gQuantizer w) = LevelNormal \<and> smValue (gSmoother w) \<in> {Fin 0, NaN} \<and>
    alphaUp (gSmoother w) = NaN"
  using reachable_stuck [OF assms] by (simp add: stuck_def)

theorem nan_alpha_never_sheds_witness:
  "qLevel (gQuantizer (governorTick (defaultTuning\<lparr>tAlphaUp := NaN\<rparr>) defaultClient 0 (scoreAnswer ''1'') NoAnswer []
     (NewGovernor (defaultTuning\<lparr>tAlphaUp := NaN\<rparr>)))) = LevelNormal"
  using nan_alpha_never_sheds [OF reachable_governor.tick [OF reachable_governor.boot],
      of "defaultTuning\<lparr>tAlphaUp := NaN\<rparr>"] defaultTuning_ok
  by (simp add: tuning_ok_def)

text \<open>
  The published pair is not always a level and its score: when the owner pinned critical on an
  idle system and the next poll of Prometheus fails, the grace tick publishes level 2 with score
  0.00, although every reader takes the score as the cause of the level.
\<close>

theorem grace_tick_parts_level_and_score:
  fixes now1 now2 :: instant
  assumes "reachable_governor t c w" "tuning_ok t" "1 < promFailTicks t"
    and "overrideKey w = Some ''2''" "smValue (gSmoother w) = Fin 0"
    and "FetchVerdict c vec1 scal1 = Some v" "clampRaw (vScore v) = Fin 0" "FetchVerdict c vec2 scal2 = None"
  shows "gaugeLevel (runPolls t c [(now1, vec1, scal1, []), (now2, vec2, scal2, [])] w) = LevelCritical \<and>
    gaugeScore (runPolls t c [(now1, vec1, scal1, []), (now2, vec2, scal2, [])] w) = Fin 0 \<and>
    levelKey (runPolls t c [(now1, vec1, scal1, []), (now2, vec2, scal2, [])] w) = Some (''2'', expiry now2 (levelTTL t)) \<and>
    scoreKey (runPolls t c [(now1, vec1, scal1, []), (now2, vec2, scal2, [])] w) = Some (''0.00'', expiry now2 (levelTTL t))"
  using pin_then_failed_poll [OF reachable_governor_ok [OF assms(1,2)] assms(4-8) assms(3)] by blast

theorem grace_tick_parts_level_and_score_witness:
  "gaugeLevel (runPolls defaultTuning defaultClient [(0, emptyAnswer, NoAnswer, []), (15, NoAnswer, NoAnswer, [])]
     ((NewGovernor defaultTuning)\<lparr>overrideKey := Some ''2''\<rparr>)) = LevelCritical"
proof -
  let ?w = "(NewGovernor defaultTuning)\<lparr>overrideKey := Some ''2''\<rparr>"
  have r: "reachable_governor defaultTuning defaultClient ?w" by (intro reachable_governor.intros)
  have g: "1 < promFailTicks defaultTuning" by (simp add: defaultTuning_def)
  have z: "smValue (gSmoother ?w) = Fin 0" by (simp add: NewGovernor_def NewSmoother_def)
  have c: "clampRaw (vScore (emptyVerdict\<lparr>vReasons := [], vTarget := LevelNormal, vSampleAge := Fin (- 1)\<rparr>)) = Fin 0"
    using clampRaw_id [of "Fin 0"] by (simp add: emptyVerdict_def unit_value_def)
  show ?thesis
    using grace_tick_parts_level_and_score [OF r defaultTuning_ok g _ z emptyAnswer_verdict c NoAnswer_lost] by simp
qed

end
