(* ===== verification/Keyed_Rows.thy ===== *)
theory Keyed_Rows
  imports Fallible_Store
begin

text \<open>
  A table with a primary key, as the list of its rows: lookup by key, \<^verbatim>\<open>INSERT .. ON CONFLICT DO
  UPDATE\<close>, \<^verbatim>\<open>INSERT .. ON CONFLICT DO NOTHING\<close> and \<^verbatim>\<open>UPDATE .. WHERE key = ?\<close>. The interface
  \<open>seeded_table\<close> is what seeding at boot needs of a table; both tables of the policy service provide
  it.
\<close>

section \<open>Rows\<close>

definition rowOf :: "('r \<Rightarrow> 'k) \<Rightarrow> 'r list \<Rightarrow> 'k \<Rightarrow> 'r option" where
  "rowOf key t k = List.find (\<lambda>r. key r = k) t"

definition hasRow :: "('r \<Rightarrow> 'k) \<Rightarrow> 'k \<Rightarrow> 'r list \<Rightarrow> bool" where
  "hasRow key k t \<longleftrightarrow> list_ex (\<lambda>r. key r = k) t"

definition updateRows :: "('r \<Rightarrow> 'k) \<Rightarrow> 'k \<Rightarrow> ('r \<Rightarrow> 'r) \<Rightarrow> 'r list \<Rightarrow> 'r list" where
  "updateRows key k f t = map (\<lambda>r. if key r = k then f r else r) t"

definition upsertRow :: "('r \<Rightarrow> 'k) \<Rightarrow> 'r \<Rightarrow> 'r list \<Rightarrow> 'r list" where
  "upsertRow key r t = (if hasRow key (key r) t then updateRows key (key r) (\<lambda>_. r) t else t @ [r])"

definition insertAbsent :: "('r \<Rightarrow> 'k) \<Rightarrow> 'r \<Rightarrow> 'r list \<Rightarrow> 'r list" where
  "insertAbsent key r t = (if hasRow key (key r) t then t else t @ [r])"

definition unique_keys :: "('r \<Rightarrow> 'k) \<Rightarrow> 'r list \<Rightarrow> bool" where
  "unique_keys key t \<longleftrightarrow> distinct (map key t)"

lemma rowOf_Nil [simp]: "rowOf key [] k = None"
  by (simp add: rowOf_def)

lemma rowOf_Cons [simp]: "rowOf key (r # t) k = (if key r = k then Some r else rowOf key t k)"
  by (simp add: rowOf_def)

lemma rowOf_append: "rowOf key (t @ u) k = (case rowOf key t k of None \<Rightarrow> rowOf key u k | Some r \<Rightarrow> Some r)"
  by (induction t) simp_all

lemma rowOf_key: "rowOf key t k = Some r \<Longrightarrow> key r = k"
  by (induction t) (auto split: if_splits)

lemma rowOf_mem: "rowOf key t k = Some r \<Longrightarrow> r \<in> set t"
  by (induction t) (auto split: if_splits)

lemma rowOf_None: "rowOf key t k = None \<longleftrightarrow> k \<notin> key ` set t"
  by (induction t) auto

lemma rowOf_member: "unique_keys key t \<Longrightarrow> r \<in> set t \<Longrightarrow> rowOf key t (key r) = Some r"
  by (induction t) (auto simp: unique_keys_def image_iff)

lemma hasRow_iff: "hasRow key k t \<longleftrightarrow> rowOf key t k \<noteq> None"
  by (induction t) (auto simp: hasRow_def)

lemma hasRow_mem: "hasRow key k t \<longleftrightarrow> k \<in> key ` set t"
  by (auto simp: hasRow_def list_ex_iff)

lemma rowOf_updateRows:
  assumes "\<And>r. key (f r) = key r"
  shows "rowOf key (updateRows key k f t) k' = (if k' = k then map_option f (rowOf key t k) else rowOf key t k')"
  by (induction t) (auto simp: updateRows_def assms)

lemma rowOf_upsertRow: "rowOf key (upsertRow key r t) k = (if k = key r then Some r else rowOf key t k)"
proof -
  have "rowOf key (updateRows key (key r) (\<lambda>_. r) t) k =
      (if k = key r then map_option (\<lambda>_. r) (rowOf key t k) else rowOf key t k)"
    by (induction t) (auto simp: updateRows_def)
  then show ?thesis by (auto simp: upsertRow_def hasRow_iff rowOf_append split: option.split)
qed

lemma rowOf_insertAbsent:
  "rowOf key (insertAbsent key r t) k =
     (case rowOf key t k of None \<Rightarrow> (if k = key r then Some r else None) | Some r' \<Rightarrow> Some r')"
  by (auto simp: insertAbsent_def hasRow_iff rowOf_append split: option.split)

lemma unique_updateRows: "(\<And>r. key (f r) = key r) \<Longrightarrow> unique_keys key t \<Longrightarrow> unique_keys key (updateRows key k f t)"
  by (simp add: unique_keys_def updateRows_def comp_def if_distrib cong: if_cong)

lemma unique_upsertRow: "unique_keys key t \<Longrightarrow> unique_keys key (upsertRow key r t)"
proof -
  assume u: "unique_keys key t"
  have "map key (updateRows key (key r) (\<lambda>_. r) t) = map key t" by (induction t) (simp_all add: updateRows_def)
  with u show ?thesis
    by (auto simp: upsertRow_def unique_keys_def hasRow_mem)
qed

lemma unique_insertAbsent: "unique_keys key t \<Longrightarrow> unique_keys key (insertAbsent key r t)"
  by (auto simp: insertAbsent_def unique_keys_def hasRow_mem)

section \<open>Seeding\<close>

locale seeded_table =
  fixes look :: "'t \<Rightarrow> 'k \<Rightarrow> 'r option" and insert_absent :: "'r \<Rightarrow> 't \<Rightarrow> 't" and key :: "'r \<Rightarrow> 'k"
  assumes look_insert: "look (insert_absent r t) k =
    (case look t k of None \<Rightarrow> (if k = key r then Some r else None) | Some r' \<Rightarrow> Some r')"
begin

lemma look_seeds:
  "look (fold insert_absent rs t) k = (case look t k of None \<Rightarrow> rowOf key rs k | Some r \<Rightarrow> Some r)"
  by (induction rs arbitrary: t) (auto simp: look_insert split: option.splits)

text \<open>Seeding never touches a row that exists, and seeding again changes nothing.\<close>

lemma seeds_keep: "look t k = Some r \<Longrightarrow> look (fold insert_absent rs t) k = Some r"
  by (simp add: look_seeds)

lemma seeds_again:
  assumes "set (map key rs') \<subseteq> set (map key rs)"
  shows "look (fold insert_absent rs' (fold insert_absent rs t)) k = look (fold insert_absent rs t) k"
proof -
  have "rowOf key rs' k = None" if "rowOf key rs k = None" using that assms by (auto simp: rowOf_None)
  then show ?thesis by (auto simp: look_seeds split: option.split)
qed

lemma seeds_present: "k \<in> key ` set rs \<Longrightarrow> look (fold insert_absent rs t) k \<noteq> None"
  using rowOf_None [of key rs k] by (auto simp: look_seeds split: option.split)

lemma seeds_only: "look (fold insert_absent rs t) k = Some r \<Longrightarrow> look t k = Some r \<or> r \<in> set rs"
  by (auto simp: look_seeds split: option.splits dest: rowOf_mem)

end

end
