(* ===== verification/Policy_Flags.thy ===== *)
theory Policy_Flags
  imports Keyed_Rows "HOL-Library.Char_ord" "HOL-Library.List_Lexorder"
begin

text \<open>
  The feature flags of the policy service (\<^verbatim>\<open>services/policy\<close>): the resolver and the seeds of
  \<^verbatim>\<open>domain/feature_flag.go\<close>, the table with its upsert and its insert-if-absent
  (\<^verbatim>\<open>repo/feature_flag.go\<close>), the service (\<^verbatim>\<open>service/policy.go\<close>) and the handlers. The rows of the table
  are a list in the order of the database, which no result depends on; the clock of a command is an
  argument. A string list is stored as its JSON text and read back unchanged.
\<close>

section \<open>Domain\<close>

definition RoleEveryone :: string where "RoleEveryone = ''everyone''"
definition FlagRoleUser :: string where "FlagRoleUser = ''user''"
definition FlagRoleAdmin :: string where "FlagRoleAdmin = ''admin''"
definition FlagRoleLibrarian :: string where "FlagRoleLibrarian = ''librarian''"
definition FlagRoleGuest :: string where "FlagRoleGuest = ''guest''"

lemmas flag_role_defs = RoleEveryone_def FlagRoleUser_def FlagRoleAdmin_def FlagRoleLibrarian_def FlagRoleGuest_def

definition RouletteMasterKey :: string where "RouletteMasterKey = ''__roulette__''"

record feature_flag =
  ffKey :: string
  ffRoles :: "string list"
  ffAllowUsers :: "string list"
  ffDenyUsers :: "string list"
  ffRoulette :: bool
  ffFailSafe :: string
  ffLabel :: string
  ffUpdatedAt :: instant

record flag_audience =
  audRoles :: "string list"
  audAllowUsers :: "string list"
  audDenyUsers :: "string list"

definition flagAudience :: "feature_flag \<Rightarrow> flag_audience" where
  "flagAudience f = \<lparr>audRoles = ffRoles f, audAllowUsers = ffAllowUsers f, audDenyUsers = ffDenyUsers f\<rparr>"

definition containsUser :: "string list \<Rightarrow> string \<Rightarrow> bool" where
  "containsUser xs v \<longleftrightarrow> list_ex (\<lambda>x. x = v) xs"

lemma containsUser_iff [simp]: "containsUser xs v \<longleftrightarrow> v \<in> set xs"
  by (auto simp: containsUser_def list_ex_iff)

definition CanAccess :: "feature_flag \<Rightarrow> string \<Rightarrow> string \<Rightarrow> bool" where
  "CanAccess f userID role0 =
    (if role0 = FlagRoleGuest then False
     else
       let role = (if role0 = FlagRoleLibrarian then FlagRoleUser else role0) in
       if userID \<noteq> [] \<and> containsUser (ffDenyUsers f) userID then False
       else if userID \<noteq> [] \<and> containsUser (ffAllowUsers f) userID then True
       else if containsUser (ffRoles f) RoleEveryone then True
       else if role \<noteq> [] \<and> containsUser (ffRoles f) role then True
       else False)"

record ruleset =
  rsRouletteEnabled :: bool
  rsFlags :: "string \<rightharpoonup> flag_audience"
  rsFailSafe :: "string \<rightharpoonup> string"
  rsRoulette :: "string \<rightharpoonup> bool"

record mine_response =
  mineVisible :: "string list"
  mineRoulette :: "string list"
  mineRouletteEnabled :: bool

text \<open>The zero value of the struct with some fields set.\<close>

definition newFlag :: "string \<Rightarrow> string list \<Rightarrow> bool \<Rightarrow> string \<Rightarrow> string \<Rightarrow> feature_flag" where
  "newFlag key roles roulette failSafe label = \<lparr>ffKey = key, ffRoles = roles, ffAllowUsers = [],
     ffDenyUsers = [], ffRoulette = roulette, ffFailSafe = failSafe, ffLabel = label, ffUpdatedAt = 0\<rparr>"

definition adminFlag :: "string \<Rightarrow> string \<Rightarrow> feature_flag" where
  "adminFlag key label = newFlag key [FlagRoleAdmin] False ''admin'' label"

definition everyoneFlag :: "string \<Rightarrow> string \<Rightarrow> feature_flag" where
  "everyoneFlag key label = newFlag key [RoleEveryone] True ''everyone'' label"

text \<open>The label of the gacha flag is in Cyrillic, given by its UTF-8 bytes.\<close>

definition gachaLabel :: string where
  "gachaLabel = ''Gacha '' @ map char_of [0xC2, 0xAB, 0xD0, 0x9B, 0xD1, 0x83, 0xD0, 0xB4, 0xD0, 0xBA, 0xD0, 0xB0, 0xC2, 0xBB :: nat]"

definition SeedFlags :: "feature_flag list" where
  "SeedFlags = [
     newFlag ''fanfic'' [FlagRoleAdmin] True ''admin'' ''Fanfic engine'',
     adminFlag ''profile-wall'' ''Profile showcase wall'',
     newFlag ''gacha'' [FlagRoleAdmin] False ''admin'' gachaLabel,
     everyoneFlag ''anidle'' ''Anidle'',
     everyoneFlag ''status'' ''Status page'',
     everyoneFlag ''themes'' ''OP/ED themes'',
     everyoneFlag ''game'' ''Game rooms'',
     everyoneFlag ''downloads'' ''Downloads'',
     everyoneFlag ''tips'' ''Tips & hotkeys'',
     everyoneFlag ''zundamon-tts'' ''Zundamon voice lab'',
     newFlag ''showcase-editor'' [FlagRoleAdmin] True ''admin'' ''Showcase editor'',
     newFlag ''my-feedback'' [FlagRoleUser, FlagRoleAdmin] True ''everyone'' ''My feedback'',
     newFlag ''following'' [FlagRoleUser, FlagRoleAdmin] True ''everyone'' ''Following'',
     newFlag ''recommendations'' [FlagRoleUser, FlagRoleAdmin] True ''everyone'' ''My recommendations'']"

section \<open>Repository\<close>

type_synonym flag_table = "feature_flag list"

definition flags_GetAll :: "(flag_table, feature_flag list) prog" where
  "flags_GetAll = query (\<lambda>t. t)"

definition flags_Upsert :: "instant \<Rightarrow> feature_flag \<Rightarrow> (flag_table, unit) prog" where
  "flags_Upsert now f = command (\<lambda>t. (Inr (), upsertRow ffKey (f\<lparr>ffUpdatedAt := now\<rparr>) t))"

definition flags_SeedIfAbsent :: "instant \<Rightarrow> feature_flag \<Rightarrow> (flag_table, unit) prog" where
  "flags_SeedIfAbsent now f = command (\<lambda>t. (Inr (), insertAbsent ffKey (f\<lparr>ffUpdatedAt := now\<rparr>) t))"

section \<open>Service\<close>

definition masterFlag :: "bool \<Rightarrow> feature_flag" where
  "masterFlag enabled = newFlag RouletteMasterKey [] enabled ''everyone'' []"

definition Policy_SeedDefaults :: "instant \<Rightarrow> (flag_table, unit) prog" where
  "Policy_SeedDefaults now =
     bnd (loop (\<lambda>_ f. flags_SeedIfAbsent now f) () SeedFlags) (\<lambda>_.
     flags_SeedIfAbsent now (masterFlag True))"

definition rulesetStep :: "feature_flag \<Rightarrow> ruleset \<Rightarrow> ruleset" where
  "rulesetStep f rs =
    (if ffKey f = RouletteMasterKey then rs\<lparr>rsRouletteEnabled := ffRoulette f\<rparr>
     else rs\<lparr>rsFlags := (rsFlags rs)(ffKey f \<mapsto> flagAudience f),
             rsFailSafe := (rsFailSafe rs)(ffKey f \<mapsto> ffFailSafe f),
             rsRoulette := (rsRoulette rs)(ffKey f \<mapsto> ffRoulette f)\<rparr>)"

definition rulesetOf :: "feature_flag list \<Rightarrow> ruleset" where
  "rulesetOf rows = fold rulesetStep rows
     \<lparr>rsRouletteEnabled = True, rsFlags = Map.empty, rsFailSafe = Map.empty, rsRoulette = Map.empty\<rparr>"

definition Policy_Ruleset :: "(flag_table, ruleset) prog" where
  "Policy_Ruleset = bnd flags_GetAll (\<lambda>rows. ret (rulesetOf rows))"

definition mineStep :: "string \<Rightarrow> string \<Rightarrow> feature_flag \<Rightarrow> mine_response \<Rightarrow> mine_response" where
  "mineStep userID role f out =
    (if ffKey f = RouletteMasterKey then out\<lparr>mineRouletteEnabled := ffRoulette f\<rparr>
     else if \<not> CanAccess f userID role then out
     else
       let out = out\<lparr>mineVisible := mineVisible out @ [ffKey f]\<rparr> in
       if ffRoulette f then out\<lparr>mineRoulette := mineRoulette out @ [ffKey f]\<rparr> else out)"

definition mineOf :: "string \<Rightarrow> string \<Rightarrow> feature_flag list \<Rightarrow> mine_response" where
  "mineOf userID role rows =
    (let out = fold (mineStep userID role) rows \<lparr>mineVisible = [], mineRoulette = [], mineRouletteEnabled = True\<rparr>
     in out\<lparr>mineVisible := sort (mineVisible out), mineRoulette := sort (mineRoulette out)\<rparr>)"

definition ResolveForUser :: "string \<Rightarrow> string \<Rightarrow> (flag_table, mine_response) prog" where
  "ResolveForUser userID role = bnd flags_GetAll (\<lambda>rows. ret (mineOf userID role rows))"

definition listStep :: "feature_flag \<Rightarrow> feature_flag list \<times> bool \<Rightarrow> feature_flag list \<times> bool" where
  "listStep f acc = (if ffKey f = RouletteMasterKey then (fst acc, ffRoulette f) else (fst acc @ [f], snd acc))"

definition ListFlags :: "(flag_table, feature_flag list \<times> bool) prog" where
  "ListFlags = bnd flags_GetAll (\<lambda>rows.
     let acc = fold listStep rows ([], True) in ret (sort_key ffKey (fst acc), snd acc))"

definition SetFlag ::
  "instant \<Rightarrow> string \<Rightarrow> flag_audience \<Rightarrow> bool \<Rightarrow> string \<Rightarrow> string \<Rightarrow> (flag_table, unit) prog" where
  "SetFlag now key a roulette failSafe label =
    (if key = [] \<or> length key > 64 then fail (errInvalidInput ''invalid feature key'')
     else if key = RouletteMasterKey then fail (errInvalidInput ''reserved key'')
     else if failSafe \<noteq> ''admin'' \<and> failSafe \<noteq> ''everyone'' then
       fail (errInvalidInput (''failSafe must be '' @ [CHR 0x27] @ ''admin'' @ [CHR 0x27] @ '' or '' @
         [CHR 0x27] @ ''everyone'' @ [CHR 0x27]))
     else flags_Upsert now \<lparr>ffKey = key, ffRoles = audRoles a, ffAllowUsers = audAllowUsers a,
       ffDenyUsers = audDenyUsers a, ffRoulette = roulette, ffFailSafe = failSafe, ffLabel = label,
       ffUpdatedAt = 0\<rparr>)"

definition SetRoulette :: "instant \<Rightarrow> bool \<Rightarrow> (flag_table, unit) prog" where
  "SetRoulette now enabled = flags_Upsert now (masterFlag enabled)"

section \<open>Handlers\<close>

text \<open>The status \<^verbatim>\<open>httputil.Error\<close> writes for an error; anything but an \<^verbatim>\<open>AppError\<close> is internal.\<close>

definition codeToHTTPStatus :: "error_code \<Rightarrow> int" where
  "codeToHTTPStatus code = (case code of
     CodeNotFound \<Rightarrow> 404 | CodeAlreadyExists \<Rightarrow> 409 | CodeInvalidInput \<Rightarrow> 400 | CodeUnauthorized \<Rightarrow> 401
   | CodeForbidden \<Rightarrow> 403 | CodeRateLimited \<Rightarrow> 429 | CodeUnavailable \<Rightarrow> 503 | CodeTimeout \<Rightarrow> 504
   | CodeConflict \<Rightarrow> 409 | CodePrecondition \<Rightarrow> 412 | CodeUnprocessable \<Rightarrow> 422 | CodeVideoNotReady \<Rightarrow> 202
   | CodeQuotaExceeded \<Rightarrow> 402 | _ \<Rightarrow> 500)"

definition errStatus :: "err \<Rightarrow> int" where
  "errStatus e = (case e of AppError code _ \<Rightarrow> codeToHTTPStatus code | _ \<Rightarrow> codeToHTTPStatus CodeInternal)"

text \<open>What a handler answers: a body that is no JSON, what \<^verbatim>\<open>httputil.Error\<close> makes of an error, a result.\<close>

datatype 'a policy_reply = RBadJSON | RError err | ROK 'a

definition replied :: "('d, 'a) prog \<Rightarrow> ('d, 'a policy_reply) prog" where
  "replied m = attempt m (\<lambda>r. ret (case r of Inl e \<Rightarrow> RError e | Inr a \<Rightarrow> ROK a))"

record set_flag_request =
  sfAudience :: flag_audience
  sfRoulette :: bool
  sfFailSafe :: string
  sfLabel :: string

definition AdminFlags_List :: "(flag_table, (feature_flag list \<times> bool) policy_reply) prog" where
  "AdminFlags_List = replied ListFlags"

definition AdminFlags_SetFlag ::
  "instant \<Rightarrow> string \<Rightarrow> set_flag_request option \<Rightarrow> (flag_table, string policy_reply) prog" where
  "AdminFlags_SetFlag now key body = (case body of None \<Rightarrow> ret RBadJSON
     | Some req \<Rightarrow> replied (bnd (SetFlag now key (sfAudience req) (sfRoulette req) (sfFailSafe req) (sfLabel req))
         (\<lambda>_. ret key)))"

definition AdminFlags_SetRoulette :: "instant \<Rightarrow> bool option \<Rightarrow> (flag_table, bool policy_reply) prog" where
  "AdminFlags_SetRoulette now body = (case body of None \<Rightarrow> ret RBadJSON
     | Some enabled \<Rightarrow> replied (bnd (SetRoulette now enabled) (\<lambda>_. ret enabled)))"

definition GetRuleset :: "(flag_table, ruleset policy_reply) prog" where
  "GetRuleset = replied Policy_Ruleset"

definition GetMine :: "string \<Rightarrow> string \<Rightarrow> (flag_table, mine_response policy_reply) prog" where
  "GetMine userID role = replied (ResolveForUser userID role)"

section \<open>The table\<close>

interpretation flags: seeded_table "rowOf ffKey" "insertAbsent ffKey" ffKey
  by unfold_locales (rule rowOf_insertAbsent)

abbreviation flagOf :: "flag_table \<Rightarrow> string \<Rightarrow> feature_flag option" where
  "flagOf \<equiv> rowOf ffKey"

abbreviation flags_ok :: "flag_table \<Rightarrow> bool" where
  "flags_ok \<equiv> unique_keys ffKey"

text \<open>The ruleset of a table with unique keys, key by key.\<close>

lemma fold_rulesetStep_all:
  "unique_keys ffKey t \<Longrightarrow>
    rsFlags (fold rulesetStep t rs) k = (if k = RouletteMasterKey then rsFlags rs k else
      (case flagOf t k of None \<Rightarrow> rsFlags rs k | Some f \<Rightarrow> Some (flagAudience f))) \<and>
    rsFailSafe (fold rulesetStep t rs) k = (if k = RouletteMasterKey then rsFailSafe rs k else
      (case flagOf t k of None \<Rightarrow> rsFailSafe rs k | Some f \<Rightarrow> Some (ffFailSafe f))) \<and>
    rsRoulette (fold rulesetStep t rs) k = (if k = RouletteMasterKey then rsRoulette rs k else
      (case flagOf t k of None \<Rightarrow> rsRoulette rs k | Some f \<Rightarrow> Some (ffRoulette f))) \<and>
    rsRouletteEnabled (fold rulesetStep t rs) =
      (case flagOf t RouletteMasterKey of None \<Rightarrow> rsRouletteEnabled rs | Some f \<Rightarrow> ffRoulette f)"
proof (induction t arbitrary: rs k)
  case (Cons f t)
  have n: "flagOf t (ffKey f) = None" and u: "flags_ok t"
    using Cons.prems by (auto simp: unique_keys_def rowOf_None)
  show ?case
    using n by (cases "ffKey f = RouletteMasterKey"; cases "k = ffKey f")
      (simp_all add: Cons.IH [OF u] rulesetStep_def [of f] split: option.split)
qed simp

lemmas fold_rulesetStep = fold_rulesetStep_all [THEN conjunct1]
  fold_rulesetStep_all [THEN conjunct2, THEN conjunct1]
  fold_rulesetStep_all [THEN conjunct2, THEN conjunct2, THEN conjunct1]
  fold_rulesetStep_all [THEN conjunct2, THEN conjunct2, THEN conjunct2]

lemma rulesetOf_simps:
  assumes "flags_ok t"
  shows "rsFlags (rulesetOf t) k = (if k = RouletteMasterKey then None else map_option flagAudience (flagOf t k))"
    "rsFailSafe (rulesetOf t) k = (if k = RouletteMasterKey then None else map_option ffFailSafe (flagOf t k))"
    "rsRoulette (rulesetOf t) k = (if k = RouletteMasterKey then None else map_option ffRoulette (flagOf t k))"
    "rsRouletteEnabled (rulesetOf t) = (case flagOf t RouletteMasterKey of None \<Rightarrow> True | Some f \<Rightarrow> ffRoulette f)"
  by (auto simp: rulesetOf_def fold_rulesetStep [OF assms] split: option.split)

text \<open>The feed of a user: exactly the keys of the flags the user may access.\<close>

lemma fold_mineStep:
  "mineVisible (fold (mineStep u role) t out) =
     mineVisible out @ map ffKey (filter (\<lambda>f. ffKey f \<noteq> RouletteMasterKey \<and> CanAccess f u role) t)"
  "mineRoulette (fold (mineStep u role) t out) =
     mineRoulette out @ map ffKey (filter (\<lambda>f. ffKey f \<noteq> RouletteMasterKey \<and> CanAccess f u role \<and> ffRoulette f) t)"
  by (induction t arbitrary: out) (simp_all add: mineStep_def Let_def)

lemma mineOf_visible: "set (mineVisible (mineOf u role t)) =
   ffKey ` {f \<in> set t. ffKey f \<noteq> RouletteMasterKey \<and> CanAccess f u role}"
  by (auto simp: mineOf_def Let_def fold_mineStep)

lemma mineOf_roulette: "set (mineRoulette (mineOf u role t)) =
   ffKey ` {f \<in> set t. ffKey f \<noteq> RouletteMasterKey \<and> CanAccess f u role \<and> ffRoulette f}"
  by (auto simp: mineOf_def Let_def fold_mineStep)

lemma mineOf_visible_iff:
  assumes "flags_ok t"
  shows "k \<in> set (mineVisible (mineOf u role t)) \<longleftrightarrow>
    k \<noteq> RouletteMasterKey \<and> (\<exists>f. flagOf t k = Some f \<and> CanAccess f u role)"
  using rowOf_member [OF assms] rowOf_key [of ffKey t k] rowOf_mem [of ffKey t k]
  by (auto simp: mineOf_visible)

text \<open>Every operation keeps the keys unique, whatever commands fail.\<close>

lemma flags_Upsert_ok: "flags_ok t \<Longrightarrow> wp (flags_Upsert now f) (\<lambda>_. flags_ok) (\<lambda>_. flags_ok) t"
  unfolding flags_Upsert_def by (rule wp_command) (auto simp: unique_upsertRow)

lemma wp_flags_Upsert:
  assumes "Q () (upsertRow ffKey (f\<lparr>ffUpdatedAt := now\<rparr>) t)" "E StoreFault t"
  shows "wp (flags_Upsert now f) Q E t"
  unfolding flags_Upsert_def by (rule wp_command) (use assms in auto)

lemma wp_flags_SeedIfAbsent:
  assumes "Q () (insertAbsent ffKey (f\<lparr>ffUpdatedAt := now\<rparr>) t)" "E StoreFault t"
  shows "wp (flags_SeedIfAbsent now f) Q E t"
  unfolding flags_SeedIfAbsent_def by (rule wp_command) (use assms in auto)

text \<open>The seeds of a boot at some instant, and what seeding does: a prefix of the seeds is inserted.\<close>

definition bootFlags :: "instant \<Rightarrow> feature_flag list" where
  "bootFlags now = map (\<lambda>f. f\<lparr>ffUpdatedAt := now\<rparr>) (SeedFlags @ [masterFlag True])"

lemma wp_seedLoop:
  assumes "\<And>n. n \<le> length fs \<Longrightarrow> E StoreFault (fold (insertAbsent ffKey) (map (\<lambda>f. f\<lparr>ffUpdatedAt := now\<rparr>) (take n fs)) t)"
    and "Q () (fold (insertAbsent ffKey) (map (\<lambda>f. f\<lparr>ffUpdatedAt := now\<rparr>) fs) t)"
  shows "wp (loop (\<lambda>_ f. flags_SeedIfAbsent now f) () fs) Q E t"
  using assms
proof (induction fs arbitrary: t)
  case Nil
  then show ?case by (auto intro: wp_ret)
next
  case (Cons f fs)
  have E: "E StoreFault t" using Cons.prems(1) [of 0] by simp
  have "wp (loop (\<lambda>_ f. flags_SeedIfAbsent now f) () fs) Q E (insertAbsent ffKey (f\<lparr>ffUpdatedAt := now\<rparr>) t)"
    by (rule Cons.IH) (use Cons.prems(1) [of "Suc n" for n] Cons.prems(2) in simp_all)
  with E show ?case by (auto intro!: wp_bnd wp_flags_SeedIfAbsent)
qed

lemma wp_Policy_SeedDefaults:
  assumes "\<And>n. n \<le> length (bootFlags now) \<Longrightarrow> E StoreFault (fold (insertAbsent ffKey) (take n (bootFlags now)) t)"
    and "Q () (fold (insertAbsent ffKey) (bootFlags now) t)"
  shows "wp (Policy_SeedDefaults now) Q E t"
proof -
  have e: "E StoreFault (fold (insertAbsent ffKey) (map (\<lambda>f. f\<lparr>ffUpdatedAt := now\<rparr>) (take n SeedFlags)) t)"
    if "n \<le> length SeedFlags" for n
    using assms(1) [of n] that by (simp add: bootFlags_def take_map)
  have "E StoreFault (fold (insertAbsent ffKey) (map (\<lambda>f. f\<lparr>ffUpdatedAt := now\<rparr>) SeedFlags) t)"
    using e [of "length SeedFlags"] by simp
  then have "wp (flags_SeedIfAbsent now (masterFlag True)) Q E
      (fold (insertAbsent ffKey) (map (\<lambda>f. f\<lparr>ffUpdatedAt := now\<rparr>) SeedFlags) t)"
    by (rule wp_flags_SeedIfAbsent [rotated]) (use assms(2) in \<open>simp add: bootFlags_def\<close>)
  then show ?thesis
    unfolding Policy_SeedDefaults_def by (intro wp_bnd wp_seedLoop) (use e in auto)
qed

lemma bootFlags_keys: "map ffKey (bootFlags now) = map ffKey (bootFlags 0)"
  by (simp add: bootFlags_def)

end
