(* ===== verification/Gateway_Gate.thy ===== *)
theory Gateway_Gate
  imports Policy_Flags Authz
begin

text \<open>
  The gateway's side of access control (\<^verbatim>\<open>services/gateway/internal/transport\<close>): the cached ruleset
  of the policy service (\<^verbatim>\<open>ruleset_cache.go\<close>), the gate of a feature (\<^verbatim>\<open>feature_gate.go\<close>), the
  bearer token of a request, the cache of resolved API keys (\<^verbatim>\<open>apikey_cache.go\<close>), the two
  authentication middlewares and the role middlewares (\<^verbatim>\<open>router.go\<close>). Signing and checking of
  tokens, the hash of a key and the answer of the auth service are parameters.
\<close>

section \<open>Ruleset cache\<close>

record gw_audience =
  gwRoles :: "string list"
  gwAllowUsers :: "string list"
  gwDenyUsers :: "string list"

record ruleset_snapshot =
  snapRouletteEnabled :: bool
  snapFlags :: "string \<rightharpoonup> gw_audience"
  snapFailSafe :: "string \<rightharpoonup> string"
  snapRoulette :: "string \<rightharpoonup> bool"

record ruleset_cache =
  cacheSnap :: ruleset_snapshot
  cacheLoaded :: bool

definition emptyRuleset :: ruleset_snapshot where
  "emptyRuleset = \<lparr>snapRouletteEnabled = False, snapFlags = Map.empty, snapFailSafe = Map.empty, snapRoulette = Map.empty\<rparr>"

definition newRulesetCache :: ruleset_cache where
  "newRulesetCache = \<lparr>cacheSnap = emptyRuleset, cacheLoaded = False\<rparr>"

text \<open>The exchange with the policy service; a body is the envelope's data, when it decodes.\<close>

datatype ruleset_answer = RulesetUnreachable | RulesetStatus int | RulesetBody "ruleset_snapshot option"

definition httpRulesetFetch :: "ruleset_answer \<Rightarrow> ruleset_snapshot option" where
  "httpRulesetFetch a = (case a of RulesetBody b \<Rightarrow> b | _ \<Rightarrow> None)"

definition refreshRuleset :: "ruleset_snapshot option \<Rightarrow> ruleset_cache \<Rightarrow> ruleset_cache" where
  "refreshRuleset fetched c = (case fetched of None \<Rightarrow> c | Some snap \<Rightarrow> \<lparr>cacheSnap = snap, cacheLoaded = True\<rparr>)"

section \<open>Feature gate\<close>

definition audienceContains :: "string list \<Rightarrow> string \<Rightarrow> bool" where
  "audienceContains xs v \<longleftrightarrow> list_ex (\<lambda>x. x = v) xs"

lemma audienceContains_iff [simp]: "audienceContains xs v \<longleftrightarrow> v \<in> set xs"
  by (auto simp: audienceContains_def list_ex_iff)

definition canAccess :: "gw_audience \<Rightarrow> string \<Rightarrow> string \<Rightarrow> bool" where
  "canAccess a userID role0 =
    (if role0 = ''guest'' then False
     else
       let role = (if role0 = ''librarian'' then ''user'' else role0) in
       if userID \<noteq> [] \<and> audienceContains (gwDenyUsers a) userID then False
       else if userID \<noteq> [] \<and> audienceContains (gwAllowUsers a) userID then True
       else if audienceContains (gwRoles a) ''everyone'' then True
       else if role \<noteq> [] \<and> audienceContains (gwRoles a) role then True
       else False)"

definition onlyRole :: "string \<Rightarrow> gw_audience" where
  "onlyRole r = \<lparr>gwRoles = [r], gwAllowUsers = [], gwDenyUsers = []\<rparr>"

definition featureAllowed :: "ruleset_cache \<Rightarrow> string \<Rightarrow> string \<Rightarrow> string \<Rightarrow> bool" where
  "featureAllowed c key userID role =
    (case if cacheLoaded c then snapFlags (cacheSnap c) key else None of
       Some a \<Rightarrow> canAccess a userID role
     | None \<Rightarrow>
        let failSafe = (if cacheLoaded c
          then (case snapFailSafe (cacheSnap c) key of None \<Rightarrow> [] | Some s \<Rightarrow> s) else []) in
        if failSafe = ''everyone'' then canAccess (onlyRole ''everyone'') userID role
        else canAccess (onlyRole ''admin'') userID role)"

text \<open>What a middleware does with a request: hand it on, or answer 401 or 403.\<close>

datatype 'a passage = Pass 'a | Deny401 | Deny403

definition FeatureGate :: "string \<Rightarrow> ruleset_cache \<Rightarrow> claims option \<Rightarrow> claims option passage" where
  "FeatureGate key c cl =
    (if featureAllowed c key (UserIDFromContext cl) (RoleFromContext cl) then Pass cl else Deny403)"

section \<open>Role middlewares\<close>

definition AdminRoleMiddleware :: "claims option \<Rightarrow> claims option passage" where
  "AdminRoleMiddleware cl = (if \<not> IsAdmin cl then Deny403 else Pass cl)"

definition LibraryRoleMiddleware :: "claims option \<Rightarrow> claims option passage" where
  "LibraryRoleMiddleware cl =
    (if RoleFromContext cl \<noteq> RoleAdmin \<and> RoleFromContext cl \<noteq> RoleLibrarian then Deny403 else Pass cl)"

definition BlockGuestRoleMiddleware :: "claims option \<Rightarrow> claims option passage" where
  "BlockGuestRoleMiddleware cl = (if RoleFromContext cl = RoleGuest then Deny403 else Pass cl)"

section \<open>Bearer token\<close>

text \<open>The \<^verbatim>\<open>Authorization\<close> header (empty when absent) and the \<^verbatim>\<open>access_token\<close> cookie of a request.\<close>

record auth_request =
  rqAuthorization :: string
  rqAccessCookie :: "string option"

definition ascii_lower :: "char \<Rightarrow> char" where
  "ascii_lower c = (if 65 \<le> (of_char c :: nat) \<and> (of_char c :: nat) \<le> 90 then char_of ((of_char c :: nat) + 32) else c)"

definition BearerToken :: "auth_request \<Rightarrow> string" where
  "BearerToken r =
    (let auth = rqAuthorization r; scheme = takeWhile (\<lambda>c. c \<noteq> CHR '' '') auth;
         rest = dropWhile (\<lambda>c. c \<noteq> CHR '' '') auth
     in if auth \<noteq> [] \<and> rest \<noteq> [] \<and> map ascii_lower scheme = ''bearer'' then tl rest
        else case rqAccessCookie r of Some v \<Rightarrow> v | None \<Rightarrow> [])"

section \<open>Cache of API keys\<close>

definition apiKeyCacheTTL :: duration where "apiKeyCacheTTL = 60 * Second"

type_synonym apikey_cache = "string \<rightharpoonup> claims \<times> instant"

definition cachedClaims :: "(string \<Rightarrow> string) \<Rightarrow> instant \<Rightarrow> string \<Rightarrow> apikey_cache \<Rightarrow> claims option" where
  "cachedClaims hash now key c = (case c (hash key) of None \<Rightarrow> None
     | Some (cl, expiresAt) \<Rightarrow> if \<not> TimeBefore now expiresAt then None else Some cl)"

definition storeClaims :: "(string \<Rightarrow> string) \<Rightarrow> instant \<Rightarrow> string \<Rightarrow> claims \<Rightarrow> apikey_cache \<Rightarrow> apikey_cache" where
  "storeClaims hash now key cl c = c(hash key \<mapsto> (cl, now + apiKeyCacheTTL))"

text \<open>
  \<open>answer\<close> is what the auth service says about the key when it is asked, \<open>now\<close> the reading of the
  clock before and \<open>now'\<close> the one after it answered.
\<close>

definition resolveCached ::
  "(string \<Rightarrow> string) \<Rightarrow> instant \<Rightarrow> instant \<Rightarrow> claims option \<Rightarrow> string \<Rightarrow> apikey_cache \<Rightarrow> claims option \<times> apikey_cache" where
  "resolveCached hash now now' answer key c = (case cachedClaims hash now key c of
     Some cl \<Rightarrow> (Some cl, c)
   | None \<Rightarrow> (case answer of None \<Rightarrow> (None, c) | Some cl \<Rightarrow> (Some cl, storeClaims hash now' key cl c)))"

section \<open>Authentication\<close>

text \<open>
  The parameters: the checks of the JWT library, the token minted for the claims of an API key
  (\<open>None\<close> when signing fails), and the hash.
\<close>

record gw_deps =
  validToken :: "string \<Rightarrow> claims option"
  mintToken :: "claims \<Rightarrow> string \<Rightarrow> string option"
  keyHash :: "string \<Rightarrow> string"

text \<open>The request a middleware hands on: its header, its cookie and the claims in its context.\<close>

record authed_request =
  arRequest :: auth_request
  arClaims :: "claims option"

definition isAPIKey :: "string \<Rightarrow> bool" where
  "isAPIKey token \<longleftrightarrow> take 3 token = ''ak_''"

definition JWTValidation ::
  "gw_deps \<Rightarrow> instant \<Rightarrow> instant \<Rightarrow> claims option \<Rightarrow> auth_request \<Rightarrow> apikey_cache \<Rightarrow> authed_request passage \<times> apikey_cache" where
  "JWTValidation d now now' answer r c =
    (let token = BearerToken r in
     if token = [] then (Deny401, c)
     else if isAPIKey token then
       (case resolveCached (keyHash d) now now' answer token c of
          (None, c') \<Rightarrow> (Deny401, c')
        | (Some cl, c') \<Rightarrow> (case mintToken d cl token of
            None \<Rightarrow> (Deny401, c')
          | Some jwt \<Rightarrow> (Pass \<lparr>arRequest = r\<lparr>rqAuthorization := ''Bearer '' @ jwt\<rparr>, arClaims = Some cl\<rparr>, c')))
     else (case validToken d token of
          None \<Rightarrow> (Deny401, c)
        | Some cl \<Rightarrow> (Pass \<lparr>arRequest = r, arClaims = Some cl\<rparr>, c)))"

definition OptionalJWTValidation ::
  "gw_deps \<Rightarrow> instant \<Rightarrow> instant \<Rightarrow> claims option \<Rightarrow> auth_request \<Rightarrow> apikey_cache \<Rightarrow> authed_request \<times> apikey_cache" where
  "OptionalJWTValidation d now now' answer r c =
    (let token = BearerToken r; anonymous = \<lparr>arRequest = r\<lparr>rqAuthorization := []\<rparr>, arClaims = None\<rparr> in
     if token = [] then (\<lparr>arRequest = r, arClaims = None\<rparr>, c)
     else if isAPIKey token then
       (case resolveCached (keyHash d) now now' answer token c of
          (None, c') \<Rightarrow> (anonymous, c')
        | (Some cl, c') \<Rightarrow> (case mintToken d cl token of
            None \<Rightarrow> (anonymous, c')
          | Some jwt \<Rightarrow> (\<lparr>arRequest = r\<lparr>rqAuthorization := ''Bearer '' @ jwt\<rparr>, arClaims = Some cl\<rparr>, c')))
     else (case validToken d token of
          None \<Rightarrow> (anonymous, c)
        | Some cl \<Rightarrow> (\<lparr>arRequest = r, arClaims = Some cl\<rparr>, c)))"

end
