(* ===== verification/Policy_Maintenance.thy ===== *)
theory Policy_Maintenance
  imports Policy_Flags
begin

text \<open>
  The maintenance routines of the policy service (\<^verbatim>\<open>domain/maintenance.go\<close>, \<^verbatim>\<open>repo/maintenance.go\<close>,
  \<^verbatim>\<open>service/maintenance.go\<close> and the handlers), and the client by which a routine reads its gate
  (\<^verbatim>\<open>libs/maintenancegate\<close>). The settings of a routine are raw JSON; the model keeps the value the bytes
  parse to, and \<open>None\<close> for no bytes. A summary is a list of characters (Unicode code points), as the
  truncation counts them.
\<close>

section \<open>Domain\<close>

datatype knobs =
    KNull | KBool bool | KNumber int | KString string | KArray "knobs list" | KObject "(string \<times> knobs) list"

type_synonym settings = "knobs option"

text \<open>No bytes are written as the empty object.\<close>

definition settingsRaw :: "settings \<Rightarrow> knobs" where
  "settingsRaw s = (case s of None \<Rightarrow> KObject [] | Some v \<Rightarrow> v)"

record routine =
  mrID :: string
  mrEnabled :: bool
  mrSettings :: settings
  mrLastRunAt :: "instant option"
  mrLastOK :: "bool option"
  mrLastSummary :: "nat list"
  mrNextRunAt :: "instant option"
  mrUpdatedAt :: instant

definition seedRoutine :: "string \<Rightarrow> (string \<times> knobs) list \<Rightarrow> routine" where
  "seedRoutine i settings = \<lparr>mrID = i, mrEnabled = True, mrSettings = Some (KObject settings),
     mrLastRunAt = None, mrLastOK = None, mrLastSummary = [], mrNextRunAt = None, mrUpdatedAt = 0\<rparr>"

definition SeedRoutines :: "routine list" where
  "SeedRoutines = [
     seedRoutine ''maintenance_bot'' [(''auto_apply_max_risk'', KString ''medium''), (''suppressed_alerts'', KArray [])],
     seedRoutine ''provider_recovery'' [(''model'', KString ''sonnet'')],
     seedRoutine ''git_autosync'' [],
     seedRoutine ''disk_prune'' [(''high_water_pct'', KNumber 80)],
     seedRoutine ''build_cache_prune'' [],
     seedRoutine ''subtitle_probe'' [],
     seedRoutine ''shikimori_sync'' [],
     seedRoutine ''playability_canary'' [],
     seedRoutine ''provider_self_heal'' [(''promote_after'', KString ''24h''), (''probe_every'', KString ''6h'')]]"

section \<open>Repository\<close>

type_synonym routine_table = "routine list"

abbreviation routineOf :: "routine_table \<Rightarrow> string \<Rightarrow> routine option" where
  "routineOf \<equiv> rowOf mrID"

definition routines_GetAll :: "(routine_table, routine list) prog" where
  "routines_GetAll = query (\<lambda>t. t)"

definition routines_GetByID :: "string \<Rightarrow> (routine_table, routine) prog" where
  "routines_GetByID i = command (\<lambda>t. (case routineOf t i of None \<Rightarrow> Inl RecordNotFound | Some r \<Rightarrow> Inr r, t))"

definition routines_SeedIfAbsent :: "instant \<Rightarrow> routine \<Rightarrow> (routine_table, unit) prog" where
  "routines_SeedIfAbsent now r = command (\<lambda>t. (Inr (), insertAbsent mrID (r\<lparr>mrUpdatedAt := now\<rparr>) t))"

definition withIntent :: "instant \<Rightarrow> bool \<Rightarrow> settings \<Rightarrow> routine \<Rightarrow> routine" where
  "withIntent now enabled s r = r\<lparr>mrEnabled := enabled, mrSettings := Some (settingsRaw s), mrUpdatedAt := now\<rparr>"

definition withStatus :: "instant \<Rightarrow> bool \<Rightarrow> nat list \<Rightarrow> instant option \<Rightarrow> routine \<Rightarrow> routine" where
  "withStatus now success summary nxt r = r\<lparr>mrLastRunAt := Some now, mrLastOK := Some success,
     mrLastSummary := summary, mrNextRunAt := nxt, mrUpdatedAt := now\<rparr>"

definition SetIntent :: "instant \<Rightarrow> string \<Rightarrow> bool \<Rightarrow> settings \<Rightarrow> (routine_table, unit) prog" where
  "SetIntent now i enabled s = command (\<lambda>t. (Inr (), updateRows mrID i (withIntent now enabled s) t))"

definition repo_SetStatus ::
  "instant \<Rightarrow> string \<Rightarrow> bool \<Rightarrow> nat list \<Rightarrow> instant option \<Rightarrow> (routine_table, unit) prog" where
  "repo_SetStatus now i success summary nxt =
     command (\<lambda>t. (Inr (), updateRows mrID i (withStatus now success summary nxt) t))"

section \<open>Service\<close>

definition Maintenance_SeedDefaults :: "instant \<Rightarrow> (routine_table, unit) prog" where
  "Maintenance_SeedDefaults now = loop (\<lambda>_ r. routines_SeedIfAbsent now r) () SeedRoutines"

definition Maintenance_List :: "(routine_table, routine list) prog" where
  "Maintenance_List = bnd routines_GetAll (\<lambda>rows. ret (sort_key mrID rows))"

definition routineNotFound :: err where
  "routineNotFound = errNotFound ''routine not found''"

definition notFoundAs :: "err \<Rightarrow> err" where
  "notFoundAs e = (if e = RecordNotFound then routineNotFound else e)"

definition Maintenance_Gate :: "string \<Rightarrow> (routine_table, routine) prog" where
  "Maintenance_Gate i = attempt (routines_GetByID i) (\<lambda>r. case r of
     Inl e \<Rightarrow> fail (notFoundAs e) | Inr row \<Rightarrow> ret row)"

definition mustExist :: "string \<Rightarrow> (routine_table, unit) prog" where
  "mustExist i = attempt (routines_GetByID i) (\<lambda>r. case r of
     Inl e \<Rightarrow> fail (notFoundAs e) | Inr _ \<Rightarrow> ret ())"

definition isJSONObject :: "knobs \<Rightarrow> bool" where
  "isJSONObject v = (case v of KObject _ \<Rightarrow> True | _ \<Rightarrow> False)"

definition SetRoutine :: "instant \<Rightarrow> string \<Rightarrow> bool \<Rightarrow> settings \<Rightarrow> (routine_table, unit) prog" where
  "SetRoutine now i enabled s =
     bnd (mustExist i) (\<lambda>_.
     if \<not> isJSONObject (settingsRaw s) then fail (errInvalidInput ''settings must be a JSON object'')
     else SetIntent now i enabled s)"

definition Maintenance_SetStatus ::
  "instant \<Rightarrow> string \<Rightarrow> bool \<Rightarrow> nat list \<Rightarrow> instant option \<Rightarrow> (routine_table, unit) prog" where
  "Maintenance_SetStatus now i success summary nxt =
     bnd (mustExist i) (\<lambda>_.
     repo_SetStatus now i success (if length summary > 512 then take 512 summary else summary) nxt)"

section \<open>Handlers\<close>

record gate_response =
  gateEnabled :: bool
  gateSettings :: settings

definition InternalMaintenance_Gate :: "string \<Rightarrow> (routine_table, gate_response policy_reply) prog" where
  "InternalMaintenance_Gate i = replied (bnd (Maintenance_Gate i) (\<lambda>row.
     ret \<lparr>gateEnabled = mrEnabled row, gateSettings = mrSettings row\<rparr>))"

record status_request =
  srOK :: bool
  srSummary :: "nat list"
  srNextRunAt :: "instant option"

definition InternalMaintenance_SetStatus ::
  "instant \<Rightarrow> string \<Rightarrow> status_request option \<Rightarrow> (routine_table, string policy_reply) prog" where
  "InternalMaintenance_SetStatus now i body = (case body of None \<Rightarrow> ret RBadJSON
     | Some req \<Rightarrow> replied (bnd (Maintenance_SetStatus now i (srOK req) (srSummary req) (srNextRunAt req)) (\<lambda>_. ret i)))"

definition AdminMaintenance_List :: "(routine_table, routine list policy_reply) prog" where
  "AdminMaintenance_List = replied Maintenance_List"

definition AdminMaintenance_SetRoutine ::
  "instant \<Rightarrow> string \<Rightarrow> (bool \<times> settings) option \<Rightarrow> (routine_table, string policy_reply) prog" where
  "AdminMaintenance_SetRoutine now i body = (case body of None \<Rightarrow> ret RBadJSON
     | Some (enabled, s) \<Rightarrow> replied (bnd (SetRoutine now i enabled s) (\<lambda>_. ret i)))"

section \<open>The client of the gate\<close>

text \<open>What the HTTP exchange of the client ends in; a body is the decoded envelope, when it decodes.\<close>

datatype gate_answer = GateUnreachable | GateStatus int | GateBody "(bool \<times> settings) option"

text \<open>\<^verbatim>\<open>json.Decode\<close> into a map of settings accepts an object, null, or no field.\<close>

definition decodableSettings :: "settings \<Rightarrow> bool" where
  "decodableSettings s = (case s of None \<Rightarrow> True | Some KNull \<Rightarrow> True | Some (KObject _) \<Rightarrow> True | _ \<Rightarrow> False)"

definition gateFetch :: "gate_answer \<Rightarrow> (bool \<times> settings) option" where
  "gateFetch a = (case a of GateBody (Some (e, s)) \<Rightarrow> if decodableSettings s then Some (e, s) else None | _ \<Rightarrow> None)"

definition GateEnabled :: "gate_answer \<Rightarrow> bool" where
  "GateEnabled a = (case gateFetch a of None \<Rightarrow> True | Some (e, _) \<Rightarrow> e)"

definition knobOf :: "settings \<Rightarrow> string \<Rightarrow> knobs option" where
  "knobOf s k = (case s of Some (KObject kvs) \<Rightarrow> map_of (rev kvs) k | _ \<Rightarrow> None)"

definition MaxRisk :: "gate_answer \<Rightarrow> string" where
  "MaxRisk a = (case gateFetch a of None \<Rightarrow> []
     | Some (_, s) \<Rightarrow> (case knobOf s ''auto_apply_max_risk'' of Some (KString v) \<Rightarrow> v | _ \<Rightarrow> []))"

text \<open>The answer the policy service gives to the client: 200 with the gate, or the status of an error.\<close>

definition gateAnswer :: "gate_response policy_reply \<Rightarrow> gate_answer" where
  "gateAnswer r = (case r of ROK g \<Rightarrow> GateBody (Some (gateEnabled g, Some (settingsRaw (gateSettings g))))
     | RError e \<Rightarrow> GateStatus (errStatus e) | RBadJSON \<Rightarrow> GateStatus 400)"

section \<open>Facts\<close>

interpretation routines: seeded_table "rowOf mrID" "insertAbsent mrID" mrID
  by unfold_locales (rule rowOf_insertAbsent)

lemma with_key [simp]: "mrID (withIntent now e s r) = mrID r" "mrID (withStatus now k x n r) = mrID r"
  by (simp_all add: withIntent_def withStatus_def)

abbreviation intentOf :: "routine_table \<Rightarrow> string \<Rightarrow> (bool \<times> settings) option" where
  "intentOf t i \<equiv> map_option (\<lambda>r. (mrEnabled r, mrSettings r)) (routineOf t i)"

abbreviation statusOf :: "routine_table \<Rightarrow> string \<Rightarrow> (instant option \<times> bool option \<times> nat list \<times> instant option) option" where
  "statusOf t i \<equiv> map_option (\<lambda>r. (mrLastRunAt r, mrLastOK r, mrLastSummary r, mrNextRunAt r)) (routineOf t i)"

lemma wp_GetByID:
  assumes "\<And>r. routineOf t i = Some r \<Longrightarrow> Q r t" "routineOf t i = None \<Longrightarrow> E RecordNotFound t" "E StoreFault t"
  shows "wp (routines_GetByID i) Q E t"
  unfolding routines_GetByID_def
  by (rule wp_command) (use assms in \<open>auto split: option.splits\<close>)

lemma wp_mustExist:
  assumes "routineOf t i \<noteq> None \<Longrightarrow> Q () t" "routineOf t i = None \<Longrightarrow> E routineNotFound t" "E StoreFault t"
  shows "wp (mustExist i) Q E t"
  unfolding mustExist_def
  by (rule wp_attempt, rule wp_GetByID) (use assms in \<open>auto simp: notFoundAs_def intro: wp_ret wp_fail\<close>)

lemma wp_SetRoutine:
  assumes "routineOf t i \<noteq> None \<Longrightarrow> isJSONObject (settingsRaw s) \<Longrightarrow> Q () (updateRows mrID i (withIntent now enabled s) t)"
    and "\<And>e. E e t"
  shows "wp (SetRoutine now i enabled s) Q E t"
  unfolding SetRoutine_def SetIntent_def
  by (rule wp_bnd, rule wp_mustExist) (use assms in \<open>auto intro!: wp_rules\<close>)

lemma wp_SetStatus:
  assumes "routineOf t i \<noteq> None \<Longrightarrow> Q () (updateRows mrID i (withStatus now k (take 512 x) n) t)"
    and "\<And>e. E e t"
  shows "wp (Maintenance_SetStatus now i k x n) Q E t"
proof -
  have "(if length x > 512 then take 512 x else x) = take 512 x" by simp
  then show ?thesis
    unfolding Maintenance_SetStatus_def repo_SetStatus_def
    by (intro wp_bnd wp_mustExist) (use assms in \<open>auto intro!: wp_command\<close>)
qed

lemma intent_withIntent: "(mrEnabled (withIntent now e s r), mrSettings (withIntent now e s r)) = (e, Some (settingsRaw s))"
  by (simp add: withIntent_def)

lemma with_frames:
  "mrEnabled (withStatus now k x n r) = mrEnabled r" "mrSettings (withStatus now k x n r) = mrSettings r"
  "mrLastRunAt (withIntent now e s r) = mrLastRunAt r" "mrLastOK (withIntent now e s r) = mrLastOK r"
  "mrLastSummary (withIntent now e s r) = mrLastSummary r" "mrNextRunAt (withIntent now e s r) = mrNextRunAt r"
  by (simp_all add: withIntent_def withStatus_def)

lemma intentOf_status: "intentOf (updateRows mrID i (withStatus now k x n) t) j = intentOf t j"
  by (simp add: rowOf_updateRows option.map_comp comp_def with_frames)

lemma statusOf_intent: "statusOf (updateRows mrID i (withIntent now e s) t) j = statusOf t j"
  by (simp add: rowOf_updateRows option.map_comp comp_def with_frames)

lemma intentOf_intent: "intentOf (updateRows mrID i (withIntent now e s) t) j =
   (if j = i \<and> routineOf t i \<noteq> None then Some (e, Some (settingsRaw s)) else intentOf t j)"
  by (auto simp: rowOf_updateRows option.map_comp comp_def withIntent_def)

lemma intentOf_seed: "intentOf (insertAbsent mrID r t) j =
   (case intentOf t j of None \<Rightarrow> (if j = mrID r then Some (mrEnabled r, mrSettings r) else None) | Some p \<Rightarrow> Some p)"
  by (auto simp: rowOf_insertAbsent split: option.split)

lemma decodable_settingsRaw: "isJSONObject (settingsRaw s) \<Longrightarrow> decodableSettings (Some (settingsRaw s))"
  by (auto simp: isJSONObject_def decodableSettings_def split: knobs.splits)

end
