(* ===== verification/Access_Control.thy ===== *)
theory Access_Control
  imports Gateway_Gate Policy_Maintenance
begin

text \<open>
  The policy service and the gateway together: administrators change flags, the gateway polls the
  ruleset, both may fail at any command and restart. The history of the flag table is kept to say
  which of its versions the gateway decides by.
\<close>

section \<open>The wire\<close>

definition wireAudience :: "flag_audience \<Rightarrow> gw_audience" where
  "wireAudience a = \<lparr>gwRoles = audRoles a, gwAllowUsers = audAllowUsers a, gwDenyUsers = audDenyUsers a\<rparr>"

definition wireRuleset :: "ruleset \<Rightarrow> ruleset_snapshot" where
  "wireRuleset rs = \<lparr>snapRouletteEnabled = rsRouletteEnabled rs, snapFlags = map_option wireAudience \<circ> rsFlags rs,
     snapFailSafe = rsFailSafe rs, snapRoulette = rsRoulette rs\<rparr>"

definition rulesetAnswer :: "ruleset policy_reply \<Rightarrow> ruleset_answer" where
  "rulesetAnswer r = (case r of ROK rs \<Rightarrow> RulesetBody (Some (wireRuleset rs))
     | RError e \<Rightarrow> RulesetStatus (errStatus e) | RBadJSON \<Rightarrow> RulesetStatus 400)"

text \<open>The two resolvers agree: the gateway's copy on an audience and the policy service's on a flag.\<close>

lemma canAccess_wire: "canAccess (wireAudience (flagAudience f)) = CanAccess f"
  by (rule ext)+ (simp add: canAccess_def CanAccess_def wireAudience_def flagAudience_def flag_role_defs)

lemma canAccess_admin: "canAccess (onlyRole ''admin'') u role \<longleftrightarrow> role = RoleAdmin"
  by (auto simp: canAccess_def onlyRole_def role_defs)

section \<open>Decisions\<close>

definition passes :: "string \<Rightarrow> ruleset_cache \<Rightarrow> claims option \<Rightarrow> bool" where
  "passes key c cl \<longleftrightarrow> FeatureGate key c cl = Pass cl"

text \<open>What the policy service decides on a table: its feed for the same user, admins elsewhere.\<close>

definition decidedBy :: "flag_table \<Rightarrow> string \<Rightarrow> claims option \<Rightarrow> bool" where
  "decidedBy t key cl \<longleftrightarrow>
    (if hasRow ffKey key t \<and> key \<noteq> RouletteMasterKey
     then key \<in> set (mineVisible (mineOf (UserIDFromContext cl) (RoleFromContext cl) t))
     else RoleFromContext cl = RoleAdmin)"

lemma passes_iff: "passes key c cl \<longleftrightarrow> featureAllowed c key (UserIDFromContext cl) (RoleFromContext cl)"
  by (simp add: passes_def FeatureGate_def)

lemma passes_unloaded: "\<not> cacheLoaded c \<Longrightarrow> passes key c cl \<longleftrightarrow> RoleFromContext cl = RoleAdmin"
  by (simp add: passes_iff featureAllowed_def Let_def canAccess_admin)

lemma passes_loaded:
  assumes "flags_ok t" "cacheLoaded c" "cacheSnap c = wireRuleset (rulesetOf t)"
  shows "passes key c cl \<longleftrightarrow> decidedBy t key cl"
proof -
  have snap: "snapFlags (cacheSnap c) k = (if k = RouletteMasterKey then None
      else map_option (\<lambda>f. wireAudience (flagAudience f)) (flagOf t k))"
    "snapFailSafe (cacheSnap c) k = (if k = RouletteMasterKey then None else map_option ffFailSafe (flagOf t k))" for k
    by (simp_all add: assms(3) wireRuleset_def rulesetOf_simps [OF assms(1)] option.map_comp comp_def)
  show ?thesis
    by (cases "flagOf t key")
      (auto simp: passes_iff featureAllowed_def assms(2) snap canAccess_wire canAccess_admin decidedBy_def
        mineOf_visible_iff [OF assms(1)] hasRow_iff Let_def)
qed

section \<open>Runs\<close>

text \<open>The requests that write flags, and a boot of the policy service.\<close>

datatype flag_write =
    WriteFlag instant string "set_flag_request option" | WriteRoulette instant "bool option" | WriteSeeds instant

definition runWrite :: "flag_write \<Rightarrow> bool list \<Rightarrow> flag_table \<Rightarrow> flag_table" where
  "runWrite x script t = (let s = \<lparr>data = t, faults = script\<rparr> in
     case x of WriteFlag now key body \<Rightarrow> data (snd (AdminFlags_SetFlag now key body s))
     | WriteRoulette now body \<Rightarrow> data (snd (AdminFlags_SetRoulette now body s))
     | WriteSeeds now \<Rightarrow> data (snd (Policy_SeedDefaults now s)))"

record rbac =
  rbTable :: flag_table
  rbCache :: ruleset_cache
  rbHistory :: "flag_table list"

inductive reachable_rbac :: "rbac \<Rightarrow> bool" where
  boot: "reachable_rbac \<lparr>rbTable = [], rbCache = newRulesetCache, rbHistory = [[]]\<rparr>"
| change: "reachable_rbac r \<Longrightarrow> t = runWrite x script (rbTable r) \<Longrightarrow>
    reachable_rbac (r\<lparr>rbTable := t, rbHistory := t # rbHistory r\<rparr>)"
| poll: "reachable_rbac r \<Longrightarrow> fst (GetRuleset \<lparr>data = rbTable r, faults = script\<rparr>) = Inr reply \<Longrightarrow>
    reachable_rbac (r\<lparr>rbCache := refreshRuleset (httpRulesetFetch (rulesetAnswer reply)) (rbCache r)\<rparr>)"
| lost: "reachable_rbac r \<Longrightarrow> httpRulesetFetch a = None \<Longrightarrow>
    reachable_rbac (r\<lparr>rbCache := refreshRuleset (httpRulesetFetch a) (rbCache r)\<rparr>)"
| restart: "reachable_rbac r \<Longrightarrow> reachable_rbac (r\<lparr>rbCache := newRulesetCache\<rparr>)"

definition rbac_ok :: "rbac \<Rightarrow> bool" where
  "rbac_ok r \<longleftrightarrow> flags_ok (rbTable r) \<and> rbTable r \<in> set (rbHistory r) \<and> (\<forall>t\<in>set (rbHistory r). flags_ok t) \<and>
     (cacheLoaded (rbCache r) \<longrightarrow> (\<exists>t\<in>set (rbHistory r). cacheSnap (rbCache r) = wireRuleset (rulesetOf t)))"

lemma wp_data:
  assumes "wp m (\<lambda>_. P) (\<lambda>_. P) t" shows "P (data (snd (m \<lparr>data = t, faults = script\<rparr>)))"
  using wpD [of m "\<lambda>_. P" "\<lambda>_. P" "\<lparr>data = t, faults = script\<rparr>"] assms
  by (simp add: ends_def split: sum.splits)

lemma wp_replied: "wp m (\<lambda>_. P) (\<lambda>_. P) t \<Longrightarrow> wp (replied m) (\<lambda>_. P) E t"
  unfolding replied_def by (rule wp_attempt, erule wp_mono) (auto intro: wp_ret)

lemma wp_SetFlag:
  assumes "E StoreFault t" "\<And>m. E (errInvalidInput m) t"
    and "key \<noteq> [] \<Longrightarrow> key \<noteq> RouletteMasterKey \<Longrightarrow> failSafe \<in> {''admin'', ''everyone''} \<Longrightarrow>
      Q () (upsertRow ffKey \<lparr>ffKey = key, ffRoles = audRoles a, ffAllowUsers = audAllowUsers a,
        ffDenyUsers = audDenyUsers a, ffRoulette = b, ffFailSafe = failSafe, ffLabel = label, ffUpdatedAt = now\<rparr> t)"
  shows "wp (SetFlag now key a b failSafe label) Q E t"
  unfolding SetFlag_def
  by (intro wp_if wp_fail wp_flags_Upsert) (use assms in auto)

lemma unique_fold_insert: "unique_keys key t \<Longrightarrow> unique_keys key (fold (insertAbsent key) rs t)"
  by (induction rs arbitrary: t) (simp_all add: unique_insertAbsent)

lemma runWrite_ok: "flags_ok t \<Longrightarrow> flags_ok (runWrite x script t)"
proof (cases x)
  case (WriteFlag now key body)
  assume "flags_ok t"
  then have "wp (AdminFlags_SetFlag now key body) (\<lambda>_. flags_ok) (\<lambda>_. flags_ok) t"
    unfolding AdminFlags_SetFlag_def
    by (intro wp_option wp_ret wp_replied wp_bnd wp_SetFlag) (simp_all add: unique_upsertRow wp_ret)
  then show ?thesis by (simp add: runWrite_def WriteFlag wp_data)
next
  case (WriteRoulette now body)
  assume "flags_ok t"
  then have "wp (AdminFlags_SetRoulette now body) (\<lambda>_. flags_ok) (\<lambda>_. flags_ok) t"
    unfolding AdminFlags_SetRoulette_def SetRoulette_def
    by (intro wp_option wp_ret wp_replied wp_bnd wp_flags_Upsert) (simp_all add: unique_upsertRow wp_ret)
  then show ?thesis by (simp add: runWrite_def WriteRoulette wp_data)
next
  case (WriteSeeds now)
  assume "flags_ok t"
  then have "wp (Policy_SeedDefaults now) (\<lambda>_. flags_ok) (\<lambda>_. flags_ok) t"
    by (intro wp_Policy_SeedDefaults) (simp_all add: unique_fold_insert)
  then show ?thesis by (simp add: runWrite_def WriteSeeds wp_data)
qed

lemma GetRuleset_reply:
  assumes "fst (GetRuleset \<lparr>data = t, faults = script\<rparr>) = Inr reply"
  shows "reply = ROK (rulesetOf t) \<or> reply = RError StoreFault"
proof -
  have "wp GetRuleset (\<lambda>r _. r = ROK (rulesetOf t) \<or> r = RError StoreFault) (\<lambda>_ _. True) t"
    unfolding GetRuleset_def replied_def Policy_Ruleset_def flags_GetAll_def
    by (intro wp_attempt wp_bnd wp_query wp_ret) auto
  then have "ends (\<lambda>r _. r = ROK (rulesetOf t) \<or> r = RError StoreFault) (\<lambda>_ _. True)
      (GetRuleset \<lparr>data = t, faults = script\<rparr>)"
    by (simp add: wp_iff)
  with assms show ?thesis by (simp add: ends_def)
qed

theorem reachable_rbac_ok: "reachable_rbac r \<Longrightarrow> rbac_ok r"
proof (induction rule: reachable_rbac.induct)
  case boot
  show ?case by (simp add: rbac_ok_def unique_keys_def newRulesetCache_def)
next
  case (change r t x script)
  then show ?case using runWrite_ok [of "rbTable r" x script] by (auto simp: rbac_ok_def)
next
  case (poll r script reply)
  from GetRuleset_reply [OF poll.hyps(2)] poll.IH show ?case
    by (auto simp: rbac_ok_def refreshRuleset_def httpRulesetFetch_def rulesetAnswer_def)
next
  case (lost r a)
  then show ?case by (simp add: rbac_ok_def refreshRuleset_def)
next
  case (restart r)
  then show ?case by (simp add: rbac_ok_def newRulesetCache_def)
qed

lemma seed_clean: "flags_SeedIfAbsent now f \<lparr>data = t, faults = []\<rparr> =
    (Inr (), \<lparr>data = insertAbsent ffKey (f\<lparr>ffUpdatedAt := now\<rparr>) t, faults = []\<rparr>)"
  by (simp add: flags_SeedIfAbsent_def command_def)

lemma seedLoop_clean:
  "loop (\<lambda>_ f. flags_SeedIfAbsent now f) () fs \<lparr>data = t, faults = []\<rparr> =
    (Inr (), \<lparr>data = fold (insertAbsent ffKey) (map (\<lambda>f. f\<lparr>ffUpdatedAt := now\<rparr>) fs) t, faults = []\<rparr>)"
  by (induction fs arbitrary: t) (simp_all add: ret_def bnd_def seed_clean)

lemma boot_clean: "runWrite (WriteSeeds now) [] t = fold (insertAbsent ffKey) (bootFlags now) t"
  by (simp add: runWrite_def Policy_SeedDefaults_def bnd_def seedLoop_clean seed_clean bootFlags_def)

end
