(* ===== verification/Gateway_Keys.thy ===== *)
theory Gateway_Keys
  imports Gateway_Gate
begin

text \<open>
  Runs of requests through the two authentication middlewares over one cache of API keys. The log
  records every answer of the auth service that accepted a key, with the clock when it arrived.
\<close>

record key_state =
  ksCache :: apikey_cache
  ksLog :: "(string \<times> claims \<times> instant) list"

text \<open>A request: whether its route is optional, the clock before and after, the answer, the request.\<close>

type_synonym auth_event = "bool \<times> instant \<times> instant \<times> claims option \<times> auth_request"

definition authStep :: "gw_deps \<Rightarrow> auth_event \<Rightarrow> key_state \<Rightarrow> key_state" where
  "authStep d x s = (case x of (optional, now, now', answer, r) \<Rightarrow>
     let token = BearerToken r; c = ksCache s;
         asked = (token \<noteq> [] \<and> isAPIKey token \<and> cachedClaims (keyHash d) now token c = None) in
     \<lparr>ksCache = (if optional then snd (OptionalJWTValidation d now now' answer r c)
        else snd (JWTValidation d now now' answer r c)),
      ksLog = (case answer of Some cl \<Rightarrow> if asked then (token, cl, now') # ksLog s else ksLog s
        | None \<Rightarrow> ksLog s)\<rparr>)"

definition runAuth :: "gw_deps \<Rightarrow> auth_event list \<Rightarrow> key_state" where
  "runAuth d xs = fold (authStep d) xs \<lparr>ksCache = Map.empty, ksLog = []\<rparr>"

lemma middleware_cache:
  "snd (JWTValidation d now now' answer r c) = (if BearerToken r \<noteq> [] \<and> isAPIKey (BearerToken r)
     then snd (resolveCached (keyHash d) now now' answer (BearerToken r) c) else c)"
  "snd (OptionalJWTValidation d now now' answer r c) = (if BearerToken r \<noteq> [] \<and> isAPIKey (BearerToken r)
     then snd (resolveCached (keyHash d) now now' answer (BearerToken r) c) else c)"
  by (auto simp: JWTValidation_def OptionalJWTValidation_def Let_def split: prod.split option.split)

text \<open>Every entry of the cache stems from an answer, and expires one TTL after it.\<close>

definition apikeys_ok :: "gw_deps \<Rightarrow> key_state \<Rightarrow> bool" where
  "apikeys_ok d s \<longleftrightarrow> (\<forall>h cl e. ksCache s h = Some (cl, e) \<longrightarrow>
     (\<exists>k t. (k, cl, t) \<in> set (ksLog s) \<and> keyHash d k = h \<and> e = t + apiKeyCacheTTL))"

lemma apikeys_okD:
  "apikeys_ok d s \<Longrightarrow> ksCache s h = Some (cl, e) \<Longrightarrow>
     \<exists>k t. (k, cl, t) \<in> set (ksLog s) \<and> keyHash d k = h \<and> e = t + apiKeyCacheTTL"
  unfolding apikeys_ok_def by blast

lemma authStep_ok:
  assumes "apikeys_ok d s" shows "apikeys_ok d (authStep d x s)"
proof -
  obtain optional now now' answer r where x: "x = (optional, now, now', answer, r)" by (cases x)
  let ?asked = "BearerToken r \<noteq> [] \<and> isAPIKey (BearerToken r) \<and>
    cachedClaims (keyHash d) now (BearerToken r) (ksCache s) = None"
  have c: "ksCache (authStep d x s) = (case answer of
      Some cl \<Rightarrow> if ?asked then storeClaims (keyHash d) now' (BearerToken r) cl (ksCache s) else ksCache s
    | None \<Rightarrow> ksCache s)"
    by (auto simp: x authStep_def Let_def middleware_cache resolveCached_def split: option.split)
  have l: "ksLog (authStep d x s) = (case answer of
      Some cl \<Rightarrow> if ?asked then (BearerToken r, cl, now') # ksLog s else ksLog s | None \<Rightarrow> ksLog s)"
    by (simp add: x authStep_def Let_def)
  show ?thesis
  proof (cases answer)
    case None
    with assms c l show ?thesis by (simp add: apikeys_ok_def)
  next
    case (Some cl)
    show ?thesis
    proof (cases ?asked)
      case True
      with c l Some have e: "ksCache (authStep d x s) = storeClaims (keyHash d) now' (BearerToken r) cl (ksCache s)"
        "ksLog (authStep d x s) = (BearerToken r, cl, now') # ksLog s" by simp_all
      show ?thesis unfolding apikeys_ok_def e storeClaims_def
        using apikeys_okD [OF assms] by (auto split: if_splits) blast
    next
      case False
      with assms c l Some show ?thesis by (auto simp: apikeys_ok_def)
    qed
  qed
qed

lemma runAuth_ok: "apikeys_ok d (runAuth d xs)"
proof -
  have "apikeys_ok d s \<Longrightarrow> apikeys_ok d (fold (authStep d) xs s)" for s
    by (induction xs arbitrary: s) (simp_all add: authStep_ok)
  then show ?thesis by (simp add: runAuth_def apikeys_ok_def)
qed

text \<open>What the cache hands out was said by the auth service about that very key, less than a TTL ago.\<close>

lemma resolved_recently:
  assumes "apikeys_ok d s" "inj (keyHash d)"
    and "fst (resolveCached (keyHash d) now now' answer key (ksCache s)) = Some cl"
  shows "answer = Some cl \<or> (\<exists>t. (key, cl, t) \<in> set (ksLog s) \<and> now < t + apiKeyCacheTTL)"
proof (cases "cachedClaims (keyHash d) now key (ksCache s)")
  case None
  with assms(3) show ?thesis by (auto simp: resolveCached_def split: option.splits)
next
  case (Some cl')
  with assms(3) have "cl' = cl" by (simp add: resolveCached_def)
  with Some obtain e where e: "ksCache s (keyHash d key) = Some (cl, e)" "TimeBefore now e"
    by (auto simp: cachedClaims_def split: option.splits if_splits)
  from apikeys_okD [OF assms(1) e(1)] obtain k t
    where k: "(k, cl, t) \<in> set (ksLog s)" "keyHash d k = keyHash d key" "e = t + apiKeyCacheTTL" by blast
  with assms(2) have "k = key" by (simp add: inj_eq)
  with k e(2) show ?thesis by (auto simp: TimeBefore_def)
qed

end
