(* ===== verification/Go_Strings.thy ===== *)
theory Go_Strings
  imports Prelude "HOL-Library.Sublist"
begin

text \<open>
  Functions of Go's \<^verbatim>\<open>strings\<close>, \<^verbatim>\<open>net\<close> and \<^verbatim>\<open>net/textproto\<close> packages that several services use. A
  string is its list of bytes; \<^verbatim>\<open>TrimSpace\<close> cuts the white space of Unicode in its UTF-8 encoding.
\<close>

section \<open>Splitting and prefixes\<close>

text \<open>\<^verbatim>\<open>strings.Split\<close> at a one-byte separator: never empty.\<close>

fun SplitAt :: "char \<Rightarrow> string \<Rightarrow> string list" where
  "SplitAt sep [] = [[]]"
| "SplitAt sep (c # cs) =
    (if c = sep then [] # SplitAt sep cs
     else (case SplitAt sep cs of [] \<Rightarrow> [[c]] | w # ws \<Rightarrow> (c # w) # ws))"

text \<open>\<^verbatim>\<open>strings.Cut\<close> at a one-byte separator.\<close>

definition Cut :: "string \<Rightarrow> char \<Rightarrow> (string \<times> string) option" where
  "Cut s sep = (case dropWhile (\<lambda>c. c \<noteq> sep) s of [] \<Rightarrow> None
     | _ # rest \<Rightarrow> Some (takeWhile (\<lambda>c. c \<noteq> sep) s, rest))"

definition HasPrefix :: "string \<Rightarrow> string \<Rightarrow> bool" where
  "HasPrefix s p \<longleftrightarrow> take (length p) s = p"

definition TrimPrefix :: "string \<Rightarrow> string \<Rightarrow> string" where
  "TrimPrefix s p = (if HasPrefix s p then drop (length p) s else s)"

text \<open>\<^verbatim>\<open>strings.Replace(s, old, new, 1)\<close> for a non-empty \<open>old\<close>.\<close>

fun ReplaceFirst :: "string \<Rightarrow> string \<Rightarrow> string \<Rightarrow> string" where
  "ReplaceFirst [] old new = []"
| "ReplaceFirst (c # cs) old new =
    (if HasPrefix (c # cs) old then new @ drop (length old) (c # cs) else c # ReplaceFirst cs old new)"

lemma HasPrefix_append [simp]: "HasPrefix (p @ s) p"
  by (simp add: HasPrefix_def)

lemma HasPrefixE: "HasPrefix s p \<Longrightarrow> \<exists>r. s = p @ r"
  unfolding HasPrefix_def by (metis append_take_drop_id)

lemma ReplaceFirst_prefix: "old \<noteq> [] \<Longrightarrow> ReplaceFirst (old @ s) old new = new @ s"
  by (cases old) (simp_all add: HasPrefix_def)

text \<open>\<^verbatim>\<open>strings.Join\<close>.\<close>

fun Join :: "string \<Rightarrow> string list \<Rightarrow> string" where
  "Join sep [] = []"
| "Join sep [x] = x"
| "Join sep (x # y # ys) = x @ sep @ Join sep (y # ys)"

section \<open>White space\<close>

definition bytes :: "nat list \<Rightarrow> string" where
  "bytes ns = map char_of ns"

definition whiteSpaces :: "string list" where
  "whiteSpaces = map (\<lambda>n. bytes [n]) [9, 10, 11, 12, 13, 32] @
     map bytes ([[0xC2, 0x85], [0xC2, 0xA0], [0xE1, 0x9A, 0x80]] @
       map (\<lambda>n. [0xE2, 0x80, n]) ([0x80..<0x8B] @ [0xA8, 0xA9, 0xAF]) @ [[0xE2, 0x81, 0x9F], [0xE3, 0x80, 0x80]])"

lemma whiteSpaces_nonempty: "w \<in> set whiteSpaces \<Longrightarrow> w \<noteq> []"
  by (auto simp: whiteSpaces_def bytes_def)

text \<open>The longest suffix that starts with no white space, and its mirror image.\<close>

definition trimStep :: "string list \<Rightarrow> string \<Rightarrow> string option" where
  "trimStep ws s = map_option (\<lambda>w. drop (length w) s) (List.find (HasPrefix s) ws)"

primrec trimN :: "nat \<Rightarrow> string list \<Rightarrow> string \<Rightarrow> string" where
  "trimN 0 ws s = s"
| "trimN (Suc n) ws s = (case trimStep ws s of None \<Rightarrow> s | Some s' \<Rightarrow> trimN n ws s')"

text \<open>Every cut removes a byte, so the length of the string is enough fuel.\<close>

definition trimLeft :: "string list \<Rightarrow> string \<Rightarrow> string" where
  "trimLeft ws s = trimN (length s) ws s"

lemma trimStep_length: "[] \<notin> set ws \<Longrightarrow> trimStep ws s = Some s' \<Longrightarrow> length s' < length s"
  by (auto simp: trimStep_def HasPrefix_def dest!: find_SomeD)
    (metis length_drop diff_less length_greater_0_conv append_take_drop_id append_is_Nil_conv)

lemma trimN_stops: "[] \<notin> set ws \<Longrightarrow> length s \<le> n \<Longrightarrow> trimStep ws (trimN n ws s) = None"
proof (induction n arbitrary: s)
  case 0
  then have "s = []" by simp
  with 0 show ?case by (auto simp: trimStep_def HasPrefix_def find_None_iff)
next
  case (Suc n)
  show ?case
  proof (cases "trimStep ws s")
    case (Some s')
    with trimStep_length [OF Suc.prems(1) Some] Suc.prems(2) Suc.IH [OF Suc.prems(1), of s'] show ?thesis by simp
  qed simp
qed

lemma trimLeft_stops: "[] \<notin> set ws \<Longrightarrow> trimStep ws (trimLeft ws s) = None"
  by (simp add: trimLeft_def trimN_stops)

definition TrimSpace :: "string \<Rightarrow> string" where
  "TrimSpace s = rev (trimLeft (map rev whiteSpaces) (rev (trimLeft whiteSpaces s)))"

section \<open>Header names and addresses\<close>

definition asciiCode :: "char \<Rightarrow> nat" where
  "asciiCode c = of_char c"

definition isUpper :: "char \<Rightarrow> bool" where "isUpper c \<longleftrightarrow> 65 \<le> asciiCode c \<and> asciiCode c \<le> 90"
definition isLower :: "char \<Rightarrow> bool" where "isLower c \<longleftrightarrow> 97 \<le> asciiCode c \<and> asciiCode c \<le> 122"

definition toLower :: "char \<Rightarrow> char" where "toLower c = (if isUpper c then char_of (asciiCode c + 32) else c)"
definition toUpper :: "char \<Rightarrow> char" where "toUpper c = (if isLower c then char_of (asciiCode c - 32) else c)"

definition isTokenChar :: "char \<Rightarrow> bool" where
  "isTokenChar c \<longleftrightarrow> isUpper c \<or> isLower c \<or> 48 \<le> asciiCode c \<and> asciiCode c \<le> 57 \<or>
     asciiCode c \<in> set [33, 35, 36, 37, 38, 39, 42, 43, 45, 46, 94, 95, 96, 124, 126]"

text \<open>Upper case at the start and after a hyphen, lower case elsewhere.\<close>

fun canonFrom :: "bool \<Rightarrow> string \<Rightarrow> string" where
  "canonFrom up [] = []"
| "canonFrom up (c # cs) = (if up then toUpper c else toLower c) # canonFrom (c = CHR ''-'') cs"

definition CanonicalHeaderKey :: "string \<Rightarrow> string" where
  "CanonicalHeaderKey s = (if list_all isTokenChar s then canonFrom True s else s)"

lemma code_bounds: "asciiCode c < 256"
  by (simp add: asciiCode_def)

lemma code_char_of: "n < 256 \<Longrightarrow> asciiCode (char_of n) = n"
  by (simp add: asciiCode_def of_char_of)

lemma char_eqI: "asciiCode c = asciiCode d \<Longrightarrow> c = d"
  by (simp add: asciiCode_def)

lemma letters_token: "isUpper c \<Longrightarrow> isTokenChar c" "isLower c \<Longrightarrow> isTokenChar c"
  by (simp_all add: isTokenChar_def)

lemma case_letters: "isLower c \<Longrightarrow> isUpper (toUpper c)" "isUpper c \<Longrightarrow> isLower (toLower c)"
  by (auto simp: toUpper_def toLower_def isUpper_def isLower_def code_char_of)

lemma isTokenChar_case [simp]: "isTokenChar (toUpper c) = isTokenChar c" "isTokenChar (toLower c) = isTokenChar c"
proof -
  show "isTokenChar (toUpper c) = isTokenChar c"
    using case_letters(1) letters_token by (cases "isLower c") (auto simp: toUpper_def)
  show "isTokenChar (toLower c) = isTokenChar c"
    using case_letters(2) letters_token by (cases "isUpper c") (auto simp: toLower_def)
qed

lemma case_idem [simp]: "toUpper (toUpper c) = toUpper c" "toLower (toLower c) = toLower c"
  by (auto simp: toUpper_def toLower_def isUpper_def isLower_def code_char_of)

lemma hyphen_code: "asciiCode (CHR ''-'') = 45"
  by (simp add: asciiCode_def)

lemma code_case:
  "asciiCode (toUpper c) = (if 97 \<le> asciiCode c \<and> asciiCode c \<le> 122 then asciiCode c - 32 else asciiCode c)"
  "asciiCode (toLower c) = (if 65 \<le> asciiCode c \<and> asciiCode c \<le> 90 then asciiCode c + 32 else asciiCode c)"
  by (auto simp: toUpper_def toLower_def isUpper_def isLower_def code_char_of)

lemma hyphen_iff: "c = CHR ''-'' \<longleftrightarrow> asciiCode c = 45"
  unfolding hyphen_code [symmetric] by (auto intro: char_eqI)

lemma case_hyphen [simp]: "(toUpper c = CHR ''-'') = (c = CHR ''-'')" "(toLower c = CHR ''-'') = (c = CHR ''-'')"
  unfolding hyphen_iff code_case by auto

lemma canonFrom_idem: "canonFrom up (canonFrom up s) = canonFrom up s"
  by (induction up s rule: canonFrom.induct) simp_all

lemma canonFrom_token: "list_all isTokenChar (canonFrom up s) = list_all isTokenChar s"
  by (induction up s rule: canonFrom.induct) simp_all

lemma CanonicalHeaderKey_idem [simp]: "CanonicalHeaderKey (CanonicalHeaderKey s) = CanonicalHeaderKey s"
  by (simp add: CanonicalHeaderKey_def canonFrom_token canonFrom_idem)

text \<open>\<^verbatim>\<open>net.SplitHostPort\<close>, the host or an error.\<close>

definition SplitHost :: "string \<Rightarrow> string option" where
  "SplitHost s =
    (if CHR '':'' \<notin> set s then None
     else
       let revPort = takeWhile (\<lambda>c. c \<noteq> CHR '':'') (rev s); i = length s - length revPort - 1 in
       if hd s = CHR ''['' then
         (if CHR '']'' \<notin> set s then None
          else
            let e = length (takeWhile (\<lambda>c. c \<noteq> CHR '']'') s) in
            if e + 1 \<noteq> i then None
            else if CHR ''['' \<in> set (drop 1 s) \<or> CHR '']'' \<in> set (drop (e + 1) s) then None
            else Some (take (e - 1) (drop 1 s)))
       else if CHR '':'' \<in> set (take i s) then None
       else if CHR ''['' \<in> set s \<or> CHR '']'' \<in> set s then None
       else Some (take i s))"

end
