(* ===== verification/Gateway_Forward.thy ===== *)
theory Gateway_Forward
  imports Go_Strings Authz
begin

text \<open>
  What the gateway forwards to a backend (\<^verbatim>\<open>services/gateway/internal/service/proxy.go\<close>): the header
  filter, the attestation of the client's address, the headers injected for single services, the
  cookies of the auth service, and the path in its decoded and its escaped form. A header map is a
  map from canonical names to values; the inbound one is the list of its entries in the order the
  runtime happens to range over it.
\<close>

section \<open>Headers\<close>

type_synonym headers = "string \<rightharpoonup> string list"
type_synonym inbound_headers = "(string \<times> string list) list"

definition hDel :: "string \<Rightarrow> headers \<Rightarrow> headers" where
  "hDel k h = h(CanonicalHeaderKey k := None)"

definition hSet :: "string \<Rightarrow> string \<Rightarrow> headers \<Rightarrow> headers" where
  "hSet k v h = h(CanonicalHeaderKey k \<mapsto> [v])"

definition hAdd :: "string \<Rightarrow> string \<Rightarrow> headers \<Rightarrow> headers" where
  "hAdd k v h = h(CanonicalHeaderKey k \<mapsto>
     (case h (CanonicalHeaderKey k) of None \<Rightarrow> [v] | Some vs \<Rightarrow> vs @ [v]))"

definition hGet :: "inbound_headers \<Rightarrow> string \<Rightarrow> string" where
  "hGet src k = (case map_of src (CanonicalHeaderKey k) of Some (v # _) \<Rightarrow> v | _ \<Rightarrow> [])"

definition hopByHopHeaders :: "string list" where
  "hopByHopHeaders = [''Connection'', ''Keep-Alive'', ''Proxy-Authenticate'', ''Proxy-Authorization'', ''Te'',
     ''Trailer'', ''Trailers'', ''Transfer-Encoding'', ''Upgrade'', ''Cookie'']"

definition isInConnectionList :: "inbound_headers \<Rightarrow> string \<Rightarrow> bool" where
  "isInConnectionList src canon =
    (let conn = hGet src ''Connection'' in
     if conn = [] then False
     else list_ex (\<lambda>name. CanonicalHeaderKey (TrimSpace name) = canon) (SplitAt (CHR '','') conn))"

definition dropNamed :: "string \<Rightarrow> headers \<Rightarrow> headers" where
  "dropNamed part h = (let name = CanonicalHeaderKey (TrimSpace part) in if name \<noteq> [] then hDel name h else h)"

definition copyEntry :: "inbound_headers \<Rightarrow> string \<times> string list \<Rightarrow> headers \<Rightarrow> headers" where
  "copyEntry src e h = (case e of (key, vs) \<Rightarrow>
     let canon = CanonicalHeaderKey key in
     if canon \<in> set hopByHopHeaders then h
     else if isInConnectionList src canon then h
     else fold (hAdd key) vs h)"

definition copyForwardHeaders :: "headers \<Rightarrow> inbound_headers \<Rightarrow> headers" where
  "copyForwardHeaders dst src =
     fold (copyEntry src) src (fold dropNamed (SplitAt (CHR '','') (hGet src ''Connection'')) dst)"

definition ipProvenanceHeaders :: "string list" where
  "ipProvenanceHeaders = [''True-Client-IP'', ''X-Forwarded-For'', ''X-Real-IP'', ''CF-Connecting-IP'', ''Forwarded'']"

definition AttestForwardedClientIP :: "string \<Rightarrow> headers \<Rightarrow> headers" where
  "AttestForwardedClientIP remoteAddr h =
    (let h = fold hDel ipProvenanceHeaders h;
         ip = (case SplitHost remoteAddr of None \<Rightarrow> remoteAddr | Some host \<Rightarrow> host)
     in if ip \<noteq> [] then hSet ''X-Real-IP'' ip h else h)"

definition injectGrafana :: "claims option \<Rightarrow> headers \<Rightarrow> headers" where
  "injectGrafana cl h =
    (let h = hDel ''X-Webauth-Role'' (hDel ''X-Webauth-User'' h) in
     case cl of None \<Rightarrow> h
     | Some k \<Rightarrow> if claimUsername k \<noteq> []
         then hSet ''X-Webauth-Role'' ''Admin'' (hSet ''X-Webauth-User'' (claimUsername k) h) else h)"

definition injectUpscaler :: "claims option \<Rightarrow> headers \<Rightarrow> headers" where
  "injectUpscaler cl h =
    (let h = hDel ''X-Admin-ID'' (hSet ''X-Gateway-Internal'' ''1'' (hDel ''X-Gateway-Internal'' h)) in
     case cl of None \<Rightarrow> h
     | Some k \<Rightarrow> if claimUserID k \<noteq> [] then hSet ''X-Admin-ID'' (claimUserID k) h else h)"

section \<open>Paths\<close>

definition hexValue :: "char \<Rightarrow> nat option" where
  "hexValue c =
    (let n = asciiCode c in
     if 48 \<le> n \<and> n \<le> 57 then Some (n - 48)
     else if 97 \<le> n \<and> n \<le> 102 then Some (n - 87)
     else if 65 \<le> n \<and> n \<le> 70 then Some (n - 55) else None)"

text \<open>\<^verbatim>\<open>url.unescape\<close> in path mode.\<close>

fun unescape :: "string \<Rightarrow> string option" where
  "unescape [] = Some []"
| "unescape (c # cs) =
    (if c = CHR ''%'' then
       (case cs of a # b # rest \<Rightarrow>
          (case (hexValue a, hexValue b) of
             (Some x, Some y) \<Rightarrow> map_option (\<lambda>r. char_of (16 * x + y) # r) (unescape rest)
           | _ \<Rightarrow> None)
        | _ \<Rightarrow> None)
     else map_option (\<lambda>r. c # r) (unescape cs))"

definition isAlnum :: "char \<Rightarrow> bool" where
  "isAlnum c \<longleftrightarrow> isUpper c \<or> isLower c \<or> 48 \<le> asciiCode c \<and> asciiCode c \<le> 57"

definition shouldEscape :: "char \<Rightarrow> bool" where
  "shouldEscape c \<longleftrightarrow> \<not> (isAlnum c \<or> c \<in> set ''-_.~'' \<or> c \<in> set ''$&+,/:;=@'')"

definition hexDigit :: "nat \<Rightarrow> char" where
  "hexDigit n = (if n < 10 then char_of (48 + n) else char_of (55 + n))"

definition escape :: "string \<Rightarrow> string" where
  "escape s = concat (map (\<lambda>c. if shouldEscape c
     then [CHR ''%'', hexDigit (asciiCode c div 16), hexDigit (asciiCode c mod 16)] else [c]) s)"

definition validEncoded :: "string \<Rightarrow> bool" where
  "validEncoded s = list_all (\<lambda>c. c \<in> set (''!$&()*+,;=:@[]%'' @ [CHR 0x27]) \<or> \<not> shouldEscape c) s"

text \<open>\<^verbatim>\<open>URL.EscapedPath\<close> for the two fields of a URL.\<close>

definition EscapedPath :: "string \<Rightarrow> string \<Rightarrow> string" where
  "EscapedPath path rawPath =
    (if rawPath \<noteq> [] \<and> validEncoded rawPath \<and> unescape rawPath = Some path then rawPath
     else if path = ''*'' then ''*'' else escape path)"

definition rewritePath :: "string \<Rightarrow> string \<Rightarrow> string" where
  "rewritePath service p =
    (if service = ''grafana'' then
       (if p = [] \<or> p = ''/admin/grafana'' then ''/admin/grafana/'' else p)
     else if service = ''prometheus'' then
       (let p = TrimPrefix p ''/admin/prometheus'' in
        if \<not> HasPrefix p ''/prometheus'' then ''/prometheus'' @ p else p)
     else if service = ''scraper'' then
       (if p = ''/api/admin/scraper/health'' then ''/scraper/health/admin''
        else ReplaceFirst p ''/api/admin/scraper'' ''/scraper'')
     else if service = ''streaming'' then ReplaceFirst p ''/api/streaming/'' ''/api/v1/''
     else if service = ''rooms'' then
       (if HasPrefix p ''/api/game/rooms'' then ReplaceFirst p ''/api/game/rooms'' ''/api/v1/rooms''
        else if HasPrefix p ''/api/rooms'' then ReplaceFirst p ''/api/rooms'' ''/api/v1/rooms''
        else p)
     else p)"

section \<open>Forwarding\<close>

definition serviceNames :: "string list" where
  "serviceNames = [''auth'', ''catalog'', ''player'', ''rooms'', ''scraper'', ''streaming'', ''themes'', ''library'',
     ''notifications'', ''gacha'', ''recs'', ''anidle'', ''upscaler'', ''fanfic'', ''policy'', ''analytics'',
     ''watch-together'', ''grafana'', ''prometheus'', ''web'']"

definition getServiceURL :: "(string \<Rightarrow> string) \<Rightarrow> string \<Rightarrow> err + string" where
  "getServiceURL urls service =
    (let s = map toLower service in if s \<in> set serviceNames then Inr (urls s) else Inl (errNotFound ''service''))"

record inbound_request =
  irPath :: string
  irRawPath :: string
  irHeaders :: inbound_headers
  irCookies :: "(string \<times> string) list"
  irRemoteAddr :: string
  irClaims :: "claims option"

record outbound_request =
  orTarget :: string
  orPath :: string
  orHeaders :: headers
  orCookies :: "(string \<times> string) list"

definition forwardHeaders :: "string \<Rightarrow> inbound_request \<Rightarrow> headers" where
  "forwardHeaders service r =
    (let h = AttestForwardedClientIP (irRemoteAddr r) (copyForwardHeaders Map.empty (irHeaders r)) in
     if service = ''grafana'' then injectGrafana (irClaims r) h
     else if service = ''upscaler'' then injectUpscaler (irClaims r) h else h)"

definition cookieNamed :: "string \<Rightarrow> inbound_request \<Rightarrow> (string \<times> string) list" where
  "cookieNamed name r = (case map_of (irCookies r) name of None \<Rightarrow> [] | Some v \<Rightarrow> [(name, v)])"

definition forwardCookies :: "string \<Rightarrow> inbound_request \<Rightarrow> (string \<times> string) list" where
  "forwardCookies service r =
    (if service = ''auth'' then cookieNamed ''refresh_token'' r @ cookieNamed ''tg_deeplink_nonce'' r else [])"

text \<open>The request as the wire carries it: the path is what \<^verbatim>\<open>url.URL\<close> emits for the rewritten pair.\<close>

definition forwardWith :: "(string \<Rightarrow> string) \<Rightarrow> inbound_request \<Rightarrow> string \<Rightarrow> err + outbound_request" where
  "forwardWith urls r service = (case getServiceURL urls service of Inl e \<Rightarrow> Inl e
     | Inr target \<Rightarrow> Inr \<lparr>orTarget = target,
         orPath = EscapedPath (rewritePath service (irPath r))
           (rewritePath service (EscapedPath (irPath r) (irRawPath r))),
         orHeaders = forwardHeaders service r,
         orCookies = forwardCookies service r\<rparr>)"

section \<open>Header facts\<close>

lemma hDel_simps: "hDel k h x = (if x = CanonicalHeaderKey k then None else h x)"
  by (simp add: hDel_def)

lemma hSet_simps: "hSet k v h x = (if x = CanonicalHeaderKey k then Some [v] else h x)"
  by (simp add: hSet_def)

lemma hAdd_other: "x \<noteq> CanonicalHeaderKey k \<Longrightarrow> hAdd k v h x = h x"
  by (simp add: hAdd_def)

lemma fold_hAdd_other: "x \<noteq> CanonicalHeaderKey k \<Longrightarrow> fold (hAdd k) vs h x = h x"
  by (induction vs arbitrary: h) (simp_all add: hAdd_other)

lemma fold_hDel: "fold hDel ks h x = (if x \<in> CanonicalHeaderKey ` set ks then None else h x)"
  by (induction ks arbitrary: h) (auto simp: hDel_simps)

lemma copyEntry_other:
  "x \<in> set hopByHopHeaders \<or> isInConnectionList src x \<Longrightarrow> copyEntry src e h x = h x"
  by (cases e) (auto simp: copyEntry_def Let_def intro!: fold_hAdd_other)

lemma copy_filters:
  assumes "x \<in> set hopByHopHeaders \<or> isInConnectionList src x"
  shows "copyForwardHeaders Map.empty src x = None"
proof -
  have n: "fold dropNamed ps Map.empty x = None" for ps
  proof -
    have "h x = None \<Longrightarrow> fold dropNamed ps h x = None" for h
      by (induction ps arbitrary: h) (auto simp: dropNamed_def Let_def hDel_simps)
    then show ?thesis by simp
  qed
  have "fold (copyEntry src) es h x = h x" for es h
    by (induction es arbitrary: h) (simp_all add: copyEntry_other [OF assms])
  with n show ?thesis by (simp add: copyForwardHeaders_def)
qed

text \<open>A header that is neither filtered nor named by \<^verbatim>\<open>Connection\<close> arrives as it was sent.\<close>

lemma fold_hAdd_same:
  "fold (hAdd k) vs h (CanonicalHeaderKey k) =
    (if vs = [] then h (CanonicalHeaderKey k)
     else Some ((case h (CanonicalHeaderKey k) of None \<Rightarrow> [] | Some us \<Rightarrow> us) @ vs))"
  by (induction vs arbitrary: h) (auto simp: hAdd_def split: option.split)

lemma fold_dropNamed_empty: "fold dropNamed ps Map.empty = Map.empty"
  by (induction ps) (auto simp: dropNamed_def Let_def hDel_def)

lemma copy_keeps:
  assumes "distinct (map fst src)" "\<forall>k\<in>fst ` set src. CanonicalHeaderKey k = k"
    and "map_of src x = Some vs" "vs \<noteq> []" "x \<notin> set hopByHopHeaders" "\<not> isInConnectionList src x"
  shows "copyForwardHeaders Map.empty src x = Some vs"
proof -
  have x: "CanonicalHeaderKey x = x" using assms(2,3) by (force dest: map_of_SomeD)
  have gen: "fold (copyEntry src) es h x = (case map_of es x of None \<Rightarrow> h x | Some us \<Rightarrow>
      if us = [] then h x else Some ((case h x of None \<Rightarrow> [] | Some ws \<Rightarrow> ws) @ us))"
    if "distinct (map fst es)" "\<forall>k\<in>fst ` set es. CanonicalHeaderKey k = k" for es h
    using that
  proof (induction es arbitrary: h)
    case (Cons e es)
    obtain k us where e: "e = (k, us)" by (cases e)
    have k: "CanonicalHeaderKey k = k" using Cons.prems e by simp
    show ?case
    proof (cases "k = x")
      case True
      then have "map_of es x = None" using Cons.prems e by (simp add: map_of_eq_None_iff)
      with True Cons e x assms(5,6) fold_hAdd_same [of x us h] show ?thesis
        by (simp add: copyEntry_def Let_def)
    next
      case False
      then have "copyEntry src e h x = h x"
        using k by (simp add: e copyEntry_def Let_def fold_hAdd_other)
      with False Cons e show ?thesis by (simp split: option.split)
    qed
  qed simp
  show ?thesis
    using gen [OF assms(1,2), of "Map.empty"] assms(3,4)
    by (simp add: copyForwardHeaders_def fold_dropNamed_empty)
qed

lemma canonical_names:
  "map CanonicalHeaderKey ipProvenanceHeaders =
    [''True-Client-Ip'', ''X-Forwarded-For'', ''X-Real-Ip'', ''Cf-Connecting-Ip'', ''Forwarded'']"
  "CanonicalHeaderKey ''X-Webauth-User'' = ''X-Webauth-User''" "CanonicalHeaderKey ''X-Webauth-Role'' = ''X-Webauth-Role''"
  "CanonicalHeaderKey ''X-Gateway-Internal'' = ''X-Gateway-Internal''" "CanonicalHeaderKey ''X-Admin-ID'' = ''X-Admin-Id''"
  "CanonicalHeaderKey ''X-Real-IP'' = ''X-Real-Ip''"
  by code_simp+

lemma attested:
  "AttestForwardedClientIP addr h x =
    (if x = ''X-Real-Ip'' then
       (let ip = (case SplitHost addr of None \<Rightarrow> addr | Some host \<Rightarrow> host) in if ip = [] then None else Some [ip])
     else if x \<in> {''True-Client-Ip'', ''X-Forwarded-For'', ''Cf-Connecting-Ip'', ''Forwarded''} then None else h x)"
proof -
  have names: "CanonicalHeaderKey ` set ipProvenanceHeaders =
      {''True-Client-Ip'', ''X-Forwarded-For'', ''X-Real-Ip'', ''Cf-Connecting-Ip'', ''Forwarded''}"
    unfolding set_map [symmetric] canonical_names(1) by simp
  show ?thesis
    unfolding AttestForwardedClientIP_def Let_def by (simp add: hSet_simps fold_hDel names canonical_names)
qed

lemma injectGrafana_simps:
  "injectGrafana cl h ''X-Webauth-User'' =
     (case cl of Some k \<Rightarrow> if claimUsername k \<noteq> [] then Some [claimUsername k] else None | None \<Rightarrow> None)"
  "injectGrafana cl h ''X-Webauth-Role'' =
     (case cl of Some k \<Rightarrow> if claimUsername k \<noteq> [] then Some [''Admin''] else None | None \<Rightarrow> None)"
  "x \<notin> {''X-Webauth-User'', ''X-Webauth-Role''} \<Longrightarrow> injectGrafana cl h x = h x"
  by (auto simp: injectGrafana_def Let_def hSet_simps hDel_simps canonical_names split: option.split)

lemma injectUpscaler_simps:
  "injectUpscaler cl h ''X-Gateway-Internal'' = Some [''1'']"
  "injectUpscaler cl h ''X-Admin-Id'' =
     (case cl of Some k \<Rightarrow> if claimUserID k \<noteq> [] then Some [claimUserID k] else None | None \<Rightarrow> None)"
  "x \<notin> {''X-Gateway-Internal'', ''X-Admin-Id''} \<Longrightarrow> injectUpscaler cl h x = h x"
  by (auto simp: injectUpscaler_def Let_def hSet_simps hDel_simps canonical_names split: option.split)

lemma forwardHeaders_other:
  assumes "x \<notin> {''X-Webauth-User'', ''X-Webauth-Role'', ''X-Gateway-Internal'', ''X-Admin-Id''}"
  shows "forwardHeaders service r x = AttestForwardedClientIP (irRemoteAddr r) (copyForwardHeaders Map.empty (irHeaders r)) x"
  using assms by (simp add: forwardHeaders_def Let_def injectGrafana_simps injectUpscaler_simps)

lemma forwardHeaders_hop: "x \<in> set hopByHopHeaders \<Longrightarrow> forwardHeaders service r x = None"
  by (subst forwardHeaders_other) (auto simp: hopByHopHeaders_def attested copy_filters)

section \<open>Path facts\<close>

text \<open>A literal prefix passes through decoding.\<close>

lemma unescape_literal:
  assumes "CHR ''%'' \<notin> set p" shows "unescape (p @ s) = map_option (\<lambda>r. p @ r) (unescape s)"
  using assms by (induction p; cases "unescape s") auto

lemma unescape_literal_Some:
  assumes "CHR ''%'' \<notin> set p" "unescape (p @ s) = Some path"
  obtains r where "unescape s = Some r" "path = p @ r"
  using assms by (auto simp: unescape_literal)

text \<open>The prefixes under which the router mounts the services whose paths are rewritten.\<close>

definition mountPrefixes :: "string \<Rightarrow> string list" where
  "mountPrefixes service =
    (if service = ''streaming'' then [''/api/streaming/'']
     else if service = ''rooms'' then [''/api/game/rooms'', ''/api/rooms''] else [[]])"

lemma rewritePath_mounted:
  assumes "m \<in> set (mountPrefixes service)" "service \<notin> {''grafana'', ''prometheus'', ''scraper''}"
  obtains n where "\<And>s. rewritePath service (m @ s) = n @ s" "CHR ''%'' \<notin> set m" "CHR ''%'' \<notin> set n"
    "validEncoded n" "n = [] \<longrightarrow> m = []"
proof -
  consider (streaming) "service = ''streaming''" "m = ''/api/streaming/''"
    | (game) "service = ''rooms''" "m = ''/api/game/rooms''" | (rooms) "service = ''rooms''" "m = ''/api/rooms''"
    | (other) "service \<notin> {''streaming'', ''rooms'', ''grafana'', ''prometheus'', ''scraper''}" "m = []"
    using assms by (auto simp: mountPrefixes_def split: if_splits)
  then show thesis
  proof cases
    case streaming
    have "validEncoded ''/api/v1/''" by code_simp
    with streaming show ?thesis
      using ReplaceFirst_prefix [of "''/api/streaming/''" _ "''/api/v1/''"]
      by (intro that [of "''/api/v1/''"]) (simp_all add: rewritePath_def)
  next
    case game
    have "validEncoded ''/api/v1/rooms''" by code_simp
    with game show ?thesis
      using ReplaceFirst_prefix [of "''/api/game/rooms''" _ "''/api/v1/rooms''"] HasPrefix_append [of "''/api/game/rooms''"]
      by (intro that [of "''/api/v1/rooms''"]) (simp_all add: rewritePath_def)
  next
    case rooms
    have "validEncoded ''/api/v1/rooms''" by code_simp
    moreover have "HasPrefix (''/api/rooms'' @ s) ''/api/game/rooms'' = False" for s
      by (simp add: HasPrefix_def)
    ultimately show ?thesis
      using rooms ReplaceFirst_prefix [of "''/api/rooms''" _ "''/api/v1/rooms''"] HasPrefix_append [of "''/api/rooms''"]
      by (intro that [of "''/api/v1/rooms''"]) (simp_all add: rewritePath_def)
  next
    case other
    have "validEncoded []" by code_simp
    with other show ?thesis by (intro that [of "[]"]) (simp_all add: rewritePath_def)
  qed
qed

end
