(* ===== verification/Access_Safety.thy ===== *)
theory Access_Safety
  imports Access_Control Gateway_Keys Gateway_Forward
begin

text \<open>
  The properties of access control across the policy service and the gateway, and of what the
  gateway forwards.
\<close>

section \<open>Examples for the witnesses\<close>

definition demoUser :: "claims option" where
  "demoUser = Some \<lparr>claimUserID = ''u1'', claimUsername = ''neko'', claimRole = RoleUser\<rparr>"


definition demoGrant :: set_flag_request where
  "demoGrant = \<lparr>sfAudience = \<lparr>audRoles = [''admin''], audAllowUsers = [''u1''], audDenyUsers = []\<rparr>,
     sfRoulette = False, sfFailSafe = ''admin'', sfLabel = ''Fanfic''\<rparr>"

text \<open>The table after a first boot, and one grant later; the gateway has polled the former.\<close>

definition demoTable :: flag_table where
  "demoTable = runWrite (WriteSeeds 0) [] []"

definition demoGranted :: flag_table where
  "demoGranted = runWrite (WriteFlag 1 ''fanfic'' (Some demoGrant)) [] demoTable"

definition demoRbac :: rbac where
  "demoRbac = \<lparr>rbTable = demoTable,
     rbCache = refreshRuleset (httpRulesetFetch (rulesetAnswer (ROK (rulesetOf demoTable)))) newRulesetCache,
     rbHistory = [demoTable, []]\<rparr>"

lemma GetRuleset_clean: "GetRuleset \<lparr>data = t, faults = []\<rparr> = (Inr (ROK (rulesetOf t)), \<lparr>data = t, faults = []\<rparr>)"
  by (simp add: GetRuleset_def replied_def attempt_def Policy_Ruleset_def flags_GetAll_def bnd_def query_def
      command_def ret_def)

lemma demoRbac_reachable: "reachable_rbac demoRbac"
proof -
  let ?b = "\<lparr>rbTable = [], rbCache = newRulesetCache, rbHistory = [[]]\<rparr>"
  have "reachable_rbac (?b\<lparr>rbTable := demoTable, rbHistory := demoTable # rbHistory ?b\<rparr>)"
    by (rule reachable_rbac.change [OF reachable_rbac.boot]) (simp add: demoTable_def)
  from reachable_rbac.poll [OF this, of "[]" "ROK (rulesetOf demoTable)"] show ?thesis
    by (simp add: demoRbac_def GetRuleset_clean)
qed

section \<open>Feature gates\<close>

text \<open>
  C4. The gateway enforces what the policy service resolves. In every state that administrators'
  writes, boots, polls, failures and restarts can produce, the gate of every feature decides for
  every caller by one and the same version of the flag table the policy service has had: the caller
  passes exactly when the feature is in the feed that version resolves for the caller, and only
  admins pass where the version has no such flag. Without a first successful poll only admins pass.
\<close>

theorem gateway_decides_by_policy:
  assumes "reachable_rbac r"
  shows "\<exists>t\<in>set (rbHistory r). flags_ok t \<and> (\<forall>key cl. passes key (rbCache r) cl \<longleftrightarrow>
    (if cacheLoaded (rbCache r) then decidedBy t key cl else RoleFromContext cl = RoleAdmin))"
proof -
  have ok: "rbac_ok r" by (rule reachable_rbac_ok [OF assms])
  show ?thesis
  proof (cases "cacheLoaded (rbCache r)")
    case True
    with ok obtain t where "t \<in> set (rbHistory r)" "cacheSnap (rbCache r) = wireRuleset (rulesetOf t)" "flags_ok t"
      by (auto simp: rbac_ok_def)
    with passes_loaded [OF _ True] True show ?thesis by auto
  next
    case False
    with passes_unloaded ok show ?thesis by (auto simp: rbac_ok_def)
  qed
qed

theorem gateway_decides_by_policy_witness:
  "\<exists>t\<in>set (rbHistory demoRbac). \<forall>key cl. passes key (rbCache demoRbac) cl \<longleftrightarrow>
    (if cacheLoaded (rbCache demoRbac) then decidedBy t key cl else RoleFromContext cl = RoleAdmin)"
  using gateway_decides_by_policy [OF demoRbac_reachable] by blast

text \<open>
  C12. A change of a flag takes effect at the next successful poll, and changes nothing else: when
  the administrator's request is answered with success and the gateway then fetches the ruleset, the
  feature admits exactly the audience of the request, by the order deny list, allow list, everyone,
  role, and every other feature is decided as by the table before the change.
\<close>

theorem flag_change_takes_effect:
  assumes "reachable_rbac r"
    and set: "AdminFlags_SetFlag now key (Some req) \<lparr>data = rbTable r, faults = script\<rparr> = (Inr (ROK k), s)"
    and poll: "fst (GetRuleset \<lparr>data = data s, faults = script'\<rparr>) = Inr (ROK rs)"
  shows "k = key \<and> key \<noteq> RouletteMasterKey \<and>
    (\<forall>cl. passes key (refreshRuleset (httpRulesetFetch (rulesetAnswer (ROK rs))) (rbCache r)) cl \<longleftrightarrow>
       canAccess (wireAudience (sfAudience req)) (UserIDFromContext cl) (RoleFromContext cl)) \<and>
    (\<forall>key' cl. key' \<noteq> key \<longrightarrow>
       (passes key' (refreshRuleset (httpRulesetFetch (rulesetAnswer (ROK rs))) (rbCache r)) cl \<longleftrightarrow>
        decidedBy (rbTable r) key' cl))"
proof -
  let ?f = "\<lparr>ffKey = key, ffRoles = audRoles (sfAudience req), ffAllowUsers = audAllowUsers (sfAudience req),
    ffDenyUsers = audDenyUsers (sfAudience req), ffRoulette = sfRoulette req, ffFailSafe = sfFailSafe req,
    ffLabel = sfLabel req, ffUpdatedAt = now\<rparr>"
  have ok: "flags_ok (rbTable r)" using reachable_rbac_ok [OF assms(1)] by (simp add: rbac_ok_def)
  have "wp (AdminFlags_SetFlag now key (Some req)) (\<lambda>a d. \<forall>k. a = ROK k \<longrightarrow> k = key \<and> key \<noteq> RouletteMasterKey \<and>
      d = upsertRow ffKey ?f (rbTable r)) (\<lambda>_ _. True) (rbTable r)"
    unfolding AdminFlags_SetFlag_def replied_def option.case
    by (intro wp_attempt wp_bnd wp_SetFlag wp_ret) auto
  then have "ends (\<lambda>a d. \<forall>k. a = ROK k \<longrightarrow> k = key \<and> key \<noteq> RouletteMasterKey \<and>
      d = upsertRow ffKey ?f (rbTable r)) (\<lambda>_ _. True) (AdminFlags_SetFlag now key (Some req) \<lparr>data = rbTable r, faults = script\<rparr>)"
    by (simp add: wp_iff)
  then have d: "k = key" "key \<noteq> RouletteMasterKey" "data s = upsertRow ffKey ?f (rbTable r)"
    unfolding set by simp_all
  define t where "t = upsertRow ffKey ?f (rbTable r)"
  have t: "flags_ok t" unfolding t_def by (rule unique_upsertRow [OF ok])
  have rs: "rs = rulesetOf t" using GetRuleset_reply [OF poll] d(3) by (simp add: t_def)
  let ?c = "refreshRuleset (httpRulesetFetch (rulesetAnswer (ROK rs))) (rbCache r)"
  have p: "passes x ?c cl \<longleftrightarrow> decidedBy t x cl" for x cl
    by (rule passes_loaded [OF t]) (simp_all add: rs refreshRuleset_def httpRulesetFetch_def rulesetAnswer_def)
  have look: "flagOf t x = (if x = key then Some ?f else flagOf (rbTable r) x)" for x
    by (simp add: t_def rowOf_upsertRow)
  have "decidedBy t key cl \<longleftrightarrow> canAccess (wireAudience (sfAudience req)) (UserIDFromContext cl) (RoleFromContext cl)" for cl
    using d(2) by (cases "sfAudience req")
      (simp add: decidedBy_def hasRow_iff look mineOf_visible_iff [OF t] canAccess_wire [symmetric] flagAudience_def)
  moreover have "decidedBy t x cl \<longleftrightarrow> decidedBy (rbTable r) x cl" if "x \<noteq> key" for x cl
    using that by (simp add: decidedBy_def hasRow_iff look mineOf_visible_iff [OF t] mineOf_visible_iff [OF ok])
  ultimately show ?thesis using d p by simp
qed

lemma SetFlag_clean:
  "AdminFlags_SetFlag 1 ''fanfic'' (Some demoGrant) \<lparr>data = t, faults = []\<rparr> =
    (Inr (ROK ''fanfic''), \<lparr>data = runWrite (WriteFlag 1 ''fanfic'' (Some demoGrant)) [] t, faults = []\<rparr>)"
  by (simp add: runWrite_def AdminFlags_SetFlag_def SetFlag_def replied_def attempt_def bnd_def flags_Upsert_def
      command_def ret_def demoGrant_def RouletteMasterKey_def)

theorem flag_change_takes_effect_witness:
  "passes ''fanfic'' (refreshRuleset (httpRulesetFetch (rulesetAnswer (ROK (rulesetOf demoGranted)))) (rbCache demoRbac)) demoUser"
proof -
  have "AdminFlags_SetFlag 1 ''fanfic'' (Some demoGrant) \<lparr>data = rbTable demoRbac, faults = []\<rparr> =
      (Inr (ROK ''fanfic''), \<lparr>data = demoGranted, faults = []\<rparr>)"
    by (simp add: SetFlag_clean demoRbac_def demoGranted_def)
  from flag_change_takes_effect [OF demoRbac_reachable this, of "[]"] show ?thesis
    by (simp add: GetRuleset_clean canAccess_def wireAudience_def demoGrant_def demoUser_def UserIDFromContext_def
        RoleFromContext_def role_defs)
qed



text \<open>
  C37. The fail-safe of a flag never opens it. The gateway documents that a cold start falls back to
  each flag's own fail-safe; it has none then, and with a ruleset loaded a flag and its fail-safe
  come together. So in every reachable state in which the gateway knows no audience of a feature,
  a user without the admin role is refused, also where the policy service stores the fail-safe
  everyone for it.
\<close>

theorem fail_safe_never_opens:
  assumes "reachable_rbac r" "\<not> cacheLoaded (rbCache r) \<or> snapFlags (cacheSnap (rbCache r)) key = None"
    and "RoleFromContext cl \<noteq> RoleAdmin"
  shows "FeatureGate key (rbCache r) cl = Deny403"
proof -
  obtain t where t: "flags_ok t" "\<And>key cl. passes key (rbCache r) cl \<longleftrightarrow>
      (if cacheLoaded (rbCache r) then decidedBy t key cl else RoleFromContext cl = RoleAdmin)"
      "cacheLoaded (rbCache r) \<longrightarrow> cacheSnap (rbCache r) = wireRuleset (rulesetOf t)"
    using reachable_rbac_ok [OF assms(1)] passes_loaded passes_unloaded
    by (cases "cacheLoaded (rbCache r)") (auto simp: rbac_ok_def)
  have "\<not> passes key (rbCache r) cl"
  proof (cases "cacheLoaded (rbCache r)")
    case True
    with assms(2) t(3) have "key = RouletteMasterKey \<or> flagOf t key = None"
      by (auto simp: wireRuleset_def rulesetOf_simps [OF t(1)] split: if_splits)
    with True assms(3) show ?thesis by (auto simp: t(2) decidedBy_def hasRow_iff)
  qed (simp add: t(2) assms(3))
  then show ?thesis by (auto simp: passes_def FeatureGate_def split: if_splits)
qed

theorem fail_safe_never_opens_witness:
  "FeatureGate ''my-feedback'' (rbCache (demoRbac\<lparr>rbCache := newRulesetCache\<rparr>)) demoUser = Deny403"
  using fail_safe_never_opens [OF reachable_rbac.restart [OF demoRbac_reachable], of "''my-feedback''" demoUser]
  by (simp add: newRulesetCache_def demoUser_def RoleFromContext_def role_defs)

text \<open>
  C21. Boots never undo an administrator: whatever commands of a boot fail, every flag that exists
  stays as it is, every flag that appears is a seed of the code, a boot without failures leaves all
  seeds present, and a second boot after it changes no flag.
\<close>

theorem boots_keep_flags:
  "(\<forall>k f. flagOf t k = Some f \<longrightarrow> flagOf (runWrite (WriteSeeds now) script t) k = Some f) \<and>
   (\<forall>k f. flagOf (runWrite (WriteSeeds now) script t) k = Some f \<longrightarrow> flagOf t k = Some f \<or> f \<in> set (bootFlags now)) \<and>
   (\<forall>k \<in> ffKey ` set SeedFlags. flagOf (runWrite (WriteSeeds now) [] t) k \<noteq> None) \<and>
   (\<forall>k. flagOf (runWrite (WriteSeeds later) script (runWrite (WriteSeeds now) [] t)) k = flagOf (runWrite (WriteSeeds now) [] t) k)"
proof -
  have pre: "\<exists>n. runWrite (WriteSeeds now) script t = fold (insertAbsent ffKey) (take n (bootFlags now)) t" for now script t
  proof -
    have "wp (Policy_SeedDefaults now) (\<lambda>_ d. \<exists>n. d = fold (insertAbsent ffKey) (take n (bootFlags now)) t)
        (\<lambda>_ d. \<exists>n. d = fold (insertAbsent ffKey) (take n (bootFlags now)) t) t"
      by (rule wp_Policy_SeedDefaults) (auto intro: exI [of _ "length (bootFlags now)"])
    from wp_data [OF this, of script] show ?thesis by (simp add: runWrite_def Let_def)
  qed
  have full: "runWrite (WriteSeeds now) [] t = fold (insertAbsent ffKey) (bootFlags now) t" for now t
    by (rule boot_clean)
  have keep: "flagOf t k = Some f \<Longrightarrow> flagOf (runWrite (WriteSeeds now) script t) k = Some f" for k f now script t
    using pre [of now script t] flags.seeds_keep [of t k f] by auto
  have only: "flagOf (runWrite (WriteSeeds now) script t) k = Some f \<Longrightarrow> flagOf t k = Some f \<or> f \<in> set (bootFlags now)" for k f
    using pre [of now script t] by (auto dest!: flags.seeds_only dest: in_set_takeD)
  have present: "flagOf (runWrite (WriteSeeds now) [] t) k \<noteq> None" if "k \<in> ffKey ` set SeedFlags" for k
    unfolding full by (rule flags.seeds_present) (use that in \<open>auto simp: bootFlags_def image_iff\<close>)
  have again: "flagOf (runWrite (WriteSeeds later) script (runWrite (WriteSeeds now) [] t)) k =
      flagOf (runWrite (WriteSeeds now) [] t) k" for k
  proof -
    obtain n where n: "runWrite (WriteSeeds later) script (runWrite (WriteSeeds now) [] t) =
        fold (insertAbsent ffKey) (take n (bootFlags later)) (fold (insertAbsent ffKey) (bootFlags now) t)"
      using pre [of later script "runWrite (WriteSeeds now) [] t"] unfolding full by blast
    have "map ffKey (take n (bootFlags later)) = take n (map ffKey (bootFlags now))"
      using bootFlags_keys [of later] bootFlags_keys [of now] by (simp only: take_map [symmetric])
    then have "set (map ffKey (take n (bootFlags later))) \<subseteq> set (map ffKey (bootFlags now))"
      by (simp only: set_take_subset)
    then show ?thesis unfolding n unfolding full by (rule flags.seeds_again)
  qed
  show ?thesis using keep only present again by blast
qed

theorem boots_keep_flags_witness:
  "flagOf (runWrite (WriteSeeds 2) [] demoGranted) ''fanfic'' = flagOf demoGranted ''fanfic'' \<and>
   flagOf (runWrite (WriteSeeds 2) [] []) ''gacha'' \<noteq> None"
proof -
  have look: "flagOf demoGranted ''fanfic'' \<noteq> None"
    unfolding demoGranted_def runWrite_def
    by (simp add: AdminFlags_SetFlag_def SetFlag_def replied_def attempt_def bnd_def flags_Upsert_def
        command_def ret_def demoGrant_def RouletteMasterKey_def rowOf_upsertRow)
  have "''gacha'' \<in> ffKey ` set SeedFlags" by (simp add: SeedFlags_def newFlag_def adminFlag_def)
  then show ?thesis
    using look boots_keep_flags [where t = demoGranted and now = 2 and script = "[]"]
      boots_keep_flags [where t = "[]" and now = 2 and script = "[]"] by auto
qed

section \<open>API keys\<close>

text \<open>
  C22. Authentication is backed by a recent verdict. After any sequence of requests through the two
  middlewares, whoever passes the required authentication carries the claims the JWT library found
  in the bearer token, with the request unchanged, or an API key for which the auth service named
  exactly these claims: in this request, or less than sixty seconds before by the clock of the
  gateway; the backend then sees a token minted for these claims. The hash of keys is assumed
  injective.
\<close>

theorem authentication_is_recent:
  assumes "inj (keyHash d)"
    and pass: "fst (JWTValidation d now now' answer r (ksCache (runAuth d xs))) = Pass ar"
  shows "\<exists>cl. arClaims ar = Some cl \<and>
    (if isAPIKey (BearerToken r)
     then (answer = Some cl \<or> (\<exists>t. (BearerToken r, cl, t) \<in> set (ksLog (runAuth d xs)) \<and> now < t + apiKeyCacheTTL)) \<and>
       (\<exists>jwt. mintToken d cl (BearerToken r) = Some jwt \<and> arRequest ar = r\<lparr>rqAuthorization := ''Bearer '' @ jwt\<rparr>)
     else validToken d (BearerToken r) = Some cl \<and> arRequest ar = r)"
  using pass resolved_recently [OF runAuth_ok assms(1), of now now' answer "BearerToken r" xs]
  by (auto simp: JWTValidation_def Let_def split: if_splits option.splits prod.splits)

definition demoGateway :: gw_deps where
  "demoGateway = \<lparr>validToken = (\<lambda>_. None), mintToken = (\<lambda>cl k. Some ''jwt''), keyHash = (\<lambda>k. k)\<rparr>"

definition demoKeyRequest :: auth_request where
  "demoKeyRequest = \<lparr>rqAuthorization = ''Bearer ak_1'', rqAccessCookie = None\<rparr>"

lemma demoKey: "BearerToken demoKeyRequest = ''ak_1''" "isAPIKey ''ak_1''"
  by code_simp+

theorem authentication_is_recent_witness:
  "\<exists>ar cl. fst (JWTValidation demoGateway 1 2 None demoKeyRequest
       (ksCache (runAuth demoGateway [(False, 0, 0, demoUser, demoKeyRequest)]))) = Pass ar \<and>
     (\<exists>t. (''ak_1'', cl, t) \<in> set (ksLog (runAuth demoGateway [(False, 0, 0, demoUser, demoKeyRequest)])) \<and>
       1 < t + apiKeyCacheTTL)"
proof -
  let ?s = "runAuth demoGateway [(False, 0, 0, demoUser, demoKeyRequest)]"
  have "inj (keyHash demoGateway)" by (simp add: demoGateway_def inj_def)
  moreover obtain ar where p: "fst (JWTValidation demoGateway 1 2 None demoKeyRequest (ksCache ?s)) = Pass ar"
    by (simp add: JWTValidation_def runAuth_def authStep_def demoKey resolveCached_def cachedClaims_def storeClaims_def
        demoGateway_def demoUser_def Let_def TimeBefore_def apiKeyCacheTTL_def Second_def)
  ultimately show ?thesis using authentication_is_recent [of demoGateway 1 2 None demoKeyRequest] by (force simp: demoKey)
qed

section \<open>Forwarding\<close>


definition demoForged :: inbound_request where
  "demoForged = \<lparr>irPath = ''/api/upscale/jobs'', irRawPath = [],
     irHeaders = [(''X-Forwarded-For'', [''1.2.3.4'']), (''X-Admin-Id'', [''root'']), (''Cookie'', [''refresh_token=x''])],
     irCookies = [(''refresh_token'', ''x'')], irRemoteAddr = ''203.0.113.9:5123'', irClaims = demoUser\<rparr>"


text \<open>
  C24. The path that was authorized is the path that is forwarded: for every service except the three
  admin tools with special rewrites, when the escaped path of the request starts with the literal
  prefix under which the router mounts the service, the gateway emits exactly the rewritten escaped
  path, byte for byte, so an encoded slash or question mark stays encoded.
\<close>

theorem forwarded_path_is_routed_path:
  assumes "forwardWith urls r service = Inr out" "service \<notin> {''grafana'', ''prometheus'', ''scraper''}"
    and raw: "EscapedPath (irPath r) (irRawPath r) = m @ rest" "m \<in> set (mountPrefixes service)" "m @ rest \<noteq> []"
    and valid: "validEncoded (m @ rest)" "unescape (m @ rest) = Some (irPath r)"
  shows "\<exists>n. (\<forall>s. rewritePath service (m @ s) = n @ s) \<and> orPath out = n @ rest \<and>
    unescape (orPath out) = Some (rewritePath service (irPath r))"
proof -
  obtain n where n: "\<And>s. rewritePath service (m @ s) = n @ s" "CHR ''%'' \<notin> set m" "CHR ''%'' \<notin> set n"
      "validEncoded n" "n = [] \<longrightarrow> m = []"
    using rewritePath_mounted [OF raw(2) assms(2)] by blast
  obtain p where p: "unescape rest = Some p" "irPath r = m @ p" using unescape_literal_Some [OF n(2) valid(2)] by blast
  have v: "validEncoded (n @ rest)" using n(4) valid(1) by (simp add: validEncoded_def)
  have u: "unescape (n @ rest) = Some (n @ p)" using p(1) by (simp add: unescape_literal [OF n(3)])
  have "n @ rest \<noteq> []" using n(5) raw(3) by auto
  with v u have "EscapedPath (n @ p) (n @ rest) = n @ rest" by (simp add: EscapedPath_def)
  moreover have "orPath out = EscapedPath (rewritePath service (m @ p)) (rewritePath service (m @ rest))"
    using assms(1) raw(1) p(2) by (auto simp: forwardWith_def split: sum.splits)
  ultimately show ?thesis using n(1) u p(2) by auto
qed

definition demoEncoded :: inbound_request where
  "demoEncoded = demoForged\<lparr>irPath := ''/api/streaming/a/b?c'', irRawPath := ''/api/streaming/a%2Fb%3Fc''\<rparr>"

theorem forwarded_path_is_routed_path_witness:
  "\<exists>out. forwardWith (\<lambda>s. s) demoEncoded ''streaming'' = Inr out \<and> orPath out = ''/api/v1/a%2Fb%3Fc''"
proof -
  have "getServiceURL (\<lambda>s. s) ''streaming'' = Inr ''streaming''" by code_simp
  then obtain out where o: "forwardWith (\<lambda>s. s) demoEncoded ''streaming'' = Inr out" by (simp add: forwardWith_def)
  have "EscapedPath (irPath demoEncoded) (irRawPath demoEncoded) = ''/api/streaming/'' @ ''a%2Fb%3Fc''"
    "validEncoded (''/api/streaming/'' @ ''a%2Fb%3Fc'')"
    "unescape (''/api/streaming/'' @ ''a%2Fb%3Fc'') = Some (irPath demoEncoded)"
    "''/api/streaming/'' \<in> set (mountPrefixes ''streaming'')"
    by code_simp+
  from forwarded_path_is_routed_path [OF o _ this(1,4) _ this(2,3)]
  obtain n where n: "\<forall>s. rewritePath ''streaming'' (''/api/streaming/'' @ s) = n @ s" "orPath out = n @ ''a%2Fb%3Fc''"
    by auto
  have "rewritePath ''streaming'' (''/api/streaming/'' @ []) = ''/api/v1/''" by code_simp
  with n(1) have "n = ''/api/v1/''" by (metis append_Nil2)
  with n(2) o show ?thesis by simp
qed

text \<open>
  The two forms of the path can drift apart, although the code says they cannot: an admin who
  asks for \<open>/admin/prometheus/%70rometheus/a%2Fb\<close> is authorized for a path with one encoded slash;
  the decoded form is rewritten differently from the escaped one, the escaped form is dropped, and
  the backend gets \<open>/prometheus/a/b\<close>.
\<close>

theorem prometheus_path_drifts:
  assumes "irPath r = ''/admin/prometheus/prometheus/a/b''" "irRawPath r = ''/admin/prometheus/%70rometheus/a%2Fb''"
  shows "EscapedPath (irPath r) (irRawPath r) = ''/admin/prometheus/%70rometheus/a%2Fb'' \<and>
    (\<exists>out. forwardWith urls r ''prometheus'' = Inr out \<and> orPath out = ''/prometheus/a/b'')"
proof -
  have g: "getServiceURL urls ''prometheus'' = Inr (urls ''prometheus'')" by code_simp
  have "EscapedPath ''/admin/prometheus/prometheus/a/b'' ''/admin/prometheus/%70rometheus/a%2Fb'' =
      ''/admin/prometheus/%70rometheus/a%2Fb''"
    "EscapedPath (rewritePath ''prometheus'' ''/admin/prometheus/prometheus/a/b'')
      (rewritePath ''prometheus'' ''/admin/prometheus/%70rometheus/a%2Fb'') = ''/prometheus/a/b''"
    by code_simp+
  with g assms show ?thesis by (simp add: forwardWith_def)
qed

theorem prometheus_path_drifts_witness:
  "\<exists>out. forwardWith (\<lambda>s. s) (demoForged\<lparr>irPath := ''/admin/prometheus/prometheus/a/b'',
     irRawPath := ''/admin/prometheus/%70rometheus/a%2Fb''\<rparr>) ''prometheus'' = Inr out \<and> orPath out = ''/prometheus/a/b''"
  using prometheus_path_drifts [of "demoForged\<lparr>irPath := ''/admin/prometheus/prometheus/a/b'',
     irRawPath := ''/admin/prometheus/%70rometheus/a%2Fb''\<rparr>" "\<lambda>s. s"] by simp

text \<open>
  Only the first \<^verbatim>\<open>Connection\<close> header is read: a header that the second one names is forwarded.
\<close>

lemma second_connection_header_ignored:
  "copyForwardHeaders Map.empty [(''Connection'', [''close'', ''X-Secret'']), (''X-Secret'', [''v''])] ''X-Secret'' = Some [''v'']"
  (is "copyForwardHeaders _ ?src _ = _")
proof (rule copy_keeps)
  have names: "CanonicalHeaderKey ''Connection'' = ''Connection''" "CanonicalHeaderKey ''X-Secret'' = ''X-Secret''"
    "CanonicalHeaderKey ''close'' = ''Close''" "SplitAt (CHR '','') ''close'' = [''close'']" "TrimSpace ''close'' = ''close''"
    by code_simp+
  show "\<forall>k\<in>fst ` set ?src. CanonicalHeaderKey k = k" by (simp add: names)
  show "\<not> isInConnectionList ?src ''X-Secret''" by (simp add: isInConnectionList_def hGet_def names Let_def)
qed (simp_all add: hopByHopHeaders_def)

end
