(* ===== verification/Maintenance_Safety.thy ===== *)
theory Maintenance_Safety
  imports Policy_Maintenance
begin











end
