(* ===== verification/CV_Domain.thy ===== *)
theory CV_Domain
  imports Go_Float Go_Strings "HOL-Library.List_Lexorder" "HOL-Library.Char_ord"
begin

text \<open>
  The data of the content-verify service (\<^verbatim>\<open>internal/domain\<close>): verdicts on probe units, the row of a
  provider, skip timings, fingerprints, and the summary that the catalog and the player read.
  Generated row ids are left out: a row is identified by its unique index.
\<close>

section \<open>Verdicts\<close>

definition StatusVerified :: string where "StatusVerified = ''verified''"
definition StatusInconclusive :: string where "StatusInconclusive = ''inconclusive''"
definition StatusUnreachable :: string where "StatusUnreachable = ''unreachable''"
definition StatusDeferred :: string where "StatusDeferred = ''deferred''"

lemmas cv_status_defs = StatusVerified_def StatusInconclusive_def StatusUnreachable_def StatusDeferred_def

definition VerifiedThreshold :: float64 where "VerifiedThreshold = fin (95 / 100)"

record unit_key =
  keyTeam :: string
  keyServer :: string
  keyCategory :: string
  keyTrack :: string

text \<open>The canonical key: the fields that are set, sorted and joined.\<close>

definition keyParts :: "unit_key \<Rightarrow> string list" where
  "keyParts k =
     (if keyCategory k \<noteq> [] then [''category='' @ keyCategory k] else []) @
     (if keyServer k \<noteq> [] then [''server='' @ keyServer k] else []) @
     (if keyTeam k \<noteq> [] then [''team='' @ keyTeam k] else []) @
     (if keyTrack k \<noteq> [] then [''track='' @ keyTrack k] else [])"

definition keyString :: "unit_key \<Rightarrow> string" where
  "keyString k = Join ''|'' (sort (keyParts k))"

record audio_verdict =
  avLang :: string
  avConfidence :: float64
  avVerified :: bool

record hardsub_verdict =
  hvPresent :: bool
  hvLang :: string
  hvConfidence :: float64
  hvVerified :: bool

record soft_track =
  stLang :: string
  stKind :: string

record sample_info =
  siFragments :: int
  siSpeechSeconds :: float64

record unit_verdict =
  uvKey :: unit_key
  uvEpisode :: int
  uvStatus :: string
  uvAudio :: "audio_verdict option"
  uvHardsub :: "hardsub_verdict option"
  uvSoftsubs :: "soft_track list"
  uvRawAudio :: bool
  uvEpisodes :: int
  uvProbedAt :: instant
  uvSample :: sample_info
  uvFails :: int
  uvRetryAfter :: duration

record verification =
  vfAnime :: string
  vfProvider :: string
  vfUnits :: "unit_verdict list"
  vfUpdatedAt :: instant

section \<open>Skip timings\<close>

definition SkipDetected :: string where "SkipDetected = ''detected''"
definition SkipNoMatch :: string where "SkipNoMatch = ''no_match''"
definition SkipPendingFP :: string where "SkipPendingFP = ''pending_fp''"
definition SkipUnreachable :: string where "SkipUnreachable = ''unreachable''"
definition SkipAniskip :: string where "SkipAniskip = ''aniskip''"
definition SkipKindOp :: string where "SkipKindOp = ''op''"
definition SkipKindEd :: string where "SkipKindEd = ''ed''"

lemmas skip_status_defs = SkipDetected_def SkipNoMatch_def SkipPendingFP_def SkipUnreachable_def
  SkipAniskip_def SkipKindOp_def SkipKindEd_def

record skip_timing =
  skAnime :: string
  skProvider :: string
  skTeam :: string
  skEpisode :: int
  skOpStart :: float64
  skOpEnd :: float64
  skEdStart :: float64
  skEdEnd :: float64
  skOpStatus :: string
  skEdStatus :: string
  skConfidence :: float64
  skPairTried :: bool
  skFails :: int
  skProbedAt :: instant

record fingerprint =
  fpAnime :: string
  fpKind :: string
  fpFp :: "int list"
  fpLength :: float64
  fpNote :: string
  fpCreatedAt :: instant

section \<open>Summary\<close>

record provider_summary =
  psStatus :: string
  psRaw :: bool
  psDubLangs :: "string list"
  psHardsubLangs :: "string list"
  psEpisodes :: int
  psUnreachable :: bool

text \<open>The state of the loop: a Go map used as a set is a list without duplicates.\<close>

record summary_acc =
  saRaw :: bool
  saDub :: "string list"
  saHard :: "string list"
  saVerified :: int
  saUnreachable :: int
  saEpisodes :: int

definition noteRaw :: "unit_verdict \<Rightarrow> summary_acc \<Rightarrow> summary_acc" where
  "noteRaw u a = (if uvStatus u = StatusVerified \<and> uvRawAudio u then a\<lparr>saRaw := True\<rparr> else a)"

definition noteAudio :: "unit_verdict \<Rightarrow> summary_acc \<Rightarrow> summary_acc" where
  "noteAudio u a = (case uvAudio u of None \<Rightarrow> a
     | Some v \<Rightarrow> if \<not> avVerified v then a
         else if avLang v = ''ja'' then a\<lparr>saRaw := True\<rparr>
         else if avLang v = ''en'' \<or> avLang v = ''ru'' then a\<lparr>saDub := List.insert (avLang v) (saDub a)\<rparr> else a)"

definition noteHardsub :: "unit_verdict \<Rightarrow> summary_acc \<Rightarrow> summary_acc" where
  "noteHardsub u a = (case uvHardsub u of None \<Rightarrow> a
     | Some h \<Rightarrow> if keyCategory (uvKey u) \<noteq> ''dub'' \<and> hvVerified h \<and> hvPresent h \<and> hvLang h \<noteq> []
         then a\<lparr>saHard := List.insert (hvLang h) (saHard a)\<rparr> else a)"

definition summaryStep :: "unit_verdict \<Rightarrow> summary_acc \<Rightarrow> summary_acc" where
  "summaryStep u a = noteHardsub u (noteAudio u (noteRaw u
     (a\<lparr>saVerified := (if uvStatus u = StatusVerified then saVerified a + 1 else saVerified a),
        saUnreachable := (if uvStatus u = StatusUnreachable then saUnreachable a + 1 else saUnreachable a),
        saEpisodes := max (saEpisodes a) (uvEpisodes u)\<rparr>)))"

definition Summarize :: "unit_verdict list \<Rightarrow> provider_summary" where
  "Summarize units =
    (if units = [] then \<lparr>psStatus = ''unverified'', psRaw = False, psDubLangs = [], psHardsubLangs = [],
        psEpisodes = 0, psUnreachable = False\<rparr>
     else
       let a = fold summaryStep units \<lparr>saRaw = False, saDub = [], saHard = [], saVerified = 0,
             saUnreachable = 0, saEpisodes = 0\<rparr>;
           dubs = sort (saDub a); hards = sort (saHard a)
       in \<lparr>psStatus =
            (if saVerified a = int (length units) then ''verified''
             else if saVerified a > 0 \<or> saRaw a \<or> dubs \<noteq> [] \<or> hards \<noteq> [] then ''partial''
             else ''unverified''),
           psRaw = saRaw a, psDubLangs = dubs, psHardsubLangs = hards, psEpisodes = saEpisodes a,
           psUnreachable = (saUnreachable a = int (length units))\<rparr>)"

section \<open>Facts\<close>

text \<open>The sort of the key parts is a formality: the parts are written in order.\<close>

lemma keyParts_sorted: "sorted (keyParts k)"
  by (auto simp: keyParts_def less_char_def less_eq_char_def)

lemma keyString_parts: "keyString k = Join ''|'' (keyParts k)"
  by (simp add: keyString_def sorted_sort_id keyParts_sorted)

section \<open>What a summary reports\<close>

definition claimsRaw :: "unit_verdict \<Rightarrow> bool" where
  "claimsRaw u \<longleftrightarrow> uvStatus u = StatusVerified \<and> uvRawAudio u \<or>
     (\<exists>v. uvAudio u = Some v \<and> avVerified v \<and> avLang v = ''ja'')"

definition dubsOf :: "unit_verdict list \<Rightarrow> string set" where
  "dubsOf us = {l \<in> {''en'', ''ru''}. \<exists>u\<in>set us. \<exists>v. uvAudio u = Some v \<and> avVerified v \<and> avLang v = l}"

definition hardsubsOf :: "unit_verdict list \<Rightarrow> string set" where
  "hardsubsOf us = {l. l \<noteq> [] \<and> (\<exists>u\<in>set us. keyCategory (uvKey u) \<noteq> ''dub'' \<and>
     (\<exists>h. uvHardsub u = Some h \<and> hvVerified h \<and> hvPresent h \<and> hvLang h = l))}"

text \<open>The loop, read as a fold over a growing prefix.\<close>

definition summary_ok :: "unit_verdict list \<Rightarrow> summary_acc \<Rightarrow> bool" where
  "summary_ok us a \<longleftrightarrow>
     (saRaw a \<longleftrightarrow> (\<exists>u\<in>set us. claimsRaw u)) \<and>
     set (saDub a) = dubsOf us \<and> distinct (saDub a) \<and>
     set (saHard a) = hardsubsOf us \<and> distinct (saHard a) \<and>
     saVerified a = int (length (filter (\<lambda>u. uvStatus u = StatusVerified) us)) \<and>
     saUnreachable a = int (length (filter (\<lambda>u. uvStatus u = StatusUnreachable) us)) \<and>
     saEpisodes a = fold max (map uvEpisodes us) 0"

lemma dubsOf_snoc: "dubsOf (us @ [u]) = dubsOf us \<union>
    (case uvAudio u of None \<Rightarrow> {} | Some v \<Rightarrow> if avVerified v \<and> avLang v \<in> {''en'', ''ru''} then {avLang v} else {})"
  by (auto simp: dubsOf_def split: option.split)

lemma hardsubsOf_snoc: "hardsubsOf (us @ [u]) = hardsubsOf us \<union>
    (case uvHardsub u of None \<Rightarrow> {} | Some h \<Rightarrow>
       if keyCategory (uvKey u) \<noteq> ''dub'' \<and> hvVerified h \<and> hvPresent h \<and> hvLang h \<noteq> [] then {hvLang h} else {})"
  by (auto simp: hardsubsOf_def split: option.split)

lemma summaryStep_raw: "saRaw (summaryStep u a) \<longleftrightarrow> saRaw a \<or> claimsRaw u"
  by (auto simp: summaryStep_def noteHardsub_def noteAudio_def noteRaw_def claimsRaw_def split: option.split)

lemma summaryStep_dub:
  "saDub (summaryStep u a) = (case uvAudio u of None \<Rightarrow> saDub a
     | Some v \<Rightarrow> if avVerified v \<and> avLang v \<in> {''en'', ''ru''} then List.insert (avLang v) (saDub a) else saDub a)"
  by (auto simp: summaryStep_def noteHardsub_def noteAudio_def noteRaw_def split: option.split)

lemma summaryStep_hard:
  "saHard (summaryStep u a) = (case uvHardsub u of None \<Rightarrow> saHard a
     | Some h \<Rightarrow> if keyCategory (uvKey u) \<noteq> ''dub'' \<and> hvVerified h \<and> hvPresent h \<and> hvLang h \<noteq> []
         then List.insert (hvLang h) (saHard a) else saHard a)"
proof -
  have "saHard (noteAudio u b) = saHard b" "saHard (noteRaw u b) = saHard b" for b
    by (auto simp: noteAudio_def noteRaw_def split: option.split)
  then show ?thesis by (auto simp: summaryStep_def noteHardsub_def split: option.split)
qed

lemma summaryStep_counts:
  "saVerified (summaryStep u a) = (if uvStatus u = StatusVerified then saVerified a + 1 else saVerified a)"
  "saUnreachable (summaryStep u a) = (if uvStatus u = StatusUnreachable then saUnreachable a + 1 else saUnreachable a)"
  "saEpisodes (summaryStep u a) = max (saEpisodes a) (uvEpisodes u)"
proof -
  have frame: "saVerified (noteHardsub u b) = saVerified b" "saVerified (noteAudio u b) = saVerified b"
      "saVerified (noteRaw u b) = saVerified b" "saUnreachable (noteHardsub u b) = saUnreachable b"
      "saUnreachable (noteAudio u b) = saUnreachable b" "saUnreachable (noteRaw u b) = saUnreachable b"
      "saEpisodes (noteHardsub u b) = saEpisodes b" "saEpisodes (noteAudio u b) = saEpisodes b"
      "saEpisodes (noteRaw u b) = saEpisodes b" for b
    by (auto simp: noteHardsub_def noteAudio_def noteRaw_def split: option.split)
  show "saVerified (summaryStep u a) = (if uvStatus u = StatusVerified then saVerified a + 1 else saVerified a)"
    "saUnreachable (summaryStep u a) = (if uvStatus u = StatusUnreachable then saUnreachable a + 1 else saUnreachable a)"
    "saEpisodes (summaryStep u a) = max (saEpisodes a) (uvEpisodes u)"
    by (simp_all add: summaryStep_def frame)
qed

lemma summaryStep_ok: "summary_ok us a \<Longrightarrow> summary_ok (us @ [u]) (summaryStep u a)"
  unfolding summary_ok_def dubsOf_snoc hardsubsOf_snoc summaryStep_raw summaryStep_dub summaryStep_hard summaryStep_counts
  by (cases "uvAudio u"; cases "uvHardsub u") (auto simp: max.commute)

lemma summary_fold_ok: "summary_ok us (fold summaryStep us
    \<lparr>saRaw = False, saDub = [], saHard = [], saVerified = 0, saUnreachable = 0, saEpisodes = 0\<rparr>)"
proof (induction us rule: rev_induct)
  case Nil
  show ?case by (simp add: summary_ok_def dubsOf_def hardsubsOf_def)
qed (simp add: summaryStep_ok)

lemma all_counted: "int (length (filter P us)) = int (length us) \<longleftrightarrow> (\<forall>u\<in>set us. P u)"
  by (metis filter_id_conv length_filter_less nat_neq_iff of_nat_eq_iff)

lemma some_counted: "0 < int (length (filter P us)) \<longleftrightarrow> (\<exists>u\<in>set us. P u)"
  by (auto simp: filter_empty_conv)

lemma sort_set: "distinct xs \<Longrightarrow> sort xs = sorted_list_of_set (set xs)"
  by (simp add: sorted_list_of_set_sort_remdups distinct_remdups_id)

end
