(* ===== verification/CV_Store.thy ===== *)
theory CV_Store
  imports CV_Domain Fallible_Store "HOL-Library.Product_Lexorder"
begin

text \<open>
  The tables of content-verify and their repository (\<^verbatim>\<open>internal/repo\<close>). \<^verbatim>\<open>UpsertUnit\<close> and \<^verbatim>\<open>UpsertSkip\<close>
  are two commands each: the row is read, changed in memory and written as a whole, with no transaction
  around it. Inserting a row whose unique key is taken is an error of the database.
\<close>

record cvdb =
  cvRows :: "verification list"
  cvSkips :: "skip_timing list"
  cvPrints :: "fingerprint list"

section \<open>Verdicts\<close>

definition isRow :: "string \<Rightarrow> string \<Rightarrow> verification \<Rightarrow> bool" where
  "isRow animeID provider r \<longleftrightarrow> vfAnime r = animeID \<and> vfProvider r = provider"

definition store_Get :: "string \<Rightarrow> string \<Rightarrow> ('z cvdb_scheme, verification option) prog" where
  "store_Get animeID provider = query (\<lambda>d. List.find (isRow animeID provider) (cvRows d))"

definition ByAnime :: "string \<Rightarrow> ('z cvdb_scheme, verification list) prog" where
  "ByAnime animeID = query (\<lambda>d. sort_key vfProvider (filter (\<lambda>r. vfAnime r = animeID) (cvRows d)))"

text \<open>The loop over the units: the first one with the key is replaced, else the verdict is appended.\<close>

fun replaceUnit :: "string \<Rightarrow> unit_verdict \<Rightarrow> unit_verdict list \<Rightarrow> unit_verdict list option" where
  "replaceUnit key v [] = None"
| "replaceUnit key v (u # us) =
    (if keyString (uvKey u) = key then Some (v # us) else map_option ((#) u) (replaceUnit key v us))"

definition mergeUnit :: "unit_verdict \<Rightarrow> unit_verdict list \<Rightarrow> unit_verdict list" where
  "mergeUnit v us = (case replaceUnit (keyString (uvKey v)) v us of Some us' \<Rightarrow> us' | None \<Rightarrow> us @ [v])"

text \<open>\<^verbatim>\<open>Save\<close>: an update of the row that was read, or an insert.\<close>

definition saveRow :: "instant \<Rightarrow> string \<Rightarrow> string \<Rightarrow> unit_verdict \<Rightarrow> verification option \<Rightarrow> ('z cvdb_scheme, unit) prog" where
  "saveRow now animeID provider v old = command (\<lambda>d. case old of
     Some r \<Rightarrow> (Inr (), d\<lparr>cvRows := map (\<lambda>x. if isRow animeID provider x
         then r\<lparr>vfUnits := mergeUnit v (vfUnits r), vfUpdatedAt := now\<rparr> else x) (cvRows d)\<rparr>)
   | None \<Rightarrow> if list_ex (isRow animeID provider) (cvRows d) then (Inl StoreFault, d)
       else (Inr (), d\<lparr>cvRows := cvRows d @ [\<lparr>vfAnime = animeID, vfProvider = provider,
         vfUnits = mergeUnit v [], vfUpdatedAt = now\<rparr>]\<rparr>))"

definition UpsertUnit :: "instant \<Rightarrow> string \<Rightarrow> string \<Rightarrow> unit_verdict \<Rightarrow> ('z cvdb_scheme, unit) prog" where
  "UpsertUnit now animeID provider v = bnd (store_Get animeID provider) (saveRow now animeID provider v)"

section \<open>Skip timings and fingerprints\<close>

definition skipKey :: "skip_timing \<Rightarrow> string \<times> string \<times> string \<times> int" where
  "skipKey t = (skAnime t, skProvider t, skTeam t, skEpisode t)"

definition SkipByAnime :: "string \<Rightarrow> ('z cvdb_scheme, skip_timing list) prog" where
  "SkipByAnime animeID = query (\<lambda>d. sort_key (\<lambda>t. (skProvider t, skTeam t, skEpisode t))
     (filter (\<lambda>t. skAnime t = animeID) (cvSkips d)))"

definition saveSkip :: "skip_timing \<Rightarrow> bool \<Rightarrow> ('z cvdb_scheme, unit) prog" where
  "saveSkip t known = command (\<lambda>d.
     if known then (Inr (), d\<lparr>cvSkips := map (\<lambda>x. if skipKey x = skipKey t then t else x) (cvSkips d)\<rparr>)
     else if skipKey t \<in> set (map skipKey (cvSkips d)) then (Inl StoreFault, d)
     else (Inr (), d\<lparr>cvSkips := cvSkips d @ [t]\<rparr>))"

definition UpsertSkip :: "skip_timing \<Rightarrow> ('z cvdb_scheme, unit) prog" where
  "UpsertSkip t = bnd (query (\<lambda>d. skipKey t \<in> set (map skipKey (cvSkips d)))) (saveSkip t)"

definition Fingerprints :: "string \<Rightarrow> ('z cvdb_scheme, fingerprint list) prog" where
  "Fingerprints animeID = query (\<lambda>d. sort_key fpCreatedAt (filter (\<lambda>f. fpAnime f = animeID) (cvPrints d)))"

definition AddFingerprint :: "fingerprint \<Rightarrow> ('z cvdb_scheme, unit) prog" where
  "AddFingerprint f = command (\<lambda>d. (Inr (), d\<lparr>cvPrints := cvPrints d @ [f]\<rparr>))"

section \<open>Facts\<close>

definition rows_ok :: "verification list \<Rightarrow> bool" where
  "rows_ok rs \<longleftrightarrow> distinct (map (\<lambda>r. (vfAnime r, vfProvider r)) rs) \<and>
     (\<forall>r\<in>set rs. distinct (map (keyString \<circ> uvKey) (vfUnits r)))"

definition skips_ok :: "skip_timing list \<Rightarrow> bool" where
  "skips_ok ts \<longleftrightarrow> distinct (map skipKey ts)"

lemma replaceUnit_None: "replaceUnit key v us = None \<longleftrightarrow> key \<notin> set (map (keyString \<circ> uvKey) us)"
  by (induction us) auto

lemma replaceUnit_Some:
  "replaceUnit key v us = Some us' \<Longrightarrow> keyString (uvKey v) = key \<Longrightarrow>
     map (keyString \<circ> uvKey) us' = map (keyString \<circ> uvKey) us \<and> v \<in> set us' \<and>
     (\<forall>u\<in>set us. keyString (uvKey u) \<noteq> key \<longrightarrow> u \<in> set us') \<and> (\<forall>u\<in>set us'. u = v \<or> u \<in> set us)"
  by (induction us arbitrary: us') (auto split: if_splits)

lemma mergeUnit_keys: "distinct (map (keyString \<circ> uvKey) us) \<Longrightarrow> distinct (map (keyString \<circ> uvKey) (mergeUnit v us))"
  by (auto simp: mergeUnit_def replaceUnit_None dest: replaceUnit_Some split: option.split)

lemma mergeUnit_mem: "v \<in> set (mergeUnit v us)"
  by (auto simp: mergeUnit_def dest: replaceUnit_Some split: option.split)

lemma mergeUnit_other:
  "keyString (uvKey u) \<noteq> keyString (uvKey v) \<Longrightarrow> u \<in> set (mergeUnit v us) \<longleftrightarrow> u \<in> set us"
  by (auto simp: mergeUnit_def replaceUnit_None dest: replaceUnit_Some split: option.split)

lemma mergeUnit_unique:
  assumes "distinct (map (keyString \<circ> uvKey) us)" "u \<in> set (mergeUnit v us)" "keyString (uvKey u) = keyString (uvKey v)"
  shows "u = v"
proof -
  have "inj_on (keyString \<circ> uvKey) (set (mergeUnit v us))"
    using mergeUnit_keys [OF assms(1), of v] by (simp add: distinct_map)
  with mergeUnit_mem [of v us] assms(2,3) show ?thesis by (metis comp_apply inj_onD)
qed

lemma find_row:
  "rows_ok rs \<Longrightarrow> List.find (isRow a p) rs = Some r \<longleftrightarrow> r \<in> set rs \<and> isRow a p r"
  by (induction rs) (auto simp: rows_ok_def isRow_def)

lemma find_none: "List.find (isRow a p) rs = None \<longleftrightarrow> (\<forall>r\<in>set rs. \<not> isRow a p r)"
  by (auto simp: find_None_iff)

text \<open>An upsert keeps the tables well formed, whatever fails, and stores the verdict when nothing does.\<close>

lemma rows_ok_update:
  assumes "rows_ok rs" "isRow a p r'" "distinct (map (keyString \<circ> uvKey) (vfUnits r'))"
  shows "rows_ok (map (\<lambda>x. if isRow a p x then r' else x) rs)"
proof -
  have "map (\<lambda>r. (vfAnime r, vfProvider r)) (map (\<lambda>x. if isRow a p x then r' else x) rs) =
      map (\<lambda>r. (vfAnime r, vfProvider r)) rs"
    using assms(2) by (auto simp: isRow_def)
  moreover have "\<forall>r\<in>set (map (\<lambda>x. if isRow a p x then r' else x) rs). distinct (map (keyString \<circ> uvKey) (vfUnits r))"
    using assms(1,3) by (auto simp: rows_ok_def)
  ultimately show ?thesis using assms(1) unfolding rows_ok_def by (simp only:)
qed

lemma rows_ok_insert:
  assumes "rows_ok rs" "\<not> list_ex (isRow a p) rs" "isRow a p r" "distinct (map (keyString \<circ> uvKey) (vfUnits r))"
  shows "rows_ok (rs @ [r])"
  using assms by (auto simp: rows_ok_def isRow_def list_ex_iff)

lemma saveRow_rows_ok:
  assumes "rows_ok (cvRows d)" "\<And>r. old = Some r \<Longrightarrow> isRow a p r \<and> distinct (map (keyString \<circ> uvKey) (vfUnits r))"
  shows "wp (saveRow now a p v old) (\<lambda>_ d'. rows_ok (cvRows d')) (\<lambda>_ d'. rows_ok (cvRows d')) d"
proof (cases old)
  case None
  show ?thesis
    unfolding saveRow_def None using assms(1)
    by (intro wp_command) (auto intro!: rows_ok_insert [of _ a p] simp: isRow_def mergeUnit_def split: if_splits)
next
  case (Some r)
  have r: "isRow a p r" "distinct (map (keyString \<circ> uvKey) (vfUnits r))" using assms(2) [OF Some] by auto
  have "rows_ok (map (\<lambda>x. if isRow a p x then r\<lparr>vfUnits := mergeUnit v (vfUnits r), vfUpdatedAt := now\<rparr> else x) (cvRows d))"
    by (rule rows_ok_update [OF assms(1)]) (use r mergeUnit_keys [OF r(2), of v] in \<open>simp_all add: isRow_def\<close>)
  then show ?thesis
    unfolding saveRow_def Some using assms(1) by (intro wp_command) auto
qed

definition stored :: "string \<Rightarrow> string \<Rightarrow> verification list \<Rightarrow> unit_verdict list" where
  "stored a p rs = (case List.find (isRow a p) rs of None \<Rightarrow> [] | Some r \<Rightarrow> vfUnits r)"

end
