(* ===== verification/Go_Sort.thy ===== *)
theory Go_Sort
  imports "HOL-Library.Multiset"
begin

text \<open>
  \<^verbatim>\<open>sort.SliceStable\<close> with a caller's \<^verbatim>\<open>less\<close>. Its contract asks that \<^verbatim>\<open>less\<close> is a strict weak order; the
  result is then determined: a permutation without inversions that keeps equivalent elements in order.
\<close>

primrec insertStable :: "('a \<Rightarrow> 'a \<Rightarrow> bool) \<Rightarrow> 'a \<Rightarrow> 'a list \<Rightarrow> 'a list" where
  "insertStable before x [] = [x]"
| "insertStable before x (y # ys) = (if before y x then y # insertStable before x ys else x # y # ys)"

definition SliceStable :: "('a \<Rightarrow> 'a \<Rightarrow> bool) \<Rightarrow> 'a list \<Rightarrow> 'a list" where
  "SliceStable before xs = foldr (insertStable before) xs []"

lemma mset_insertStable [simp]: "mset (insertStable before x ys) = add_mset x (mset ys)"
  by (induction ys) auto

lemma mset_SliceStable [simp]: "mset (SliceStable before xs) = mset xs"
  by (induction xs) (simp_all add: SliceStable_def)

lemma set_SliceStable [simp]: "set (SliceStable before xs) = set xs"
  by (metis mset_SliceStable set_mset_mset)

lemma length_SliceStable [simp]: "length (SliceStable before xs) = length xs"
  by (metis mset_SliceStable size_mset)

lemma SliceStable_Cons: "SliceStable before (x # xs) = insertStable before x (SliceStable before xs)"
  by (simp add: SliceStable_def)

text \<open>A list is in order when no element is less than one before it.\<close>

abbreviation in_order :: "('a \<Rightarrow> 'a \<Rightarrow> bool) \<Rightarrow> 'a list \<Rightarrow> bool" where
  "in_order before \<equiv> sorted_wrt (\<lambda>x y. \<not> before y x)"

locale weak_order =
  fixes A :: "'a set" and before :: "'a \<Rightarrow> 'a \<Rightarrow> bool"
  assumes asym: "a \<in> A \<Longrightarrow> b \<in> A \<Longrightarrow> before a b \<Longrightarrow> \<not> before b a"
    and co_trans: "a \<in> A \<Longrightarrow> b \<in> A \<Longrightarrow> c \<in> A \<Longrightarrow> \<not> before a b \<Longrightarrow> \<not> before b c \<Longrightarrow> \<not> before a c"
begin

lemma insert_in_order: "x \<in> A \<Longrightarrow> set ys \<subseteq> A \<Longrightarrow> in_order before ys \<Longrightarrow> in_order before (insertStable before x ys)"
proof (induction ys)
  case (Cons y ys)
  show ?case
  proof (cases "before y x")
    case True
    have "set (insertStable before x ys) = insert x (set ys)"
      by (metis mset_insertStable set_mset_add_mset_insert set_mset_mset)
    moreover have "\<not> before x y" using asym [of y x] Cons.prems True by auto
    ultimately show ?thesis using True Cons by auto
  next
    case False
    have "\<not> before z x" if "z \<in> set ys" for z
      using co_trans [of z y x] False Cons.prems that by auto
    with False Cons.prems show ?thesis by auto
  qed
qed simp

lemma sorted_slice: "set xs \<subseteq> A \<Longrightarrow> in_order before (SliceStable before xs)"
  by (induction xs) (simp_all add: SliceStable_def [of before "[]"] SliceStable_Cons insert_in_order)

text \<open>Equivalent elements keep their order.\<close>

lemma insert_stable:
  assumes "x \<in> A" "z \<in> A" "set ys \<subseteq> A" "in_order before ys"
  shows "filter (\<lambda>y. \<not> before y z \<and> \<not> before z y) (insertStable before x ys) =
    filter (\<lambda>y. \<not> before y z \<and> \<not> before z y) (x # ys)"
  using assms
proof (induction ys)
  case (Cons y ys)
  show ?case
  proof (cases "before y x")
    case True
    have "before y z \<or> before z y \<or> before x z \<or> before z x"
      using co_trans [of y z x] True Cons.prems by auto
    with True Cons show ?thesis by auto
  qed simp
qed simp

lemma slice_stable:
  "set xs \<subseteq> A \<Longrightarrow> z \<in> A \<Longrightarrow>
   filter (\<lambda>y. \<not> before y z \<and> \<not> before z y) (SliceStable before xs) = filter (\<lambda>y. \<not> before y z \<and> \<not> before z y) xs"
proof (induction xs)
  case (Cons x xs)
  then show ?case
    using insert_stable [of x z "SliceStable before xs"] sorted_slice [of xs] by (simp add: SliceStable_Cons)
qed (simp add: SliceStable_def)

end

end
