(* ===== verification/CV_Queue.thy ===== *)
theory CV_Queue
  imports CV_Store Go_Sort
begin

text \<open>
  \<^verbatim>\<open>internal/queue/queue.go\<close>: candidates with their bands, the order inside a band, the lottery for the
  first band, the merge of the interest snapshot, backoff, and which units are due.
\<close>

section \<open>Bands\<close>

datatype band = BandPinned | BandOngoing | BandWatchedTop | BandIdle

record candidate =
  cdAnime :: string
  cdName :: string
  cdOngoing :: bool
  cdTop :: bool
  cdPinned :: bool
  cdVisitors :: int
  cdEpisodesAired :: int
  cdMalScore :: float64
  cdTopRank :: int
  cdNextEpisodeAt :: "instant option"
  cdPlanners :: int
  cdIdle :: bool

definition BandOf :: "candidate \<Rightarrow> band" where
  "BandOf c = (if cdPinned c then BandPinned else if cdOngoing c then BandOngoing
     else if cdVisitors c > 0 \<or> cdTop c then BandWatchedTop else BandIdle)"

definition freshBoost :: "candidate \<Rightarrow> instant \<Rightarrow> duration \<Rightarrow> bool" where
  "freshBoost c now window = (case cdNextEpisodeAt c of None \<Rightarrow> False
     | Some t \<Rightarrow> let d = t - now in (if d < 0 then - d else d) \<le> window)"

definition IntraLess :: "candidate \<Rightarrow> candidate \<Rightarrow> instant \<Rightarrow> duration \<Rightarrow> bool" where
  "IntraLess a b now freshWindow = (case BandOf a of
     BandOngoing \<Rightarrow>
       let af = freshBoost a now freshWindow; bf = freshBoost b now freshWindow in
       if af \<noteq> bf then af
       else if cdVisitors a \<noteq> cdVisitors b then cdVisitors a > cdVisitors b
       else flt (cdMalScore b) (cdMalScore a)
   | BandWatchedTop \<Rightarrow>
       if cdVisitors a \<noteq> cdVisitors b then cdVisitors a > cdVisitors b
       else
         let aRanked = cdTopRank a > 0; bRanked = cdTopRank b > 0 in
         if aRanked \<noteq> bRanked then aRanked
         else if aRanked \<and> cdTopRank a \<noteq> cdTopRank b then cdTopRank a < cdTopRank b
         else flt (cdMalScore b) (cdMalScore a)
   | _ \<Rightarrow>
       if cdPlanners a \<noteq> cdPlanners b then cdPlanners a > cdPlanners b
       else flt (cdMalScore b) (cdMalScore a))"

type_synonym band_weights = "int \<times> int \<times> int"

definition weightedPick :: "band_weights \<Rightarrow> float64 \<Rightarrow> band" where
  "weightedPick w r = (case w of (w0, w1, w2) \<Rightarrow>
     let total = w0 + w1 + w2 in
     if total \<le> 0 then BandOngoing
     else
       let x = fmul r (fin (of_int total)) in
       if flt x (fin (of_int w0)) then BandOngoing
       else if flt x (fin (of_int (w0 + w1))) then BandWatchedTop
       else BandIdle)"

definition bandOrder :: "band_weights \<Rightarrow> float64 \<Rightarrow> band list" where
  "bandOrder w r =
    (let primary = weightedPick w r in
     [BandPinned, primary] @ filter (\<lambda>b. b \<noteq> primary) [BandOngoing, BandWatchedTop, BandIdle])"

definition CooldownTTL :: "band \<Rightarrow> duration \<Rightarrow> duration" where
  "CooldownTTL b idle = (case b of BandOngoing \<Rightarrow> 6 * Hour | BandPinned \<Rightarrow> 6 * Hour
     | BandWatchedTop \<Rightarrow> 24 * Hour | BandIdle \<Rightarrow> idle)"

section \<open>Candidates\<close>

text \<open>The interest snapshot of the catalog (\<^verbatim>\<open>catalogclient\<close>).\<close>

record interest_row =
  itID :: string
  itName :: string
  itEpisodesAired :: int
  itScore :: float64
  itNextEpisodeAt :: "instant option"
  itTopRank :: int
  itPlanners :: int

record interest =
  inOngoing :: "interest_row list"
  inTop :: "interest_row list"
  inPlanned :: "interest_row list"
  inIdleWindow :: "interest_row list"
  inIdleTotal :: int

definition newCandidate :: "string \<Rightarrow> candidate" where
  "newCandidate i = \<lparr>cdAnime = i, cdName = [], cdOngoing = False, cdTop = False, cdPinned = False,
     cdVisitors = 0, cdEpisodesAired = 0, cdMalScore = Fin 0, cdTopRank = 0, cdNextEpisodeAt = None,
     cdPlanners = 0, cdIdle = False\<rparr>"

text \<open>\<^verbatim>\<open>get\<close> followed by an update of what it points to; the map is a list in order of insertion.\<close>

fun withCandidate :: "string \<Rightarrow> (candidate \<Rightarrow> candidate) \<Rightarrow> candidate list \<Rightarrow> candidate list" where
  "withCandidate i f [] = [f (newCandidate i)]"
| "withCandidate i f (c # cs) = (if cdAnime c = i then f c # cs else c # withCandidate i f cs)"

definition setCandidateName :: "string \<Rightarrow> candidate \<Rightarrow> candidate" where
  "setCandidateName n c = (if cdName c = [] then c\<lparr>cdName := n\<rparr> else c)"

definition setScore :: "float64 \<Rightarrow> candidate \<Rightarrow> candidate" where
  "setScore s c = (if flt (Fin 0) s then c\<lparr>cdMalScore := s\<rparr> else c)"

definition fromOngoing :: "interest_row \<Rightarrow> candidate \<Rightarrow> candidate" where
  "fromOngoing r c = (let c = setCandidateName (itName r) c in
     c\<lparr>cdOngoing := True, cdEpisodesAired := max (cdEpisodesAired c) (itEpisodesAired r),
       cdMalScore := itScore r, cdNextEpisodeAt := itNextEpisodeAt r\<rparr>)"

definition fromTop :: "interest_row \<Rightarrow> candidate \<Rightarrow> candidate" where
  "fromTop r c = (let c = setCandidateName (itName r) c in
     setScore (itScore r) (c\<lparr>cdTop := True, cdTopRank := itTopRank r,
       cdEpisodesAired := max (cdEpisodesAired c) (itEpisodesAired r)\<rparr>))"

definition fromPlanned :: "interest_row \<Rightarrow> candidate \<Rightarrow> candidate" where
  "fromPlanned r c = (let c = setCandidateName (itName r) c in
     setScore (itScore r) (c\<lparr>cdIdle := True, cdPlanners := itPlanners r,
       cdEpisodesAired := max (cdEpisodesAired c) (itEpisodesAired r)\<rparr>))"

definition fromIdleWindow :: "interest_row \<Rightarrow> candidate \<Rightarrow> candidate" where
  "fromIdleWindow r c = (let c = setCandidateName (itName r) c in
     setScore (itScore r) (c\<lparr>cdIdle := True,
       cdTopRank := (if cdTopRank c = 0 then itTopRank r else cdTopRank c),
       cdEpisodesAired := max (cdEpisodesAired c) (itEpisodesAired r)\<rparr>))"

definition mergeRows :: "(interest_row \<Rightarrow> candidate \<Rightarrow> candidate) \<Rightarrow> interest_row list \<Rightarrow> candidate list \<Rightarrow> candidate list" where
  "mergeRows f = fold (\<lambda>r. withCandidate (itID r) (f r))"

definition byInterest :: "interest option \<Rightarrow> candidate list" where
  "byInterest it = (case it of None \<Rightarrow> []
     | Some i \<Rightarrow> mergeRows fromIdleWindow (inIdleWindow i) (mergeRows fromPlanned (inPlanned i)
         (mergeRows fromTop (inTop i) (mergeRows fromOngoing (inOngoing i) []))))"

text \<open>\<open>iter\<close> is the order in which \<^verbatim>\<open>range\<close> visits the map, which Go leaves open.\<close>

definition BuildCandidates ::
  "(candidate list \<Rightarrow> candidate list) \<Rightarrow> interest option \<Rightarrow> string list \<Rightarrow> (string \<times> string) list \<Rightarrow> (string \<Rightarrow> int) \<Rightarrow> candidate list" where
  "BuildCandidates iter it visited pins visitors =
    (let cs = fold (\<lambda>i. withCandidate i (\<lambda>c. c)) visited (byInterest it);
         cs = fold (\<lambda>p. withCandidate (fst p) (\<lambda>c. c\<lparr>cdPinned := True\<rparr>)) pins cs
     in map (\<lambda>c. c\<lparr>cdVisitors := visitors (cdAnime c)\<rparr>) (iter cs))"

section \<open>Backoff and due units\<close>

definition backoffBase :: duration where "backoffBase = 6 * Hour"
definition backoffCap :: duration where "backoffCap = 168 * Hour"

function backoffLoop :: "int \<Rightarrow> int \<Rightarrow> duration \<Rightarrow> duration" where
  "backoffLoop i fails d =
    (if i < fails then let d = d * 2 in if d \<ge> backoffCap then backoffCap else backoffLoop (i + 1) fails d
     else d)"
  by pat_completeness auto
termination by (relation "measure (\<lambda>(i, fails, _). nat (fails - i))") auto

declare backoffLoop.simps [simp del]

definition Backoff :: "int \<Rightarrow> duration" where
  "Backoff fails = (let fails = (if fails < 1 then 1 else fails) in backoffLoop 1 fails backoffBase)"

record cv_unit =
  unAnime :: string
  unProvider :: string
  unKey :: unit_key
  unEpisode :: int
  unEpisodes :: int
  unEpisodeID :: string
  unStateRank :: int
  unBand :: band

definition UnitDue :: "cv_unit \<Rightarrow> unit_verdict option \<Rightarrow> instant \<Rightarrow> duration \<Rightarrow> bool" where
  "UnitDue u prev now reprobeTTL = (case prev of None \<Rightarrow> True
     | Some v \<Rightarrow>
        if unEpisode u > uvEpisode v then True
        else if uvStatus v = StatusUnreachable then TimeAfter now (uvProbedAt v + Backoff (uvFails v))
        else TimeAfter now (uvProbedAt v + reprobeTTL))"

definition unitIndex :: "verification list \<Rightarrow> string \<rightharpoonup> unit_verdict" where
  "unitIndex rows = fold (\<lambda>r. fold (\<lambda>u m. m(vfProvider r @ ''|'' @ keyString (uvKey u) \<mapsto> u)) (vfUnits r)) rows Map.empty"

definition PendingUnits :: "cv_unit list \<Rightarrow> verification list \<Rightarrow> instant \<Rightarrow> duration \<Rightarrow> cv_unit list" where
  "PendingUnits units rows now ttl =
     filter (\<lambda>u. UnitDue u (unitIndex rows (unProvider u @ ''|'' @ keyString (unKey u))) now ttl) units"

section \<open>Facts about backoff\<close>

lemmas hour_defs = backoffBase_def backoffCap_def Hour_def Minute_def Second_def

text \<open>Five doublings reach the cap, so the loop ends long before \<open>fails\<close> and never overflows.\<close>

lemma backoffLoop_unfold:
  "backoffLoop i fails d = (if i < fails then (if d * 2 \<ge> backoffCap then backoffCap else backoffLoop (i + 1) fails (d * 2)) else d)"
  by (subst backoffLoop.simps) (simp add: Let_def)

lemma Backoff_table:
  "Backoff n = (if n \<le> 1 then 6 * Hour else if n = 2 then 12 * Hour else if n = 3 then 24 * Hour
     else if n = 4 then 48 * Hour else if n = 5 then 96 * Hour else 168 * Hour)"
  unfolding Backoff_def Let_def
  by (subst backoffLoop_unfold, subst backoffLoop_unfold, subst backoffLoop_unfold, subst backoffLoop_unfold,
      subst backoffLoop_unfold, simp add: hour_defs)

lemma Backoff_range: "6 * Hour \<le> Backoff n" "Backoff n \<le> 168 * Hour"
  by (simp_all add: Backoff_table hour_defs)

section \<open>The order inside a band\<close>

text \<open>Scores come from JSON, so they are finite.\<close>

definition scored :: "candidate \<Rightarrow> bool" where
  "scored c \<longleftrightarrow> (\<exists>q. cdMalScore c = Fin q)"

lemma IntraLess_ongoing: "BandOf a = BandOngoing \<Longrightarrow> IntraLess a b now w \<longleftrightarrow>
   (freshBoost a now w \<and> \<not> freshBoost b now w) \<or>
   (freshBoost a now w = freshBoost b now w \<and>
     (cdVisitors b < cdVisitors a \<or> cdVisitors b = cdVisitors a \<and> flt (cdMalScore b) (cdMalScore a)))"
  by (auto simp: IntraLess_def Let_def)

lemma IntraLess_watched: "BandOf a = BandWatchedTop \<Longrightarrow> IntraLess a b now w \<longleftrightarrow>
   cdVisitors b < cdVisitors a \<or> cdVisitors b = cdVisitors a \<and>
     (if 0 < cdTopRank a \<and> 0 < cdTopRank b then cdTopRank a < cdTopRank b \<or>
          cdTopRank a = cdTopRank b \<and> flt (cdMalScore b) (cdMalScore a)
      else if 0 < cdTopRank a then True else if 0 < cdTopRank b then False
      else flt (cdMalScore b) (cdMalScore a))"
  by (auto simp: IntraLess_def Let_def)

lemma IntraLess_other: "BandOf a = BandPinned \<or> BandOf a = BandIdle \<Longrightarrow> IntraLess a b now w \<longleftrightarrow>
   cdPlanners b < cdPlanners a \<or> cdPlanners b = cdPlanners a \<and> flt (cdMalScore b) (cdMalScore a)"
  by (auto simp: IntraLess_def)

lemma IntraLess_asym:
  assumes "BandOf a = b" "BandOf c = b" "scored a" "scored c" "IntraLess a c now w"
  shows "\<not> IntraLess c a now w"
proof -
  obtain p q where f: "cdMalScore a = Fin p" "cdMalScore c = Fin q" using assms(3,4) by (auto simp: scored_def)
  show ?thesis
  proof (cases b)
    case BandOngoing
    with assms(1,2) have k: "BandOf a = BandOngoing" "BandOf c = BandOngoing" by simp_all
    from assms(5) show ?thesis
      unfolding IntraLess_ongoing [OF k(1)] IntraLess_ongoing [OF k(2)] f flt.simps by linarith
  next
    case BandWatchedTop
    with assms(1,2) have k: "BandOf a = BandWatchedTop" "BandOf c = BandWatchedTop" by simp_all
    show ?thesis
      using assms(5) unfolding IntraLess_watched [OF k(1)] IntraLess_watched [OF k(2)] f flt.simps
      by (cases "0 < cdTopRank a"; cases "0 < cdTopRank c") (simp_all, linarith+)
  next
    case BandPinned
    with assms(1,2) have k: "BandOf a = BandPinned \<or> BandOf a = BandIdle" "BandOf c = BandPinned \<or> BandOf c = BandIdle" by simp_all
    from assms(5) show ?thesis
      unfolding IntraLess_other [OF k(1)] IntraLess_other [OF k(2)] f flt.simps by linarith
  next
    case BandIdle
    with assms(1,2) have k: "BandOf a = BandPinned \<or> BandOf a = BandIdle" "BandOf c = BandPinned \<or> BandOf c = BandIdle" by simp_all
    from assms(5) show ?thesis
      unfolding IntraLess_other [OF k(1)] IntraLess_other [OF k(2)] f flt.simps by linarith
  qed
qed

lemma IntraLess_co_trans:
  assumes "BandOf a = b" "BandOf c = b" "BandOf d = b" "scored a" "scored c" "scored d"
    "\<not> IntraLess a c now w" "\<not> IntraLess c d now w"
  shows "\<not> IntraLess a d now w"
proof -
  obtain p q r where f: "cdMalScore a = Fin p" "cdMalScore c = Fin q" "cdMalScore d = Fin r"
    using assms(4,5,6) by (auto simp: scored_def)
  show ?thesis
  proof (cases b)
    case BandOngoing
    with assms(1,2) have k: "BandOf a = BandOngoing" "BandOf c = BandOngoing" by simp_all
    from assms(7,8) show ?thesis
      unfolding IntraLess_ongoing [OF k(1)] IntraLess_ongoing [OF k(2)] f flt.simps
      by (cases "freshBoost a now w"; cases "freshBoost c now w"; cases "freshBoost d now w") auto
  next
    case BandWatchedTop
    with assms(1,2) have k: "BandOf a = BandWatchedTop" "BandOf c = BandWatchedTop" by simp_all
    from assms(7,8) show ?thesis
      unfolding IntraLess_watched [OF k(1)] IntraLess_watched [OF k(2)] f flt.simps
      by (cases "0 < cdTopRank a"; cases "0 < cdTopRank c"; cases "0 < cdTopRank d") auto
  next
    case BandPinned
    with assms(1,2) have k: "BandOf a = BandPinned \<or> BandOf a = BandIdle" "BandOf c = BandPinned \<or> BandOf c = BandIdle" by simp_all
    from assms(7,8) show ?thesis
      unfolding IntraLess_other [OF k(1)] IntraLess_other [OF k(2)] f flt.simps by linarith
  next
    case BandIdle
    with assms(1,2) have k: "BandOf a = BandPinned \<or> BandOf a = BandIdle" "BandOf c = BandPinned \<or> BandOf c = BandIdle" by simp_all
    from assms(7,8) show ?thesis
      unfolding IntraLess_other [OF k(1)] IntraLess_other [OF k(2)] f flt.simps by linarith
  qed
qed

interpretation band_order: weak_order "{c. BandOf c = b \<and> scored c}" "\<lambda>a c. IntraLess a c now w"
  for b now w
  proof
  show "\<not> IntraLess c a now w" if "a \<in> {c. BandOf c = b \<and> scored c}" "c \<in> {c. BandOf c = b \<and> scored c}"
    "IntraLess a c now w" for a c
    using that IntraLess_asym [of a b c now w] by auto
  show "\<not> IntraLess a d now w" if "a \<in> {c. BandOf c = b \<and> scored c}" "c \<in> {c. BandOf c = b \<and> scored c}"
    "d \<in> {c. BandOf c = b \<and> scored c}" "\<not> IntraLess a c now w" "\<not> IntraLess c d now w" for a c d
    using that IntraLess_co_trans [of a b c d now w] by auto
qed

section \<open>The queue of a claim\<close>

definition bandedOrder :: "band_weights \<Rightarrow> float64 \<Rightarrow> instant \<Rightarrow> duration \<Rightarrow> candidate list \<Rightarrow> candidate list" where
  "bandedOrder w r now freshWindow cands = concat (map
     (\<lambda>b. SliceStable (\<lambda>x y. IntraLess x y now freshWindow) (filter (\<lambda>c. BandOf c = b) cands)) (bandOrder w r))"

lemma weightedPick_organic: "weightedPick w r \<noteq> BandPinned"
  by (auto simp: weightedPick_def Let_def split: prod.split)

lemma bandOrder_bands: "distinct (bandOrder w r)" "set (bandOrder w r) = UNIV"
proof -
  have "weightedPick w r = BandOngoing \<or> weightedPick w r = BandWatchedTop \<or> weightedPick w r = BandIdle"
    using weightedPick_organic [of w r] by (cases "weightedPick w r") auto
  moreover have "UNIV = {BandPinned, BandOngoing, BandWatchedTop, BandIdle}"
    by (auto intro: band.exhaust)
  ultimately show "distinct (bandOrder w r)" "set (bandOrder w r) = UNIV"
    by (auto simp: bandOrder_def Let_def)
qed

lemma mset_split_bands:
  "distinct bs \<Longrightarrow> (\<And>c. c \<in> set cs \<Longrightarrow> BandOf c \<in> set bs) \<Longrightarrow>
   mset (concat (map (\<lambda>b. SliceStable f (filter (\<lambda>c. BandOf c = b) cs)) bs)) = mset cs"
proof (induction bs arbitrary: cs)
  case Nil
  then show ?case by (cases cs) auto
next
  case (Cons b bs)
  let ?rest = "filter (\<lambda>c. BandOf c \<noteq> b) cs"
  have "map (\<lambda>b'. SliceStable f (filter (\<lambda>c. BandOf c = b') cs)) bs =
      map (\<lambda>b'. SliceStable f (filter (\<lambda>c. BandOf c = b') ?rest)) bs"
    using Cons.prems(1) by (auto intro!: arg_cong [of _ _ "SliceStable f"] filter_cong)
  moreover have "mset (concat (map (\<lambda>b'. SliceStable f (filter (\<lambda>c. BandOf c = b') ?rest)) bs)) = mset ?rest"
    by (rule Cons.IH) (use Cons.prems in auto)
  moreover have "mset (filter (\<lambda>c. BandOf c = b) cs) + mset ?rest = mset cs"
    using multiset_partition [of "mset cs" "\<lambda>c. BandOf c = b"] by (simp add: mset_filter)
  ultimately show ?case by (simp only: list.map concat.simps mset_append mset_SliceStable)
qed

lemma mset_bandedOrder: "mset (bandedOrder w r now fw cs) = mset cs"
  unfolding bandedOrder_def by (rule mset_split_bands) (simp_all add: bandOrder_bands)

text \<open>The rank of a band in the order of a claim.\<close>

definition bandRank :: "band list \<Rightarrow> band \<Rightarrow> nat" where
  "bandRank bs b = length (takeWhile (\<lambda>x. x \<noteq> b) bs)"

lemma in_order_concat:
  assumes "distinct bs" "\<And>b. b \<in> set bs \<Longrightarrow> in_order f (g b)" "\<And>b c. b \<in> set bs \<Longrightarrow> c \<in> set (g b) \<Longrightarrow> BandOf c = b"
  shows "sorted_wrt (\<lambda>x y. bandRank bs (BandOf x) < bandRank bs (BandOf y) \<or> BandOf x = BandOf y \<and> \<not> f y x)
    (concat (map g bs))"
  using assms
proof (induction bs)
  case (Cons b bs)
  have shift: "bandRank (b # bs) c = Suc (bandRank bs c)" if "c \<in> set bs" for c
    using that Cons.prems(1) by (auto simp: bandRank_def)
  have mem: "BandOf c \<in> set bs" if "c \<in> set (concat (map g bs))" for c using that Cons.prems(3) by auto
  have "sorted_wrt (\<lambda>x y. bandRank bs (BandOf x) < bandRank bs (BandOf y) \<or> BandOf x = BandOf y \<and> \<not> f y x)
      (concat (map g bs))" by (rule Cons.IH) (use Cons.prems in auto)
  then have tail: "sorted_wrt (\<lambda>x y. bandRank (b # bs) (BandOf x) < bandRank (b # bs) (BandOf y) \<or>
      BandOf x = BandOf y \<and> \<not> f y x) (concat (map g bs))"
    by (rule sorted_wrt_mono_rel [rotated]) (use mem shift in auto)
  have head: "sorted_wrt (\<lambda>x y. bandRank (b # bs) (BandOf x) < bandRank (b # bs) (BandOf y) \<or>
      BandOf x = BandOf y \<and> \<not> f y x) (g b)"
    by (rule sorted_wrt_mono_rel [OF _ Cons.prems(2)]) (use Cons.prems(3) in auto)
  have "bandRank (b # bs) (BandOf x) < bandRank (b # bs) (BandOf y)"
    if "x \<in> set (g b)" "y \<in> set (concat (map g bs))" for x y
    using Cons.prems(3) [of b x] that shift [OF mem [OF that(2)]] by (simp add: bandRank_def)
  with head tail show ?case by (simp add: sorted_wrt_append)
qed simp

section \<open>Candidates are distinct\<close>

lemma withCandidate_ids:
  "(\<And>c. cdAnime (f c) = cdAnime c) \<Longrightarrow>
   map cdAnime (withCandidate i f cs) = (if i \<in> set (map cdAnime cs) then map cdAnime cs else map cdAnime cs @ [i])"
  by (induction cs) (auto simp: newCandidate_def)

lemma fold_withCandidate_distinct:
  assumes "\<And>x c. cdAnime (f x c) = cdAnime c"
  shows "distinct (map cdAnime cs) \<Longrightarrow> distinct (map cdAnime (fold (\<lambda>x. withCandidate (i x) (f x)) xs cs)) \<and>
    set (map cdAnime (fold (\<lambda>x. withCandidate (i x) (f x)) xs cs)) = set (map cdAnime cs) \<union> i ` set xs"
proof (induction xs arbitrary: cs)
  case (Cons x xs)
  have "distinct (map cdAnime (withCandidate (i x) (f x) cs))" "set (map cdAnime (withCandidate (i x) (f x) cs)) = insert (i x) (set (map cdAnime cs))"
    using Cons.prems withCandidate_ids [of "f x" "i x" cs] assms by auto
  with Cons.IH show ?case by auto
qed simp

end
