(* ===== verification/CV_Plan.thy ===== *)
theory CV_Plan
  imports CV_Queue Go_Strconv
begin

text \<open>
  The skip lane's planner (\<^verbatim>\<open>internal/queue/skipplan.go\<close>) and the gate for episodes that AniSkip
  covers (\<^verbatim>\<open>internal/queue/aniskipgate.go\<close>).
\<close>

section \<open>Units and tasks\<close>

record skip_unit =
  suAnime :: string
  suProvider :: string
  suTeam :: string
  suTeamID :: int
  suEpisode :: int
  suEpisodeID :: string
  suStateRank :: int

record skip_task =
  tkUnit :: skip_unit
  tkPair :: "skip_unit option"
  tkRePair :: bool
  tkPairKinds :: "string list"
  tkCoveredKinds :: "string list"

definition skipPendingFPTTL :: duration where "skipPendingFPTTL = 6 * Hour"

definition skipFamilyKey :: "skip_unit \<Rightarrow> string" where
  "skipFamilyKey u = suProvider u @ ''|'' @ suTeam u"

definition skipRowKey :: "string \<Rightarrow> string \<Rightarrow> int \<Rightarrow> string" where
  "skipRowKey provider team episode = provider @ ''|'' @ team @ ''|'' @ Itoa episode"

definition rowKeyOf :: "skip_timing \<Rightarrow> string" where
  "rowKeyOf r = skipRowKey (skProvider r) (skTeam r) (skEpisode r)"

definition unitKeyOf :: "skip_unit \<Rightarrow> string" where
  "unitKeyOf u = skipRowKey (suProvider u) (suTeam u) (suEpisode u)"

type_synonym skip_index = "string \<rightharpoonup> skip_timing"

definition skipRowIndex :: "skip_timing list \<Rightarrow> skip_index" where
  "skipRowIndex rows = fold (\<lambda>r m. m(rowKeyOf r \<mapsto> r)) rows Map.empty"

definition rowFor :: "skip_index \<Rightarrow> skip_unit \<Rightarrow> skip_timing option" where
  "rowFor idx u = idx (unitKeyOf u)"

definition rowDue :: "skip_timing option \<Rightarrow> instant \<Rightarrow> bool" where
  "rowDue row now = (case row of None \<Rightarrow> True
     | Some r \<Rightarrow>
        if skOpStatus r = SkipPendingFP \<or> skEdStatus r = SkipPendingFP then
          TimeAfter now (skProbedAt r + skipPendingFPTTL)
        else if skOpStatus r = SkipUnreachable \<or> skEdStatus r = SkipUnreachable then
          TimeAfter now (skProbedAt r + Backoff (skFails r))
        else False)"

section \<open>The plan\<close>

definition missingFPKinds :: "fingerprint list \<Rightarrow> string list" where
  "missingFPKinds fps =
     (if list_ex (\<lambda>f. fpKind f = SkipKindOp) fps then [] else [SkipKindOp]) @
     (if list_ex (\<lambda>f. fpKind f = SkipKindEd) fps then [] else [SkipKindEd])"

text \<open>Families in first-seen order with their units: the key list and the map of the code in one list.\<close>

type_synonym families = "(string \<times> skip_unit list) list"

fun addToFamily :: "skip_unit \<Rightarrow> families \<Rightarrow> families" where
  "addToFamily u [] = [(skipFamilyKey u, [u])]"
| "addToFamily u ((k, us) # fams) = (if k = skipFamilyKey u then (k, us @ [u]) # fams else (k, us) # addToFamily u fams)"

definition groupSkipFamilies :: "skip_unit list \<Rightarrow> families" where
  "groupSkipFamilies units = fold addToFamily units []"

text \<open>A loop over families or units that returns from the function at the first hit.\<close>

fun firstSome :: "('a \<Rightarrow> 'b option) \<Rightarrow> 'a list \<Rightarrow> 'b option" where
  "firstSome f [] = None"
| "firstSome f (x # xs) = (case f x of None \<Rightarrow> firstSome f xs | Some y \<Rightarrow> Some y)"

definition rePairKinds :: "skip_timing \<Rightarrow> skip_timing \<Rightarrow> string list" where
  "rePairKinds r1 r2 =
     (if skOpStatus r1 = SkipNoMatch \<and> skOpStatus r2 = SkipNoMatch then [SkipKindOp] else []) @
     (if skEdStatus r1 = SkipNoMatch \<and> skEdStatus r2 = SkipNoMatch then [SkipKindEd] else [])"

definition rePairOf :: "skip_index \<Rightarrow> skip_unit \<times> skip_unit \<Rightarrow> skip_task option" where
  "rePairOf idx p = (case (rowFor idx (fst p), rowFor idx (snd p)) of
     (Some r1, Some r2) \<Rightarrow>
        if skPairTried r1 then None
        else if rePairKinds r1 r2 = [] then None
        else Some \<lparr>tkUnit = fst p, tkPair = Some (snd p), tkRePair = True,
          tkPairKinds = rePairKinds r1 r2, tkCoveredKinds = []\<rparr>
   | _ \<Rightarrow> None)"

definition rePairScan :: "skip_index \<Rightarrow> families \<Rightarrow> skip_task option" where
  "rePairScan idx fams = firstSome (\<lambda>(k, fam). firstSome (rePairOf idx) (zip fam (tl fam))) fams"

definition bootstrapPairScan :: "skip_index \<Rightarrow> instant \<Rightarrow> families \<Rightarrow> skip_task option" where
  "bootstrapPairScan idx now fams = firstSome (\<lambda>(k, fam).
     case filter (\<lambda>u. rowDue (rowFor idx u) now) fam of
       u1 # u2 # _ \<Rightarrow> Some \<lparr>tkUnit = u1, tkPair = Some u2, tkRePair = False, tkPairKinds = [], tkCoveredKinds = []\<rparr>
     | _ \<Rightarrow> None) fams"

definition firstDueUnit :: "skip_index \<Rightarrow> instant \<Rightarrow> families \<Rightarrow> skip_unit option" where
  "firstDueUnit idx now fams = firstSome (\<lambda>(k, fam). List.find (\<lambda>u. rowDue (rowFor idx u) now) fam) fams"

definition NextSkipTask :: "skip_unit list \<Rightarrow> skip_timing list \<Rightarrow> fingerprint list \<Rightarrow> instant \<Rightarrow> skip_task option" where
  "NextSkipTask units rows fps now =
    (if units = [] then None
     else
       let idx = skipRowIndex rows; fams = groupSkipFamilies units; missing = missingFPKinds fps;
           locate = map_option (\<lambda>u. \<lparr>tkUnit = u, tkPair = None, tkRePair = False, tkPairKinds = [],
             tkCoveredKinds = []\<rparr>) (firstDueUnit idx now fams)
       in (case rePairScan idx fams of
         Some t \<Rightarrow> Some t
       | None \<Rightarrow>
          if missing \<noteq> [] then
            (case bootstrapPairScan idx now fams of
               Some t \<Rightarrow> Some (t\<lparr>tkPairKinds := missing\<rparr>)
             | None \<Rightarrow> locate)
          else locate))"

section \<open>The AniSkip gate\<close>

text \<open>\<^verbatim>\<open>AniskipCoverage\<close>: the kinds covered per fetched episode; \<open>[]\<close> is the nil map as well.\<close>

type_synonym aniskip_coverage = "(int \<times> string list) list"

definition isAnimejoyLeg :: "string \<Rightarrow> bool" where
  "isAnimejoyLeg p \<longleftrightarrow> p = ''animejoy-sibnet'' \<or> p = ''animejoy-allvideo''"

definition CoveredKinds :: "aniskip_coverage \<Rightarrow> int \<Rightarrow> string list" where
  "CoveredKinds cov ep = (case map_of cov ep of None \<Rightarrow> [] | Some ks \<Rightarrow> ks)"

definition covHas :: "aniskip_coverage \<Rightarrow> int \<Rightarrow> string \<Rightarrow> bool" where
  "covHas cov ep kind \<longleftrightarrow> kind \<in> set (CoveredKinds cov ep)"

definition FilterAniskipCovered :: "skip_unit list \<Rightarrow> aniskip_coverage \<Rightarrow> skip_unit list" where
  "FilterAniskipCovered units cov =
    (if cov = [] then units
     else filter (\<lambda>u. \<not> (covHas cov (suEpisode u) SkipKindOp \<and>
       (covHas cov (suEpisode u) SkipKindEd \<or> isAnimejoyLeg (suProvider u)))) units)"

definition PreferProvider :: "skip_unit list \<Rightarrow> string \<Rightarrow> skip_unit list" where
  "PreferProvider units provider =
    (if provider = [] then units
     else filter (\<lambda>u. suProvider u = provider) units @ filter (\<lambda>u. suProvider u \<noteq> provider) units)"

section \<open>Facts\<close>

lemma firstSome_mem: "firstSome f xs = Some y \<Longrightarrow> \<exists>x\<in>set xs. f x = Some y"
  by (induction xs) (auto split: option.splits)

lemma firstSome_None: "firstSome f xs = None \<longleftrightarrow> (\<forall>x\<in>set xs. f x = None)"
  by (induction xs) (auto split: option.split)

definition familyUnits :: "families \<Rightarrow> skip_unit set" where
  "familyUnits fams = {u. \<exists>(k, fam)\<in>set fams. u \<in> set fam}"

lemma familyUnits_simps [simp]: "familyUnits [] = {}" "familyUnits ((k, fam) # fams) = set fam \<union> familyUnits fams"
  by (auto simp: familyUnits_def)

lemma addToFamily_units: "familyUnits (addToFamily u fams) = insert u (familyUnits fams)"
  by (induction u fams rule: addToFamily.induct) auto

lemma groupSkipFamilies_units: "familyUnits (groupSkipFamilies units) = set units"
proof -
  have "familyUnits (fold addToFamily units fams) = set units \<union> familyUnits fams" for fams
    by (induction units arbitrary: fams) (simp_all add: addToFamily_units)
  from this [of "[]"] show ?thesis by (simp add: groupSkipFamilies_def)
qed

lemma group_mem: "(k, fam) \<in> set (groupSkipFamilies units) \<Longrightarrow> u \<in> set fam \<Longrightarrow> u \<in> set units"
  using groupSkipFamilies_units [of units] by (auto simp: familyUnits_def)

lemma skipRowIndex_snoc: "skipRowIndex (rows @ [r]) = (skipRowIndex rows)(rowKeyOf r \<mapsto> r)"
  by (simp add: skipRowIndex_def)

lemma skipRowIndex_Some: "skipRowIndex rows k = Some r \<Longrightarrow> r \<in> set rows \<and> rowKeyOf r = k"
  by (induction rows rule: rev_induct) (auto simp: skipRowIndex_snoc skipRowIndex_def split: if_splits)

lemma skipRowIndex_None: "skipRowIndex rows k = None \<longleftrightarrow> k \<notin> rowKeyOf ` set rows"
  by (induction rows rule: rev_induct) (auto simp: skipRowIndex_snoc skipRowIndex_def)

lemma skipRowIndex_mem: "distinct (map rowKeyOf rows) \<Longrightarrow> r \<in> set rows \<Longrightarrow> skipRowIndex rows (rowKeyOf r) = Some r"
  by (induction rows rule: rev_induct) (auto simp: skipRowIndex_snoc image_iff)

text \<open>The three kinds of tasks, and when the lane is settled.\<close>

lemma NextSkipTask_cases:
  assumes "NextSkipTask units rows fps now = Some t"
  obtains
    (repair) r1 r2 u where "tkRePair t" "tkPair t = Some u" "tkUnit t \<in> set units" "u \<in> set units"
      "rowFor (skipRowIndex rows) (tkUnit t) = Some r1" "rowFor (skipRowIndex rows) u = Some r2"
      "\<not> skPairTried r1" "tkPairKinds t = rePairKinds r1 r2" "rePairKinds r1 r2 \<noteq> []" "tkCoveredKinds t = []"
  | (pair) u where "\<not> tkRePair t" "tkPair t = Some u" "tkUnit t \<in> set units" "u \<in> set units"
      "rowDue (rowFor (skipRowIndex rows) (tkUnit t)) now" "rowDue (rowFor (skipRowIndex rows) u) now"
      "tkPairKinds t = missingFPKinds fps" "missingFPKinds fps \<noteq> []" "tkCoveredKinds t = []"
  | (locate) "\<not> tkRePair t" "tkPair t = None" "tkUnit t \<in> set units"
      "rowDue (rowFor (skipRowIndex rows) (tkUnit t)) now" "tkCoveredKinds t = []"
proof -
  let ?idx = "skipRowIndex rows" and ?fams = "groupSkipFamilies units"
  have loc: thesis if l: "map_option (\<lambda>u. \<lparr>tkUnit = u, tkPair = None, tkRePair = False, tkPairKinds = [],
      tkCoveredKinds = []\<rparr>) (firstDueUnit ?idx now ?fams) = Some t"
  proof -
    obtain u where u: "firstDueUnit ?idx now ?fams = Some u" "t = \<lparr>tkUnit = u, tkPair = None, tkRePair = False,
        tkPairKinds = [], tkCoveredKinds = []\<rparr>" using l unfolding map_option_eq_Some by blast
    obtain k fam where "(k, fam) \<in> set ?fams" "List.find (\<lambda>u. rowDue (rowFor ?idx u) now) fam = Some u"
      using firstSome_mem [OF u(1) [unfolded firstDueUnit_def]] by auto
    then show thesis using locate u(2) group_mem by (auto simp: find_Some_iff)
  qed
  show thesis
  proof (cases "rePairScan ?idx ?fams")
    case (Some t')
    with assms have "t' = t" by (auto simp: NextSkipTask_def Let_def split: if_splits)
    with Some obtain k fam p where p: "(k, fam) \<in> set ?fams" "p \<in> set (zip fam (tl fam))" "rePairOf ?idx p = Some t"
      unfolding rePairScan_def by (auto dest!: firstSome_mem)
    have pq: "(fst p, snd p) \<in> set (zip fam (tl fam))" using p(2) by simp
    have "fst p \<in> set fam" by (rule set_zip_leftD [OF pq])
    moreover have "snd p \<in> set fam" using set_zip_rightD [OF pq] by (cases fam) simp_all
    ultimately have "fst p \<in> set fam" "snd p \<in> set fam" by auto
    with group_mem [OF p(1)] have "fst p \<in> set units" "snd p \<in> set units" by auto
    with p(3) show thesis
      by (auto simp: rePairOf_def split: option.splits if_splits intro!: repair)
  next
    case None
    show thesis
    proof (cases "missingFPKinds fps \<noteq> [] \<and> bootstrapPairScan ?idx now ?fams \<noteq> None")
      case True
      then obtain t' where t': "bootstrapPairScan ?idx now ?fams = Some t'" "t = t'\<lparr>tkPairKinds := missingFPKinds fps\<rparr>"
        using assms None by (auto simp: NextSkipTask_def Let_def split: if_splits)
      obtain k fam u1 u2 us where f: "(k, fam) \<in> set ?fams" "filter (\<lambda>u. rowDue (rowFor ?idx u) now) fam = u1 # u2 # us"
          "t' = \<lparr>tkUnit = u1, tkPair = Some u2, tkRePair = False, tkPairKinds = [], tkCoveredKinds = []\<rparr>"
        using firstSome_mem [OF t'(1) [unfolded bootstrapPairScan_def]] by (auto split: list.splits)
      have "u1 \<in> set (filter (\<lambda>u. rowDue (rowFor ?idx u) now) fam)" "u2 \<in> set (filter (\<lambda>u. rowDue (rowFor ?idx u) now) fam)"
        unfolding f(2) by auto
      with group_mem [OF f(1)] t'(2) f(3) True show thesis by (auto intro!: pair)
    next
      case False
      with assms None loc show thesis by (auto simp: NextSkipTask_def Let_def split: if_splits)
    qed
  qed
qed

end
