(* ===== verification/CV_Skip_Prober.thy ===== *)
theory CV_Skip_Prober
  imports CV_Plan
begin

text \<open>
  The skip prober (\<^verbatim>\<open>internal/prober/skipprobe.go\<close>). The catalog, \<^verbatim>\<open>ffmpeg\<close> and the python analyzers are
  parameters: the answer to every request, with the context's expiry where the code looks at it.
\<close>

section \<open>The catalog and the media tools\<close>

datatype cat_error = CatNotFound | CatUnavailable duration | CatError

record cv_stream =
  csType :: string
  csIntro :: "(int \<times> int) option"
  csOutro :: "(int \<times> int) option"
  csTracks :: "soft_track list"

record scraper_server =
  srvID :: string
  srvName :: string
  srvType :: string

text \<open>The answers to the \<open>i\<close>-th attempt of a resolve.\<close>

record cv_streams =
  caKodikStream :: "nat \<Rightarrow> string \<Rightarrow> int \<Rightarrow> int \<Rightarrow> cat_error + cv_stream"
  caServers :: "nat \<Rightarrow> string \<Rightarrow> string \<Rightarrow> string \<Rightarrow> cat_error + scraper_server list"
  caScraperStream :: "nat \<Rightarrow> string \<Rightarrow> string \<Rightarrow> string \<Rightarrow> string \<Rightarrow> string \<Rightarrow> cat_error + cv_stream"
  caAnimejoyStream :: "nat \<Rightarrow> string \<Rightarrow> string \<Rightarrow> int \<Rightarrow> cat_error + cv_stream"

record opskip_pair =
  opFound :: bool
  opDuplicate :: bool
  opAStart :: float64
  opAEnd :: float64
  opBStart :: float64
  opBEnd :: float64
  opSimilarity :: float64
  opFp :: "int list"

record opskip_locate =
  olFound :: bool
  olStart :: float64
  olEnd :: float64
  olSimilarity :: float64

record skip_env =
  seStreams :: cv_streams
  seWaitCut :: "nat \<Rightarrow> bool"
  seCut :: "nat \<Rightarrow> bool"
  seTempDir :: bool
  sePlaylist :: "string \<Rightarrow> float64 option"
  seExtract :: "string \<Rightarrow> float64 \<Rightarrow> string option"
  seBudgetOver :: bool
  seWriteFps :: bool
  sePair :: "string \<Rightarrow> string \<Rightarrow> opskip_pair option"
  seLocate :: "string \<Rightarrow> fingerprint list \<Rightarrow> opskip_locate option"
  seTailWindow :: float64

section \<open>Resolving\<close>

definition resolveAttempts :: nat where "resolveAttempts = 3"

text \<open>
  \<open>left\<close> attempts remain, \<open>i\<close> were made; before a repetition the code waits, which the end of the
  context cuts short.
\<close>

fun retryStream ::
  "(cat_error \<Rightarrow> bool) \<Rightarrow> (nat \<Rightarrow> bool) \<Rightarrow> (nat \<Rightarrow> bool) \<Rightarrow> (nat \<Rightarrow> cat_error + 'a) \<Rightarrow> nat \<Rightarrow> nat \<Rightarrow> cat_error \<Rightarrow> cat_error + 'a" where
  "retryStream final waitCut over try 0 i lastErr = Inl lastErr"
| "retryStream final waitCut over try (Suc left) i lastErr =
    (if i > 0 \<and> waitCut i then Inl CatError
     else (case try i of
       Inr st \<Rightarrow> Inr st
     | Inl e \<Rightarrow> if final e \<or> over i then Inl e else retryStream final waitCut over try left (Suc i) e))"

definition pickServer :: "scraper_server list \<Rightarrow> scraper_server" where
  "pickServer servers = (case List.find (\<lambda>s. srvType s \<noteq> ''dub'') servers of Some s \<Rightarrow> s | None \<Rightarrow> hd servers)"

definition trySkipStream :: "cv_streams \<Rightarrow> skip_unit \<Rightarrow> nat \<Rightarrow> cat_error + cv_stream" where
  "trySkipStream c u i =
    (if suTeamID u \<noteq> 0 then caKodikStream c i (suAnime u) (suEpisode u) (suTeamID u)
     else if suEpisodeID u \<noteq> [] then
       (case caServers c i (suAnime u) (suEpisodeID u) (suProvider u) of
          Inl e \<Rightarrow> Inl e
        | Inr servers \<Rightarrow> if servers = [] then Inl CatNotFound
            else caScraperStream c i (suAnime u) (suEpisodeID u) (srvID (pickServer servers)) ''sub'' (suProvider u))
     else caAnimejoyStream c i (suAnime u) (suProvider u) (suEpisode u))"

definition resolveSkipStream :: "skip_env \<Rightarrow> skip_unit \<Rightarrow> cat_error + cv_stream" where
  "resolveSkipStream env u =
     retryStream (\<lambda>e. e = CatNotFound) (seWaitCut env) (seCut env) (trySkipStream (seStreams env) u)
       resolveAttempts 0 CatError"

record resolved_unit =
  ruHead :: string
  ruTail :: string
  ruTailSeek :: float64
  ruDuration :: float64

text \<open>Extraction of a window, when it is needed: \<open>None\<close> is a failed run of \<^verbatim>\<open>ffmpeg\<close>.\<close>

definition extractIf :: "bool \<Rightarrow> skip_env \<Rightarrow> string \<Rightarrow> float64 \<Rightarrow> string option" where
  "extractIf needed env tag seek = (if needed then seExtract env tag seek else Some [])"

definition resolveUnit :: "skip_env \<Rightarrow> string \<Rightarrow> skip_unit \<Rightarrow> bool \<Rightarrow> bool \<Rightarrow> resolved_unit option" where
  "resolveUnit env tag u needHead needTail = (case resolveSkipStream env u of
     Inl _ \<Rightarrow> None
   | Inr st \<Rightarrow>
      if csType st \<noteq> ''mp4'' then
        (case sePlaylist env tag of
           None \<Rightarrow> None
         | Some dur \<Rightarrow>
            let seek0 = fsub dur (seTailWindow env); seek = (if flt seek0 (Fin 0) then Fin 0 else seek0) in
            (case extractIf needTail env (tag @ ''_tail'') seek of
               None \<Rightarrow> None
             | Some tail \<Rightarrow> map_option (\<lambda>head. \<lparr>ruHead = head, ruTail = tail, ruTailSeek = seek, ruDuration = dur\<rparr>)
                 (extractIf needHead env (tag @ ''_head'') (Fin 0))))
      else map_option (\<lambda>head. \<lparr>ruHead = head, ruTail = [], ruTailSeek = Fin 0, ruDuration = Fin 0\<rparr>)
        (extractIf needHead env (tag @ ''_head'') (Fin 0)))"

section \<open>Rows\<close>

definition skipRowFromUnit :: "skip_unit \<Rightarrow> instant \<Rightarrow> skip_timing" where
  "skipRowFromUnit u now = \<lparr>skAnime = suAnime u, skProvider = suProvider u, skTeam = suTeam u,
     skEpisode = suEpisode u, skOpStart = Fin 0, skOpEnd = Fin 0, skEdStart = Fin 0, skEdEnd = Fin 0,
     skOpStatus = [], skEdStatus = [], skConfidence = Fin 0, skPairTried = False, skFails = 0, skProbedAt = now\<rparr>"

definition maxFloat :: "float64 \<Rightarrow> float64 \<Rightarrow> float64" where
  "maxFloat a b = (if flt a b then b else a)"

definition setOp :: "string \<Rightarrow> float64 \<Rightarrow> float64 \<Rightarrow> float64 \<Rightarrow> skip_timing \<Rightarrow> skip_timing" where
  "setOp status s e sim row =
    (if status = SkipDetected then row\<lparr>skOpStatus := status, skOpStart := s, skOpEnd := e,
       skConfidence := maxFloat (skConfidence row) sim\<rparr> else row\<lparr>skOpStatus := status\<rparr>)"

definition setEd :: "string \<Rightarrow> float64 \<Rightarrow> float64 \<Rightarrow> float64 \<Rightarrow> skip_timing \<Rightarrow> skip_timing" where
  "setEd status s e sim row =
    (if status = SkipDetected then row\<lparr>skEdStatus := status, skEdStart := s, skEdEnd := e,
       skConfidence := maxFloat (skConfidence row) sim\<rparr> else row\<lparr>skEdStatus := status\<rparr>)"

section \<open>Analyzers\<close>

record pair_outcome =
  poStatus :: string
  poAStart :: float64
  poAEnd :: float64
  poBStart :: float64
  poBEnd :: float64
  poSimilarity :: float64
  poFp :: "int list"

definition noPair :: "string \<Rightarrow> pair_outcome" where
  "noPair status = \<lparr>poStatus = status, poAStart = Fin 0, poAEnd = Fin 0, poBStart = Fin 0, poBEnd = Fin 0,
     poSimilarity = Fin 0, poFp = []\<rparr>"

definition pairSide :: "skip_env \<Rightarrow> string \<Rightarrow> string \<Rightarrow> pair_outcome" where
  "pairSide env wavA wavB = (case sePair env wavA wavB of
     None \<Rightarrow> noPair SkipPendingFP
   | Some r \<Rightarrow>
      if opDuplicate r then noPair SkipPendingFP
      else if \<not> opFound r then noPair SkipNoMatch
      else \<lparr>poStatus = SkipDetected, poAStart = opAStart r, poAEnd = opAEnd r, poBStart = opBStart r,
        poBEnd = opBEnd r, poSimilarity = opSimilarity r, poFp = opFp r\<rparr>)"

record locate_outcome =
  loStatus :: string
  loStart :: float64
  loEnd :: float64
  loSimilarity :: float64

definition noLocate :: "string \<Rightarrow> locate_outcome" where
  "noLocate status = \<lparr>loStatus = status, loStart = Fin 0, loEnd = Fin 0, loSimilarity = Fin 0\<rparr>"

definition runLocate :: "skip_env \<Rightarrow> string \<Rightarrow> fingerprint list \<Rightarrow> float64 \<Rightarrow> locate_outcome" where
  "runLocate env wav fps base = (case seLocate env wav fps of
     None \<Rightarrow> noLocate SkipPendingFP
   | Some r \<Rightarrow> if \<not> olFound r then noLocate SkipNoMatch
      else \<lparr>loStatus = SkipDetected, loStart = fadd base (olStart r), loEnd = fadd base (olEnd r),
        loSimilarity = olSimilarity r\<rparr>)"

definition filterFPsByKind :: "fingerprint list \<Rightarrow> string \<Rightarrow> fingerprint list" where
  "filterFPsByKind fps kind = filter (\<lambda>f. fpKind f = kind) fps"

definition locateSide :: "skip_env \<Rightarrow> fingerprint list \<Rightarrow> string \<Rightarrow> string \<Rightarrow> float64 \<Rightarrow> locate_outcome" where
  "locateSide env allFPs kind wav base =
    (let kindFPs = filterFPsByKind allFPs kind in
     if kindFPs = [] then noLocate SkipPendingFP
     else if \<not> seWriteFps env then noLocate SkipPendingFP
     else runLocate env wav kindFPs base)"

definition applyLocate :: "string \<Rightarrow> locate_outcome \<Rightarrow> skip_timing \<Rightarrow> skip_timing" where
  "applyLocate kind out row =
    (if kind = SkipKindOp then setOp (loStatus out) (loStart out) (loEnd out) (loSimilarity out) row
     else if kind = SkipKindEd then setEd (loStatus out) (loStart out) (loEnd out) (loSimilarity out) row
     else row)"

definition locatePairSide ::
  "skip_env \<Rightarrow> string \<Rightarrow> fingerprint list \<Rightarrow> string \<Rightarrow> string \<Rightarrow> float64 \<Rightarrow> float64 \<Rightarrow> skip_timing \<times> skip_timing \<Rightarrow> skip_timing \<times> skip_timing" where
  "locatePairSide env kind allFPs wavA wavB baseA baseB rows =
     (applyLocate kind (locateSide env allFPs kind wavA baseA) (fst rows),
      applyLocate kind (locateSide env allFPs kind wavB baseB) (snd rows))"

section \<open>Probing\<close>

definition pairKindWanted :: "string list \<Rightarrow> string \<Rightarrow> bool" where
  "pairKindWanted kinds kind \<longleftrightarrow> list_ex (\<lambda>k. k = kind) kinds"

text \<open>Errors of the fingerprint store are logged and the probe goes on.\<close>

definition fetchFPs :: "string \<Rightarrow> ('z cvdb_scheme, fingerprint list) prog" where
  "fetchFPs animeID = attempt (Fingerprints animeID) (\<lambda>r. ret (case r of Inl _ \<Rightarrow> [] | Inr fps \<Rightarrow> fps))"

definition bootstrapSide ::
  "instant \<Rightarrow> skip_task \<Rightarrow> string \<Rightarrow> string \<Rightarrow> pair_outcome \<Rightarrow> ('z cvdb_scheme, unit) prog" where
  "bootstrapSide now t kind note out =
    (if poStatus out = SkipDetected then
       logged (AddFingerprint \<lparr>fpAnime = suAnime (tkUnit t), fpKind = kind, fpFp = poFp out,
         fpLength = fsub (poAEnd out) (poAStart out), fpNote = note, fpCreatedAt = now\<rparr>)
     else ret ())"

definition pairNote :: "skip_task \<Rightarrow> skip_unit \<Rightarrow> string" where
  "pairNote t p = suProvider (tkUnit t) @ '' ep'' @ Itoa (suEpisode (tkUnit t)) @ ''+ep'' @ Itoa (suEpisode p)"

definition probePairOp ::
  "instant \<Rightarrow> skip_env \<Rightarrow> skip_task \<Rightarrow> skip_unit \<Rightarrow> fingerprint list \<Rightarrow> resolved_unit \<Rightarrow> resolved_unit \<Rightarrow> skip_timing \<times> skip_timing \<Rightarrow>
   ('z cvdb_scheme, skip_timing \<times> skip_timing) prog" where
  "probePairOp now env t p allFPs a b rows =
    (if pairKindWanted (tkPairKinds t) SkipKindOp then
       let out = pairSide env (ruHead a) (ruHead b) in
       bnd (bootstrapSide now t SkipKindOp (pairNote t p) out) (\<lambda>_.
       ret (setOp (poStatus out) (poAStart out) (poAEnd out) (poSimilarity out) (fst rows),
            setOp (poStatus out) (poBStart out) (poBEnd out) (poSimilarity out) (snd rows)))
     else ret (locatePairSide env SkipKindOp allFPs (ruHead a) (ruHead b) (Fin 0) (Fin 0) rows))"

definition probePairEd ::
  "instant \<Rightarrow> skip_env \<Rightarrow> skip_task \<Rightarrow> skip_unit \<Rightarrow> fingerprint list \<Rightarrow> resolved_unit \<Rightarrow> resolved_unit \<Rightarrow> skip_timing \<times> skip_timing \<Rightarrow>
   ('z cvdb_scheme, skip_timing \<times> skip_timing) prog" where
  "probePairEd now env t p allFPs a b rows =
    (if ruTail a = [] \<or> ruTail b = [] then
       ret ((fst rows)\<lparr>skEdStatus := SkipNoMatch\<rparr>, (snd rows)\<lparr>skEdStatus := SkipNoMatch\<rparr>)
     else if pairKindWanted (tkPairKinds t) SkipKindEd then
       let out = pairSide env (ruTail a) (ruTail b) in
       bnd (bootstrapSide now t SkipKindEd (pairNote t p) out) (\<lambda>_.
       ret (setEd (poStatus out) (fadd (ruTailSeek a) (poAStart out)) (fadd (ruTailSeek a) (poAEnd out)) (poSimilarity out) (fst rows),
            setEd (poStatus out) (fadd (ruTailSeek b) (poBStart out)) (fadd (ruTailSeek b) (poBEnd out)) (poSimilarity out) (snd rows)))
     else ret (locatePairSide env SkipKindEd allFPs (ruTail a) (ruTail b) (ruTailSeek a) (ruTailSeek b) rows))"

definition probePair ::
  "instant \<Rightarrow> skip_env \<Rightarrow> skip_task \<Rightarrow> skip_unit \<Rightarrow> resolved_unit \<Rightarrow> resolved_unit \<Rightarrow> ('z cvdb_scheme, skip_timing list) prog" where
  "probePair now env t p a b =
    (let tried = (\<lambda>r. if tkRePair t then r\<lparr>skPairTried := True\<rparr> else r);
         rows = (tried (skipRowFromUnit (tkUnit t) now), tried (skipRowFromUnit p now));
         mp4Leg = (ruTail a = [] \<or> ruTail b = []);
         needFPs = (\<not> pairKindWanted (tkPairKinds t) SkipKindOp \<or>
           (\<not> mp4Leg \<and> \<not> pairKindWanted (tkPairKinds t) SkipKindEd))
     in bnd (if needFPs then fetchFPs (suAnime (tkUnit t)) else ret []) (\<lambda>allFPs.
        bnd (probePairOp now env t p allFPs a b rows) (\<lambda>rows.
        bnd (probePairEd now env t p allFPs a b rows) (\<lambda>rows.
        ret [fst rows, snd rows]))))"

definition probeLocate ::
  "instant \<Rightarrow> skip_env \<Rightarrow> skip_task \<Rightarrow> resolved_unit \<Rightarrow> bool \<Rightarrow> bool \<Rightarrow> ('z cvdb_scheme, skip_timing list) prog" where
  "probeLocate now env t a opCovered edCovered =
    (let row = skipRowFromUnit (tkUnit t) now in
     attempt (Fingerprints (suAnime (tkUnit t))) (\<lambda>r. case r of
       Inl _ \<Rightarrow> ret [row\<lparr>skOpStatus := (if opCovered then SkipAniskip else SkipPendingFP),
         skEdStatus := (if edCovered then SkipAniskip else SkipPendingFP)\<rparr>]
     | Inr allFPs \<Rightarrow>
        let row = (if opCovered then row\<lparr>skOpStatus := SkipAniskip\<rparr>
              else applyLocate SkipKindOp (locateSide env allFPs SkipKindOp (ruHead a) (Fin 0)) row);
            row = (if edCovered then row\<lparr>skEdStatus := SkipAniskip\<rparr>
              else if ruTail a = [] then row\<lparr>skEdStatus := SkipNoMatch\<rparr>
              else applyLocate SkipKindEd (locateSide env allFPs SkipKindEd (ruTail a) (ruTailSeek a)) row)
        in ret [row]))"

definition failureRow :: "bool \<Rightarrow> int \<Rightarrow> instant \<Rightarrow> skip_unit \<Rightarrow> skip_timing" where
  "failureRow budgetOver prevFails now u =
    (let status = (if budgetOver then SkipPendingFP else SkipUnreachable) in
     (skipRowFromUnit u now)\<lparr>skOpStatus := status, skEdStatus := status,
       skFails := (if budgetOver then 0 else prevFails + 1)\<rparr>)"

definition unreachableRows :: "instant \<Rightarrow> skip_env \<Rightarrow> skip_task \<Rightarrow> int \<Rightarrow> skip_timing list" where
  "unreachableRows now env t prevFails =
     map (failureRow (seBudgetOver env) prevFails now) (tkUnit t # (case tkPair t of None \<Rightarrow> [] | Some p \<Rightarrow> [p]))"

definition SkipProbe ::
  "instant \<Rightarrow> skip_env \<Rightarrow> skip_task \<Rightarrow> int \<Rightarrow> ('z cvdb_scheme, skip_timing list) prog" where
  "SkipProbe now env t prevFails =
    (let opCovered = (tkPair t = None \<and> SkipKindOp \<in> set (tkCoveredKinds t));
         edCovered = (tkPair t = None \<and> SkipKindEd \<in> set (tkCoveredKinds t)) in
     if opCovered \<and> edCovered then
       ret [(skipRowFromUnit (tkUnit t) now)\<lparr>skOpStatus := SkipAniskip, skEdStatus := SkipAniskip\<rparr>]
     else if \<not> seTempDir env then ret (unreachableRows now env t prevFails)
     else (case resolveUnit env ''a'' (tkUnit t) (\<not> opCovered) (\<not> edCovered) of
         None \<Rightarrow> ret (unreachableRows now env t prevFails)
       | Some a \<Rightarrow> (case tkPair t of
           None \<Rightarrow> probeLocate now env t a opCovered edCovered
         | Some p \<Rightarrow> (case resolveUnit env ''b'' p True True of
             None \<Rightarrow> ret (unreachableRows now env t prevFails)
           | Some b \<Rightarrow> probePair now env t p a b))))"

section \<open>What a probe returns\<close>

definition probedUnits :: "skip_task \<Rightarrow> skip_unit list" where
  "probedUnits t = tkUnit t # (case tkPair t of None \<Rightarrow> [] | Some p \<Rightarrow> [p])"

text \<open>The identity, the clock and the mark of a row survive everything a probe writes.\<close>

definition probe_row :: "instant \<Rightarrow> skip_unit \<Rightarrow> bool \<Rightarrow> skip_timing \<Rightarrow> bool" where
  "probe_row now u tried r \<longleftrightarrow> skAnime r = suAnime u \<and> skProvider r = suProvider u \<and> rowKeyOf r = unitKeyOf u \<and>
     skProbedAt r = now \<and> skPairTried r = tried"

lemma probe_row_updates [simp]:
  "probe_row now u b (r\<lparr>skOpStatus := s\<rparr>) = probe_row now u b r"
  "probe_row now u b (r\<lparr>skEdStatus := s\<rparr>) = probe_row now u b r"
  "probe_row now u b (r\<lparr>skFails := n\<rparr>) = probe_row now u b r"
  "probe_row now u b (setOp s x y z r) = probe_row now u b r"
  "probe_row now u b (setEd s x y z r) = probe_row now u b r"
  "probe_row now u b (applyLocate k out r) = probe_row now u b r"
  by (simp_all add: probe_row_def rowKeyOf_def setOp_def setEd_def applyLocate_def)

lemma probe_row_start [simp]:
  "probe_row now u False (skipRowFromUnit u now)"
  "probe_row now u True (skipRowFromUnit u now\<lparr>skPairTried := True\<rparr>)"
  by (simp_all add: probe_row_def rowKeyOf_def unitKeyOf_def skipRowFromUnit_def)

text \<open>A row of a failure, or a row of a pair with its mark; a probe never fails and writes no row itself.\<close>

definition probe_result :: "instant \<Rightarrow> skip_task \<Rightarrow> skip_timing list \<Rightarrow> bool" where
  "probe_result now t rows \<longleftrightarrow>
     (list_all2 (\<lambda>u r. probe_row now u False r \<and> skOpStatus r \<noteq> SkipNoMatch \<and> skEdStatus r \<noteq> SkipNoMatch) (probedUnits t) rows) \<or>
     (list_all2 (\<lambda>u r. probe_row now u (tkRePair t) r) (probedUnits t) rows \<and> (tkPair t = None \<longrightarrow> \<not> tkRePair t))"

lemma unreachable_result: "probe_result now t (unreachableRows now env t n)"
  by (auto simp: probe_result_def unreachableRows_def failureRow_def Let_def probedUnits_def skip_status_defs
      split: option.split)

abbreviation same_skips :: "'z cvdb_scheme \<Rightarrow> 'z cvdb_scheme \<Rightarrow> bool" where
  "same_skips d d' \<equiv> cvSkips d' = cvSkips d \<and> cvRows d' = cvRows d"

lemma wp_bootstrapSide: "wp (bootstrapSide now t kind note out) (\<lambda>_ d'. same_skips d d') (\<lambda>_ _. False) d"
  unfolding bootstrapSide_def AddFingerprint_def by (auto intro!: wp_rules)

lemma wp_fetchFPs: "wp (fetchFPs a) (\<lambda>_ d'. d' = d) (\<lambda>_ _. False) d"
  unfolding fetchFPs_def Fingerprints_def by (auto intro!: wp_rules)

lemma wp_probePair:
  assumes "tkPair t = Some p"
  shows "wp (probePair now env t p a b) (\<lambda>rows d'. probe_result now t rows \<and> same_skips d d') (\<lambda>_ _. False) d"
proof -
  let ?I = "\<lambda>rows d'. probe_row now (tkUnit t) (tkRePair t) (fst rows) \<and> probe_row now p (tkRePair t) (snd rows) \<and> same_skips d d'"
  have op: "wp (probePairOp now env t p fps a b rows) ?I (\<lambda>_ _. False) d'" if "?I rows d'" for rows fps d'
    unfolding probePairOp_def Let_def locatePairSide_def
    by (rule wp_if; (rule wp_bnd, rule wp_mono [OF wp_bootstrapSide])?) (use that in \<open>auto intro!: wp_ret\<close>)
  have ed: "wp (probePairEd now env t p fps a b rows) ?I (\<lambda>_ _. False) d'" if "?I rows d'" for rows fps d'
    unfolding probePairEd_def Let_def locatePairSide_def
    by (rule wp_if, rule wp_ret, use that in simp, rule wp_if; (rule wp_bnd, rule wp_mono [OF wp_bootstrapSide])?)
      (use that in \<open>auto intro!: wp_ret\<close>)
  have start: "?I ((if tkRePair t then (skipRowFromUnit (tkUnit t) now)\<lparr>skPairTried := True\<rparr> else skipRowFromUnit (tkUnit t) now),
      (if tkRePair t then (skipRowFromUnit p now)\<lparr>skPairTried := True\<rparr> else skipRowFromUnit p now)) d"
    by simp
  show ?thesis
    unfolding probePair_def Let_def
  proof (rule wp_bnd, rule wp_mono [where Q = "\<lambda>_ d'. d' = d" and E = "\<lambda>_ _. False"])
    show "wp (if \<not> pairKindWanted (tkPairKinds t) SkipKindOp \<or> \<not> (ruTail a = [] \<or> ruTail b = []) \<and>
        \<not> pairKindWanted (tkPairKinds t) SkipKindEd then fetchFPs (suAnime (tkUnit t)) else ret [])
        (\<lambda>_ d'. d' = d) (\<lambda>_ _. False) d"
      by (auto intro!: wp_ret wp_fetchFPs)
  next
    fix fps d'
    assume "d' = d"
    show "wp (bnd (probePairOp now env t p fps a b
          ((if tkRePair t then (skipRowFromUnit (tkUnit t) now)\<lparr>skPairTried := True\<rparr> else skipRowFromUnit (tkUnit t) now),
           (if tkRePair t then (skipRowFromUnit p now)\<lparr>skPairTried := True\<rparr> else skipRowFromUnit p now)))
        (\<lambda>rows. bnd (probePairEd now env t p fps a b rows) (\<lambda>rows. ret [fst rows, snd rows])))
        (\<lambda>rows d'. probe_result now t rows \<and> same_skips d d') (\<lambda>_ _. False) d'"
      unfolding \<open>d' = d\<close>
      by (rule wp_bnd, rule wp_mono [OF op [OF start]], rule wp_bnd, rule wp_mono [OF ed], assumption, rule wp_ret)
        (auto simp: probe_result_def probedUnits_def assms)
  qed simp
qed

lemma wp_probeLocate:
  assumes "tkPair t = None" "\<not> tkRePair t"
  shows "wp (probeLocate now env t a oc ec) (\<lambda>rows d'. probe_result now t rows \<and> same_skips d d') (\<lambda>_ _. False) d"
  unfolding probeLocate_def Fingerprints_def Let_def
  by (rule wp_attempt, rule wp_query) (auto intro!: wp_ret simp: probe_result_def probedUnits_def assms)

theorem wp_SkipProbe:
  assumes "tkPair t = None \<longrightarrow> \<not> tkRePair t"
  shows "wp (SkipProbe now env t n) (\<lambda>rows d'. probe_result now t rows \<and> same_skips d d') (\<lambda>_ _. False) d"
proof -
  have "probe_result now t [(skipRowFromUnit (tkUnit t) now)\<lparr>skOpStatus := SkipAniskip, skEdStatus := SkipAniskip\<rparr>]"
    if "tkPair t = None" using that by (auto simp: probe_result_def probedUnits_def skip_status_defs)
  then show ?thesis
    unfolding SkipProbe_def Let_def using assms
    by (auto intro!: wp_if wp_ret wp_option unreachable_result wp_probePair wp_probeLocate split: option.split)
qed

end
