(* ===== verification/CV_Lane.thy ===== *)
theory CV_Lane
  imports CV_Skip_Prober
begin

text \<open>
  The skip lane of one title: plan a task, probe it, store its rows (\<^verbatim>\<open>tickSkip\<close> of
  \<^verbatim>\<open>internal/service/worker.go\<close>), again and again, as a loop of the worker does without pause. Every task
  lowers a measure on the stored rows, so the loop comes to rest at the instant it started, whatever the
  catalog and the analyzers answer.
\<close>

section \<open>One task\<close>

definition skipPrevFails :: "skip_task \<Rightarrow> ('z cvdb_scheme, int) prog" where
  "skipPrevFails t = attempt (SkipByAnime (suAnime (tkUnit t))) (\<lambda>r. ret (case r of
     Inl _ \<Rightarrow> 0
   | Inr rows \<Rightarrow> fold (\<lambda>x n. if skProvider x = suProvider (tkUnit t) \<and> skTeam x = suTeam (tkUnit t) \<and>
       skEpisode x = suEpisode (tkUnit t) \<and> skFails x > n then skFails x else n) rows 0))"

definition tickSkip :: "instant \<Rightarrow> skip_env \<Rightarrow> skip_task \<Rightarrow> ('z cvdb_scheme, unit) prog" where
  "tickSkip now env t =
     bnd (skipPrevFails t) (\<lambda>prevFails.
     bnd (SkipProbe now env t prevFails) (\<lambda>rows.
     loop (\<lambda>_ row. logged (UpsertSkip row)) () rows))"

text \<open>The planner's task as the engine hands it out, with the coverage of a locate task.\<close>

definition planSkip :: "aniskip_coverage \<Rightarrow> skip_unit list \<Rightarrow> skip_timing list \<Rightarrow> fingerprint list \<Rightarrow> instant \<Rightarrow> skip_task option" where
  "planSkip cov units rows fps now = map_option (\<lambda>t.
     if tkPair t = None then t\<lparr>tkCoveredKinds := CoveredKinds cov (suEpisode (tkUnit t))\<rparr> else t)
     (NextSkipTask units rows fps now)"

definition laneStep ::
  "instant \<Rightarrow> string \<Rightarrow> skip_unit list \<Rightarrow> skip_env \<times> aniskip_coverage \<Rightarrow> ('z cvdb_scheme, bool) prog" where
  "laneStep now animeID units e =
     bnd (SkipByAnime animeID) (\<lambda>rows.
     bnd (Fingerprints animeID) (\<lambda>fps.
     case planSkip (snd e) units rows fps now of
       None \<Rightarrow> ret False
     | Some t \<Rightarrow> bnd (tickSkip now (fst e) t) (\<lambda>_. ret True)))"

text \<open>The loop \<^verbatim>\<open>for w.tick(...)\<close> on this lane; it returns the number of tasks it ran.\<close>

fun laneRun :: "instant \<Rightarrow> string \<Rightarrow> skip_unit list \<Rightarrow> (skip_env \<times> aniskip_coverage) list \<Rightarrow> ('z cvdb_scheme, nat) prog" where
  "laneRun now animeID units [] = ret 0"
| "laneRun now animeID units (e # es) =
     bnd (laneStep now animeID units e) (\<lambda>ran.
     if ran then bnd (laneRun now animeID units es) (\<lambda>n. ret (Suc n)) else ret 0)"

section \<open>Row keys\<close>

definition barFree :: "string \<Rightarrow> bool" where
  "barFree s \<longleftrightarrow> CHR ''|'' \<notin> set s"

lemma bar_split:
  assumes "barFree p" "barFree q" "p @ CHR ''|'' # s = q @ CHR ''|'' # t"
  shows "p = q \<and> s = t"
proof -
  have "takeWhile (\<lambda>c. c \<noteq> CHR ''|'') (p @ CHR ''|'' # s) = p" "takeWhile (\<lambda>c. c \<noteq> CHR ''|'') (q @ CHR ''|'' # t) = q"
    using assms(1,2) by (simp_all add: takeWhile_tail barFree_def takeWhile_append)
  with assms(3) show ?thesis by (metis append_same_eq list.inject same_append_eq)
qed

lemma Itoa_barFree: "barFree (Itoa n)"
proof -
  have "CHR ''|'' \<notin> set (nat_digits k)" for k
    using nat_digits_digits [of k] by (auto simp: is_digit_def code_of_def)
  then show ?thesis by (auto simp: barFree_def Itoa_def)
qed

lemma Itoa_inj: "Itoa m = Itoa n \<Longrightarrow> m = n"
proof -
  assume e: "Itoa m = Itoa n"
  have digit: "nat_digits a \<noteq> CHR ''-'' # s" for a s
    using nat_digits_digits [of a] not_digit_sign(1) by (metis list.set_intros(1))
  have inj: "nat_digits a = nat_digits b \<Longrightarrow> a = b" for a b
    using nat_digits_val by (metis of_nat_eq_iff)
  show "m = n"
    using e digit [of "nat m"] digit [of "nat n"] digit [of "nat n", THEN not_sym] inj [of "nat m" "nat n"]
      inj [of "nat (- m)" "nat (- n)"]
    by (auto simp: Itoa_def split: if_splits)
qed

lemma skipRowKey_inj:
  assumes "barFree p" "barFree q" "skipRowKey p s m = skipRowKey q t n"
  shows "p = q \<and> s = t \<and> m = n"
proof -
  have eq: "p = q" "s @ CHR ''|'' # Itoa m = t @ CHR ''|'' # Itoa n"
    using bar_split [of p q "s @ CHR ''|'' # Itoa m" "t @ CHR ''|'' # Itoa n"] assms by (simp_all add: skipRowKey_def)
  then have "rev (Itoa m) @ CHR ''|'' # rev s = rev (Itoa n) @ CHR ''|'' # rev t"
    by (metis append_Cons append_assoc append_Nil rev.simps(2) rev_append)
  then have "Itoa m = Itoa n" "s = t"
    using bar_split [of "rev (Itoa m)" "rev (Itoa n)" "rev s" "rev t"] Itoa_barFree by (auto simp: barFree_def)
  with eq Itoa_inj show ?thesis by blast
qed

section \<open>The index of a title\<close>

definition titleRows :: "string \<Rightarrow> skip_timing list \<Rightarrow> skip_timing list" where
  "titleRows a ts = sort_key (\<lambda>t. (skProvider t, skTeam t, skEpisode t)) (filter (\<lambda>t. skAnime t = a) ts)"

definition titleIndex :: "string \<Rightarrow> skip_timing list \<Rightarrow> skip_index" where
  "titleIndex a ts = skipRowIndex (titleRows a ts)"

definition lane_ok :: "skip_timing list \<Rightarrow> bool" where
  "lane_ok ts \<longleftrightarrow> skips_ok ts \<and> (\<forall>t\<in>set ts. barFree (skProvider t))"

lemma rowKey_inj:
  assumes "barFree (skProvider x)" "barFree (skProvider y)" "skAnime x = skAnime y"
  shows "rowKeyOf x = rowKeyOf y \<longleftrightarrow> skipKey x = skipKey y"
  using skipRowKey_inj [OF assms(1,2)] assms(3) by (auto simp: rowKeyOf_def skipKey_def)

lemma titleIndex_Some:
  assumes "lane_ok ts"
  shows "titleIndex a ts k = Some r \<longleftrightarrow> r \<in> set ts \<and> skAnime r = a \<and> rowKeyOf r = k"
proof -
  have "distinct (map rowKeyOf (titleRows a ts))"
  proof -
    have "inj_on rowKeyOf (set (titleRows a ts))"
    proof (rule inj_onI)
      fix x y
      assume xy: "x \<in> set (titleRows a ts)" "y \<in> set (titleRows a ts)" "rowKeyOf x = rowKeyOf y"
      then have "skipKey x = skipKey y" "x \<in> set ts" "y \<in> set ts"
        using assms rowKey_inj [of x y] by (auto simp: titleRows_def lane_ok_def)
      with assms show "x = y" by (auto simp: lane_ok_def skips_ok_def distinct_map dest: inj_onD)
    qed
    moreover have "distinct (titleRows a ts)"
      using assms by (auto simp: titleRows_def lane_ok_def skips_ok_def distinct_map)
    ultimately show ?thesis by (simp add: distinct_map)
  qed
  then show ?thesis
    unfolding titleIndex_def
    using skipRowIndex_Some [of "titleRows a ts" k r] skipRowIndex_mem [of "titleRows a ts" r]
    by (auto simp: titleRows_def)
qed

text \<open>An upsert as a function on the table, and what it does to the index.\<close>

definition upsertTable :: "skip_timing \<Rightarrow> skip_timing list \<Rightarrow> skip_timing list" where
  "upsertTable t ts = (if skipKey t \<in> set (map skipKey ts) then map (\<lambda>x. if skipKey x = skipKey t then t else x) ts
     else ts @ [t])"

lemma twp_UpsertSkip: "twp (UpsertSkip t) (\<lambda>_ d'. d' = d\<lparr>cvSkips := upsertTable t (cvSkips d)\<rparr>) d"
  unfolding UpsertSkip_def saveSkip_def
  by (rule twp_bnd, rule twp_query, rule twp_command) (auto simp: upsertTable_def)

lemma upsertTable_keys:
  "map skipKey (upsertTable t ts) = (if skipKey t \<in> set (map skipKey ts) then map skipKey ts else map skipKey ts @ [skipKey t])"
  by (auto simp: upsertTable_def)

lemma upsertTable_mem:
  "r \<in> set (upsertTable t ts) \<longleftrightarrow> r = t \<or> r \<in> set ts \<and> skipKey r \<noteq> skipKey t"
  by (auto simp: upsertTable_def image_iff)

lemma upsertTable_ok: "lane_ok ts \<Longrightarrow> barFree (skProvider t) \<Longrightarrow> lane_ok (upsertTable t ts)"
  unfolding lane_ok_def skips_ok_def upsertTable_keys by (auto simp: upsertTable_mem)

lemma titleIndex_upsert:
  assumes "lane_ok ts" "barFree (skProvider t)" "skAnime t = a"
  shows "titleIndex a (upsertTable t ts) = (titleIndex a ts)(rowKeyOf t \<mapsto> t)"
proof (rule ext)
  fix k
  have ok: "lane_ok (upsertTable t ts)" by (rule upsertTable_ok [OF assms(1,2)])
  have key: "skipKey r = skipKey t \<longleftrightarrow> rowKeyOf r = rowKeyOf t" if "r \<in> set ts" "skAnime r = a" for r
    using that assms rowKey_inj [of r t] by (auto simp: lane_ok_def)
  have "titleIndex a (upsertTable t ts) k = Some r \<longleftrightarrow> ((titleIndex a ts)(rowKeyOf t \<mapsto> t)) k = Some r" for r
    unfolding titleIndex_Some [OF ok] upsertTable_mem fun_upd_def
    using titleIndex_Some [OF assms(1), of a k r] key [of r] assms(3) by auto
  then show "titleIndex a (upsertTable t ts) k = ((titleIndex a ts)(rowKeyOf t \<mapsto> t)) k"
    by (metis option.exhaust)
qed

section \<open>The measure\<close>

definition rowWeight :: "instant \<Rightarrow> skip_timing option \<Rightarrow> nat" where
  "rowWeight now row = (if rowDue row now then 2 else (case row of None \<Rightarrow> 0
     | Some r \<Rightarrow> if \<not> skPairTried r \<and> (skOpStatus r = SkipNoMatch \<or> skEdStatus r = SkipNoMatch) then 1 else 0))"

definition laneMeasure :: "instant \<Rightarrow> skip_unit list \<Rightarrow> skip_index \<Rightarrow> nat" where
  "laneMeasure now units idx = (\<Sum>k\<in>unitKeyOf ` set units. rowWeight now (idx k))"

lemma rowWeight_le: "rowWeight now row \<le> 2"
  by (auto simp: rowWeight_def split: option.split)

lemma laneMeasure_le: "laneMeasure now units idx \<le> 2 * card (unitKeyOf ` set units)"
proof -
  have "laneMeasure now units idx \<le> (\<Sum>k\<in>unitKeyOf ` set units. 2)"
    unfolding laneMeasure_def by (rule sum_mono) (rule rowWeight_le)
  then show ?thesis by simp
qed

lemma fresh_not_due: "skProbedAt r = now \<Longrightarrow> \<not> rowDue (Some r) now"
  using Backoff_range(1) [of "skFails r"]
  by (auto simp: rowDue_def TimeAfter_def skipPendingFPTTL_def hour_defs)

lemma fresh_weight:
  assumes "skProbedAt r = now"
  shows "rowWeight now (Some r) \<le> 1"
    "skPairTried r \<or> skOpStatus r \<noteq> SkipNoMatch \<and> skEdStatus r \<noteq> SkipNoMatch \<Longrightarrow> rowWeight now (Some r) = 0"
  using fresh_not_due [OF assms] by (auto simp: rowWeight_def)

lemma probe_row_weight:
  "probe_row now u b r \<Longrightarrow> rowWeight now (Some r) \<le> 1"
  "probe_row now u True r \<Longrightarrow> rowWeight now (Some r) = 0"
  "probe_row now u b r \<Longrightarrow> skOpStatus r \<noteq> SkipNoMatch \<Longrightarrow> skEdStatus r \<noteq> SkipNoMatch \<Longrightarrow> rowWeight now (Some r) = 0"
  using fresh_weight [of r now] by (auto simp: probe_row_def)

lemma probe_row_key: "probe_row now u b r \<Longrightarrow> rowKeyOf r = unitKeyOf u"
  by (simp add: probe_row_def)

lemma laneMeasure_less:
  assumes "\<And>k. rowWeight now (idx' k) \<le> rowWeight now (idx k)" "u \<in> set units"
    "rowWeight now (idx' (unitKeyOf u)) < rowWeight now (idx (unitKeyOf u))"
  shows "laneMeasure now units idx' < laneMeasure now units idx"
  unfolding laneMeasure_def
  by (rule sum_strict_mono_ex1) (use assms in auto)

text \<open>Storing the rows of a task.\<close>

lemma probe_measure:
  assumes plan: "NextSkipTask units rows fps now = Some t" and res: "probe_result now t rs"
  shows "laneMeasure now units (fold (\<lambda>r m. m(rowKeyOf r \<mapsto> r)) rs (skipRowIndex rows)) < laneMeasure now units (skipRowIndex rows)"
  using plan
proof (cases rule: NextSkipTask_cases)
  case (repair r1 r2 u)
  obtain x y where xy: "rs = [x, y]" and
    "probe_row now (tkUnit t) False x \<and> skOpStatus x \<noteq> SkipNoMatch \<and> skEdStatus x \<noteq> SkipNoMatch \<and>
       probe_row now u False y \<and> skOpStatus y \<noteq> SkipNoMatch \<and> skEdStatus y \<noteq> SkipNoMatch \<or>
     probe_row now (tkUnit t) True x \<and> probe_row now u True y"
    using res repair(1,2) by (auto simp: probe_result_def probedUnits_def list_all2_Cons1)
  then have rs: "rs = [x, y]" "rowKeyOf x = unitKeyOf (tkUnit t)" "rowKeyOf y = unitKeyOf u"
    and w: "rowWeight now (Some x) = 0" "rowWeight now (Some y) = 0"
    using probe_row_weight probe_row_key by blast+
  have "0 < rowWeight now (Some r1)"
    using repair(7,9) by (auto simp: rowWeight_def rePairKinds_def split: if_splits)
  then show ?thesis
    using repair(3,5) w by (intro laneMeasure_less [of _ _ _ "tkUnit t"]) (auto simp: rs rowFor_def)
next
  case (pair u)
  obtain x y where xy: "rs = [x, y]" and "probe_row now (tkUnit t) False x \<and> probe_row now u False y"
    using res pair(1,2) by (auto simp: probe_result_def probedUnits_def list_all2_Cons1)
  then have rs: "rs = [x, y]" "rowKeyOf x = unitKeyOf (tkUnit t)" "rowKeyOf y = unitKeyOf u"
    and w: "rowWeight now (Some x) \<le> 1" "rowWeight now (Some y) \<le> 1"
    using probe_row_weight(1) probe_row_key by blast+
  have "rowWeight now (skipRowIndex rows (unitKeyOf (tkUnit t))) = 2" "rowWeight now (skipRowIndex rows (unitKeyOf u)) = 2"
    using pair(5,6) by (auto simp: rowWeight_def rowFor_def)
  then show ?thesis
    using pair(3) w by (intro laneMeasure_less [of _ _ _ "tkUnit t"]) (auto simp: rs)
next
  case locate
  obtain x where xy: "rs = [x]" and "probe_row now (tkUnit t) False x"
    using res locate(1,2) by (auto simp: probe_result_def probedUnits_def list_all2_Cons1)
  then have rs: "rs = [x]" "rowKeyOf x = unitKeyOf (tkUnit t)" and w: "rowWeight now (Some x) \<le> 1"
    using probe_row_weight(1) probe_row_key by blast+
  have "rowWeight now (skipRowIndex rows (unitKeyOf (tkUnit t))) = 2"
    using locate(4) by (auto simp: rowWeight_def rowFor_def)
  then show ?thesis
    using locate(3) w by (intro laneMeasure_less [of _ _ _ "tkUnit t"]) (auto simp: rs)
qed

section \<open>The loop comes to rest\<close>

lemma twp_probePair: "twp (probePair now env t p a b) (\<lambda>_ _. True) d"
  unfolding probePair_def probePairOp_def probePairEd_def bootstrapSide_def AddFingerprint_def fetchFPs_def
    Fingerprints_def Let_def
  by (auto intro!: wp_rules)

lemma twp_SkipProbe: "twp (SkipProbe now env t n) (\<lambda>_ _. True) d"
  unfolding SkipProbe_def probeLocate_def Fingerprints_def Let_def
  by (auto intro!: wp_rules twp_probePair)

lemma twp_upserts:
  "twp (loop (\<lambda>_ row. logged (UpsertSkip row)) () rows) (\<lambda>_ d'. d' = d\<lparr>cvSkips := fold upsertTable rows (cvSkips d)\<rparr>) d"
proof (induction rows arbitrary: d)
  case Nil
  show ?case by (auto intro: twp_ret)
next
  case (Cons r rows)
  show ?case
    unfolding loop.simps
    by (rule twp_bnd, rule twp_logged, rule twp_mono [OF twp_UpsertSkip], rule twp_mono [OF Cons.IH]) simp
qed

lemma fold_upserts:
  "lane_ok ts \<Longrightarrow> \<forall>r\<in>set rs. barFree (skProvider r) \<and> skAnime r = a \<Longrightarrow>
   lane_ok (fold upsertTable rs ts) \<and> titleIndex a (fold upsertTable rs ts) = fold (\<lambda>r m. m(rowKeyOf r \<mapsto> r)) rs (titleIndex a ts)"
  by (induction rs arbitrary: ts) (simp_all add: upsertTable_ok titleIndex_upsert)

definition lane_units :: "string \<Rightarrow> skip_unit list \<Rightarrow> bool" where
  "lane_units a units \<longleftrightarrow> (\<forall>u\<in>set units. suAnime u = a \<and> barFree (suProvider u))"

definition titlePrints :: "string \<Rightarrow> fingerprint list \<Rightarrow> fingerprint list" where
  "titlePrints a fps = sort_key fpCreatedAt (filter (\<lambda>f. fpAnime f = a) fps)"

definition lane_settled :: "instant \<Rightarrow> string \<Rightarrow> skip_unit list \<Rightarrow> 'z cvdb_scheme \<Rightarrow> bool" where
  "lane_settled now a units d \<longleftrightarrow> NextSkipTask units (titleRows a (cvSkips d)) (titlePrints a (cvPrints d)) now = None"

lemma probe_result_rows:
  assumes "probe_result now t rs" "lane_units a units" "set (probedUnits t) \<subseteq> set units"
  shows "\<forall>r\<in>set rs. barFree (skProvider r) \<and> skAnime r = a"
proof -
  have all: "list_all2 (\<lambda>u r. skProvider r = suProvider u \<and> skAnime r = suAnime u) (probedUnits t) rs"
    using assms(1) unfolding probe_result_def by (auto elim!: list_all2_mono simp: probe_row_def)
  show ?thesis
  proof
    fix r
    assume "r \<in> set rs"
    then obtain i where i: "i < length rs" "rs ! i = r" by (auto simp: in_set_conv_nth)
    let ?u = "probedUnits t ! i"
    have u: "?u \<in> set (probedUnits t)" "skProvider r = suProvider ?u \<and> skAnime r = suAnime ?u"
      using list_all2_lengthD [OF all] list_all2_nthD2 [OF all i(1)] i by auto
    then have "suAnime ?u = a \<and> barFree (suProvider ?u)" using assms(2,3) unfolding lane_units_def by blast
    with u(2) show "barFree (skProvider r) \<and> skAnime r = a" by simp
  qed
qed

lemma twp_SkipProbe_result:
  "tkPair t = None \<longrightarrow> \<not> tkRePair t \<Longrightarrow>
   twp (SkipProbe now env t n) (\<lambda>rows d'. probe_result now t rows \<and> same_skips d d') d"
  by (rule twp_from_wp [OF wp_SkipProbe twp_SkipProbe])

lemma twp_tickSkip:
  assumes "tkPair t = None \<longrightarrow> \<not> tkRePair t"
  shows "twp (tickSkip now env t) (\<lambda>_ d'. \<exists>rs. probe_result now t rs \<and> cvSkips d' = fold upsertTable rs (cvSkips d)) d"
proof -
  have fails: "twp (skipPrevFails t) (\<lambda>_ d'. d' = d) d"
    unfolding skipPrevFails_def SkipByAnime_def by (auto intro!: wp_rules)
  show ?thesis
    unfolding tickSkip_def
    by (rule twp_bnd, rule twp_mono [OF fails], rule twp_bnd, simp only:,
        rule twp_mono [OF twp_SkipProbe_result [OF assms]], rule twp_mono [OF twp_upserts]) auto
qed

text \<open>One step of the lane: a task lowers the measure; without a task nothing changes.\<close>

lemma twp_laneStep:
  assumes "lane_ok (cvSkips d)" "lane_units a units"
  shows "twp (laneStep now a units e) (\<lambda>ran d'.
      if ran then lane_ok (cvSkips d') \<and>
        laneMeasure now units (titleIndex a (cvSkips d')) < laneMeasure now units (titleIndex a (cvSkips d))
      else d' = d \<and> lane_settled now a units d) d"
proof (cases "NextSkipTask units (titleRows a (cvSkips d)) (titlePrints a (cvPrints d)) now")
  case None
  then show ?thesis
    unfolding laneStep_def SkipByAnime_def Fingerprints_def titleRows_def [symmetric] titlePrints_def [symmetric]
    by (intro twp_bnd twp_query) (simp add: planSkip_def lane_settled_def twp_ret)
next
  case (Some t)
  define t' where "t' = (if tkPair t = None then t\<lparr>tkCoveredKinds := CoveredKinds (snd e) (suEpisode (tkUnit t))\<rparr> else t)"
  have units: "set (probedUnits t) \<subseteq> set units" and pr: "tkPair t = None \<longrightarrow> \<not> tkRePair t"
    using Some by (cases rule: NextSkipTask_cases; simp add: probedUnits_def)+
  have same: "probe_result now t' rs = probe_result now t rs" for rs
    by (simp add: t'_def probe_result_def probedUnits_def)
  have "tkPair t' = None \<longrightarrow> \<not> tkRePair t'" using pr by (simp add: t'_def)
  note tick = twp_tickSkip [OF this, unfolded same]
  have after: "lane_ok (fold upsertTable rs (cvSkips d)) \<and>
      laneMeasure now units (titleIndex a (fold upsertTable rs (cvSkips d))) < laneMeasure now units (titleIndex a (cvSkips d))"
    if "probe_result now t rs" for rs
    using probe_measure [OF Some that] fold_upserts [OF assms(1) probe_result_rows [OF that assms(2) units]]
    by (simp add: titleIndex_def)
  show ?thesis
    unfolding laneStep_def SkipByAnime_def Fingerprints_def titleRows_def [symmetric] titlePrints_def [symmetric]
  proof (intro twp_bnd twp_query)
    show "twp (case planSkip (snd e) units (titleRows a (cvSkips d)) (titlePrints a (cvPrints d)) now of None \<Rightarrow> ret False
        | Some t \<Rightarrow> bnd (tickSkip now (fst e) t) (\<lambda>_. ret True)) (\<lambda>ran d'.
      if ran then lane_ok (cvSkips d') \<and>
        laneMeasure now units (titleIndex a (cvSkips d')) < laneMeasure now units (titleIndex a (cvSkips d))
      else d' = d \<and> lane_settled now a units d) d"
      by (simp add: planSkip_def Some t'_def [symmetric])
        (rule twp_bnd, rule twp_mono [OF tick], auto intro!: twp_ret simp: after same)
  qed
qed

theorem twp_laneRun:
  assumes "lane_ok (cvSkips d)" "lane_units a units"
  shows "twp (laneRun now a units es) (\<lambda>n d'. n \<le> laneMeasure now units (titleIndex a (cvSkips d)) \<and>
      (n < length es \<longrightarrow> lane_settled now a units d')) d"
  using assms(1)
proof (induction es arbitrary: d)
  case Nil
  show ?case by (auto intro: twp_ret)
next
  case (Cons e es)
  show ?case
    unfolding laneRun.simps
  proof (rule twp_bnd, rule twp_mono [OF twp_laneStep [OF Cons.prems assms(2)]])
    fix ran d'
    assume step: "if ran then lane_ok (cvSkips d') \<and>
        laneMeasure now units (titleIndex a (cvSkips d')) < laneMeasure now units (titleIndex a (cvSkips d))
      else d' = d \<and> lane_settled now a units d"
    show "twp (if ran then bnd (laneRun now a units es) (\<lambda>n. ret (Suc n)) else ret 0)
       (\<lambda>n d'. n \<le> laneMeasure now units (titleIndex a (cvSkips d)) \<and> (n < length (e # es) \<longrightarrow> lane_settled now a units d')) d'"
    proof (cases ran)
      case True
      with step have "lane_ok (cvSkips d')" by simp
      from Cons.IH [OF this] step True show ?thesis
        by (simp, intro twp_bnd, elim twp_mono) (auto intro!: twp_ret)
    qed (use step in \<open>auto intro!: twp_ret\<close>)
  qed
qed

end
