(* ===== verification/CV_Engine.thy ===== *)
theory CV_Engine
  imports CV_Lane
begin

text \<open>
  The engine behind the workers (\<^verbatim>\<open>internal/queue/engine.go\<close>, \<^verbatim>\<open>availability.go\<close>, \<^verbatim>\<open>enumerate.go\<close>) and
  the signals in Redis it uses (\<^verbatim>\<open>internal/signals/signals.go\<close>). Its memory extends the tables; every
  answer of the catalog during an operation is a parameter (\<open>cv_world\<close>).
\<close>

section \<open>State and parameters\<close>

record enumeration =
  enumVerify :: "cv_unit list"
  enumSkip :: "skip_unit list"

record cv = cvdb +
  sgVisits :: "string \<times> int \<rightharpoonup> string list \<times> instant"
  sgVisited :: "int \<rightharpoonup> string list \<times> instant"
  sgCooldown :: "string \<rightharpoonup> instant"
  sgCursor :: "int option"
  enInterest :: "(interest \<times> instant) option"
  enEnum :: "string \<rightharpoonup> enumeration \<times> instant"
  enAniskip :: "string \<rightharpoonup> aniskip_coverage \<times> instant"
  enMal :: "string \<rightharpoonup> string"
  enDefer :: "string \<rightharpoonup> instant"
  enRosterDown :: "string list option"
  enRosterAt :: instant
  enUnits :: "string set"
  enProv :: "string \<rightharpoonup> int"
  enPending :: int

record cv_config =
  cfReprobeTTL :: duration
  cfSkipEnabled :: bool
  cfPins :: "(string \<times> string) list"
  cfWeights :: band_weights
  cfFreshWindow :: duration
  cfIdleCooldown :: duration
  cfIdleWindow :: int
  cfProvLimit :: int

record cap =
  capProvider :: string
  capState :: string
  capGroup :: string

record kodik_translation =
  ktID :: int
  ktTitle :: string
  ktEpisodesCount :: int

record scraper_episode =
  epID :: string
  epNumber :: int

record roster_provider =
  rpName :: string
  rpHealth :: string
  rpScraperOperated :: bool

record cv_world =
  wInterest :: "int \<Rightarrow> int \<Rightarrow> interest option"
  wRand :: float64
  wIter :: "candidate list \<Rightarrow> candidate list"
  wCaps :: "string \<Rightarrow> cap list option"
  wKodik :: "string \<Rightarrow> kodik_translation list option"
  wEpisodes :: "string \<Rightarrow> string \<Rightarrow> cat_error + scraper_episode list"
  wServers :: "string \<Rightarrow> string \<Rightarrow> string \<Rightarrow> cat_error + scraper_server list"
  wAnimejoy :: "string \<Rightarrow> string \<Rightarrow> int list option"
  wRoster :: "roster_provider list option"
  wMal :: "string \<Rightarrow> string option"
  wAniskip :: "string \<Rightarrow> int \<Rightarrow> string list option"
  wDone :: bool

section \<open>Signals\<close>

definition windowDays :: nat where "windowDays = 7"
definition signalTTL :: duration where "signalTTL = 8 * 24 * Hour"

text \<open>The UTC day of an instant; going back \<open>i\<close> days in UTC is going back \<open>i * 24\<close> hours.\<close>

definition dayOf :: "instant \<Rightarrow> int" where
  "dayOf t = t div (24 * Hour)"

definition dayKeys :: "instant \<Rightarrow> int list" where
  "dayKeys now = map (\<lambda>i. dayOf (now - int i * (24 * Hour))) [0..<windowDays]"

definition unexpired :: "instant \<Rightarrow> ('a list \<times> instant) option \<Rightarrow> 'a list" where
  "unexpired now x = (case x of None \<Rightarrow> [] | Some (xs, expiry) \<Rightarrow> if now < expiry then xs else [])"

text \<open>A pipeline: the commands are sent together, so they fail together.\<close>

definition RecordVisit :: "instant \<Rightarrow> string \<Rightarrow> string \<Rightarrow> (cv, unit) prog" where
  "RecordVisit now animeID visitor = command (\<lambda>d. (Inr (),
     d\<lparr>sgVisits := (sgVisits d)((animeID, dayOf now) \<mapsto>
         (List.insert visitor (unexpired now (sgVisits d (animeID, dayOf now))), now + signalTTL)),
       sgVisited := (sgVisited d)(dayOf now \<mapsto>
         (List.insert animeID (unexpired now (sgVisited d (dayOf now))), now + signalTTL))\<rparr>))"

definition UniqueVisitors :: "instant \<Rightarrow> string \<Rightarrow> (cv, int) prog" where
  "UniqueVisitors now animeID =
     attempt (query (\<lambda>d. remdups (concat (map (\<lambda>day. unexpired now (sgVisits d (animeID, day))) (dayKeys now)))))
       (\<lambda>r. ret (case r of Inl _ \<Rightarrow> 0 | Inr members \<Rightarrow> int (length members)))"

definition VisitedAnime :: "instant \<Rightarrow> (cv, string list) prog" where
  "VisitedAnime now =
     attempt (query (\<lambda>d. remdups (concat (map (\<lambda>day. unexpired now (sgVisited d day)) (dayKeys now)))))
       (\<lambda>r. ret (case r of Inl _ \<Rightarrow> [] | Inr members \<Rightarrow> members))"

definition InCooldown :: "instant \<Rightarrow> string \<Rightarrow> (cv, bool) prog" where
  "InCooldown now animeID =
     attempt (query (\<lambda>d. case sgCooldown d animeID of None \<Rightarrow> False | Some expiry \<Rightarrow> now < expiry))
       (\<lambda>r. ret (case r of Inl _ \<Rightarrow> False | Inr b \<Rightarrow> b))"

definition SetCooldown :: "instant \<Rightarrow> string \<Rightarrow> duration \<Rightarrow> (cv, unit) prog" where
  "SetCooldown now animeID ttl =
    (if ttl \<le> 0 then ret ()
     else logged (command (\<lambda>d. (Inr (), d\<lparr>sgCooldown := (sgCooldown d)(animeID \<mapsto> now + ttl)\<rparr>))))"

definition IdleCursor :: "(cv, int) prog" where
  "IdleCursor = attempt (query sgCursor) (\<lambda>r. ret (case r of Inl _ \<Rightarrow> 0
     | Inr None \<Rightarrow> 0 | Inr (Some v) \<Rightarrow> if v < 0 then 0 else v))"

definition setCursor :: "int \<Rightarrow> (cv, unit) prog" where
  "setCursor v = logged (command (\<lambda>d. (Inr (), d\<lparr>sgCursor := Some v\<rparr>)))"

definition goMod :: "int \<Rightarrow> int \<Rightarrow> int" where
  "goMod a b = a - b * go_quot a b"

definition AdvanceIdleCursor :: "int \<Rightarrow> int \<Rightarrow> (cv, int) prog" where
  "AdvanceIdleCursor by idleTotal =
    (if idleTotal \<le> 0 then bnd (setCursor 0) (\<lambda>_. ret 0)
     else bnd IdleCursor (\<lambda>cur.
       let next0 = goMod (cur + by) idleTotal; nxt = (if next0 < 0 then 0 else next0)
       in bnd (setCursor nxt) (\<lambda>_. ret nxt)))"

section \<open>Availability\<close>

definition rosterTTL :: duration where "rosterTTL = 2 * Minute"

definition deferKey :: "string \<Rightarrow> string \<Rightarrow> string" where
  "deferKey animeID provider = provider @ ''|'' @ animeID"

definition Defer :: "instant \<Rightarrow> string \<Rightarrow> string \<Rightarrow> duration \<Rightarrow> (cv, unit) prog" where
  "Defer now animeID provider retryAfter =
    (if retryAfter \<le> 0 then ret ()
     else memory (\<lambda>d. ((), d\<lparr>enDefer := (enDefer d)(deferKey animeID provider \<mapsto> now + retryAfter)\<rparr>)))"

definition isDeferred :: "instant \<Rightarrow> string \<Rightarrow> string \<Rightarrow> (cv, bool) prog" where
  "isDeferred now animeID provider = memory (\<lambda>d. case enDefer d (deferKey animeID provider) of
     None \<Rightarrow> (False, d)
   | Some until \<Rightarrow> if TimeAfter now until
       then (False, d\<lparr>enDefer := (enDefer d)(deferKey animeID provider := None)\<rparr>) else (True, d))"

definition downSet :: "roster_provider list \<Rightarrow> string list" where
  "downSet rows = map rpName (filter (\<lambda>r. rpScraperOperated r \<and> rpHealth r = ''down'') rows)"

definition isDown :: "string list option \<Rightarrow> string \<Rightarrow> bool" where
  "isDown down provider = (case down of None \<Rightarrow> False | Some ps \<Rightarrow> provider \<in> set ps)"

definition providerDown :: "cv_world \<Rightarrow> instant \<Rightarrow> string \<Rightarrow> (cv, bool) prog" where
  "providerDown w now provider = memory (\<lambda>d.
     if now - enRosterAt d < rosterTTL \<and> enRosterDown d \<noteq> None then (isDown (enRosterDown d) provider, d)
     else (case wRoster w of
         None \<Rightarrow> (isDown (enRosterDown d) provider, d\<lparr>enRosterAt := now\<rparr>)
       | Some rows \<Rightarrow> (provider \<in> set (downSet rows), d\<lparr>enRosterDown := Some (downSet rows), enRosterAt := now\<rparr>)))"

definition unavailable :: "cv_world \<Rightarrow> instant \<Rightarrow> string \<Rightarrow> string \<Rightarrow> (cv, bool) prog" where
  "unavailable w now animeID provider =
     bnd (isDeferred now animeID provider) (\<lambda>b. if b then ret True else providerDown w now provider)"

definition filterAvailableUnits :: "cv_world \<Rightarrow> instant \<Rightarrow> cv_unit list \<Rightarrow> (cv, cv_unit list) prog" where
  "filterAvailableUnits w now units = loop (\<lambda>out u.
     bnd (unavailable w now (unAnime u) (unProvider u)) (\<lambda>b. ret (if b then out else out @ [u]))) [] units"

definition filterAvailableSkips :: "cv_world \<Rightarrow> instant \<Rightarrow> skip_unit list \<Rightarrow> (cv, skip_unit list) prog" where
  "filterAvailableSkips w now units = loop (\<lambda>out u.
     bnd (unavailable w now (suAnime u) (suProvider u)) (\<lambda>b. ret (if b then out else out @ [u]))) [] units"

section \<open>Enumeration\<close>

definition scraperProviders :: "string list" where
  "scraperProviders = [''gogoanime'', ''animepahe'', ''allanime-okru'', ''miruro'', ''nineanime'']"

definition stateRank :: "string \<Rightarrow> int" where
  "stateRank s = (if s = ''active'' then 0 else if s = ''recovering'' then 1 else 2)"

type_synonym found = "cv_unit list \<times> skip_unit list"

definition kodikSkips :: "string \<Rightarrow> int \<Rightarrow> kodik_translation list \<Rightarrow> skip_unit list" where
  "kodikSkips animeID rank trs = concat (map (\<lambda>tr.
     map (\<lambda>ep. \<lparr>suAnime = animeID, suProvider = ''kodik'', suTeam = ktTitle tr, suTeamID = ktID tr, suEpisode = ep,
       suEpisodeID = [], suStateRank = rank\<rparr>) [1..max (ktEpisodesCount tr) 1]) trs)"

text \<open>The first episode with the largest number, and the episodes by number.\<close>

definition latestEpisode :: "scraper_episode list \<Rightarrow> scraper_episode" where
  "latestEpisode eps = fold (\<lambda>e latest. if epNumber e > epNumber latest then e else latest) eps (hd eps)"

definition scraperUnits :: "string \<Rightarrow> string \<Rightarrow> int \<Rightarrow> scraper_episode list \<Rightarrow> scraper_server list \<Rightarrow> cv_unit list" where
  "scraperUnits animeID provider rank eps servers = map (\<lambda>s.
     \<lparr>unAnime = animeID, unProvider = provider,
      unKey = \<lparr>keyTeam = [], keyServer = srvID s,
        keyCategory = (if srvType s \<noteq> ''dub'' then ''sub'' else srvType s), keyTrack = []\<rparr>,
      unEpisode = epNumber (latestEpisode eps), unEpisodes = int (length eps), unEpisodeID = epID (latestEpisode eps),
      unStateRank = rank, unBand = BandPinned\<rparr>) servers"

definition scraperSkips :: "string \<Rightarrow> string \<Rightarrow> int \<Rightarrow> scraper_episode list \<Rightarrow> skip_unit list" where
  "scraperSkips animeID provider rank eps = map (\<lambda>e. \<lparr>suAnime = animeID, suProvider = provider, suTeam = [],
     suTeamID = 0, suEpisode = epNumber e, suEpisodeID = epID e, suStateRank = rank\<rparr>)
     (SliceStable (\<lambda>x y. epNumber x < epNumber y) eps)"

definition animejoyUnit :: "string \<Rightarrow> string \<Rightarrow> int \<Rightarrow> int list \<Rightarrow> cv_unit" where
  "animejoyUnit animeID provider rank eps = \<lparr>unAnime = animeID, unProvider = provider,
     unKey = \<lparr>keyTeam = [], keyServer = provider, keyCategory = [], keyTrack = []\<rparr>,
     unEpisode = fold max eps (hd eps), unEpisodes = int (length eps), unEpisodeID = [], unStateRank = rank,
     unBand = BandPinned\<rparr>"

definition animejoySkips :: "string \<Rightarrow> string \<Rightarrow> int \<Rightarrow> int list \<Rightarrow> skip_unit list" where
  "animejoySkips animeID provider rank eps = map (\<lambda>n. \<lparr>suAnime = animeID, suProvider = provider, suTeam = [],
     suTeamID = 0, suEpisode = n, suEpisodeID = [], suStateRank = rank\<rparr>) (sort eps)"

definition noteUnavailable :: "instant \<Rightarrow> string \<Rightarrow> string \<Rightarrow> cat_error \<Rightarrow> (cv, unit) prog" where
  "noteUnavailable now animeID provider e = (case e of CatUnavailable ra \<Rightarrow> Defer now animeID provider ra | _ \<Rightarrow> ret ())"

definition enumScraper :: "cv_world \<Rightarrow> instant \<Rightarrow> string \<Rightarrow> int \<Rightarrow> found \<Rightarrow> string \<Rightarrow> (cv, found) prog" where
  "enumScraper w now animeID rank acc provider =
     bnd (unavailable w now animeID provider) (\<lambda>skip.
     if skip then ret acc
     else (case wEpisodes w animeID provider of
       Inl e \<Rightarrow> bnd (noteUnavailable now animeID provider e) (\<lambda>_. ret acc)
     | Inr eps \<Rightarrow>
        if eps = [] then ret acc
        else (case wServers w animeID (epID (latestEpisode eps)) provider of
          Inl e \<Rightarrow> bnd (noteUnavailable now animeID provider e) (\<lambda>_. ret acc)
        | Inr servers \<Rightarrow> ret (fst acc @ scraperUnits animeID provider rank eps servers,
            snd acc @ scraperSkips animeID provider rank eps))))"

definition enumProvider :: "cv_world \<Rightarrow> instant \<Rightarrow> string \<Rightarrow> found \<Rightarrow> cap \<Rightarrow> (cv, found) prog" where
  "enumProvider w now animeID acc pc =
    (if capState pc = ''no_content'' \<or> capGroup pc = ''adult'' then ret acc
     else
       let rank = stateRank (capState pc); provider = capProvider pc in
       if capGroup pc = ''firstparty'' then ret acc
       else if provider = ''kodik'' then
         (case wKodik w animeID of None \<Rightarrow> ret acc
          | Some trs \<Rightarrow> ret (fst acc, snd acc @ kodikSkips animeID rank trs))
       else if provider \<in> set scraperProviders then enumScraper w now animeID rank acc provider
       else if isAnimejoyLeg provider then
         (case wAnimejoy w animeID provider of None \<Rightarrow> ret acc
          | Some eps \<Rightarrow> if eps = [] then ret acc
              else ret (fst acc @ [animejoyUnit animeID provider rank eps], snd acc @ animejoySkips animeID provider rank eps))
       else ret acc)"

definition EnumerateAllWith :: "cv_world \<Rightarrow> instant \<Rightarrow> string \<Rightarrow> (cv, enumeration option) prog" where
  "EnumerateAllWith w now animeID = (case wCaps w animeID of
     None \<Rightarrow> ret None
   | Some caps \<Rightarrow> bnd (loop (enumProvider w now animeID) ([], []) caps) (\<lambda>f.
       ret (Some \<lparr>enumVerify = SliceStable (\<lambda>x y. unStateRank x < unStateRank y) (fst f),
         enumSkip = SliceStable (\<lambda>x y. suStateRank x < suStateRank y) (snd f)\<rparr>)))"

definition enumCacheTTL :: duration where "enumCacheTTL = 5 * Minute"

definition enumerate :: "cv_world \<Rightarrow> instant \<Rightarrow> string \<Rightarrow> (cv, enumeration option) prog" where
  "enumerate w now animeID =
     bnd (memory (\<lambda>d. (case enEnum d animeID of None \<Rightarrow> None
       | Some (en, t) \<Rightarrow> if now - t < enumCacheTTL then Some en else None, d))) (\<lambda>hit.
     case hit of Some en \<Rightarrow> ret (Some en)
     | None \<Rightarrow> bnd (EnumerateAllWith w now animeID) (\<lambda>r. case r of
         None \<Rightarrow> ret None
       | Some en \<Rightarrow> memory (\<lambda>d. (Some en, d\<lparr>enEnum := (enEnum d)(animeID \<mapsto> (en, now))\<rparr>))))"

end
