(* ===== verification/CV_Claim.thy ===== *)
theory CV_Claim
  imports CV_Engine
begin

text \<open>
  Leases and claims (\<^verbatim>\<open>internal/queue/engine.go\<close>): the ordered queue of a claim, the coverage of AniSkip
  behind its cache, the in-process leases, and \<^verbatim>\<open>Claim\<close> itself. A lease is taken in one critical
  section; everything else a claim reads may be overtaken by other workers before that.
\<close>

section \<open>The queue\<close>

definition membershipTTL :: duration where "membershipTTL = 10 * Minute"
definition maxScan :: nat where "maxScan = 15"

definition interestOf :: "cv_config \<Rightarrow> cv_world \<Rightarrow> instant \<Rightarrow> (cv, interest option) prog" where
  "interestOf cf w now =
     bnd (memory (\<lambda>d. (case enInterest d of None \<Rightarrow> None
       | Some (it, t) \<Rightarrow> if now - t < membershipTTL then Some it else None, d))) (\<lambda>hit.
     case hit of Some it \<Rightarrow> ret (Some it)
     | None \<Rightarrow> bnd IdleCursor (\<lambda>offset. case wInterest w offset (cfIdleWindow cf) of
         None \<Rightarrow> memory (\<lambda>d. (map_option fst (enInterest d), d))
       | Some it \<Rightarrow> bnd (AdvanceIdleCursor (cfIdleWindow cf) (inIdleTotal it)) (\<lambda>_.
           memory (\<lambda>d. (Some it, d\<lparr>enInterest := Some (it, now)\<rparr>)))))"

text \<open>\<open>BuildCandidates\<close> asks Redis for the visitors of every candidate, in the order of the map.\<close>

definition withVisitors :: "instant \<Rightarrow> candidate list \<Rightarrow> (cv, candidate list) prog" where
  "withVisitors now cs = loop (\<lambda>out c.
     bnd (UniqueVisitors now (cdAnime c)) (\<lambda>n. ret (out @ [c\<lparr>cdVisitors := n\<rparr>]))) [] cs"

definition bandedCandidates :: "cv_config \<Rightarrow> cv_world \<Rightarrow> instant \<Rightarrow> (cv, candidate list) prog" where
  "bandedCandidates cf w now =
     bnd (interestOf cf w now) (\<lambda>it.
     bnd (VisitedAnime now) (\<lambda>visited.
     bnd (withVisitors now (BuildCandidates (wIter w) it visited (cfPins cf) (\<lambda>_. 0))) (\<lambda>cands.
     bnd (memory (\<lambda>d. ((), d\<lparr>enPending := int (length cands)\<rparr>))) (\<lambda>_.
     ret (bandedOrder (cfWeights cf) (wRand w) now (cfFreshWindow cf) cands)))))"

section \<open>AniSkip coverage\<close>

definition aniskipCoverageTTL :: duration where "aniskipCoverageTTL = 6 * Hour"
definition aniskipSweepCap :: nat where "aniskipSweepCap = 50"

definition malID :: "cv_world \<Rightarrow> string \<Rightarrow> (cv, string) prog" where
  "malID w animeID = memory (\<lambda>d. case enMal d animeID of
     Some i \<Rightarrow> (i, d)
   | None \<Rightarrow> (case wMal w animeID of None \<Rightarrow> ([], d)
       | Some i \<Rightarrow> (i, d\<lparr>enMal := (enMal d)(animeID \<mapsto> i)\<rparr>)))"

text \<open>The fetch loop: a failure skips the episode, or ends the loop when the context is done.\<close>

fun fetchKinds :: "cv_world \<Rightarrow> string \<Rightarrow> int list \<Rightarrow> (int \<times> string list) list" where
  "fetchKinds w mal [] = []"
| "fetchKinds w mal (ep # eps) = (case wAniskip w mal ep of
     None \<Rightarrow> if wDone w then [] else fetchKinds w mal eps
   | Some kinds \<Rightarrow> (ep, kinds) # fetchKinds w mal eps)"

definition neededEpisodes :: "instant \<Rightarrow> skip_unit list \<Rightarrow> skip_timing list \<Rightarrow> int list" where
  "neededEpisodes now units rows =
     sort (remdups (map suEpisode (filter (\<lambda>u. rowDue (rowFor (skipRowIndex rows) u) now) units)))"

definition knownCoverage :: "instant \<Rightarrow> (aniskip_coverage \<times> instant) option \<Rightarrow> aniskip_coverage" where
  "knownCoverage now entry = (case entry of None \<Rightarrow> []
     | Some (cov, t) \<Rightarrow> if now - t \<ge> aniskipCoverageTTL then [] else cov)"

definition mergeCoverage :: "instant \<Rightarrow> (int \<times> string list) list \<Rightarrow> (aniskip_coverage \<times> instant) option \<Rightarrow> aniskip_coverage \<times> instant" where
  "mergeCoverage now fetched entry =
    (let cur = (case entry of None \<Rightarrow> ([], now)
         | Some (cov, t) \<Rightarrow> if now - t \<ge> aniskipCoverageTTL then ([], now) else (cov, t))
     in (fold (\<lambda>(k, v). AList.update k v) fetched (fst cur), snd cur))"

definition aniskipCoverage ::
  "cv_world \<Rightarrow> instant \<Rightarrow> string \<Rightarrow> skip_unit list \<Rightarrow> skip_timing list \<Rightarrow> (cv, aniskip_coverage) prog" where
  "aniskipCoverage w now animeID units rows =
    (let needed = neededEpisodes now units rows in
     if needed = [] then ret []
     else bnd (memory (\<lambda>d. (knownCoverage now (enAniskip d animeID), d))) (\<lambda>known.
       let missing = take aniskipSweepCap (filter (\<lambda>ep. map_of known ep = None) needed) in
       if missing = [] then ret known
       else bnd (malID w animeID) (\<lambda>mal.
         if mal = [] then ret known
         else
           let fetched = fetchKinds w mal missing in
           if fetched = [] then ret known
           else memory (\<lambda>d. let entry = mergeCoverage now fetched (enAniskip d animeID)
             in (fst entry, d\<lparr>enAniskip := (enAniskip d)(animeID \<mapsto> entry)\<rparr>)))))"

section \<open>Leases\<close>

definition verifyClaimKey :: "cv_unit \<Rightarrow> string" where
  "verifyClaimKey u = unAnime u @ ''|'' @ unProvider u @ ''|'' @ keyString (unKey u)"

definition skipClaimKey :: "skip_unit \<Rightarrow> string" where
  "skipClaimKey u = ''skip|'' @ suAnime u @ ''|'' @ suProvider u @ ''|'' @ suTeam u @ ''|'' @ Itoa (suEpisode u)"

definition inflight :: "(string \<rightharpoonup> int) \<Rightarrow> string \<Rightarrow> int" where
  "inflight m p = (case m p of None \<Rightarrow> 0 | Some n \<Rightarrow> n)"

definition takeLease :: "int \<Rightarrow> string \<Rightarrow> string \<Rightarrow> cv \<Rightarrow> bool \<times> cv" where
  "takeLease provLimit provider key d =
    (if inflight (enProv d) provider \<ge> provLimit then (False, d)
     else if key \<in> enUnits d then (False, d)
     else (True, d\<lparr>enProv := (enProv d)(provider \<mapsto> inflight (enProv d) provider + 1), enUnits := insert key (enUnits d)\<rparr>))"

definition dropLease :: "string \<Rightarrow> string \<Rightarrow> cv \<Rightarrow> cv" where
  "dropLease provider key d =
    (let n = inflight (enProv d) provider - 1 in
     d\<lparr>enProv := (if n \<le> 0 then (enProv d)(provider := None) else (enProv d)(provider \<mapsto> n)),
       enUnits := enUnits d - {key}\<rparr>)"

text \<open>\<open>NewEngine\<close> raises the limit of a provider to one.\<close>

definition provLimitOf :: "cv_config \<Rightarrow> int" where
  "provLimitOf cf = (if cfProvLimit cf < 1 then 1 else cfProvLimit cf)"

definition lease :: "cv_config \<Rightarrow> string \<Rightarrow> string \<Rightarrow> (cv, bool) prog" where
  "lease cf provider key = memory (takeLease (provLimitOf cf) provider key)"

definition release :: "string \<Rightarrow> string \<Rightarrow> (cv, unit) prog" where
  "release provider key = memory (\<lambda>d. ((), dropLease provider key d))"

fun claimVerifyUnit :: "cv_config \<Rightarrow> cv_unit list \<Rightarrow> (cv, cv_unit option) prog" where
  "claimVerifyUnit cf [] = ret None"
| "claimVerifyUnit cf (u # us) =
     bnd (lease cf (unProvider u) (verifyClaimKey u)) (\<lambda>leased. if leased then ret (Some u) else claimVerifyUnit cf us)"

text \<open>\<open>NewEngine\<close> starts with empty maps over the stored tables and the signals in Redis.\<close>

definition NewEngine :: "cvdb \<Rightarrow> cv" where
  "NewEngine db = cvdb.extend db \<lparr>sgVisits = Map.empty, sgVisited = Map.empty, sgCooldown = Map.empty,
     sgCursor = None, enInterest = None, enEnum = Map.empty, enAniskip = Map.empty, enMal = Map.empty,
     enDefer = Map.empty, enRosterDown = None, enRosterAt = 0, enUnits = {}, enProv = Map.empty, enPending = 0\<rparr>"

section \<open>Claim\<close>

datatype claim = ClaimIdle | ClaimUnit cv_unit | ClaimSkip skip_task

text \<open>The skip lane of a candidate: \<open>None\<close> when it is settled, else the task and whether it was leased.\<close>

definition claimSkip :: "cv_config \<Rightarrow> cv_world \<Rightarrow> instant \<Rightarrow> string \<Rightarrow> skip_unit list \<Rightarrow> (cv, (skip_task \<times> bool) option) prog" where
  "claimSkip cf w now animeID units =
     bnd (SkipByAnime animeID) (\<lambda>rows.
     bnd (Fingerprints animeID) (\<lambda>fps.
     bnd (filterAvailableSkips w now units) (\<lambda>us.
     let us = (case map_of (cfPins cf) animeID of None \<Rightarrow> us | Some pref \<Rightarrow> if pref = [] then us else PreferProvider us pref) in
     bnd (aniskipCoverage w now animeID us rows) (\<lambda>cov.
     case planSkip cov (FilterAniskipCovered us cov) rows fps now of
       None \<Rightarrow> ret None
     | Some t \<Rightarrow> bnd (lease cf (suProvider (tkUnit t)) (skipClaimKey (tkUnit t))) (\<lambda>leased. ret (Some (t, leased)))))))"

fun claimLoop :: "cv_config \<Rightarrow> cv_world \<Rightarrow> instant \<Rightarrow> candidate list \<Rightarrow> nat \<Rightarrow> (cv, claim) prog" where
  "claimLoop cf w now [] scanned = ret ClaimIdle"
| "claimLoop cf w now (c # cs) scanned =
    (if scanned \<ge> maxScan then ret ClaimIdle
     else bnd (if cdPinned c then ret False else InCooldown now (cdAnime c)) (\<lambda>cooling.
       if cooling then claimLoop cf w now cs scanned
       else bnd (enumerate w now (cdAnime c)) (\<lambda>en. case en of
         None \<Rightarrow> bnd (SetCooldown now (cdAnime c) Hour) (\<lambda>_. claimLoop cf w now cs (Suc scanned))
       | Some en \<Rightarrow>
           bnd (ByAnime (cdAnime c)) (\<lambda>rows.
           bnd (filterAvailableUnits w now (PendingUnits (enumVerify en) rows now (cfReprobeTTL cf))) (\<lambda>pending.
           if pending \<noteq> [] then
             bnd (claimVerifyUnit cf pending) (\<lambda>r. case r of
               Some u \<Rightarrow> ret (ClaimUnit (u\<lparr>unBand := BandOf c\<rparr>))
             | None \<Rightarrow> claimLoop cf w now cs (Suc scanned))
           else
             bnd (if cfSkipEnabled cf then claimSkip cf w now (cdAnime c) (enumSkip en) else ret None) (\<lambda>s. case s of
               Some (t, leased) \<Rightarrow> if leased then ret (ClaimSkip t) else claimLoop cf w now cs (Suc scanned)
             | None \<Rightarrow> bnd (SetCooldown now (cdAnime c) (CooldownTTL (BandOf c) (cfIdleCooldown cf)))
                 (\<lambda>_. claimLoop cf w now cs (Suc scanned))))))))"

definition Claim :: "cv_config \<Rightarrow> cv_world \<Rightarrow> instant \<Rightarrow> (cv, claim) prog" where
  "Claim cf w now = bnd (bandedCandidates cf w now) (\<lambda>cs. claimLoop cf w now cs 0)"

definition PendingCount :: "cv \<Rightarrow> int" where
  "PendingCount d = enPending d"

record queue_entry =
  qeAnime :: string
  qeName :: string
  qeBand :: band
  qeOngoing :: bool
  qeTop :: bool
  qeVisitors :: int
  qeCooling :: bool

definition Snapshot :: "cv_config \<Rightarrow> cv_world \<Rightarrow> instant \<Rightarrow> nat \<Rightarrow> (cv, queue_entry list) prog" where
  "Snapshot cf w now limit = bnd (bandedCandidates cf w now) (\<lambda>cs.
     loop (\<lambda>out c. bnd (InCooldown now (cdAnime c)) (\<lambda>cooling. ret (out @ [\<lparr>qeAnime = cdAnime c, qeName = cdName c,
       qeBand = BandOf c, qeOngoing = cdOngoing c, qeTop = cdTop c, qeVisitors = cdVisitors c, qeCooling = cooling\<rparr>])))
       [] (take limit cs))"

section \<open>Lease tables\<close>

text \<open>
  Closures: a lease that was handed out, and whether its \<^verbatim>\<open>sync.Once\<close> has fired. Any interleaving of
  the workers is a sequence of attempts to take a lease and of calls of release functions.
\<close>

record ticket =
  tiProvider :: string
  tiKey :: string
  tiFired :: bool

record lease_sys =
  lsEngine :: cv
  lsTickets :: "ticket list"

datatype lease_event = TryLease string string | CallRelease nat

definition leaseStep :: "cv_config \<Rightarrow> lease_event \<Rightarrow> lease_sys \<Rightarrow> lease_sys" where
  "leaseStep cf e s = (case e of
     TryLease provider key \<Rightarrow>
       (case takeLease (provLimitOf cf) provider key (lsEngine s) of
          (True, d) \<Rightarrow> \<lparr>lsEngine = d, lsTickets = lsTickets s @ [\<lparr>tiProvider = provider, tiKey = key, tiFired = False\<rparr>]\<rparr>
        | (False, d) \<Rightarrow> s\<lparr>lsEngine := d\<rparr>)
   | CallRelease i \<Rightarrow>
       if i < length (lsTickets s) \<and> \<not> tiFired (lsTickets s ! i) then
         \<lparr>lsEngine = dropLease (tiProvider (lsTickets s ! i)) (tiKey (lsTickets s ! i)) (lsEngine s),
          lsTickets = (lsTickets s)[i := (lsTickets s ! i)\<lparr>tiFired := True\<rparr>]\<rparr>
       else s)"

definition open_tickets :: "lease_sys \<Rightarrow> ticket list" where
  "open_tickets s = filter (\<lambda>t. \<not> tiFired t) (lsTickets s)"

definition openOf :: "string \<Rightarrow> lease_sys \<Rightarrow> nat" where
  "openOf p s = length (filter (\<lambda>t. tiProvider t = p) (open_tickets s))"

definition leases_ok :: "cv_config \<Rightarrow> lease_sys \<Rightarrow> bool" where
  "leases_ok cf s \<longleftrightarrow> distinct (map tiKey (open_tickets s)) \<and> enUnits (lsEngine s) = tiKey ` set (open_tickets s) \<and>
     (\<forall>p. enProv (lsEngine s) p = (if openOf p s = 0 then None else Some (int (openOf p s))) \<and>
       int (openOf p s) \<le> provLimitOf cf)"

lemma provLimitOf_pos: "1 \<le> provLimitOf cf"
  by (simp add: provLimitOf_def)

lemma leases_ok_take:
  assumes "leases_ok cf s" "takeLease (provLimitOf cf) provider key (lsEngine s) = (True, d)"
  shows "leases_ok cf \<lparr>lsEngine = d, lsTickets = lsTickets s @ [\<lparr>tiProvider = provider, tiKey = key, tiFired = False\<rparr>]\<rparr>"
    (is "leases_ok cf ?s'")
proof -
  have op: "open_tickets ?s' = open_tickets s @ [\<lparr>tiProvider = provider, tiKey = key, tiFired = False\<rparr>]"
    by (simp add: open_tickets_def)
  have infl: "inflight (enProv (lsEngine s)) p = int (openOf p s)" for p
    using assms(1) by (simp add: leases_ok_def inflight_def)
  have d: "enUnits d = insert key (enUnits (lsEngine s))" "key \<notin> enUnits (lsEngine s)"
    "enProv d = (enProv (lsEngine s))(provider \<mapsto> int (openOf provider s) + 1)" "int (openOf provider s) < provLimitOf cf"
    using assms(2) infl by (auto simp: takeLease_def split: if_splits)
  have cnt: "openOf p ?s' = (if p = provider then Suc (openOf p s) else openOf p s)" for p
    by (simp add: openOf_def op)
  show ?thesis
    using assms(1) d unfolding leases_ok_def cnt op by (auto simp: leases_ok_def)
qed

lemma open_fire:
  assumes "i < length (lsTickets s)" "\<not> tiFired (lsTickets s ! i)"
  shows "\<exists>xs ys. open_tickets s = xs @ lsTickets s ! i # ys \<and>
    open_tickets (s\<lparr>lsEngine := d, lsTickets := (lsTickets s)[i := (lsTickets s ! i)\<lparr>tiFired := True\<rparr>]\<rparr>) = xs @ ys"
proof -
  let ?xs = "take i (lsTickets s)" and ?ys = "drop (Suc i) (lsTickets s)" and ?t = "lsTickets s ! i"
  have "lsTickets s = ?xs @ ?t # ?ys" using assms(1) by (rule id_take_nth_drop)
  then have "open_tickets s = filter (\<lambda>t. \<not> tiFired t) ?xs @ ?t # filter (\<lambda>t. \<not> tiFired t) ?ys"
    unfolding open_tickets_def using assms(2) by (metis (no_types, lifting) filter.simps(2) filter_append)
  moreover have "(lsTickets s)[i := ?t\<lparr>tiFired := True\<rparr>] = ?xs @ ?t\<lparr>tiFired := True\<rparr> # ?ys"
    by (rule upd_conv_take_nth_drop [OF assms(1)])
  ultimately show ?thesis by (auto simp: open_tickets_def)
qed

lemma dropLease_fields:
  "enUnits (dropLease p k d) = enUnits d - {k}"
  "enProv (dropLease p k d) q = (if q = p then (if inflight (enProv d) p \<le> 1 then None else Some (inflight (enProv d) p - 1))
     else enProv d q)"
  by (simp_all add: dropLease_def Let_def)

lemma leases_ok_step:
  assumes "leases_ok cf s" shows "leases_ok cf (leaseStep cf e s)"
proof (cases e)
  case (TryLease provider key)
  obtain b d where t: "takeLease (provLimitOf cf) provider key (lsEngine s) = (b, d)" by force
  show ?thesis
  proof (cases b)
    case True
    with t leases_ok_take [OF assms] show ?thesis by (simp add: leaseStep_def TryLease)
  next
    case False
    with t have "d = lsEngine s" by (auto simp: takeLease_def split: if_splits)
    with t False assms show ?thesis by (simp add: leaseStep_def TryLease)
  qed
next
  case (CallRelease i)
  show ?thesis
  proof (cases "i < length (lsTickets s) \<and> \<not> tiFired (lsTickets s ! i)")
    case True
    let ?t = "lsTickets s ! i"
    let ?d = "dropLease (tiProvider ?t) (tiKey ?t) (lsEngine s)"
    let ?s' = "s\<lparr>lsEngine := ?d, lsTickets := (lsTickets s)[i := ?t\<lparr>tiFired := True\<rparr>]\<rparr>"
    have step: "leaseStep cf e s = ?s'" using True by (simp add: leaseStep_def CallRelease)
    obtain xs ys where op: "open_tickets s = xs @ ?t # ys" "open_tickets ?s' = xs @ ys"
      using open_fire [of i s ?d] True by auto
    define n where "n p = openOf p ?s'" for p
    have cnt: "openOf p s = (if p = tiProvider ?t then Suc (n p) else n p)" for p
      unfolding n_def openOf_def op by simp
    have keys: "distinct (map tiKey (xs @ ?t # ys))" "enUnits (lsEngine s) = tiKey ` set (xs @ ?t # ys)"
      and prov: "\<And>p. enProv (lsEngine s) p = (if openOf p s = 0 then None else Some (int (openOf p s)))"
      and lim: "\<And>p. int (openOf p s) \<le> provLimitOf cf"
      using assms unfolding leases_ok_def op by auto
    have infl: "inflight (enProv (lsEngine s)) (tiProvider ?t) = 1 + int (n (tiProvider ?t))"
      using prov [of "tiProvider ?t"] cnt [of "tiProvider ?t"] by (simp add: inflight_def)
    have "enUnits ?d = tiKey ` set (xs @ ys)" "distinct (map tiKey (xs @ ys))"
      using keys by (auto simp: dropLease_fields simp flip: image_Un) (metis image_eqI)+
    moreover have "enProv ?d p = (if n p = 0 then None else Some (int (n p)))" for p
      using prov [of p] cnt [of p] infl by (cases "p = tiProvider ?t") (simp_all add: dropLease_fields)
    moreover have "int (n p) \<le> provLimitOf cf" for p
      using lim [of p] cnt [of p] by (auto split: if_splits)
    ultimately show ?thesis unfolding step leases_ok_def op n_def by simp
  qed (use assms in \<open>auto simp: leaseStep_def CallRelease\<close>)
qed

text \<open>\<open>lease\<close> and \<open>release\<close> are the events of the system.\<close>

theorem leases_ok_run:
  assumes "enUnits d = {}" "enProv d = Map.empty"
  shows "leases_ok cf (fold (leaseStep cf) es \<lparr>lsEngine = d, lsTickets = []\<rparr>)"
proof -
  have "leases_ok cf (fold (leaseStep cf) es s)" if "leases_ok cf s" for s
    using that by (induction es arbitrary: s) (simp_all add: leases_ok_step)
  moreover have "leases_ok cf \<lparr>lsEngine = d, lsTickets = []\<rparr>"
    using assms provLimitOf_pos [of cf] by (simp add: leases_ok_def open_tickets_def openOf_def)
  ultimately show ?thesis by blast
qed

end
