(* ===== verification/CV_Claim_Safe.thy ===== *)
theory CV_Claim_Safe
  imports CV_Claim
begin

text \<open>What \<^verbatim>\<open>Claim\<close> hands out, whatever command fails and whatever the catalog answers.\<close>

section \<open>Programs that preserve an assertion\<close>

definition preserves :: "('d \<Rightarrow> bool) \<Rightarrow> ('d, 'a) prog \<Rightarrow> bool" where
  "preserves I m \<longleftrightarrow> (\<forall>d. I d \<longrightarrow> wp m (\<lambda>_. I) (\<lambda>_. I) d)"

lemma preservesD: "preserves I m \<Longrightarrow> I d \<Longrightarrow> wp m (\<lambda>_. I) (\<lambda>_. I) d"
  by (simp add: preserves_def)

named_theorems preserves_rules

lemma preserves_ret [preserves_rules]: "preserves I (ret a)"
  by (simp add: preserves_def wp_ret)

lemma preserves_bnd [preserves_rules]: "preserves I m \<Longrightarrow> (\<And>a. preserves I (f a)) \<Longrightarrow> preserves I (bnd m f)"
  unfolding preserves_def by (intro allI impI, rule wp_bnd, rule wp_mono) blast+

lemma preserves_attempt [preserves_rules]: "preserves I m \<Longrightarrow> (\<And>r. preserves I (f r)) \<Longrightarrow> preserves I (attempt m f)"
  unfolding preserves_def by (intro allI impI, rule wp_attempt, rule wp_mono) blast+

lemma preserves_logged [preserves_rules]: "preserves I m \<Longrightarrow> preserves I (logged m)"
  unfolding logged_def by (intro preserves_attempt preserves_ret)

lemma preserves_query [preserves_rules]: "preserves I (query q)"
  by (simp add: preserves_def wp_query)

lemma preserves_command [preserves_rules]: "(\<And>d. I d \<Longrightarrow> I (snd (q d))) \<Longrightarrow> preserves I (command q)"
  unfolding preserves_def by (auto intro!: wp_command) (metis snd_conv)+

lemma preserves_memory [preserves_rules]: "(\<And>d. I d \<Longrightarrow> I (snd (f d))) \<Longrightarrow> preserves I (memory f)"
  unfolding preserves_def by (auto intro!: wp_memory)

lemma preserves_if [preserves_rules]:
  "(c \<Longrightarrow> preserves I m) \<Longrightarrow> (\<not> c \<Longrightarrow> preserves I m') \<Longrightarrow> preserves I (if c then m else m')"
  by simp

lemma preserves_option [preserves_rules]:
  "(x = None \<Longrightarrow> preserves I m) \<Longrightarrow> (\<And>a. x = Some a \<Longrightarrow> preserves I (f a)) \<Longrightarrow>
     preserves I (case x of None \<Rightarrow> m | Some a \<Rightarrow> f a)"
  by (cases x) simp_all

lemma preserves_sum [preserves_rules]:
  "(\<And>a. x = Inl a \<Longrightarrow> preserves I (f a)) \<Longrightarrow> (\<And>a. x = Inr a \<Longrightarrow> preserves I (g a)) \<Longrightarrow>
     preserves I (case x of Inl a \<Rightarrow> f a | Inr a \<Rightarrow> g a)"
  by (cases x) simp_all

lemma preserves_loop [preserves_rules]: "(\<And>acc x. preserves I (body acc x)) \<Longrightarrow> preserves I (loop body acc xs)"
  by (induction xs arbitrary: acc) (auto intro: preserves_ret preserves_bnd)

lemma preserves_Let [preserves_rules]: "preserves I (f x) \<Longrightarrow> preserves I (let y = x in f y)"
  by simp

section \<open>Programs that touch neither the tables nor the leases\<close>

definition keep :: "cv \<Rightarrow> cv \<Rightarrow> bool" where
  "keep d d' \<longleftrightarrow> cvRows d' = cvRows d \<and> cvSkips d' = cvSkips d \<and> cvPrints d' = cvPrints d \<and>
     enUnits d' = enUnits d \<and> enProv d' = enProv d"

lemma keep_refl [simp]: "keep d d"
  by (simp add: keep_def)

text \<open>The operations.\<close>

lemma keep_updates [simp]:
  "keep d0 (d\<lparr>sgCooldown := x1\<rparr>) = keep d0 d" "keep d0 (d\<lparr>sgCursor := x2\<rparr>) = keep d0 d"
  "keep d0 (d\<lparr>enInterest := x3\<rparr>) = keep d0 d" "keep d0 (d\<lparr>enEnum := x4\<rparr>) = keep d0 d"
  "keep d0 (d\<lparr>enAniskip := x5\<rparr>) = keep d0 d" "keep d0 (d\<lparr>enMal := x6\<rparr>) = keep d0 d"
  "keep d0 (d\<lparr>enDefer := x7\<rparr>) = keep d0 d" "keep d0 (d\<lparr>enRosterAt := x8\<rparr>) = keep d0 d"
  "keep d0 (d\<lparr>enRosterDown := x9\<rparr>) = keep d0 d" "keep d0 (d\<lparr>enPending := x10\<rparr>) = keep d0 d"
  by (simp_all add: keep_def)

lemma preserves_signals [preserves_rules]:
  "preserves (keep d0) (UniqueVisitors now a)" "preserves (keep d0) (VisitedAnime now)" "preserves (keep d0) (InCooldown now a)"
  "preserves (keep d0) (SetCooldown now a ttl)" "preserves (keep d0) IdleCursor" "preserves (keep d0) (setCursor v)" "preserves (keep d0) (AdvanceIdleCursor by n)"
  unfolding UniqueVisitors_def VisitedAnime_def InCooldown_def SetCooldown_def IdleCursor_def setCursor_def
    AdvanceIdleCursor_def Let_def
  by (intro preserves_rules; simp)+

lemma preserves_availability [preserves_rules]:
  "preserves (keep d0) (Defer now a p ra)" "preserves (keep d0) (isDeferred now a p)" "preserves (keep d0) (providerDown w now p)"
  unfolding Defer_def isDeferred_def providerDown_def
  by (intro preserves_rules; simp split: option.split)+

lemma preserves_unavailable [preserves_rules]: "preserves (keep d0) (unavailable w now a p)"
  unfolding unavailable_def by (intro preserves_rules)

lemma preserves_filters [preserves_rules]: "preserves (keep d0) (filterAvailableUnits w now us)" "preserves (keep d0) (filterAvailableSkips w now ss)"
  unfolding filterAvailableUnits_def filterAvailableSkips_def by (intro preserves_rules)+

lemma preserves_noteUnavailable [preserves_rules]: "preserves (keep d0) (noteUnavailable now a p e)"
  unfolding noteUnavailable_def by (cases e) (auto intro: preserves_rules)

lemma preserves_enumerate [preserves_rules]: "preserves (keep d0) (enumerate w now a)"
  unfolding enumerate_def EnumerateAllWith_def enumProvider_def enumScraper_def Let_def
  by (intro preserves_rules) (simp_all split: option.split)

lemma preserves_banded [preserves_rules]: "preserves (keep d0) (bandedCandidates cf w now)"
  unfolding bandedCandidates_def interestOf_def withVisitors_def
  by (intro preserves_rules) (simp_all split: option.split)

lemma preserves_coverage [preserves_rules]: "preserves (keep d0) (aniskipCoverage w now a us rows)"
  unfolding aniskipCoverage_def malID_def Let_def
  by (intro preserves_rules) (simp_all split: option.split)

section \<open>Availability\<close>

definition notDeferred :: "cv_unit \<Rightarrow> cv \<Rightarrow> bool" where
  "notDeferred u d \<longleftrightarrow> enDefer d (deferKey (unAnime u) (unProvider u)) = None"

lemma wp_unavailable_unit:
  assumes "keep d0 d" "\<forall>u\<in>S. notDeferred u d"
  shows "wp (unavailable w now a p) (\<lambda>b d'. keep d0 d' \<and> (\<forall>u\<in>S. notDeferred u d') \<and>
      (\<not> b \<longrightarrow> enDefer d' (deferKey a p) = None)) (\<lambda>_ d'. keep d0 d') d"
  unfolding unavailable_def isDeferred_def providerDown_def
  by (intro wp_bnd wp_memory wp_if wp_ret)
    (use assms in \<open>auto simp: notDeferred_def keep_def split: option.splits if_splits\<close>)

lemma wp_filterAvailableUnits:
  assumes "keep d0 d"
  shows "wp (filterAvailableUnits w now us) (\<lambda>out d'. keep d0 d' \<and> set out \<subseteq> set us \<and> (\<forall>u\<in>set out. notDeferred u d'))
     (\<lambda>_ d'. keep d0 d') d"
  unfolding filterAvailableUnits_def
proof (rule wp_loop)
  fix acc x d
  assume x: "x \<in> set us" and I: "keep d0 d \<and> set acc \<subseteq> set us \<and> (\<forall>u\<in>set acc. notDeferred u d)"
  show "wp (bnd (unavailable w now (unAnime x) (unProvider x)) (\<lambda>b. ret (if b then acc else acc @ [x])))
      (\<lambda>out d'. keep d0 d' \<and> set out \<subseteq> set us \<and> (\<forall>u\<in>set out. notDeferred u d')) (\<lambda>_ d'. keep d0 d') d"
    by (rule wp_bnd, rule wp_mono [OF wp_unavailable_unit [of d0 d "set acc"]])
      (use x I in \<open>auto intro!: wp_ret simp: notDeferred_def\<close>)
qed (use assms in simp)

section \<open>Leases\<close>

definition tookLease :: "cv_config \<Rightarrow> string \<Rightarrow> string \<Rightarrow> cv \<Rightarrow> cv \<Rightarrow> bool" where
  "tookLease cf p key d d' \<longleftrightarrow> key \<notin> enUnits d \<and> inflight (enProv d) p < provLimitOf cf \<and>
     enUnits d' = insert key (enUnits d) \<and> enProv d' = (enProv d)(p \<mapsto> inflight (enProv d) p + 1) \<and>
     cvRows d' = cvRows d \<and> cvSkips d' = cvSkips d"

lemma wp_lease:
  assumes "keep d0 d" "P d" "\<And>d x y. P (d\<lparr>enProv := x, enUnits := y\<rparr>) = P d"
  shows "wp (lease cf p key) (\<lambda>b d'. P d' \<and> (if b then tookLease cf p key d0 d' else keep d0 d')) (\<lambda>_ d'. keep d0 d') d"
  unfolding lease_def
  by (rule wp_memory) (use assms in \<open>auto simp: takeLease_def tookLease_def keep_def\<close>)

lemma wp_claimVerifyUnit:
  assumes "keep d0 d" "\<forall>u\<in>set us. notDeferred u d"
  shows "wp (claimVerifyUnit cf us) (\<lambda>r d'. case r of None \<Rightarrow> keep d0 d'
      | Some u \<Rightarrow> u \<in> set us \<and> notDeferred u d' \<and> tookLease cf (unProvider u) (verifyClaimKey u) d0 d') (\<lambda>_ d'. keep d0 d') d"
  using assms
proof (induction us arbitrary: d)
  case Nil
  then show ?case by (auto intro: wp_ret)
next
  case (Cons u us)
  show ?case
    unfolding claimVerifyUnit.simps
  proof (rule wp_bnd, rule wp_mono [OF wp_lease [where P = "\<lambda>d. \<forall>u\<in>set (u # us). notDeferred u d"]])
    fix b d'
    assume p: "(\<forall>u\<in>set (u # us). notDeferred u d') \<and>
      (if b then tookLease cf (unProvider u) (verifyClaimKey u) d0 d' else keep d0 d')"
    show "wp (if b then ret (Some u) else claimVerifyUnit cf us) (\<lambda>r d'. case r of None \<Rightarrow> keep d0 d'
      | Some v \<Rightarrow> v \<in> set (u # us) \<and> notDeferred v d' \<and> tookLease cf (unProvider v) (verifyClaimKey v) d0 d')
      (\<lambda>_ d'. keep d0 d') d'"
    proof (cases b)
      case False
      with p have "wp (claimVerifyUnit cf us) (\<lambda>r d'. case r of None \<Rightarrow> keep d0 d'
        | Some v \<Rightarrow> v \<in> set us \<and> notDeferred v d' \<and> tookLease cf (unProvider v) (verifyClaimKey v) d0 d') (\<lambda>_ d'. keep d0 d') d'"
        by (intro Cons.IH) auto
      then have "wp (claimVerifyUnit cf us) (\<lambda>r d'. case r of None \<Rightarrow> keep d0 d'
        | Some v \<Rightarrow> v \<in> set (u # us) \<and> notDeferred v d' \<and> tookLease cf (unProvider v) (verifyClaimKey v) d0 d') (\<lambda>_ d'. keep d0 d') d'"
        by (rule wp_mono) (auto split: option.splits)
      with False show ?thesis by simp
    qed (use p in \<open>auto intro!: wp_ret\<close>)
  qed (use Cons.prems in \<open>auto simp: notDeferred_def\<close>)
qed

section \<open>Claims\<close>

definition verdictsOf :: "string \<Rightarrow> cv \<Rightarrow> verification list" where
  "verdictsOf a d = sort_key vfProvider (filter (\<lambda>r. vfAnime r = a) (cvRows d))"

definition unitDueIn :: "cv_config \<Rightarrow> instant \<Rightarrow> string \<Rightarrow> cv_unit \<Rightarrow> cv \<Rightarrow> bool" where
  "unitDueIn cf now a u d \<longleftrightarrow>
     UnitDue u (unitIndex (verdictsOf a d) (unProvider u @ ''|'' @ keyString (unKey u))) now (cfReprobeTTL cf)"

definition planned :: "instant \<Rightarrow> string \<Rightarrow> skip_task \<Rightarrow> cv \<Rightarrow> bool" where
  "planned now a t d \<longleftrightarrow> (\<exists>cov units fps. planSkip cov units (titleRows a (cvSkips d)) fps now = Some t)"

lemma plannedI: "planSkip cov units (titleRows a (cvSkips d)) fps now = Some t \<Longrightarrow> planned now a t d"
  by (auto simp: planned_def)

definition goodClaim :: "cv_config \<Rightarrow> instant \<Rightarrow> candidate set \<Rightarrow> cv \<Rightarrow> claim \<Rightarrow> cv \<Rightarrow> bool" where
  "goodClaim cf now cands d r d' \<longleftrightarrow> (case r of
     ClaimIdle \<Rightarrow> keep d d'
   | ClaimUnit u \<Rightarrow> (\<exists>c\<in>cands. unBand u = BandOf c \<and> unitDueIn cf now (cdAnime c) u d) \<and> notDeferred u d' \<and>
       tookLease cf (unProvider u) (verifyClaimKey u) d d'
   | ClaimSkip t \<Rightarrow> (\<exists>c\<in>cands. planned now (cdAnime c) t d) \<and>
       tookLease cf (suProvider (tkUnit t)) (skipClaimKey (tkUnit t)) d d')"

lemma goodClaim_mono: "goodClaim cf now S d r d' \<Longrightarrow> S \<subseteq> T \<Longrightarrow> goodClaim cf now T d r d'"
  unfolding goodClaim_def by (auto split: claim.splits)

lemma wp_claimSkip:
  assumes "keep d0 d"
  shows "wp (claimSkip cf w now a units) (\<lambda>r d'. case r of None \<Rightarrow> keep d0 d'
     | Some (t, b) \<Rightarrow> planned now a t d0 \<and>
         (if b then tookLease cf (suProvider (tkUnit t)) (skipClaimKey (tkUnit t)) d0 d' else keep d0 d'))
     (\<lambda>_ d'. keep d0 d') d"
  unfolding claimSkip_def SkipByAnime_def Fingerprints_def Let_def
proof (rule wp_bnd, rule wp_query, rule assms, rule wp_bnd, rule wp_query, rule assms, rule wp_bnd,
    rule wp_mono [OF preservesD [OF preserves_filters(2) assms]])
  fix us d1
  assume k: "keep d0 d1"
  let ?rows = "sort_key (\<lambda>t. (skProvider t, skTeam t, skEpisode t)) (filter (\<lambda>t. skAnime t = a) (cvSkips d))"
  let ?fps = "sort_key fpCreatedAt (filter (\<lambda>f. fpAnime f = a) (cvPrints d))"
  let ?us = "case map_of (cfPins cf) a of None \<Rightarrow> us | Some pref \<Rightarrow> if pref = [] then us else PreferProvider us pref"
  have rows: "?rows = titleRows a (cvSkips d0)" using assms by (simp add: titleRows_def keep_def)
  show "wp (bnd (aniskipCoverage w now a ?us ?rows) (\<lambda>cov. case planSkip cov (FilterAniskipCovered ?us cov) ?rows ?fps now of
       None \<Rightarrow> ret None
     | Some t \<Rightarrow> bnd (lease cf (suProvider (tkUnit t)) (skipClaimKey (tkUnit t))) (\<lambda>leased. ret (Some (t, leased)))))
     (\<lambda>r d'. case r of None \<Rightarrow> keep d0 d'
     | Some (t, b) \<Rightarrow> planned now a t d0 \<and>
         (if b then tookLease cf (suProvider (tkUnit t)) (skipClaimKey (tkUnit t)) d0 d' else keep d0 d'))
     (\<lambda>_ d'. keep d0 d') d1"
    unfolding rows
    by (rule wp_bnd, rule wp_mono [OF preservesD [OF preserves_coverage k]], rule wp_option, simp add: wp_ret, rule wp_bnd,
        rule wp_mono [OF wp_lease [where P = "\<lambda>_. True"]]) (auto intro!: wp_ret intro: plannedI split: if_splits)
qed

lemma wp_claimLoop:
  assumes "keep d0 d"
  shows "wp (claimLoop cf w now cs n) (\<lambda>r d'. goodClaim cf now (set cs) d0 r d') (\<lambda>_ d'. keep d0 d') d"
  using assms
proof (induction cs arbitrary: n d)
  case Nil
  then show ?case by (auto intro: wp_ret simp: goodClaim_def)
next
  case (Cons c cs)
  have rec: "wp (claimLoop cf w now cs m) (\<lambda>r d'. goodClaim cf now (set (c # cs)) d0 r d') (\<lambda>_ d'. keep d0 d') d'"
    if "keep d0 d'" for m d'
    by (rule wp_mono [OF Cons.IH [OF that]]) (auto intro: goodClaim_mono)
  have cool: "preserves (keep d0) (if cdPinned c then ret False else InCooldown now (cdAnime c))" by (intro preserves_rules)
  have pend: "wp (claimVerifyUnit cf pending) (\<lambda>r. wp (case r of Some u \<Rightarrow> ret (ClaimUnit (u\<lparr>unBand := BandOf c\<rparr>))
        | None \<Rightarrow> claimLoop cf w now cs m) (\<lambda>r d'. goodClaim cf now (set (c # cs)) d0 r d') (\<lambda>_ d'. keep d0 d')) (\<lambda>_ d'. keep d0 d') d'"
    if k: "keep d0 d'" and p: "set pending \<subseteq> set (PendingUnits us (verdictsOf (cdAnime c) d0) now (cfReprobeTTL cf))"
      "\<forall>u\<in>set pending. notDeferred u d'" for pending us m d'
  proof (rule wp_mono [OF wp_claimVerifyUnit [OF k p(2)]])
    fix r d''
    assume r: "case r of None \<Rightarrow> keep d0 d'' | Some u \<Rightarrow> u \<in> set pending \<and> notDeferred u d'' \<and>
      tookLease cf (unProvider u) (verifyClaimKey u) d0 d''"
    show "wp (case r of Some u \<Rightarrow> ret (ClaimUnit (u\<lparr>unBand := BandOf c\<rparr>)) | None \<Rightarrow> claimLoop cf w now cs m)
      (\<lambda>r d'. goodClaim cf now (set (c # cs)) d0 r d') (\<lambda>_ d'. keep d0 d') d''"
    proof (cases r)
      case (Some u)
      with r p(1) have "unitDueIn cf now (cdAnime c) u d0" by (auto simp: PendingUnits_def unitDueIn_def)
      then have "unitDueIn cf now (cdAnime c) (u\<lparr>unBand := BandOf c\<rparr>) d0"
        by (simp add: unitDueIn_def UnitDue_def split: option.splits)
      with Some r show ?thesis
        by (auto intro!: wp_ret simp: goodClaim_def notDeferred_def verifyClaimKey_def)
    next
      case None
      with r show ?thesis by (auto intro: rec [simplified])
    qed
  qed auto
  have settle: "wp (bnd (SetCooldown now a ttl) (\<lambda>_. claimLoop cf w now cs m))
      (\<lambda>r d'. goodClaim cf now (set (c # cs)) d0 r d') (\<lambda>_ d'. keep d0 d') d'" if "keep d0 d'" for a ttl m d'
    by (rule wp_bnd, rule wp_mono [OF preservesD [OF preserves_signals(4) that]], erule rec, assumption)
  have skip: "wp (bnd (if cfSkipEnabled cf then claimSkip cf w now (cdAnime c) su else ret None) (\<lambda>s. case s of
        Some (t, leased) \<Rightarrow> if leased then ret (ClaimSkip t) else claimLoop cf w now cs m
      | None \<Rightarrow> bnd (SetCooldown now (cdAnime c) (CooldownTTL (BandOf c) (cfIdleCooldown cf))) (\<lambda>_. claimLoop cf w now cs m)))
      (\<lambda>r d'. goodClaim cf now (set (c # cs)) d0 r d') (\<lambda>_ d'. keep d0 d') d'" if k: "keep d0 d'" for su m d'
  proof (rule wp_bnd, rule wp_if)
    show "wp (claimSkip cf w now (cdAnime c) su) (\<lambda>s. wp (case s of
        Some (t, leased) \<Rightarrow> if leased then ret (ClaimSkip t) else claimLoop cf w now cs m
      | None \<Rightarrow> bnd (SetCooldown now (cdAnime c) (CooldownTTL (BandOf c) (cfIdleCooldown cf))) (\<lambda>_. claimLoop cf w now cs m))
      (\<lambda>r d'. goodClaim cf now (set (c # cs)) d0 r d') (\<lambda>_ d'. keep d0 d')) (\<lambda>_ d'. keep d0 d') d'"
    proof (rule wp_mono [OF wp_claimSkip [OF k]])
      fix s d''
      assume s: "case s of None \<Rightarrow> keep d0 d''
        | Some (t, b) \<Rightarrow> planned now (cdAnime c) t d0 \<and>
         (if b then tookLease cf (suProvider (tkUnit t)) (skipClaimKey (tkUnit t)) d0 d'' else keep d0 d'')"
      show "wp (case s of
        Some (t, leased) \<Rightarrow> if leased then ret (ClaimSkip t) else claimLoop cf w now cs m
      | None \<Rightarrow> bnd (SetCooldown now (cdAnime c) (CooldownTTL (BandOf c) (cfIdleCooldown cf))) (\<lambda>_. claimLoop cf w now cs m))
      (\<lambda>r d'. goodClaim cf now (set (c # cs)) d0 r d') (\<lambda>_ d'. keep d0 d') d''"
      proof (cases s)
        case None
        with s settle show ?thesis by simp
      next
        case (Some tb)
        then obtain t b where "s = Some (t, b)" by (cases tb) simp
        with s rec show ?thesis by (cases b) (auto intro!: wp_ret simp: goodClaim_def)
      qed
    qed
    show "wp (ret None) (\<lambda>s. wp (case s of
        Some (t, leased) \<Rightarrow> if leased then ret (ClaimSkip t) else claimLoop cf w now cs m
      | None \<Rightarrow> bnd (SetCooldown now (cdAnime c) (CooldownTTL (BandOf c) (cfIdleCooldown cf))) (\<lambda>_. claimLoop cf w now cs m))
      (\<lambda>r d'. goodClaim cf now (set (c # cs)) d0 r d') (\<lambda>_ d'. keep d0 d')) (\<lambda>_ d'. keep d0 d') d'"
      using settle [OF k] by (auto intro: wp_ret)
  qed
  show ?case
    unfolding claimLoop.simps
  proof (rule wp_if, use Cons.prems in \<open>simp add: wp_ret goodClaim_def\<close>, rule wp_bnd,
      rule wp_mono [OF preservesD [OF cool Cons.prems]])
    fix cooling d1
    assume k1: "keep d0 d1"
    show "wp (if cooling then claimLoop cf w now cs n
       else bnd (enumerate w now (cdAnime c)) (\<lambda>en. case en of
         None \<Rightarrow> bnd (SetCooldown now (cdAnime c) Hour) (\<lambda>_. claimLoop cf w now cs (Suc n))
       | Some en \<Rightarrow>
           bnd (ByAnime (cdAnime c)) (\<lambda>rows.
           bnd (filterAvailableUnits w now (PendingUnits (enumVerify en) rows now (cfReprobeTTL cf))) (\<lambda>pending.
           if pending \<noteq> [] then
             bnd (claimVerifyUnit cf pending) (\<lambda>r. case r of
               Some u \<Rightarrow> ret (ClaimUnit (u\<lparr>unBand := BandOf c\<rparr>))
             | None \<Rightarrow> claimLoop cf w now cs (Suc n))
           else
             bnd (if cfSkipEnabled cf then claimSkip cf w now (cdAnime c) (enumSkip en) else ret None) (\<lambda>s. case s of
               Some (t, leased) \<Rightarrow> if leased then ret (ClaimSkip t) else claimLoop cf w now cs (Suc n)
             | None \<Rightarrow> bnd (SetCooldown now (cdAnime c) (CooldownTTL (BandOf c) (cfIdleCooldown cf)))
                 (\<lambda>_. claimLoop cf w now cs (Suc n)))))))
       (\<lambda>r d'. goodClaim cf now (set (c # cs)) d0 r d') (\<lambda>_ d'. keep d0 d') d1"
    proof (rule wp_if, rule rec, rule k1, rule wp_bnd, rule wp_mono [OF preservesD [OF preserves_enumerate k1]], rule wp_option)
      fix en d2
      assume k2: "keep d0 d2"
      then show "wp (bnd (SetCooldown now (cdAnime c) Hour) (\<lambda>_. claimLoop cf w now cs (Suc n)))
         (\<lambda>r d'. goodClaim cf now (set (c # cs)) d0 r d') (\<lambda>_ d'. keep d0 d') d2" by (rule settle)
    next
      fix en :: "enumeration option" and en' d2
      assume k2: "keep d0 d2"
      have rows: "sort_key vfProvider (filter (\<lambda>r. vfAnime r = cdAnime c) (cvRows d2)) = verdictsOf (cdAnime c) d0"
        using k2 by (simp add: verdictsOf_def keep_def)
      show "wp (bnd (ByAnime (cdAnime c)) (\<lambda>rows.
           bnd (filterAvailableUnits w now (PendingUnits (enumVerify en') rows now (cfReprobeTTL cf))) (\<lambda>pending.
           if pending \<noteq> [] then
             bnd (claimVerifyUnit cf pending) (\<lambda>r. case r of
               Some u \<Rightarrow> ret (ClaimUnit (u\<lparr>unBand := BandOf c\<rparr>))
             | None \<Rightarrow> claimLoop cf w now cs (Suc n))
           else
             bnd (if cfSkipEnabled cf then claimSkip cf w now (cdAnime c) (enumSkip en') else ret None) (\<lambda>s. case s of
               Some (t, leased) \<Rightarrow> if leased then ret (ClaimSkip t) else claimLoop cf w now cs (Suc n)
             | None \<Rightarrow> bnd (SetCooldown now (cdAnime c) (CooldownTTL (BandOf c) (cfIdleCooldown cf)))
                 (\<lambda>_. claimLoop cf w now cs (Suc n))))))
         (\<lambda>r d'. goodClaim cf now (set (c # cs)) d0 r d') (\<lambda>_ d'. keep d0 d') d2"
        unfolding ByAnime_def
        by (rule wp_bnd, rule wp_query, rule k2, rule wp_bnd, unfold rows, rule wp_mono [OF wp_filterAvailableUnits [OF k2]],
            rule wp_if, rule wp_bnd, rule pend, blast, blast, blast, rule skip, blast, blast)
    qed simp
  qed simp
qed

theorem wp_Claim:
  "wp (Claim cf w now) (\<lambda>r d'. \<exists>cands. goodClaim cf now cands d r d') (\<lambda>_ d'. keep d d') d"
  unfolding Claim_def
  by (rule wp_bnd, rule wp_mono [OF preservesD [OF preserves_banded keep_refl]], rule wp_mono [OF wp_claimLoop]) auto

end
