(* ===== verification/CV_Prober.thy ===== *)
theory CV_Prober
  imports CV_Skip_Prober
begin

text \<open>
  The verify prober (\<^verbatim>\<open>internal/prober/prober.go\<close>, \<^verbatim>\<open>assemble.go\<close>): one unit of the queue becomes one
  verdict. The catalog, \<^verbatim>\<open>ffmpeg\<close>, the playlist and the python analyzers are parameters.
\<close>

section \<open>Assembling verdicts\<close>

record lid_fragment =
  lfLang :: string
  lfProb :: float64
  lfSpeechSeconds :: float64
  lfSpeech :: bool

record hardsub_result =
  hrFrames :: int
  hrTier1Hits :: int
  hrOCRReal :: int
  hrScript :: string

definition minSpeechFragments :: nat where "minSpeechFragments = 3"
definition corrDiscount :: float64 where "corrDiscount = fin (6 / 10)"
definition compoundFloor :: float64 where "compoundFloor = fin (75 / 100)"

text \<open>
  \<^verbatim>\<open>math.Pow\<close> at a natural exponent: products of repeated squares. The library keeps the mantissas scaled
  by powers of two, which changes no rounding while the values stay in the normal range.
\<close>

function powNat :: "nat \<Rightarrow> float64 \<Rightarrow> float64 \<Rightarrow> float64" where
  "powNat i x a = (if i = 0 then a else powNat (i div 2) (fmul x x) (if odd i then fmul a x else a))"
  by auto
termination by (relation "measure (\<lambda>(i, _, _). i)") auto

declare powNat.simps [simp del]

definition MathPow :: "float64 \<Rightarrow> nat \<Rightarrow> float64" where
  "MathPow x n = (if n = 0 then Fin 1 else if n = 1 then x else powNat n x (Fin 1))"

definition speechFragments :: "lid_fragment list \<Rightarrow> lid_fragment list" where
  "speechFragments frs = filter (\<lambda>f. lfSpeech f \<and> lfLang f \<noteq> []) frs"

definition meanProb :: "lid_fragment list \<Rightarrow> float64" where
  "meanProb speech = fdiv (foldl (\<lambda>s f. fadd s (lfProb f)) (Fin 0) speech) (fin (of_nat (length speech)))"

definition AssembleAudio :: "lid_fragment list \<Rightarrow> audio_verdict option" where
  "AssembleAudio frs =
    (let speech = speechFragments frs in
     if speech = [] then None
     else
       let lang = lfLang (hd speech); mean = meanProb speech in
       if \<not> list_all (\<lambda>f. lfLang f = lang) speech then
         Some \<lparr>avLang = lang, avConfidence = fmul mean (Fin (1 / 2)), avVerified = False\<rparr>
       else
         let conf = (if fle compoundFloor mean
               then fsub (Fin 1) (fmul (fsub (Fin 1) mean) (MathPow corrDiscount (length speech - 1))) else mean)
         in Some \<lparr>avLang = lang, avConfidence = conf,
              avVerified = (minSpeechFragments \<le> length speech \<and> fle VerifiedThreshold conf)\<rparr>)"

definition scriptLang :: "string \<Rightarrow> string" where
  "scriptLang s = (if s = ''cyrillic'' then ''ru'' else if s = ''latin'' then ''en'' else if s = ''cjk'' then ''ja'' else [])"

definition AssembleHardsub :: "hardsub_result \<Rightarrow> hardsub_verdict option" where
  "AssembleHardsub h =
    (if hrFrames h = 0 then None
     else
       let minHits = max 2 (go_quot (hrFrames h) 5); present = (hrTier1Hits h \<ge> minHits \<and> hrOCRReal h \<ge> 1) in
       if \<not> present then Some \<lparr>hvPresent = False, hvLang = [], hvConfidence = fin (9 / 10), hvVerified = False\<rparr>
       else
         let lang = scriptLang (hrScript h); verifyHits = max 4 (go_quot (hrFrames h) 3) in
         if hrTier1Hits h \<ge> verifyHits \<and> hrOCRReal h \<ge> 3 \<and> lang \<noteq> []
         then Some \<lparr>hvPresent = True, hvLang = lang, hvConfidence = fin (96 / 100), hvVerified = True\<rparr>
         else Some \<lparr>hvPresent = True, hvLang = lang, hvConfidence = fin (8 / 10), hvVerified = False\<rparr>)"

section \<open>Sampling\<close>

definition fragmentSeconds :: int where "fragmentSeconds = 30"
definition baseFragments :: nat where "baseFragments = 3"
definition maxFragments :: nat where "maxFragments = 6"

definition sampleAt :: "float64 \<Rightarrow> (int \<times> int) option \<Rightarrow> (int \<times> int) option \<Rightarrow> float64 \<Rightarrow> float64" where
  "sampleAt duration intro outro f =
    (let s0 = fmul duration f;
         s1 = (case intro of Some (a, b) \<Rightarrow>
             if fle (fin (of_int a)) s0 \<and> fle s0 (fin (of_int b)) then fadd (fin (of_int b)) (Fin 10) else s0 | None \<Rightarrow> s0);
         s2 = (case outro of Some (a, b) \<Rightarrow>
             if fle (fin (of_int a)) s1 then fsub (fsub (fin (of_int a)) (Fin 30)) (Fin 10) else s1 | None \<Rightarrow> s1);
         s3 = (if flt s2 (Fin 30) then Fin 30 else s2);
         last = fsub (fsub duration (Fin 30)) (Fin 5)
     in if flt last s3 then last else s3)"

definition sampleOffsets :: "float64 \<Rightarrow> (int \<times> int) option \<Rightarrow> (int \<times> int) option \<Rightarrow> float64 list" where
  "sampleOffsets duration intro outro =
    (if flt duration (Fin 120) then map Fin [60, 240, 480, 300, 600, 720]
     else map (sampleAt duration intro outro)
       [Fin (1 / 4), Fin (1 / 2), Fin (3 / 4), fin (35 / 100), fin (60 / 100), fin (85 / 100)])"

definition speechCount :: "lid_fragment list \<Rightarrow> nat" where
  "speechCount frs = length (filter lfSpeech frs)"

definition totalSpeech :: "lid_fragment list \<Rightarrow> float64" where
  "totalSpeech frs = foldl (\<lambda>t f. fadd t (lfSpeechSeconds f)) (Fin 0) frs"

definition needsMoreFragments :: "audio_verdict option \<Rightarrow> lid_fragment list \<Rightarrow> bool" where
  "needsMoreFragments a frs \<longleftrightarrow> speechCount frs < baseFragments \<or>
     (case a of None \<Rightarrow> False | Some v \<Rightarrow> \<not> avVerified v \<and> fle compoundFloor (avConfidence v))"

text \<open>\<^verbatim>\<open>atoiSafe\<close>: no check of the range, so a long team wraps around.\<close>

definition wrap64 :: "int \<Rightarrow> int" where
  "wrap64 n = (n + 2 ^ 63) mod 2 ^ 64 - 2 ^ 63"

fun atoiLoop :: "string \<Rightarrow> int \<Rightarrow> int" where
  "atoiLoop [] n = n"
| "atoiLoop (c # cs) n =
    (if c < CHR ''0'' \<or> CHR ''9'' < c then 0
     else atoiLoop cs (wrap64 (n * 10 + (of_char c - of_char (CHR ''0'')))))"

definition atoiSafe :: "string \<Rightarrow> int" where
  "atoiSafe s = atoiLoop s 0"

section \<open>Resolving\<close>

record probe_env =
  peTempDir :: bool
  peStreams :: cv_streams
  peWaitCut :: "int \<Rightarrow> nat \<Rightarrow> bool"
  peCut :: "int \<Rightarrow> nat \<Rightarrow> bool"
  pePlaylist :: "float64 option"
  peExtract :: "nat \<Rightarrow> float64 \<Rightarrow> bool"
  peLID :: "nat list \<Rightarrow> lid_fragment list option"
  peHardsub :: "hardsub_result option"
  peBudgetOver :: bool

definition tryStream :: "cv_streams \<Rightarrow> cv_unit \<Rightarrow> int \<Rightarrow> nat \<Rightarrow> cat_error + cv_stream" where
  "tryStream c u ep i =
    (if keyTeam (unKey u) \<noteq> [] then caKodikStream c i (unAnime u) ep (atoiSafe (keyTeam (unKey u)))
     else if unEpisodeID u \<noteq> [] then
       caScraperStream c i (unAnime u) (unEpisodeID u) (keyServer (unKey u)) (keyCategory (unKey u)) (unProvider u)
     else caAnimejoyStream c i (unAnime u) (unProvider u) ep)"

definition finalAnswer :: "cat_error \<Rightarrow> bool" where
  "finalAnswer e \<longleftrightarrow> (case e of CatNotFound \<Rightarrow> True | CatUnavailable _ \<Rightarrow> True | CatError \<Rightarrow> False)"

definition attemptStream :: "probe_env \<Rightarrow> cv_unit \<Rightarrow> int \<Rightarrow> cat_error + cv_stream" where
  "attemptStream env u ep =
     retryStream finalAnswer (peWaitCut env ep) (peCut env ep) (tryStream (peStreams env) u ep) resolveAttempts 0 CatError"

definition resolveStream :: "probe_env \<Rightarrow> cv_unit \<Rightarrow> cat_error + (cv_stream \<times> int)" where
  "resolveStream env u = (case attemptStream env u (unEpisode u) of
     Inr st \<Rightarrow> Inr (st, unEpisode u)
   | Inl e \<Rightarrow>
       if unEpisode u > 1 \<and> unEpisodeID u = [] then
         (case attemptStream env u 1 of Inr st \<Rightarrow> Inr (st, 1) | Inl _ \<Rightarrow> Inl e)
       else Inl e)"

section \<open>Probing\<close>

definition newUnitVerdict :: "cv_unit \<Rightarrow> instant \<Rightarrow> unit_verdict" where
  "newUnitVerdict u now = \<lparr>uvKey = unKey u, uvEpisode = unEpisode u, uvStatus = [], uvAudio = None, uvHardsub = None,
     uvSoftsubs = [], uvRawAudio = False, uvEpisodes = 0, uvProbedAt = now,
     uvSample = \<lparr>siFragments = 0, siSpeechSeconds = Fin 0\<rparr>, uvFails = 0, uvRetryAfter = 0\<rparr>"

definition verdictUnreachable :: "probe_env \<Rightarrow> unit_verdict \<Rightarrow> int \<Rightarrow> unit_verdict" where
  "verdictUnreachable env v prevFails =
    (if peBudgetOver env then v\<lparr>uvStatus := StatusInconclusive\<rparr>
     else v\<lparr>uvStatus := StatusUnreachable, uvFails := prevFails + 1\<rparr>)"

definition verdictInconclusive :: "unit_verdict \<Rightarrow> unit_verdict" where
  "verdictInconclusive v = v\<lparr>uvStatus := StatusInconclusive\<rparr>"

text \<open>Extraction of a run of fragments, numbered from \<open>i\<close>; a failure is skipped.\<close>

fun extractFrom :: "probe_env \<Rightarrow> nat \<Rightarrow> float64 list \<Rightarrow> nat list" where
  "extractFrom env i [] = []"
| "extractFrom env i (seek # ss) = (if peExtract env i seek then [i] else []) @ extractFrom env (Suc i) ss"

text \<open>Further fragments are looked at on their own, and merged when their analysis succeeds.\<close>

definition extendSample ::
  "probe_env \<Rightarrow> float64 list \<Rightarrow> nat list \<Rightarrow> lid_fragment list \<Rightarrow> nat list \<times> lid_fragment list" where
  "extendSample env offsets wavs frs =
    (if needsMoreFragments (AssembleAudio frs) frs \<and> length offsets > baseFragments then
       let more = extractFrom env baseFragments (take (maxFragments - baseFragments) (drop baseFragments offsets)) in
       (wavs @ more,
        if more = [] then frs else (case peLID env more of None \<Rightarrow> frs | Some extra \<Rightarrow> frs @ extra))
     else (wavs, frs))"

definition analyse :: "probe_env \<Rightarrow> unit_verdict \<Rightarrow> float64 list \<Rightarrow> nat list \<Rightarrow> unit_verdict" where
  "analyse env v offsets wavs = (case peLID env wavs of
     None \<Rightarrow> verdictInconclusive v
   | Some frs0 \<Rightarrow>
      let (wavs', frs) = extendSample env offsets wavs frs0; audio = AssembleAudio frs;
          v' = v\<lparr>uvAudio := audio,
            uvSample := \<lparr>siFragments = int (length wavs'), siSpeechSeconds = totalSpeech frs\<rparr>,
            uvHardsub := (case peHardsub env of None \<Rightarrow> None | Some h \<Rightarrow> AssembleHardsub h)\<rparr>
      in v'\<lparr>uvStatus := (case audio of
           Some a \<Rightarrow> if avVerified a then StatusVerified else StatusInconclusive | None \<Rightarrow> StatusInconclusive)\<rparr>)"

definition sampleStream :: "probe_env \<Rightarrow> unit_verdict \<Rightarrow> int \<Rightarrow> cv_stream \<Rightarrow> float64 \<Rightarrow> unit_verdict" where
  "sampleStream env v prevFails st duration =
    (let offsets = sampleOffsets duration (csIntro st) (csOutro st) in
     if \<not> peExtract env 0 (hd offsets) then verdictUnreachable env v prevFails
     else
       let wavs = extractFrom env 0 (take baseFragments offsets) in
       if wavs = [] then verdictUnreachable env v prevFails else analyse env v offsets wavs)"

definition Probe :: "instant \<Rightarrow> probe_env \<Rightarrow> cv_unit \<Rightarrow> int \<Rightarrow> unit_verdict" where
  "Probe now env u prevFails =
    (let v = newUnitVerdict u now in
     if \<not> peTempDir env then verdictUnreachable env v prevFails
     else (case resolveStream env u of
       Inl (CatUnavailable retryAfter) \<Rightarrow> v\<lparr>uvStatus := StatusDeferred, uvRetryAfter := retryAfter\<rparr>
     | Inl _ \<Rightarrow> verdictUnreachable env v prevFails
     | Inr (st, ep) \<Rightarrow>
        let v = v\<lparr>uvEpisode := ep, uvSoftsubs := csTracks st\<rparr> in
        if csType st \<noteq> ''mp4'' then
          (case pePlaylist env of
             None \<Rightarrow> verdictUnreachable env v prevFails
           | Some dur \<Rightarrow> sampleStream env v prevFails st dur)
        else sampleStream env v prevFails st (Fin 0)))"

section \<open>Facts\<close>

lemma status_distinct [simp]:
  "StatusVerified \<noteq> StatusInconclusive" "StatusVerified \<noteq> StatusUnreachable" "StatusVerified \<noteq> StatusDeferred"
  "StatusInconclusive \<noteq> StatusVerified" "StatusInconclusive \<noteq> StatusUnreachable" "StatusInconclusive \<noteq> StatusDeferred"
  "StatusUnreachable \<noteq> StatusVerified" "StatusUnreachable \<noteq> StatusInconclusive" "StatusUnreachable \<noteq> StatusDeferred"
  "StatusDeferred \<noteq> StatusVerified" "StatusDeferred \<noteq> StatusInconclusive" "StatusDeferred \<noteq> StatusUnreachable"
  by (simp_all add: cv_status_defs)

text \<open>What the stages make of a verdict that nothing was measured for yet.\<close>

definition settled_verdict :: "probe_env \<Rightarrow> unit_verdict \<Rightarrow> int \<Rightarrow> unit_verdict \<Rightarrow> bool" where
  "settled_verdict env v prevFails w \<longleftrightarrow>
     uvKey w = uvKey v \<and> uvEpisode w = uvEpisode v \<and> uvProbedAt w = uvProbedAt v \<and> uvEpisodes w = uvEpisodes v \<and>
     uvSoftsubs w = uvSoftsubs v \<and> uvStatus w \<in> {StatusVerified, StatusInconclusive, StatusUnreachable} \<and>
     uvFails w = (if uvStatus w = StatusUnreachable then prevFails + 1 else uvFails v) \<and>
     (uvStatus w = StatusUnreachable \<longrightarrow> \<not> peBudgetOver env) \<and>
     (uvStatus w = StatusVerified \<longleftrightarrow> (\<exists>a. uvAudio w = Some a \<and> avVerified a))"

lemma settled_unreachable: "uvAudio v = None \<Longrightarrow> settled_verdict env v n (verdictUnreachable env v n)"
  by (simp add: settled_verdict_def verdictUnreachable_def)

lemma settled_analyse: "uvAudio v = None \<Longrightarrow> settled_verdict env v n (analyse env v offsets wavs)"
  by (auto simp: settled_verdict_def analyse_def verdictInconclusive_def Let_def split: option.split prod.split)

lemma settled_sample: "uvAudio v = None \<Longrightarrow> settled_verdict env v n (sampleStream env v n st dur)"
  by (simp add: sampleStream_def Let_def settled_unreachable settled_analyse)

lemma Probe_cases:
  obtains (deferred) r where "peTempDir env" "resolveStream env u = Inl (CatUnavailable r)"
      "Probe now env u n = (newUnitVerdict u now)\<lparr>uvStatus := StatusDeferred, uvRetryAfter := r\<rparr>"
  | (failed) "\<not> peTempDir env \<or> (\<exists>e. resolveStream env u = Inl e \<and> (\<forall>r. e \<noteq> CatUnavailable r))"
      "settled_verdict env (newUnitVerdict u now) n (Probe now env u n)"
  | (resolved) st ep where "peTempDir env" "resolveStream env u = Inr (st, ep)"
      "settled_verdict env ((newUnitVerdict u now)\<lparr>uvEpisode := ep, uvSoftsubs := csTracks st\<rparr>) n (Probe now env u n)"
proof (cases "resolveStream env u")
  case (Inl e)
  then show ?thesis
  proof (cases "peTempDir env \<and> (\<exists>r. e = CatUnavailable r)")
    case True
    then obtain r where "peTempDir env" "e = CatUnavailable r" by blast
    with Inl show ?thesis by (intro deferred [of r]) (simp_all add: Probe_def)
  next
    case False
    then have "Probe now env u n = verdictUnreachable env (newUnitVerdict u now) n"
      using Inl by (cases e) (auto simp: Probe_def Let_def)
    moreover have "settled_verdict env (newUnitVerdict u now) n (verdictUnreachable env (newUnitVerdict u now) n)"
      by (rule settled_unreachable) (simp add: newUnitVerdict_def)
    ultimately show ?thesis using False Inl by (intro failed) auto
  qed
next
  case (Inr p)
  then obtain st ep where r: "resolveStream env u = Inr (st, ep)" by (cases p) auto
  show ?thesis
  proof (cases "peTempDir env")
    case True
    then have "settled_verdict env ((newUnitVerdict u now)\<lparr>uvEpisode := ep, uvSoftsubs := csTracks st\<rparr>) n (Probe now env u n)"
      by (auto simp: Probe_def r Let_def newUnitVerdict_def settled_unreachable settled_sample split: option.split)
    with True r resolved show ?thesis by blast
  qed (use failed in \<open>simp add: Probe_def Let_def settled_unreachable newUnitVerdict_def\<close>)
qed

text \<open>The audio of a verdict.\<close>

lemma AssembleAudio_verified:
  assumes "AssembleAudio frs = Some a" "avVerified a"
  shows "3 \<le> length (speechFragments frs) \<and> (\<forall>f\<in>set (speechFragments frs). lfLang f = avLang a) \<and>
    avLang a \<noteq> [] \<and> fle VerifiedThreshold (avConfidence a)"
proof -
  define sp where "sp = speechFragments frs"
  have ne: "sp \<noteq> []" using assms(1) by (auto simp: AssembleAudio_def Let_def sp_def)
  then have lang: "lfLang (hd sp) \<noteq> []"
    using hd_in_set [of sp] by (auto simp: sp_def speechFragments_def)
  define conf where "conf = (if fle compoundFloor (meanProb sp)
      then fsub (Fin 1) (fmul (fsub (Fin 1) (meanProb sp)) (MathPow corrDiscount (length sp - 1))) else meanProb sp)"
  have a: "a = (if \<not> list_all (\<lambda>f. lfLang f = lfLang (hd sp)) sp
      then \<lparr>avLang = lfLang (hd sp), avConfidence = fmul (meanProb sp) (Fin (1 / 2)), avVerified = False\<rparr>
      else \<lparr>avLang = lfLang (hd sp), avConfidence = conf,
        avVerified = (minSpeechFragments \<le> length sp \<and> fle VerifiedThreshold conf)\<rparr>)"
    using assms(1) ne unfolding AssembleAudio_def Let_def sp_def [symmetric] conf_def [symmetric] by (simp split: if_splits)
  with assms(2) have agree: "list_all (\<lambda>f. lfLang f = lfLang (hd sp)) sp" by (simp split: if_splits)
  show ?thesis
    unfolding sp_def [symmetric] using a [unfolded if_not_P [OF not_not [THEN iffD2, OF agree]]] agree assms(2) lang
    by (simp add: minSpeechFragments_def list_all_iff)
qed

section \<open>Offsets\<close>

lemma sampleOffsets_length [simp]: "length (sampleOffsets d i p) = 6"
  by (simp add: sampleOffsets_def)

lemma fadd_fin_not_NaN: "x \<noteq> NaN \<Longrightarrow> fadd x (Fin a) \<noteq> NaN"
  by (cases x) (simp_all add: fin_def Let_def)

lemma fsub_fin_not_NaN: "x \<noteq> NaN \<Longrightarrow> fsub x (Fin a) \<noteq> NaN"
  by (simp add: fsub_def fadd_fin_not_NaN)

lemma fin_not_NaN [simp]: "fin r \<noteq> NaN"
  by (simp add: fin_def Let_def)

text \<open>The last offset of an episode, for a duration the exponent of which leaves room.\<close>

definition lastOffset :: "float64 \<Rightarrow> float64" where
  "lastOffset d = fsub (fsub d (Fin 30)) (Fin 5)"

lemma lastOffset_bounds:
  assumes "120 \<le> d" "d < 2 ^ 1023" "representable d"
  obtains l where "lastOffset (Fin d) = Fin l" "85 \<le> l" "l \<le> d"
proof -
  have small: "x < 2 ^ 1024" if "x \<le> d" for x :: rat using that assms(2) by simp
  have a: "90 \<le> fround (d - 30)" "fround (d - 30) \<le> d"
    using assms representable_of_int [of 90] by (auto intro!: fround_ge fround_le)
  then have f1: "fsub (Fin d) (Fin 30) = Fin (fround (d - 30))"
    using small by (simp add: fsub_def fin_def Let_def not_le)
  have b: "85 \<le> fround (fround (d - 30) - 5)" "fround (fround (d - 30) - 5) \<le> d"
    using a assms representable_of_int [of 85] by (auto intro!: fround_ge fround_le)
  then have "lastOffset (Fin d) = Fin (fround (fround (d - 30) - 5))"
    using small unfolding lastOffset_def f1 by (simp add: fsub_def fin_def Let_def not_le)
  with b that show ?thesis by blast
qed

lemma sampleAt_bounds:
  assumes "120 \<le> d" "d < 2 ^ 1023" "representable d" "f = Fin r"
  shows "fle (Fin 30) (sampleAt (Fin d) intro outro f) \<and> fle (sampleAt (Fin d) intro outro f) (lastOffset (Fin d))"
proof -
  obtain l where l: "lastOffset (Fin d) = Fin l" "85 \<le> l" by (rule lastOffset_bounds [OF assms(1-3)])
  define s2 where "s2 = (let s0 = fmul (Fin d) f;
         s1 = (case intro of Some (a, b) \<Rightarrow>
             if fle (fin (of_int a)) s0 \<and> fle s0 (fin (of_int b)) then fadd (fin (of_int b)) (Fin 10) else s0 | None \<Rightarrow> s0)
       in (case outro of Some (a, b) \<Rightarrow>
             if fle (fin (of_int a)) s1 then fsub (fsub (fin (of_int a)) (Fin 30)) (Fin 10) else s1 | None \<Rightarrow> s1))"
  have "s2 \<noteq> NaN"
    unfolding s2_def Let_def assms(4) by (auto simp: fadd_fin_not_NaN fsub_fin_not_NaN split: option.split)
  moreover have "sampleAt (Fin d) intro outro f =
      (let s3 = (if flt s2 (Fin 30) then Fin 30 else s2) in if flt (Fin l) s3 then Fin l else s3)"
    unfolding sampleAt_def s2_def Let_def l(1) [unfolded lastOffset_def] by (rule refl)
  ultimately show ?thesis using l by (cases s2) (auto simp: Let_def)
qed

end
