(* ===== verification/CV_Worker.thy ===== *)
theory CV_Worker
  imports CV_Claim_Safe CV_Lane CV_Prober
begin

text \<open>
  The probe worker (\<^verbatim>\<open>internal/service/worker.go\<close>, \<^verbatim>\<open>curve.go\<close>): admission by the pressure curve and by
  demand, one claim, one probe, and what is stored of it. Metrics and logs are left out.
\<close>

section \<open>The pressure curve\<close>

record curve_point =
  cpScore :: float64
  cpCap :: int

text \<open>One piece of the text; \<open>prev\<close> is the score before it.\<close>

definition parsePoint :: "float64 \<Rightarrow> string \<Rightarrow> curve_point option" where
  "parsePoint prev p = (case Cut (TrimSpace p) CHR '':'' of
     None \<Rightarrow> None
   | Some (scoreStr, capStr) \<Rightarrow>
      (case (ParseFloat scoreStr, Atoi capStr) of
         (Some sc, Some cp) \<Rightarrow> if cp < 0 \<or> fle sc prev then None else Some \<lparr>cpScore = sc, cpCap = cp\<rparr>
       | _ \<Rightarrow> None))"

fun parsePoints :: "float64 \<Rightarrow> string list \<Rightarrow> curve_point list option" where
  "parsePoints prev [] = Some []"
| "parsePoints prev (p # ps) = (case parsePoint prev p of
     None \<Rightarrow> None
   | Some pt \<Rightarrow> map_option ((#) pt) (parsePoints (cpScore pt) ps))"

definition ParseCurve :: "string \<Rightarrow> curve_point list \<Rightarrow> curve_point list" where
  "ParseCurve s def = (case parsePoints (Fin (- 1)) (SplitAt CHR '','' s) of
     None \<Rightarrow> def | Some out \<Rightarrow> if out = [] then def else out)"

text \<open>
  \<^verbatim>\<open>int(math.Floor(x))\<close>: Go leaves open what a value outside \<^verbatim>\<open>int\<close> becomes, so \<open>other\<close> stands for it.
\<close>

definition toInt :: "int \<Rightarrow> float64 \<Rightarrow> int" where
  "toInt other x = (case IntFloor x of Some n \<Rightarrow> if fits64 n then n else other | None \<Rightarrow> other)"

definition capBetween :: "int \<Rightarrow> curve_point \<Rightarrow> curve_point \<Rightarrow> float64 \<Rightarrow> int" where
  "capBetween other a b score =
    (let frac = fdiv (fsub score (cpScore a)) (fsub (cpScore b) (cpScore a))
     in toInt other (fadd (fadd (fin (of_int (cpCap a))) (fmul frac (fin (of_int (cpCap b - cpCap a)))))
          (fin (1 / 1000000000))))"

fun capLoop :: "int \<Rightarrow> float64 \<Rightarrow> curve_point list \<Rightarrow> int" where
  "capLoop other score (a # b # cs) =
    (if fle score (cpScore b) then capBetween other a b score else capLoop other score (b # cs))"
| "capLoop other score cs = (if cs = [] then 0 else cpCap (last cs))"

definition Cap :: "int \<Rightarrow> curve_point list \<Rightarrow> float64 \<Rightarrow> int" where
  "Cap other c score =
    (if c = [] then 0
     else if fle score (cpScore (hd c)) then cpCap (hd c)
     else if fle (cpScore (last c)) score then cpCap (last c)
     else capLoop other score c)"

section \<open>One tick\<close>

record cv_worker =
  wkCurve :: "curve_point list"
  wkDemandPer :: int
  wkOther :: int

record tick_env =
  teScore :: float64
  teClaimAt :: instant
  teProbeAt :: instant
  teSavedAt :: instant
  teWorld :: cv_world
  teProbe :: probe_env
  teSkip :: skip_env

text \<open>\<open>NewWorker\<close> raises the divisor to one.\<close>

definition NewDemandPer :: "int \<Rightarrow> int" where
  "NewDemandPer n = (if n < 1 then 1 else n)"

definition demandCap :: "cv_worker \<Rightarrow> int \<Rightarrow> int" where
  "demandCap w pending = (if pending > 0
     then go_quot (pending + NewDemandPer (wkDemandPer w) - 1) (NewDemandPer (wkDemandPer w)) else 1)"

definition effectiveCap :: "cv_worker \<Rightarrow> float64 \<Rightarrow> int \<Rightarrow> int" where
  "effectiveCap w score pending =
    (let pressureCap = Cap (wkOther w) (wkCurve w) score; demand = demandCap w pending
     in if demand < pressureCap then demand else pressureCap)"

definition unitPrevFails :: "cv_unit \<Rightarrow> (cv, int) prog" where
  "unitPrevFails u = attempt (store_Get (unAnime u) (unProvider u)) (\<lambda>r. ret (case r of
     Inr (Some row) \<Rightarrow> (case List.find (\<lambda>v. keyString (uvKey v) = keyString (unKey u)) (vfUnits row) of
         Some v \<Rightarrow> uvFails v | None \<Rightarrow> 0)
   | _ \<Rightarrow> 0))"

definition persist :: "instant \<Rightarrow> cv_unit \<Rightarrow> unit_verdict \<Rightarrow> (cv, unit) prog" where
  "persist now u v = logged (UpsertUnit now (unAnime u) (unProvider u) (v\<lparr>uvEpisodes := unEpisodes u\<rparr>))"

definition tickUnit :: "tick_env \<Rightarrow> cv_unit \<Rightarrow> (cv, unit) prog" where
  "tickUnit te u =
     bnd (unitPrevFails u) (\<lambda>prevFails.
     let v = Probe (teProbeAt te) (teProbe te) u prevFails in
     if uvStatus v = StatusDeferred then Defer (teSavedAt te) (unAnime u) (unProvider u) (uvRetryAfter v)
     else persist (teSavedAt te) u v)"

text \<open>The deferred call of \<open>release\<close> runs on every way out.\<close>

definition runClaim :: "tick_env \<Rightarrow> claim \<Rightarrow> (cv, bool) prog" where
  "runClaim te c = (case c of
     ClaimIdle \<Rightarrow> ret False
   | ClaimUnit u \<Rightarrow> attempt (tickUnit te u) (\<lambda>_. bnd (release (unProvider u) (verifyClaimKey u)) (\<lambda>_. ret True))
   | ClaimSkip t \<Rightarrow> attempt (tickSkip (teProbeAt te) (teSkip te) t)
       (\<lambda>_. bnd (release (suProvider (tkUnit t)) (skipClaimKey (tkUnit t))) (\<lambda>_. ret True)))"

definition tick :: "cv_worker \<Rightarrow> cv_config \<Rightarrow> tick_env \<Rightarrow> int \<Rightarrow> (cv, bool) prog" where
  "tick w cf te i =
     bnd (memory (\<lambda>d. (PendingCount d, d))) (\<lambda>pending.
     if i \<ge> effectiveCap w (teScore te) pending then ret False
     else attempt (Claim cf (teWorld te) (teClaimAt te)) (\<lambda>r. case r of
       Inl _ \<Rightarrow> ret False | Inr c \<Rightarrow> runClaim te c))"

section \<open>Bounds of the curve\<close>

abbreviation moderate :: "rat \<Rightarrow> bool" where
  "moderate q \<equiv> representable q \<and> \<bar>q\<bar> \<le> 2 ^ 62"

lemma fin_between:
  assumes "lo \<le> r" "r \<le> hi" "moderate lo" "moderate hi"
  shows "fin r = Fin (fround r) \<and> lo \<le> fround r \<and> fround r \<le> hi"
proof -
  have b: "lo \<le> fround r" "fround r \<le> hi" using assms by (auto intro: fround_ge fround_le)
  have "\<bar>fround r\<bar> \<le> 2 ^ 62"
    using b assms(3,4) abs_le_iff [of lo "2 ^ 62"] abs_le_iff [of hi "2 ^ 62"] abs_le_iff [of "fround r" "2 ^ 62"]
    by (metis neg_le_iff_le order_trans)
  also have "(2::rat) ^ 62 < 2 ^ 1024" by (rule power_strict_increasing) simp_all
  finally have "fin r = Fin (fround r)" by (rule fin_eq)
  with b show ?thesis by blast
qed

lemma moderate_int: "\<bar>k\<bar> < 2 ^ 53 \<Longrightarrow> moderate (of_int k)"
proof -
  assume k: "\<bar>k\<bar> < 2 ^ 53"
  then have "of_int \<bar>k\<bar> \<le> (of_int (2 ^ 62) :: rat)" by (simp only: of_int_le_iff) simp
  with k show ?thesis by (simp add: representable_of_int)
qed

lemma fin_of_int: "\<bar>k\<bar> < 2 ^ 53 \<Longrightarrow> fin (of_int k) = Fin (of_int k)"
  using moderate_int [of k] fin_between [of "of_int k" "of_int k" "of_int k"] by (simp add: representable_def)

lemma moderate_consts: "moderate 0" "moderate 1" "moderate 2048" "moderate (1 / 1024)"
  using moderate_int [of 2048] representableI [of 1 "- 10"] by (simp_all add: power_int_minus)

lemma moderate_half: "0 \<le> k \<Longrightarrow> k < 2 ^ 31 \<Longrightarrow> moderate (of_int k + 1 / 2)"
proof -
  assume k: "0 \<le> k" "k < 2 ^ 31"
  have eq: "(of_int k + 1 / 2 :: rat) = of_int (2 * k + 1) * 2 powi (- 1)" by (simp add: power_int_minus field_simps)
  have "representable (of_int (2 * k + 1) * 2 powi (- 1))" using k by (intro representableI) auto
  then have "representable (of_int k + 1 / 2)" by (simp only: eq)
  moreover have "of_int k < (of_int (2 ^ 31) :: rat)" using k(2) by (simp only: of_int_less_iff)
  ultimately show ?thesis using k by simp
qed

text \<open>An interpolated cap lies between the caps of its two breakpoints.\<close>

lemma capBetween_bounds:
  fixes x y z :: rat and A B :: int
  assumes gap: "x + 1 / 1024 \<le> y" "\<bar>x\<bar> \<le> 1024" "\<bar>y\<bar> \<le> 1024" and z: "x \<le> z" "z \<le> y"
    and caps: "0 \<le> A" "A < 2 ^ 31" "0 \<le> B" "B < 2 ^ 31"
  shows "min A B \<le> capBetween other \<lparr>cpScore = Fin x, cpCap = A\<rparr> \<lparr>cpScore = Fin y, cpCap = B\<rparr> (Fin z) \<and>
    capBetween other \<lparr>cpScore = Fin x, cpCap = A\<rparr> \<lparr>cpScore = Fin y, cpCap = B\<rparr> (Fin z) \<le> max A B"
proof -
  define n where "n = fround (z - x)"
  define m where "m = fround (y - x)"
  define f where "f = fround (n / m)"
  define p where "p = fround (f * of_int (B - A))"
  define t where "t = fround (of_int A + p)"
  define e where "e = fround (1 / 1000000000)"
  have wide: "y - x \<le> 2048" using gap(2,3) by linarith
  have n: "fin (z - x) = Fin n" "0 \<le> n"
    unfolding n_def using fin_between [of 0 "z - x" 2048] z wide moderate_consts by auto
  have m: "fin (y - x) = Fin m" "1 / 1024 \<le> m"
    unfolding m_def using fin_between [of "1 / 1024" "y - x" 2048] gap(1) wide moderate_consts by auto
  have nm: "n \<le> m" unfolding n_def m_def using z by (intro fround_mono) simp
  have m0: "0 < m" using m(2) by (rule less_le_trans [rotated]) simp
  have f: "fdiv (Fin n) (Fin m) = Fin f" "0 \<le> f" "f \<le> 1"
    unfolding f_def using fin_between [of 0 "n / m" 1] n nm m0 moderate_consts by (auto simp: divide_simps)
  have BA: "\<bar>B - A\<bar> < 2 ^ 53" using caps by (simp add: abs_less_iff)
  have lohi: "min A B = A + min 0 (B - A)" "max A B = A + max 0 (B - A)" by auto
  have mins: "moderate (of_int (min 0 (B - A)))" "moderate (of_int (max 0 (B - A)))"
    using BA by (intro moderate_int; simp add: min_def max_def abs_less_iff)+
  have "of_int (min 0 (B - A)) \<le> f * of_int (B - A) \<and> f * of_int (B - A) \<le> of_int (max 0 (B - A))"
  proof (cases "0 \<le> B - A")
    case True
    then have "(0::rat) \<le> of_int (B - A)" by (simp only: of_int_0_le_iff)
    with f(2,3) True show ?thesis by (simp del: of_int_diff add: mult_left_le_one_le)
  next
    case False
    then have "of_int (B - A) \<le> (0::rat)" by (simp only: of_int_le_0_iff)
    with f(2,3) False show ?thesis
      using mult_right_mono_neg [of f 1 "of_int (B - A) :: rat"] by (simp del: of_int_diff add: mult_nonneg_nonpos)
  qed
  then have fb: "of_int (min 0 (B - A)) \<le> f * of_int (B - A)" "f * of_int (B - A) \<le> of_int (max 0 (B - A))" by auto
  have p: "fmul (Fin f) (fin (of_int (B - A))) = Fin p" "of_int (min 0 (B - A)) \<le> p" "p \<le> of_int (max 0 (B - A))"
    unfolding p_def fin_of_int [OF BA] using fin_between [OF fb mins] by simp_all
  have A: "fin (of_int A) = Fin (of_int A)" using caps by (intro fin_of_int) simp
  have ends: "moderate (of_int (min A B))" "moderate (of_int (max A B))" using caps by (intro moderate_int; simp add: min_def max_def abs_less_iff)+
  have t: "fadd (fin (of_int A)) (Fin p) = Fin t" "of_int (min A B) \<le> t" "t \<le> of_int (max A B)"
    unfolding A t_def using fin_between [of "of_int (min A B)" "of_int A + p" "of_int (max A B)"] p(2,3) ends lohi
    by (simp_all only: of_int_add fadd.simps; simp)+
  have e: "fin (1 / 1000000000) = Fin e" "0 \<le> e" "e \<le> 1 / 2"
    unfolding e_def using fround_le [of "1 / 1000000000" "1 / 2"] by (simp_all add: fin_small fround_nonneg)
  have "moderate (of_int (max A B) + 1 / 2)" using caps by (intro moderate_half) auto
  then have u: "fadd (Fin t) (Fin e) = Fin (fround (t + e))" "of_int (min A B) \<le> fround (t + e)"
      "fround (t + e) \<le> of_int (max A B) + 1 / 2"
    using fin_between [of "of_int (min A B)" "t + e" "of_int (max A B) + 1 / 2"] t(2,3) e(2,3) ends(1) by simp_all
  have "min A B \<le> \<lfloor>fround (t + e)\<rfloor>" "\<lfloor>fround (t + e)\<rfloor> \<le> max A B"
    using u(2,3) by (simp_all only: le_floor_iff floor_le_iff)
  moreover have "fits64 k" if "min A B \<le> k" "k \<le> max A B" for k
    using that caps by (simp add: fits64_def min_def max_def split: if_splits)
  then have "fits64 \<lfloor>fround (t + e)\<rfloor>" using calculation by blast
  moreover have "fsub (Fin z) (Fin x) = Fin n" "fsub (Fin y) (Fin x) = Fin m"
    using n(1) m(1) by (simp_all add: fsub_def)
  ultimately show ?thesis
    unfolding capBetween_def Let_def
    by (simp only: curve_point.simps f(1) p(1) t(1) e(1) u(1) toInt_def IntFloor.simps option.case if_True)
qed

text \<open>Curves with ascending breakpoints that are not too close, as an operator writes them.\<close>

definition point_ok :: "curve_point \<Rightarrow> bool" where
  "point_ok p \<longleftrightarrow> (case cpScore p of Fin x \<Rightarrow> \<bar>x\<bar> \<le> 1024 | _ \<Rightarrow> False) \<and> 0 \<le> cpCap p \<and> cpCap p < 2 ^ 31"

definition apart :: "curve_point \<Rightarrow> curve_point \<Rightarrow> bool" where
  "apart p q \<longleftrightarrow> (case (cpScore p, cpScore q) of (Fin x, Fin y) \<Rightarrow> x + 1 / 1024 \<le> y | _ \<Rightarrow> False)"

definition curve_ok :: "curve_point list \<Rightarrow> bool" where
  "curve_ok c \<longleftrightarrow> c \<noteq> [] \<and> list_all point_ok c \<and> successively apart c"

lemma capBetween_ok:
  assumes "point_ok a" "point_ok b" "apart a b" "fle score (cpScore b)" "\<not> fle score (cpScore a)"
  shows "min (cpCap a) (cpCap b) \<le> capBetween other a b score \<and> capBetween other a b score \<le> max (cpCap a) (cpCap b)"
proof -
  obtain x y where p: "cpScore a = Fin x" "cpScore b = Fin y" "\<bar>x\<bar> \<le> 1024" "\<bar>y\<bar> \<le> 1024" "x + 1 / 1024 \<le> y"
    using assms(1-3) by (auto simp: point_ok_def apart_def split: float64.splits)
  obtain z where z: "score = Fin z" "x \<le> z" "z \<le> y" using assms(4,5) p(1,2) by (cases score) auto
  have "a = \<lparr>cpScore = Fin x, cpCap = cpCap a\<rparr>" "b = \<lparr>cpScore = Fin y, cpCap = cpCap b\<rparr>" using p(1,2) by simp_all
  with capBetween_bounds [OF p(5,3,4) z(2,3), of "cpCap a" "cpCap b" other] assms(1,2) show ?thesis
    unfolding z(1) point_ok_def by metis
qed

lemma capLoop_bounds:
  "list_all point_ok c \<Longrightarrow> successively apart c \<Longrightarrow> c \<noteq> [] \<Longrightarrow> \<not> fle score (cpScore (hd c)) \<Longrightarrow>
   (\<exists>p\<in>set c. cpCap p \<le> capLoop other score c) \<and> (\<exists>q\<in>set c. capLoop other score c \<le> cpCap q)"
proof (induction other score c rule: capLoop.induct)
  case (1 other score a b cs)
  show ?case
  proof (cases "fle score (cpScore b)")
    case True
    have "min (cpCap a) (cpCap b) \<le> capBetween other a b score \<and> capBetween other a b score \<le> max (cpCap a) (cpCap b)"
      using 1 True by (intro capBetween_ok) auto
    with True show ?thesis by (auto simp: min_def max_def split: if_splits)
  next
    case False
    with 1 show ?thesis by auto
  qed
qed (auto intro: last_in_set)

lemma Cap_NaN: "c \<noteq> [] \<Longrightarrow> Cap other c NaN = cpCap (last c)"
proof -
  have "capLoop other NaN c = cpCap (last c)" if "c \<noteq> []"
    using that by (induction other "NaN" c rule: capLoop.induct) auto
  then show "c \<noteq> [] \<Longrightarrow> Cap other c NaN = cpCap (last c)" by (simp add: Cap_def)
qed

lemma Cap_bounds:
  assumes "curve_ok c"
  shows "(\<exists>p\<in>set c. cpCap p \<le> Cap other c score) \<and> (\<exists>q\<in>set c. Cap other c score \<le> cpCap q)"
proof -
  have c: "c \<noteq> []" "list_all point_ok c" "successively apart c" using assms by (simp_all add: curve_ok_def)
  have ends: "hd c \<in> set c" "last c \<in> set c" using c(1) by simp_all
  show ?thesis
    using capLoop_bounds [OF c(2,3,1), of score other] c(1) ends unfolding Cap_def by (auto split: if_split)
qed

section \<open>Leases of a tick\<close>

definition leasesAre :: "string set \<Rightarrow> (string \<rightharpoonup> int) \<Rightarrow> cv \<Rightarrow> bool" where
  "leasesAre U P d \<longleftrightarrow> enUnits d = U \<and> enProv d = P"

lemma leasesAre_updates [simp]:
  "leasesAre U P (d\<lparr>cvRows := x1\<rparr>) = leasesAre U P d" "leasesAre U P (d\<lparr>cvSkips := x2\<rparr>) = leasesAre U P d"
  "leasesAre U P (d\<lparr>cvPrints := x3\<rparr>) = leasesAre U P d" "leasesAre U P (d\<lparr>enDefer := x4\<rparr>) = leasesAre U P d"
  by (simp_all add: leasesAre_def)

lemma leases_store [preserves_rules]:
  "preserves (leasesAre U P) (store_Get a p)" "preserves (leasesAre U P) (SkipByAnime a)"
  "preserves (leasesAre U P) (saveRow now a p v old)" "preserves (leasesAre U P) (saveSkip t known)"
  "preserves (leasesAre U P) (AddFingerprint f)" "preserves (leasesAre U P) (Fingerprints a)"
  unfolding store_Get_def SkipByAnime_def saveRow_def saveSkip_def AddFingerprint_def Fingerprints_def
  by (intro preserves_rules; simp split: option.split)+

lemma leases_unit [preserves_rules]: "preserves (leasesAre U P) (tickUnit te u)"
  unfolding tickUnit_def unitPrevFails_def persist_def UpsertUnit_def Defer_def Let_def
  by (intro preserves_rules) simp_all

lemma leases_pair [preserves_rules]:
  "preserves (leasesAre U P) (fetchFPs a)" "preserves (leasesAre U P) (bootstrapSide now t kind note out)"
  unfolding fetchFPs_def bootstrapSide_def by (intro preserves_rules)+

lemma leases_sides [preserves_rules]:
  "preserves (leasesAre U P) (probePairOp now env t p fps x y rows)"
  "preserves (leasesAre U P) (probePairEd now env t p fps x y rows)"
  unfolding probePairOp_def probePairEd_def Let_def by (intro preserves_rules)+

lemma leases_probes [preserves_rules]:
  "preserves (leasesAre U P) (probePair now env t p x y)"
  "preserves (leasesAre U P) (probeLocate now env t x oc ec)"
  unfolding probePair_def probeLocate_def Let_def by (intro preserves_rules)+

lemma leases_skip [preserves_rules]: "preserves (leasesAre U P) (tickSkip now env t)"
  unfolding tickSkip_def skipPrevFails_def UpsertSkip_def SkipProbe_def Let_def by (intro preserves_rules)

lemma release_undoes:
  assumes "tookLease cf p key d d'" "leasesAre (enUnits d') (enProv d') d''" "\<forall>q n. enProv d q = Some n \<longrightarrow> 0 < n"
  shows "wp (bnd (release p key) (\<lambda>_. ret True)) (\<lambda>_. leasesAre (enUnits d) (enProv d)) (\<lambda>_ _. False) d''"
proof -
  have "enProv (dropLease p key d'') = enProv d"
    using assms(1,2) assms(3) [rule_format, of p]
    by (intro ext) (auto simp: dropLease_fields tookLease_def leasesAre_def inflight_def split: option.splits)
  moreover have "enUnits (dropLease p key d'') = enUnits d"
    using assms by (auto simp: dropLease_fields tookLease_def leasesAre_def)
  ultimately show ?thesis
    unfolding release_def by (intro wp_bnd wp_memory) (simp add: leasesAre_def wp_ret)
qed

theorem wp_tick:
  assumes "\<forall>q n. enProv d q = Some n \<longrightarrow> 0 < n"
  shows "wp (tick w cf te i) (\<lambda>_. leasesAre (enUnits d) (enProv d)) (\<lambda>_ _. False) d"
proof -
  have here: "leasesAre (enUnits d) (enProv d) d'" if "keep d d'" for d'
    using that by (simp add: keep_def leasesAre_def)
  have step: "wp (attempt m (\<lambda>_. bnd (release p key) (\<lambda>_. ret True))) (\<lambda>_. leasesAre (enUnits d) (enProv d)) (\<lambda>_ _. False) d'"
    if t: "tookLease cf p key d d'" and m: "preserves (leasesAre (enUnits d') (enProv d')) m"
    for p key d' and m :: "(cv, unit) prog"
  proof (rule wp_attempt, rule wp_mono [OF preservesD [OF m]])
    show "leasesAre (enUnits d') (enProv d') d'" by (simp add: leasesAre_def)
  qed (rule release_undoes [OF t _ assms], assumption)+
  have run: "wp (runClaim te c) (\<lambda>_. leasesAre (enUnits d) (enProv d)) (\<lambda>_ _. False) d'"
    if g: "goodClaim cf now cands d c d'" for c now cands d'
  proof (cases c)
    case ClaimIdle
    with g here show ?thesis by (simp add: goodClaim_def runClaim_def wp_ret)
  next
    case (ClaimUnit u)
    with g have "tookLease cf (unProvider u) (verifyClaimKey u) d d'" by (simp add: goodClaim_def)
    from step [OF this leases_unit] ClaimUnit show ?thesis by (simp add: runClaim_def)
  next
    case (ClaimSkip t)
    with g have "tookLease cf (suProvider (tkUnit t)) (skipClaimKey (tkUnit t)) d d'" by (simp add: goodClaim_def)
    from step [OF this leases_skip] ClaimSkip show ?thesis by (simp add: runClaim_def)
  qed
  show ?thesis
    unfolding tick_def PendingCount_def
    by (rule wp_bnd, rule wp_memory, unfold fst_conv snd_conv, rule wp_if, simp add: wp_ret leasesAre_def, rule wp_attempt,
        rule wp_mono [OF wp_Claim]) (auto intro: run simp: wp_ret here)
qed

end
