(* ===== verification/CV_Safety.thy ===== *)
theory CV_Safety
  imports CV_Worker
begin

text \<open>The properties of content-verify: its queue, its leases, its probes and what they store.\<close>

section \<open>A small title\<close>

definition emptyTables :: cvdb where
  "emptyTables = \<lparr>cvRows = [], cvSkips = [], cvPrints = []\<rparr>"

definition smallSkip :: skip_unit where
  "smallSkip = \<lparr>suAnime = ''a'', suProvider = ''kodik'', suTeam = ''t'', suTeamID = 7, suEpisode = 1,
     suEpisodeID = [], suStateRank = 0\<rparr>"

lemma NewEngine_simps [simp]:
  "cvRows (NewEngine db) = cvRows db" "cvSkips (NewEngine db) = cvSkips db" "cvPrints (NewEngine db) = cvPrints db"
  "enUnits (NewEngine db) = {}" "enProv (NewEngine db) = Map.empty" "enDefer (NewEngine db) = Map.empty"
  by (simp_all add: NewEngine_def cvdb.defs)

lemma find_updated:
  assumes "List.find (isRow a p) rs = Some r" "isRow a p r'"
  shows "List.find (isRow a p) (map (\<lambda>x. if isRow a p x then r' else x) rs) = Some r'"
  using assms by (induction rs) (auto split: if_splits)

lemma find_appended: "List.find P rs = None \<Longrightarrow> P r \<Longrightarrow> List.find P (rs @ [r]) = Some r"
  by (induction rs) (auto split: if_splits)

text \<open>Without a fault, the row that was read is written back with the verdict merged into it.\<close>

lemma twp_saveRow:
  assumes "old = List.find (isRow a p) (cvRows d)"
  shows "twp (saveRow now a p v old) (\<lambda>_ d'. v \<in> set (stored a p (cvRows d'))) d"
proof (cases old)
  case None
  then have "\<not> list_ex (isRow a p) (cvRows d)" using assms by (auto simp: find_None_iff list_ex_iff)
  moreover have "isRow a p \<lparr>vfAnime = a, vfProvider = p, vfUnits = mergeUnit v [], vfUpdatedAt = now\<rparr>" by (simp add: isRow_def)
  ultimately show ?thesis
    unfolding saveRow_def None using assms None
    by (intro twp_command) (auto simp: stored_def find_appended mergeUnit_mem)
next
  case (Some r)
  then have f: "List.find (isRow a p) (cvRows d) = Some r" using assms by simp
  then have "isRow a p r" by (metis find_Some_iff)
  then have "isRow a p (r\<lparr>vfUnits := us, vfUpdatedAt := now\<rparr>)" for us by (simp add: isRow_def)
  note upd = find_updated [OF f this]
  show ?thesis
    unfolding saveRow_def Some by (rule twp_command, simp) (simp add: stored_def upd mergeUnit_mem)
qed

section \<open>The skip lane\<close>

text \<open>
  C6. The skip lane comes to rest: whatever the catalog, the analyzers and AniSkip answer, a loop of the
  worker that keeps planning and running skip tasks for one title at one instant runs at most two tasks
  for each unit key, and when it is offered more steps than that it stops with nothing left to plan.
\<close>

theorem skip_lane_settles:
  assumes "lane_ok (cvSkips d)" "lane_units a units"
  shows "\<exists>n d'. laneRun now a units es (clean d) = (Inr n, clean d') \<and> n \<le> 2 * card (unitKeyOf ` set units) \<and>
    (2 * card (unitKeyOf ` set units) < length es \<longrightarrow> lane_settled now a units d')"
proof -
  obtain n d' where r: "laneRun now a units es (clean d) = (Inr n, clean d')"
    "n \<le> laneMeasure now units (titleIndex a (cvSkips d))" "n < length es \<longrightarrow> lane_settled now a units d'"
    using twp_laneRun [OF assms] unfolding twp_def by blast
  moreover from this(2) have "n \<le> 2 * card (unitKeyOf ` set units)"
    using laneMeasure_le le_trans by blast
  ultimately show ?thesis by (intro exI [of _ n] exI [of _ d']) auto
qed

theorem skip_lane_settles_witness:
  "\<forall>e. \<exists>n d'. laneRun 0 ''a'' [smallSkip] [e, e, e] (clean emptyTables) = (Inr n, clean d') \<and> n \<le> 2 \<and>
     lane_settled 0 ''a'' [smallSkip] d'"
proof
  fix e
  show "\<exists>n d'. laneRun 0 ''a'' [smallSkip] [e, e, e] (clean emptyTables) = (Inr n, clean d') \<and> n \<le> 2 \<and>
     lane_settled 0 ''a'' [smallSkip] d'"
    using skip_lane_settles [of emptyTables "''a''" "[smallSkip]" 0 "[e, e, e]"]
    by (auto simp: emptyTables_def smallSkip_def lane_ok_def skips_ok_def lane_units_def barFree_def)
qed

section \<open>Leases\<close>

text \<open>
  C7. Leases are exclusive and bounded, under every interleaving of the workers: however attempts to
  lease and calls of release functions follow each other, repeated calls included, no unit is leased
  twice at a time, no provider has more open leases than its limit, and the engine's tables hold exactly
  the leases that are open.
\<close>

theorem leases_are_exclusive:
  "let s = fold (leaseStep cf) es \<lparr>lsEngine = NewEngine db, lsTickets = []\<rparr> in
    distinct (map tiKey (open_tickets s)) \<and> int (openOf p s) \<le> provLimitOf cf \<and>
    enUnits (lsEngine s) = tiKey ` set (open_tickets s) \<and>
    enProv (lsEngine s) p = (if openOf p s = 0 then None else Some (int (openOf p s)))"
  using leases_ok_run [of "NewEngine db" cf es] unfolding leases_ok_def Let_def by simp


text \<open>
  C8. A tick returns the lease it took: whatever it claims, whatever the probe answers and whichever
  command of the store fails, a tick ends without an error and the lease tables are again what they were.
\<close>

theorem tick_returns_leases:
  assumes "\<forall>q n. enProv d q = Some n \<longrightarrow> 0 < n"
  shows "case tick w cf te i \<lparr>data = d, faults = script\<rparr> of (r, s') \<Rightarrow>
    (\<exists>worked. r = Inr worked) \<and> enUnits (data s') = enUnits d \<and> enProv (data s') = enProv d"
proof -
  obtain r s' where run: "tick w cf te i \<lparr>data = d, faults = script\<rparr> = (r, s')" by force
  have "ends (\<lambda>_. leasesAre (enUnits d) (enProv d)) (\<lambda>_ _. False) (tick w cf te i \<lparr>data = d, faults = script\<rparr>)"
    by (rule wpD) (simp add: wp_tick [OF assms])
  then have "ends (\<lambda>_. leasesAre (enUnits d) (enProv d)) (\<lambda>_ _. False) (r, s')" unfolding run .
  then show ?thesis unfolding run by (cases r) (simp_all add: leasesAre_def)
qed

theorem tick_returns_leases_witness:
  "\<forall>w cf te i script. case tick w cf te i \<lparr>data = NewEngine emptyTables, faults = script\<rparr> of (r, s') \<Rightarrow>
     enUnits (data s') = {} \<and> enProv (data s') = Map.empty"
proof (intro allI)
  fix w cf te i script
  show "case tick w cf te i \<lparr>data = NewEngine emptyTables, faults = script\<rparr> of (r, s') \<Rightarrow>
     enUnits (data s') = {} \<and> enProv (data s') = Map.empty"
    using tick_returns_leases [of "NewEngine emptyTables" w cf te i script] by (auto split: prod.splits)
qed

section \<open>The queue\<close>

text \<open>
  C17. A claim visits every title once, in the order that the code promises: the queue is a permutation
  of the candidates, pinned titles come first, a band is finished before the next one begins, and inside
  a band no title stands behind one that it precedes in the order of the band. Scores are numbers here:
  a NaN score would break the order of a band.
\<close>

theorem queue_order:
  assumes "\<forall>c\<in>set cs. scored c"
  shows "mset (bandedOrder w r now fw cs) = mset cs \<and> hd (bandOrder w r) = BandPinned \<and>
    set (bandOrder w r) = UNIV \<and>
    sorted_wrt (\<lambda>x y. bandRank (bandOrder w r) (BandOf x) < bandRank (bandOrder w r) (BandOf y) \<or>
      BandOf x = BandOf y \<and> \<not> IntraLess y x now fw) (bandedOrder w r now fw cs)"
proof -
  have "sorted_wrt (\<lambda>x y. bandRank (bandOrder w r) (BandOf x) < bandRank (bandOrder w r) (BandOf y) \<or>
      BandOf x = BandOf y \<and> \<not> IntraLess y x now fw) (bandedOrder w r now fw cs)"
    unfolding bandedOrder_def
  proof (rule in_order_concat [OF bandOrder_bands(1)])
    fix b
    show "in_order (\<lambda>x y. IntraLess x y now fw) (SliceStable (\<lambda>x y. IntraLess x y now fw) (filter (\<lambda>c. BandOf c = b) cs))"
      by (rule band_order.sorted_slice [of _ b]) (use assms in auto)
  qed auto
  moreover have "hd (bandOrder w r) = BandPinned" by (simp add: bandOrder_def Let_def)
  ultimately show ?thesis by (simp add: mset_bandedOrder bandOrder_bands)
qed

definition smallTitle :: candidate where
  "smallTitle = (newCandidate ''a'')\<lparr>cdOngoing := True, cdMalScore := Fin 8\<rparr>"

theorem queue_order_witness:
  "sorted_wrt (\<lambda>x y. bandRank (bandOrder (5, 3, 2) (Fin 0)) (BandOf x) < bandRank (bandOrder (5, 3, 2) (Fin 0)) (BandOf y) \<or>
      BandOf x = BandOf y \<and> \<not> IntraLess y x 0 0)
     (bandedOrder (5, 3, 2) (Fin 0) 0 0 [smallTitle, smallTitle\<lparr>cdMalScore := Fin 9\<rparr>])"
  using queue_order [of "[smallTitle, smallTitle\<lparr>cdMalScore := Fin 9\<rparr>]" "(5, 3, 2)" "Fin 0" 0 0]
  by (simp add: scored_def smallTitle_def)

text \<open>
  Failures back off geometrically: the loop that computes the delay ends for every count of
  failures with six hours doubled for each failure after the first, at most a week; and a unit whose
  last probe did not reach its stream stays out of the queue until that delay is over, unless the queue
  asks for a later episode than the stored one.
\<close>

theorem unreachable_backs_off:
  "Backoff n = min (168 * Hour) (6 * Hour * 2 ^ nat (n - 1)) \<and>
   UnitDue u (Some (v\<lparr>uvStatus := StatusUnreachable, uvFails := n\<rparr>)) now ttl =
     (uvEpisode v < unEpisode u \<or> uvProbedAt v + min (168 * Hour) (6 * Hour * 2 ^ nat (n - 1)) < now)"
proof -
  have "(32::int) \<le> 2 ^ nat (n - 1)" if "6 \<le> n"
  proof -
    have "(2::int) ^ 5 \<le> 2 ^ nat (n - 1)" using that by (intro power_increasing) auto
    then show ?thesis by simp
  qed
  moreover have "n \<le> 1 \<or> n = 2 \<or> n = 3 \<or> n = 4 \<or> n = 5 \<or> 6 \<le> n" by linarith
  ultimately have "Backoff n = min (168 * Hour) (6 * Hour * 2 ^ nat (n - 1))"
    by (elim disjE) (auto simp: Backoff_table hour_defs eval_nat_numeral min_def)
  then show ?thesis by (simp add: UnitDue_def TimeAfter_def)
qed

section \<open>Summaries\<close>

text \<open>
  C18. A summary reports exactly what the verdicts of a provider support: raw audio, the dubbed and the
  burned-in languages are those that some verified verdict names, each once and in order, the number of
  episodes is the largest one known, the provider counts as unreachable when every unit is, as verified
  when every unit is, and as partly verified when anything at all was established.
\<close>

theorem summary_reports:
  "Summarize us = \<lparr>
     psStatus = (if us \<noteq> [] \<and> list_all (\<lambda>u. uvStatus u = StatusVerified) us then ''verified''
       else if \<not> list_ex (\<lambda>u. uvStatus u = StatusVerified \<or> claimsRaw u) us \<and> dubsOf us = {} \<and> hardsubsOf us = {}
       then ''unverified'' else ''partial''),
     psRaw = list_ex claimsRaw us,
     psDubLangs = sorted_list_of_set (dubsOf us),
     psHardsubLangs = sorted_list_of_set (hardsubsOf us),
     psEpisodes = fold max (map uvEpisodes us) 0,
     psUnreachable = (us \<noteq> [] \<and> list_all (\<lambda>u. uvStatus u = StatusUnreachable) us)\<rparr>"
proof (cases "us = []")
  case True
  then show ?thesis by (simp add: Summarize_def dubsOf_def hardsubsOf_def)
next
  case False
  define a where "a = fold summaryStep us \<lparr>saRaw = False, saDub = [], saHard = [], saVerified = 0, saUnreachable = 0, saEpisodes = 0\<rparr>"
  have a: "summary_ok us a" unfolding a_def by (rule summary_fold_ok)
  have lists: "sort (saDub a) = sorted_list_of_set (dubsOf us)" "sort (saHard a) = sorted_list_of_set (hardsubsOf us)"
    using a sort_set [of "saDub a"] sort_set [of "saHard a"] by (simp_all add: summary_ok_def)
  have empty: "sort (saDub a) = [] \<longleftrightarrow> dubsOf us = {}" "sort (saHard a) = [] \<longleftrightarrow> hardsubsOf us = {}"
    using a set_sort set_empty unfolding summary_ok_def by metis+
  have counts: "(saVerified a = int (length us)) = list_all (\<lambda>u. uvStatus u = StatusVerified) us"
      "(0 < saVerified a) = list_ex (\<lambda>u. uvStatus u = StatusVerified) us"
      "(saUnreachable a = int (length us)) = list_all (\<lambda>u. uvStatus u = StatusUnreachable) us"
    using a all_counted [of _ us] some_counted [of _ us] by (simp_all add: summary_ok_def list_all_iff list_ex_iff)
  have rest: "saRaw a = list_ex claimsRaw us" "saEpisodes a = fold max (map uvEpisodes us) 0"
    using a by (simp_all add: summary_ok_def list_ex_iff)
  have either: "list_ex (\<lambda>u. P u \<or> Q u) us \<longleftrightarrow> list_ex P us \<or> list_ex Q us" for P Q :: "unit_verdict \<Rightarrow> bool"
    by (auto simp: list_ex_iff)
  show ?thesis
    unfolding Summarize_def Let_def a_def [symmetric] if_not_P [OF False] counts empty rest either
    unfolding lists using False by simp
qed

section \<open>Probes\<close>


text \<open>
  A verified audio verdict rests on agreement: at least three fragments with speech were heard, all
  of them in the language of the verdict, and the compounded confidence reaches the threshold; one
  fragment in another language is enough to withhold the badge.
\<close>

theorem badge_needs_agreement:
  assumes "AssembleAudio frs = Some a" "avVerified a"
  shows "3 \<le> length (speechFragments frs) \<and> (\<forall>f\<in>set (speechFragments frs). lfLang f = avLang a) \<and>
    avLang a \<noteq> [] \<and> fle VerifiedThreshold (avConfidence a)"
  by (rule AssembleAudio_verified [OF assms])

definition spoken :: lid_fragment where
  "spoken = \<lparr>lfLang = ''ja'', lfProb = Fin 1, lfSpeechSeconds = Fin 20, lfSpeech = True\<rparr>"

lemma spoken_verdict:
  "AssembleAudio [spoken, spoken, spoken] = Some \<lparr>avLang = ''ja'', avConfidence = Fin 1, avVerified = True\<rparr>"
proof -
  have sp: "speechFragments [spoken, spoken, spoken] = [spoken, spoken, spoken]" by (simp add: speechFragments_def spoken_def)
  have ints: "fin 2 = Fin 2" "fin 3 = Fin 3" using fin_repr representable_of_int [of 2] representable_of_int [of 3] by auto
  have mean: "meanProb [spoken, spoken, spoken] = Fin 1"
    by (simp add: meanProb_def spoken_def ints)
  have le: "fle (fin r) (Fin 1)" if "0 \<le> r" "r \<le> 1" for r
    using that fround_le [of r 1] by (simp add: fin_small)
  have unit: "\<exists>b. fmul (Fin a) (Fin a) = Fin b \<and> 0 \<le> b \<and> b \<le> 1" if "0 \<le> a" "a \<le> 1" for a
    using that mult_le_one [of a a] fround_le [of "a * a" 1] fround_nonneg [of "a * a"] by (auto simp: fin_small)
  obtain c where "corrDiscount = Fin c" "0 \<le> c" "c \<le> 1"
    using fround_le [of "6 / 10" 1] fround_nonneg [of "6 / 10"] by (simp add: corrDiscount_def fin_small)
  with unit obtain b where "fmul corrDiscount corrDiscount = Fin b" "0 \<le> b" "b \<le> 1" by metis
  then have "MathPow corrDiscount 2 = fin b" by (simp add: MathPow_def powNat.simps [of 2] powNat.simps [of "Suc 0"] powNat.simps [of 0])
  moreover have "fin b = Fin (fround b)" using \<open>0 \<le> b\<close> \<open>b \<le> 1\<close> by (simp add: fin_small)
  ultimately show ?thesis
    unfolding AssembleAudio_def Let_def sp mean
    by (simp add: spoken_def compoundFloor_def VerifiedThreshold_def minSpeechFragments_def le fsub_def numeral_2_eq_2)
qed

theorem badge_needs_agreement_witness:
  "avLang \<lparr>avLang = ''ja'', avConfidence = Fin 1, avVerified = True\<rparr> \<noteq> [] \<and> 3 \<le> length (speechFragments [spoken, spoken, spoken])"
  using badge_needs_agreement [OF spoken_verdict] by simp

text \<open>
  Fragments are cut inside the episode: for every playlist of two minutes or more and whatever
  intro and outro windows the catalog names, there are six offsets, none before second 30 and none
  after the last one that leaves room for a fragment.
\<close>

theorem fragments_inside_episode:
  assumes "120 \<le> d" "d < 2 ^ 1023" "representable d"
  shows "length (sampleOffsets (Fin d) intro outro) = 6 \<and>
    (\<forall>s\<in>set (sampleOffsets (Fin d) intro outro). fle (Fin 30) s \<and> fle s (lastOffset (Fin d)))"
proof -
  have fracs: "\<exists>r. x = Fin r" if "x \<in> {Fin (1 / 4), Fin (1 / 2), Fin (3 / 4), fin (35 / 100), fin (60 / 100), fin (85 / 100)}" for x
    using that by (auto simp: fin_small)
  have "fle (Fin 30) s \<and> fle s (lastOffset (Fin d))" if s: "s \<in> set (sampleOffsets (Fin d) intro outro)" for s
  proof -
    from s assms(1) obtain x where "s = sampleAt (Fin d) intro outro x"
      "x \<in> {Fin (1 / 4), Fin (1 / 2), Fin (3 / 4), fin (35 / 100), fin (60 / 100), fin (85 / 100)}"
      unfolding sampleOffsets_def by auto
    with fracs sampleAt_bounds [OF assms] show ?thesis by blast
  qed
  then show ?thesis by simp
qed

theorem fragments_inside_episode_witness:
  "\<forall>s\<in>set (sampleOffsets (Fin 1420) (Some (0, 90)) (Some (1300, 1390))). fle (Fin 30) s \<and> fle s (lastOffset (Fin 1420))"
  using fragments_inside_episode [of 1420 "Some (0, 90)" "Some (1300, 1390)"] representable_of_int [of 1420] by simp

section \<open>Verdicts that do not last\<close>

text \<open>
  C39. A unit that is served by the fallback episode never settles: when the latest episode is missing
  and the probe falls back to episode 1, the verdict is stored under episode 1, and since the queue asks
  for the latest episode the unit is due again at every later instant, whatever the outcome was: neither
  the reprobe interval of a verified unit nor the backoff of a dead one applies to it.
\<close>

theorem fallback_episode_never_settles:
  assumes "1 < unEpisode u" "peTempDir (teProbe te)" "resolveStream (teProbe te) u = Inr (st, 1)"
  shows "\<exists>v d'. tickUnit te u (clean d) = (Inr (), clean d') \<and>
    v \<in> set (stored (unAnime u) (unProvider u) (cvRows d')) \<and> uvKey v = unKey u \<and> uvProbedAt v = teProbeAt te \<and>
    (\<forall>later ttl. UnitDue u (Some v) later ttl)"
proof -
  define n where "n = (case List.find (isRow (unAnime u) (unProvider u)) (cvRows d) of
      Some row \<Rightarrow> (case List.find (\<lambda>v. keyString (uvKey v) = keyString (unKey u)) (vfUnits row) of Some v \<Rightarrow> uvFails v | None \<Rightarrow> 0)
    | None \<Rightarrow> 0)"
  define v where "v = (Probe (teProbeAt te) (teProbe te) u n)\<lparr>uvEpisodes := unEpisodes u\<rparr>"
  have settled: "settled_verdict (teProbe te) ((newUnitVerdict u (teProbeAt te))\<lparr>uvEpisode := 1, uvSoftsubs := csTracks st\<rparr>) n
      (Probe (teProbeAt te) (teProbe te) u n)"
    by (cases rule: Probe_cases [of "teProbe te" u "teProbeAt te" n]) (use assms(2,3) in simp_all)
  have p: "uvKey v = unKey u" "uvProbedAt v = teProbeAt te" "uvEpisode v = 1"
    "uvStatus (Probe (teProbeAt te) (teProbe te) u n) \<noteq> StatusDeferred"
    using settled status_distinct unfolding v_def settled_verdict_def by (auto simp: newUnitVerdict_def)
  have fails: "twp (unitPrevFails u) (\<lambda>k d'. k = n \<and> d' = d) d"
    unfolding unitPrevFails_def store_Get_def by (auto intro!: wp_rules simp: n_def split: option.splits)
  have save: "twp (UpsertUnit (teSavedAt te) (unAnime u) (unProvider u) v)
      (\<lambda>_ d'. v \<in> set (stored (unAnime u) (unProvider u) (cvRows d'))) d"
    unfolding UpsertUnit_def store_Get_def
    by (rule twp_bnd, rule twp_query, rule twp_saveRow [OF refl])
  have "twp (tickUnit te u) (\<lambda>_ d'. v \<in> set (stored (unAnime u) (unProvider u) (cvRows d'))) d"
    unfolding tickUnit_def Let_def
    by (rule twp_bnd, rule twp_mono [OF fails]) (auto simp: p persist_def v_def [symmetric] intro!: twp_logged twp_mono [OF save])
  then obtain d' where "tickUnit te u (clean d) = (Inr (), clean d')" "v \<in> set (stored (unAnime u) (unProvider u) (cvRows d'))"
    unfolding twp_def by auto
  then show ?thesis using p assms(1) by (auto simp: UnitDue_def)
qed

definition longRunner :: cv_unit where
  "longRunner = \<lparr>unAnime = ''a'', unProvider = ''animejoy-sibnet'', unKey = \<lparr>keyTeam = [], keyServer = ''animejoy-sibnet'', keyCategory = [], keyTrack = []\<rparr>,
     unEpisode = 12, unEpisodes = 12, unEpisodeID = [], unStateRank = 0, unBand = BandIdle\<rparr>"

text \<open>The leg has episode 1 only, and its file cannot be read.\<close>

definition onlyFirst :: probe_env where
  "onlyFirst = \<lparr>peTempDir = True,
     peStreams = \<lparr>caKodikStream = (\<lambda>_ _ _ _. Inl CatNotFound), caServers = (\<lambda>_ _ _ _. Inl CatNotFound),
       caScraperStream = (\<lambda>_ _ _ _ _ _. Inl CatNotFound),
       caAnimejoyStream = (\<lambda>_ _ _ ep. if ep = 1 then Inr \<lparr>csType = ''mp4'', csIntro = None, csOutro = None, csTracks = []\<rparr>
         else Inl CatNotFound)\<rparr>,
     peWaitCut = (\<lambda>_ _. False), peCut = (\<lambda>_ _. False), pePlaylist = None, peExtract = (\<lambda>_ _. False),
     peLID = (\<lambda>_. None), peHardsub = None, peBudgetOver = False\<rparr>"

theorem fallback_episode_never_settles_witness:
  "\<forall>w sk. \<exists>v d'. tickUnit \<lparr>teScore = Fin 0, teClaimAt = 5, teProbeAt = 5, teSavedAt = 6, teWorld = w, teProbe = onlyFirst, teSkip = sk\<rparr>
      longRunner (clean (NewEngine emptyTables)) = (Inr (), clean d') \<and>
    v \<in> set (stored ''a'' ''animejoy-sibnet'' (cvRows d')) \<and> (\<forall>later ttl. UnitDue longRunner (Some v) later ttl)"
proof (intro allI)
  fix w :: cv_world and sk :: skip_env
  have "resolveStream onlyFirst longRunner = Inr (\<lparr>csType = ''mp4'', csIntro = None, csOutro = None, csTracks = []\<rparr>, 1)"
    by (simp add: resolveStream_def attemptStream_def resolveAttempts_def numeral_3_eq_3 tryStream_def finalAnswer_def
        onlyFirst_def longRunner_def)
  then show "\<exists>v d'. tickUnit \<lparr>teScore = Fin 0, teClaimAt = 5, teProbeAt = 5, teSavedAt = 6, teWorld = w, teProbe = onlyFirst, teSkip = sk\<rparr>
      longRunner (clean (NewEngine emptyTables)) = (Inr (), clean d') \<and>
    v \<in> set (stored ''a'' ''animejoy-sibnet'' (cvRows d')) \<and> (\<forall>later ttl. UnitDue longRunner (Some v) later ttl)"
    using fallback_episode_never_settles [of longRunner "\<lparr>teScore = Fin 0, teClaimAt = 5, teProbeAt = 5, teSavedAt = 6, teWorld = w,
        teProbe = onlyFirst, teSkip = sk\<rparr>" "\<lparr>csType = ''mp4'', csIntro = None, csOutro = None, csTracks = []\<rparr>" "NewEngine emptyTables"]
    by (auto simp: longRunner_def onlyFirst_def)
qed

text \<open>
  C40. Two workers can lose a verdict, although the store is documented as having a single writer: two
  units of one provider and title may be leased at the same time as long as the limit of the provider
  allows two, and when both workers read the row before either writes it, both writes succeed and the
  verdict of the first one is gone from the row.
\<close>

theorem concurrent_verdict_lost:
  assumes "List.find (isRow a p) (cvRows d) = Some r" "keyString (uvKey v) \<noteq> keyString (uvKey w)" "v \<notin> set (vfUnits r)"
    "1 < cfProvLimit cf" "k1 \<noteq> k2"
  shows "(\<exists>e1 e2. takeLease (provLimitOf cf) p k1 (NewEngine db) = (True, e1) \<and> takeLease (provLimitOf cf) p k2 e1 = (True, e2)) \<and>
    (\<exists>d'. bnd (store_Get a p) (\<lambda>old1. bnd (store_Get a p) (\<lambda>old2.
        bnd (saveRow t1 a p v old1) (\<lambda>_. saveRow t2 a p w old2))) (clean d) = (Inr (), clean d') \<and>
      w \<in> set (stored a p (cvRows d')) \<and> v \<notin> set (stored a p (cvRows d')))"
proof
  show "\<exists>e1 e2. takeLease (provLimitOf cf) p k1 (NewEngine db) = (True, e1) \<and> takeLease (provLimitOf cf) p k2 e1 = (True, e2)"
    using assms(4,5) by (simp add: takeLease_def inflight_def provLimitOf_def)
  define r1 where "r1 = r\<lparr>vfUnits := mergeUnit v (vfUnits r), vfUpdatedAt := t1\<rparr>"
  define r2 where "r2 = r\<lparr>vfUnits := mergeUnit w (vfUnits r), vfUpdatedAt := t2\<rparr>"
  have row: "isRow a p r" using assms(1) by (metis find_Some_iff)
  then have rows: "isRow a p r1" "isRow a p r2" by (simp_all add: r1_def r2_def isRow_def)
  have f1: "List.find (isRow a p) (map (\<lambda>x. if isRow a p x then r1 else x) (cvRows d)) = Some r1"
    by (rule find_updated [OF assms(1) rows(1)])
  have f2: "List.find (isRow a p) (map (\<lambda>x. if isRow a p x then r2 else x) (map (\<lambda>x. if isRow a p x then r1 else x) (cvRows d))) = Some r2"
    by (rule find_updated [OF f1 rows(2)])
  let ?R1 = "map (\<lambda>x. if isRow a p x then r1 else x) (cvRows d)"
  have s1: "saveRow t1 a p v (Some r) (clean d) = (Inr (), clean (d\<lparr>cvRows := ?R1\<rparr>))"
    by (simp add: saveRow_def command_clean r1_def)
  have s2: "saveRow t2 a p w (Some r) (clean (d\<lparr>cvRows := ?R1\<rparr>)) =
      (Inr (), clean (d\<lparr>cvRows := map (\<lambda>x. if isRow a p x then r2 else x) ?R1\<rparr>))"
    unfolding saveRow_def r2_def option.case by (rule command_clean) simp
  have lost: "v \<notin> set (mergeUnit w (vfUnits r))" using assms(2,3) mergeUnit_other [of v w "vfUnits r"] by simp
  have "twp (bnd (store_Get a p) (\<lambda>old1. bnd (store_Get a p) (\<lambda>old2.
        bnd (saveRow t1 a p v old1) (\<lambda>_. saveRow t2 a p w old2))))
      (\<lambda>_ d'. w \<in> set (stored a p (cvRows d')) \<and> v \<notin> set (stored a p (cvRows d'))) d"
    unfolding store_Get_def
    by (rule twp_bnd, rule twp_query, rule twp_bnd, rule twp_query, unfold assms(1), rule twp_bnd, rule twpI, rule s1, rule twpI, rule s2)
      (use f2 in \<open>simp add: stored_def mergeUnit_mem lost r2_def\<close>)
  then show "\<exists>d'. bnd (store_Get a p) (\<lambda>old1. bnd (store_Get a p) (\<lambda>old2.
        bnd (saveRow t1 a p v old1) (\<lambda>_. saveRow t2 a p w old2))) (clean d) = (Inr (), clean d') \<and>
      w \<in> set (stored a p (cvRows d')) \<and> v \<notin> set (stored a p (cvRows d'))"
    unfolding twp_def by auto
qed

definition serverVerdict :: "string \<Rightarrow> unit_verdict" where
  "serverVerdict server = \<lparr>uvKey = \<lparr>keyTeam = [], keyServer = server, keyCategory = ''sub'', keyTrack = []\<rparr>, uvEpisode = 3,
     uvStatus = StatusInconclusive, uvAudio = None, uvHardsub = None, uvSoftsubs = [], uvRawAudio = False, uvEpisodes = 3,
     uvProbedAt = 9, uvSample = \<lparr>siFragments = 3, siSpeechSeconds = Fin 0\<rparr>, uvFails = 0, uvRetryAfter = 0\<rparr>"

definition oneRow :: cvdb where
  "oneRow = \<lparr>cvRows = [\<lparr>vfAnime = ''a'', vfProvider = ''miruro'', vfUnits = [serverVerdict ''1''], vfUpdatedAt = 0\<rparr>],
     cvSkips = [], cvPrints = []\<rparr>"

definition threeLeases :: cv_config where
  "threeLeases = \<lparr>cfReprobeTTL = 0, cfSkipEnabled = True, cfPins = [], cfWeights = (5, 3, 2), cfFreshWindow = 0,
     cfIdleCooldown = 0, cfIdleWindow = 0, cfProvLimit = 3\<rparr>"

theorem concurrent_verdict_lost_witness:
  "\<exists>d'. bnd (store_Get ''a'' ''miruro'') (\<lambda>old1. bnd (store_Get ''a'' ''miruro'') (\<lambda>old2.
        bnd (saveRow 1 ''a'' ''miruro'' (serverVerdict ''7'') old1) (\<lambda>_. saveRow 2 ''a'' ''miruro'' (serverVerdict ''8'') old2)))
      (clean oneRow) = (Inr (), clean d') \<and>
      serverVerdict ''8'' \<in> set (stored ''a'' ''miruro'' (cvRows d')) \<and> serverVerdict ''7'' \<notin> set (stored ''a'' ''miruro'' (cvRows d'))"
proof -
  have "List.find (isRow ''a'' ''miruro'') (cvRows oneRow) =
      Some \<lparr>vfAnime = ''a'', vfProvider = ''miruro'', vfUnits = [serverVerdict ''1''], vfUpdatedAt = 0\<rparr>"
    by (simp add: oneRow_def isRow_def)
  moreover have "keyString (uvKey (serverVerdict ''7'')) \<noteq> keyString (uvKey (serverVerdict ''8''))"
    by (simp add: keyString_parts keyParts_def serverVerdict_def)
  moreover have "serverVerdict ''7'' \<notin> set [serverVerdict ''1'']" by (simp add: serverVerdict_def)
  ultimately show ?thesis
    using concurrent_verdict_lost [of "''a''" "''miruro''" oneRow _ "serverVerdict ''7''" "serverVerdict ''8''" threeLeases
        "''x''" "''y''" emptyTables 1 2]
    by (simp add: threeLeases_def)
qed

section \<open>Admission\<close>

text \<open>
  C38. Pressure never admits more loops than the curve names: on a curve whose breakpoints ascend by at
  least 1/1024, with every operation rounded as binary64, the cap for any score whatever lies between
  the smallest and the largest cap of the curve, a score that is not a number gets the last cap, and so
  does the number of loops a tick admits stay below the largest one.
\<close>

theorem pressure_cap_bounds:
  assumes "curve_ok (wkCurve w)"
  shows "(\<exists>p\<in>set (wkCurve w). cpCap p \<le> Cap (wkOther w) (wkCurve w) score) \<and>
    (\<exists>q\<in>set (wkCurve w). Cap (wkOther w) (wkCurve w) score \<le> cpCap q \<and> effectiveCap w score pending \<le> cpCap q) \<and>
    Cap (wkOther w) (wkCurve w) NaN = cpCap (last (wkCurve w))"
proof -
  have "wkCurve w \<noteq> []" using assms by (simp add: curve_ok_def)
  then have "Cap (wkOther w) (wkCurve w) NaN = cpCap (last (wkCurve w))" by (rule Cap_NaN)
  moreover have "effectiveCap w score pending \<le> Cap (wkOther w) (wkCurve w) score" by (simp add: effectiveCap_def Let_def)
  ultimately show ?thesis using Cap_bounds [OF assms, of "wkOther w" score] order_trans by metis
qed

theorem pressure_cap_bounds_witness:
  "\<exists>q\<in>{\<lparr>cpScore = Fin (1 / 2), cpCap = 6\<rparr>, \<lparr>cpScore = Fin (3 / 4), cpCap = 0\<rparr>}.
     Cap (- 1) [\<lparr>cpScore = Fin (1 / 2), cpCap = 6\<rparr>, \<lparr>cpScore = Fin (3 / 4), cpCap = 0\<rparr>] (Fin (5 / 8)) \<le> cpCap q"
  using pressure_cap_bounds [of "\<lparr>wkCurve = [\<lparr>cpScore = Fin (1 / 2), cpCap = 6\<rparr>, \<lparr>cpScore = Fin (3 / 4), cpCap = 0\<rparr>],
      wkDemandPer = 50, wkOther = - 1\<rparr>" "Fin (5 / 8)" 100]
  by (auto simp: curve_ok_def point_ok_def apart_def)

end
