(* ===== verification/Spec2Isabelle.thy ===== *)
theory Spec2Isabelle
  imports Gacha_Safety WT_Drift WT_Limiter WT_Repo WT_Service Gov_Safety Access_Safety Maintenance_Safety
    CV_Safety
begin

text \<open>
  A verification of services of AnimeEnigma, a self-hosted anime platform written as a monorepo of Go
  services: the gacha service (\<^verbatim>\<open>services/gacha\<close>: a collectible-card game with a currency wallet), the
  watch-together service (\<^verbatim>\<open>services/watch-together\<close>: rooms in which several viewers play one episode in
  sync, over WebSockets, Redis and a process-local hub), the governor (\<^verbatim>\<open>services/governor\<close>: degradation
  levels from load metrics), the policy service (\<^verbatim>\<open>services/policy\<close>: feature flags and switches of
  background routines), the access control of the gateway (\<^verbatim>\<open>services/gateway\<close>) and the content
  verifier (\<^verbatim>\<open>services/content-verify\<close>: a queue of streams to probe, the probes and their verdicts).

  \<^bold>\<open>Common ground.\<close> \<^verbatim>\<open>Prelude\<close> has the errors of \<^verbatim>\<open>libs/errors\<close>, times, the range of 64-bit integers and
  generic lemmas. \<^verbatim>\<open>Fallible_Store\<close> is the language of all models: a program over a shared store
  whose every command may fail, following a script of faults. \<open>wp m Q E s\<close> holds when every run of
  \<open>m\<close> from \<open>s\<close>, under every script, ends in \<open>Q\<close> or, with an error, in \<open>E\<close>; \<open>twp m Q s\<close> is total
  correctness of the run in which no command fails, so it also says that \<open>m\<close> returns without error.
  A GORM transaction restores the data on an error or a panic, and its \<^verbatim>\<open>BEGIN\<close> and \<^verbatim>\<open>COMMIT\<close> may fail.

  \<^bold>\<open>Gacha.\<close> The store is the database, one table per component of the state.

  \<^item> \<^verbatim>\<open>Gacha_Data\<close>: \<^verbatim>\<open>internal/domain\<close>, the economy and its boot-time validation (\<^verbatim>\<open>internal/config\<close>), the
    tables with their unique keys;
  \<^item> \<^verbatim>\<open>Gacha_Wallet\<close>: \<^verbatim>\<open>repo/wallet.go\<close>, \<^verbatim>\<open>service/wallet.go\<close>, the internal credit endpoint;
  \<^item> \<^verbatim>\<open>Gacha_Roll\<close>: the pure part of \<^verbatim>\<open>service/pull.go\<close> (tier table, weighted roll, pity, floor of a pack);
    the random source is a function from the number of a draw and its bound to the draw;
  \<^item> \<^verbatim>\<open>Gacha_Content\<close>: cards, groups, banners (\<^verbatim>\<open>repo/card.go\<close>, \<^verbatim>\<open>repo/banner.go\<close>, \<^verbatim>\<open>service/content.go\<close>);
  \<^item> \<^verbatim>\<open>Gacha_Pull\<close>: the pull as one transaction (\<^verbatim>\<open>repo/pull.go\<close>, \<^verbatim>\<open>PullService.Pull\<close>);
  \<^item> \<^verbatim>\<open>Gacha_Views\<close>: what a player is shown;
  \<^item> \<^verbatim>\<open>Gacha_Safety\<close>: the service as a transition system over all requests, and its invariants.

  The lemmas show that balances are the sums of the ledger and never negative in every reachable
  database, that a pull is all or nothing and books exactly what it returns, the odds of a roll and
  the two guarantees (hard pity, one SR or better in ten), that credits and daily claims apply once,
  and one way in which the books break: the starter bonus ignores a ledger row that already exists.

  \<^bold>\<open>Watch-together.\<close> The state \<open>wt\<close> of a process extends Redis by the memory of each component. A
  lemma about an operation says which parts it changes (\<open>changesOnly\<close>).

  \<^item> \<^verbatim>\<open>WT_Domain\<close>: \<^verbatim>\<open>internal/domain\<close>: rooms, members, messages, envelopes;
  \<^item> \<^verbatim>\<open>WT_Redis\<close>, \<^verbatim>\<open>WT_Repo_Laws\<close>, \<^verbatim>\<open>WT_Repo\<close>: \<^verbatim>\<open>internal/repo\<close>: keys with expiry, hashes and lists,
    pipelines; typed views of the three keys of a room, and the laws of every operation; chat as a
    bounded log, members as a map, lifetime and isolation of rooms;
  \<^item> \<^verbatim>\<open>WT_State\<close>: the state, the parameters (\<open>deps\<close>), inbound payloads as parsed JSON;
  \<^item> \<^verbatim>\<open>WT_Drift\<close> (\<^verbatim>\<open>service/sync.go\<close>), \<^verbatim>\<open>WT_Cache\<close> (\<^verbatim>\<open>service/room_cache.go\<close>): the drift engine reads the
    room through the interface \<open>room_source\<close>; the repository provides it, and the cache turns one
    source into another (\<open>plain_source\<close>, \<open>sublocale\<close>);
  \<^item> \<^verbatim>\<open>WT_Limiter\<close> (\<^verbatim>\<open>service/ratelimit.go\<close>), \<^verbatim>\<open>WT_Catalog\<close> (\<^verbatim>\<open>service/catalog_client.go\<close>);
  \<^item> \<^verbatim>\<open>WT_Hub\<close>: \<^verbatim>\<open>internal/hub\<close>: the registry of connections, their buffers of 64 frames, fan-out; the
    interface \<open>hub_fanout\<close> is what the router, the grace manager and the REST handlers use;
  \<^item> \<^verbatim>\<open>WT_Inbound\<close>, \<^verbatim>\<open>WT_Router\<close>, \<^verbatim>\<open>WT_Dispatch\<close>: \<^verbatim>\<open>service/inbound.go\<close>: the ten handlers; an effect-free
    specification of which frame a message deserves (\<open>acceptedFrame\<close>) and of what it means that it was
    announced; the refinement, proved once over any hub with the laws of \<open>hub_fanout\<close>;
  \<^item> \<^verbatim>\<open>WT_Grace\<close>: \<^verbatim>\<open>service/grace.go\<close>, with the timers of the runtime as part of the state;
  \<^item> \<^verbatim>\<open>WT_Rooms\<close>: \<^verbatim>\<open>service/rooms.go\<close> and \<^verbatim>\<open>handler/rooms.go\<close>, with the claims of \<^verbatim>\<open>libs/authz\<close>;
  \<^item> \<^verbatim>\<open>WT_Session\<close>: \<^verbatim>\<open>handler/websocket.go\<close>: the upgrade in three steps, the teardown hook;
  \<^item> \<^verbatim>\<open>WT_Service\<close>: every operation in every order (\<open>serviceStep\<close>), and the invariant of all executions:
    registry, cache and stored rooms consistent, buffers bounded, the snapshot first on every wire,
    and the precondition of the router's contract met by every connection.

  \<^bold>\<open>Governor.\<close> Scores are binary64 values, so what is proved holds for the rounded arithmetic.

  \<^item> \<^verbatim>\<open>Go_Float\<close>, \<^verbatim>\<open>Go_Strconv\<close>: binary64 as rationals with rounding to nearest even and the special
    values; the conversions of \<^verbatim>\<open>strconv\<close> with their round trips;
  \<^item> \<^verbatim>\<open>Gov_Levels\<close>: \<^verbatim>\<open>service/smoother.go\<close>, \<^verbatim>\<open>service/quantizer.go\<close>: bounds, geometric decay up to the
    rounding error, and the band of scores each level stands for;
  \<^item> \<^verbatim>\<open>Gov_Prom\<close>: \<^verbatim>\<open>promquery/client.go\<close>: the verdict of a poll and the calibration of the egress
    score over any configuration (\<open>egress_config\<close>), interpreted on the defaults;
  \<^item> \<^verbatim>\<open>Gov_Tick\<close>: \<^verbatim>\<open>service/governor.go\<close>, \<^verbatim>\<open>repo/redis_store.go\<close>: one tick as a program whose Redis commands
    may fail, and its outcome for every pattern of faults;
  \<^item> \<^verbatim>\<open>Gov_Loop\<close>: the states that ticks, pins, expiry and restarts reach, and their invariant; runs of
    polls; \<^verbatim>\<open>Gov_Faults\<close>: a NaN alpha, the grace window;
  \<^item> \<^verbatim>\<open>Degradation_Watcher\<close>: \<^verbatim>\<open>libs/cache/degradation.go\<close>, the consumer side;
  \<^item> \<^verbatim>\<open>Gov_Safety\<close>: the properties, at the default configuration.

  \<^bold>\<open>Policy and gateway.\<close> Administrators write flags and switches into the policy service; the gateway
  polls the ruleset and decides from its copy, and background routines ask for their switch.

  \<^item> \<^verbatim>\<open>Keyed_Rows\<close>: tables with a unique key; what seeding at boot promises (\<open>seeded_table\<close>);
    \<^verbatim>\<open>Go_Strings\<close>: the functions of \<^verbatim>\<open>strings\<close> and \<^verbatim>\<open>net/textproto\<close> on byte strings; \<^verbatim>\<open>Authz\<close>: the
    claims of \<^verbatim>\<open>libs/authz\<close>;
  \<^item> \<^verbatim>\<open>Policy_Flags\<close> (\<^verbatim>\<open>domain/feature_flag.go\<close>, \<^verbatim>\<open>service/policy.go\<close> and their handlers),
    \<^verbatim>\<open>Policy_Maintenance\<close> (\<^verbatim>\<open>domain/maintenance.go\<close>, \<^verbatim>\<open>service/maintenance.go\<close>, \<^verbatim>\<open>libs/maintenancegate\<close>);
  \<^item> \<^verbatim>\<open>Gateway_Gate\<close>: \<^verbatim>\<open>transport/ruleset_cache.go\<close>, \<^verbatim>\<open>transport/feature_gate.go\<close>, the role and
    authentication middlewares of \<^verbatim>\<open>transport/router.go\<close>; \<^verbatim>\<open>Gateway_Keys\<close>: runs of requests over the
    cache of API keys (\<^verbatim>\<open>transport/apikey_cache.go\<close>);
  \<^item> \<^verbatim>\<open>Gateway_Forward\<close>: \<^verbatim>\<open>internal/service/proxy.go\<close>: what a forwarded request carries;
  \<^item> \<^verbatim>\<open>Access_Control\<close>: both services as one transition system (\<open>reachable_rbac\<close>) with the history of the
    flag table; \<^verbatim>\<open>Access_Safety\<close>, \<^verbatim>\<open>Maintenance_Safety\<close>: the properties. The gateway decides by one of
    the versions that the table has had, whatever fails; a forwarded request carries no identity that
    the client chose; two places where the fallback and the path rewrite do not do what they say.

  \<^bold>\<open>Content-verify.\<close> Workers claim units of work from a queue, probe them and store the verdict. The
  engine's memory, the signals in Redis and the tables are one state (\<open>cv\<close>); what the catalog and the
  media tools answer during an operation is a parameter (\<open>cv_world\<close>, \<open>skip_env\<close>, \<open>probe_env\<close>).

  \<^item> \<^verbatim>\<open>CV_Domain\<close>, \<^verbatim>\<open>CV_Store\<close>: \<^verbatim>\<open>internal/domain\<close>, \<^verbatim>\<open>internal/repo\<close>: verdicts, their summary, the tables;
  \<^item> \<^verbatim>\<open>Go_Sort\<close>, \<^verbatim>\<open>CV_Queue\<close>: \<^verbatim>\<open>sort.SliceStable\<close> over a weak order (\<open>weak_order\<close>, interpreted on the order of a
    band); \<^verbatim>\<open>queue/queue.go\<close>;
  \<^item> \<^verbatim>\<open>CV_Plan\<close> (\<^verbatim>\<open>queue/skipplan.go\<close>, \<^verbatim>\<open>queue/aniskipgate.go\<close>), \<^verbatim>\<open>CV_Skip_Prober\<close> (\<^verbatim>\<open>prober/skipprobe.go\<close>),
    \<^verbatim>\<open>CV_Lane\<close>: the lane that finds openings and endings, and the measure that each of its tasks lowers;
  \<^item> \<^verbatim>\<open>CV_Engine\<close> (\<^verbatim>\<open>queue/engine.go\<close>, \<^verbatim>\<open>queue/enumerate.go\<close>, \<^verbatim>\<open>queue/availability.go\<close>,
    \<^verbatim>\<open>signals/signals.go\<close>), \<^verbatim>\<open>CV_Claim\<close>, \<^verbatim>\<open>CV_Claim_Safe\<close>: leases under every interleaving, and what a claim
    may hand out;
  \<^item> \<^verbatim>\<open>CV_Prober\<close> (\<^verbatim>\<open>prober/prober.go\<close>, \<^verbatim>\<open>prober/assemble.go\<close>), \<^verbatim>\<open>CV_Worker\<close> (\<^verbatim>\<open>service/worker.go\<close>,
    \<^verbatim>\<open>service/curve.go\<close>): the verdict of a unit, the pressure curve, one tick of a worker;
  \<^item> \<^verbatim>\<open>CV_Safety\<close>: the properties, and two ways in which a verdict does not last: stored under the
    fallback episode it never settles its unit, and two workers may overwrite each other's row.

  \<^bold>\<open>Atomicity.\<close> A handler of the watch-together service runs as one step of \<open>serviceStep\<close>, although the
  code holds no lock across its commands. Where an interleaving matters the model splits the
  operation and shows the consequence as a theorem: a cached read with a write in between, two
  upgrades at the capacity check, two workers between the read and the write of a row, a connection
  that drops before its hooks are installed, a timer's callback that runs late, a message that arrives
  after its room was deleted. Each of these is a defect of the code that the statement exhibits on the
  model.

  \<^bold>\<open>Parameters and hypotheses.\<close> \<open>deps\<close> carries the configuration, the rounding of floating point (an
  arbitrary function unless a theorem states its error), the token bucket of \<^verbatim>\<open>golang.org/x/time/rate\<close>
  (its documented bound is a hypothesis where it is used, with an instance), the catalog's answers, and
  the text of decoding errors. Generated ids are arguments: fresh and without a colon where a
  theorem needs it. A token's verdict and the \<^verbatim>\<open>Origin\<close> check of an upgrade are arguments. Times are
  integers (nanoseconds in gacha, milliseconds in watch-together) and the clock stands still
  within an operation; \<^verbatim>\<open>int64\<close> values are integers, with the range a hypothesis or a conclusion where it
  matters. No model needs fuel: loops are structural recursions over lists
  and bounded counters, the loops of the backoff and of \<^verbatim>\<open>math.Pow\<close> have a measure, and the back-to-back
  loop of a worker on the skip lane is run for a given number of steps, with the proof that it has come
  to rest before twice the number of its unit keys.

  \<^bold>\<open>Not modelled.\<close> HTTP and WebSocket transport, JSON of outbound frames, metrics, logging, contexts and
  their deadlines, configuration parsing; object storage and the admin endpoints of gacha; and the
  other services of the repository (catalog, player, recommendations, scrapers, streaming, auth,
  library, upscaling and others), most of which are clients of external sites or mappings onto a
  database; of the gateway, the route table, link previews and status pages; of content-verify, the
  HTTP client, playlists and media tools. The next candidates are the ensemble of recs and the
  playlist rewriting of the streaming proxy.
\<close>

end
